(* ===== verification/Prelude.thy ===== *)
theory Prelude
  imports Main "HOL-Library.Word"
begin

text \<open>
  Shared vocabulary of the development: the machine types of the C sources, byte strings, the
  C library's \<open>memcmp\<close>, and the list and word lemmas that several components use.

  A C array of bytes is a \<open>byte list\<close>; its length is part of the value. Unsigned integers keep
  their width (\<open>u8\<close>, \<open>u16\<close>, \<open>u32\<close>, \<open>u64\<close> are words, so arithmetic wraps as in C). Sizes and
  array indices, which the code never lets wrap, are \<open>nat\<close>.

  Two fact collections carry the component proofs: \<open>len_simps\<close> holds the length equations of
  every operation that fills a buffer of fixed size, \<open>frame_simps\<close> the equations that say which
  record fields an operation leaves alone.
\<close>

unbundle bit_operations_syntax

type_synonym byte = "8 word"
type_synonym u16 = "16 word"
type_synonym u32 = "32 word"
type_synonym u64 = "64 word"
type_synonym bytes = "8 word list"

named_theorems len_simps \<open>lengths of computed byte strings\<close>
named_theorems frame_simps \<open>fields an operation does not change\<close>

section \<open>Byte strings\<close>

text \<open>The \<open>n\<close> bytes of a buffer starting at an offset.\<close>

definition bytes_at :: "nat \<Rightarrow> nat \<Rightarrow> 'a list \<Rightarrow> 'a list" where
  "bytes_at off n xs = take n (drop off xs)"

lemma length_bytes_at [len_simps]: "length (bytes_at off n xs) = min n (length xs - off)"
  by (simp add: bytes_at_def min.commute)

lemma bytes_at_append_left: "off + n \<le> length xs \<Longrightarrow> bytes_at off n (xs @ ys) = bytes_at off n xs"
  by (simp add: bytes_at_def)

lemma bytes_at_append_right:
  "length xs \<le> off \<Longrightarrow> bytes_at off n (xs @ ys) = bytes_at (off - length xs) n ys"
  by (simp add: bytes_at_def)

lemma bytes_at_0_length: "n = length xs \<Longrightarrow> bytes_at 0 n xs = xs"
  by (simp add: bytes_at_def)

lemma bytes_at_split:
  "m \<le> n \<Longrightarrow> bytes_at off n xs = bytes_at off m xs @ bytes_at (off + m) (n - m) xs"
  by (metis add.commute bytes_at_def drop_drop le_add_diff_inverse take_add)

text \<open>A copy of \<open>xs\<close> into a buffer at an offset (\<open>memcpy\<close>).\<close>

definition bytes_put :: "nat \<Rightarrow> 'a list \<Rightarrow> 'a list \<Rightarrow> 'a list" where
  "bytes_put off xs buf = take off buf @ xs @ drop (off + length xs) buf"

lemma length_bytes_put [simp, len_simps]:
  "off + length xs \<le> length buf \<Longrightarrow> length (bytes_put off xs buf) = length buf"
  by (simp add: bytes_put_def)

text \<open>The byte string of zeroes that \<open>memset\<close> and \<open>crypto_zero\<close> leave behind.\<close>

definition zeroes :: "nat \<Rightarrow> bytes" where
  "zeroes n = replicate n 0"

lemma length_zeroes [simp, len_simps]: "length (zeroes n) = n"
  by (simp add: zeroes_def)

text \<open>
  \<open>memcmp\<close> on two buffers of the same length: the sign of the first difference, bytes compared
  as unsigned values.
\<close>

fun memcmp :: "bytes \<Rightarrow> bytes \<Rightarrow> int" where
  "memcmp (x # xs) (y # ys) = (if x = y then memcmp xs ys else if x < y then -1 else 1)"
| "memcmp _ _ = 0"

lemma memcmp_self [simp]: "memcmp xs xs = 0"
  by (induction xs) auto

lemma memcmp_eq_0: "length xs = length ys \<Longrightarrow> memcmp xs ys = 0 \<longleftrightarrow> xs = ys"
  by (induction xs ys rule: memcmp.induct) auto

lemma memcmp_trans:
  assumes "length xs = length ys" "length ys = length zs" "memcmp xs ys < 0" "memcmp ys zs < 0"
  shows "memcmp xs zs < 0"
  using assms
proof (induction xs arbitrary: ys zs)
  case (Cons x xs)
  then obtain y ys' z zs' where [simp]: "ys = y # ys'" "zs = z # zs'"
    by (metis Suc_length_conv)
  have "x \<le> y" "y \<le> z" "x = y \<Longrightarrow> memcmp xs ys' < 0" "y = z \<Longrightarrow> memcmp ys' zs' < 0"
    using Cons.prems(3,4) by (auto split: if_splits)
  moreover have "memcmp xs ys' < 0 \<Longrightarrow> memcmp ys' zs' < 0 \<Longrightarrow> memcmp xs zs' < 0"
    using Cons.IH[of ys' zs'] Cons.prems(1,2) by simp
  ultimately show ?case by (auto simp: order.order_iff_strict)
qed simp

lemma memcmp_antisym: "length xs = length ys \<Longrightarrow> memcmp xs ys = - memcmp ys xs"
proof (induction xs ys rule: memcmp.induct)
  case (1 x xs y ys)
  then show ?case by (cases x y rule: linorder_cases) auto
qed auto

lemma memcmp_append:
  "length xs = length ys \<Longrightarrow>
   memcmp (xs @ us) (ys @ vs) = (if xs = ys then memcmp us vs else memcmp xs ys)"
  by (induction xs ys rule: memcmp.induct) auto

section \<open>Searching an array\<close>

text \<open>
  The code's \<open>for\<close> loops over a fixed array that stop at the first match: the index of the
  first element that satisfies a predicate.
\<close>

fun find_index :: "('a \<Rightarrow> bool) \<Rightarrow> 'a list \<Rightarrow> nat option" where
  "find_index P [] = None"
| "find_index P (x # xs) = (if P x then Some 0 else map_option Suc (find_index P xs))"

lemma find_index_None: "find_index P xs = None \<longleftrightarrow> (\<forall>x \<in> set xs. \<not> P x)"
  by (induction xs) auto

lemma find_index_Some:
  "find_index P xs = Some i \<longleftrightarrow> i < length xs \<and> P (xs ! i) \<and> (\<forall>j < i. \<not> P (xs ! j))"
proof (induction xs arbitrary: i)
  case (Cons x xs)
  show ?case
  proof (cases i)
    case 0
    then show ?thesis by auto
  next
    case (Suc k)
    with Cons.IH[of k] show ?thesis
      by (auto simp: less_Suc_eq_0_disj)
  qed
qed simp

lemma find_index_SomeD:
  assumes "find_index P xs = Some i"
  shows "i < length xs" "P (xs ! i)"
  using assms by (auto simp: find_index_Some)

lemma find_index_update_other:
  assumes "find_index P xs = Some i" "P y = P (xs ! k)"
  shows "find_index P (xs[k := y]) = Some i"
  using assms by (cases "k < length xs") (auto simp: find_index_Some nth_list_update list_update_beyond)

lemma find_index_cong:
  assumes "length ys = length xs" "\<And>i. i < length xs \<Longrightarrow> Q (ys ! i) = P (xs ! i)"
  shows "find_index Q ys = find_index P xs"
proof (cases "find_index P xs")
  case None
  then have "find_index Q ys = None"
    using assms by (fastforce simp: find_index_None in_set_conv_nth)
  then show ?thesis using None by simp
next
  case (Some i)
  then have "find_index Q ys = Some i" using assms by (auto simp: find_index_Some)
  then show ?thesis using Some by simp
qed

section \<open>Words\<close>

lemma word_Suc_no_wrap:
  fixes x :: "'a::len word"
  assumes "x + 1 \<noteq> 0"
  shows "unat (x + 1) = unat x + 1"
  using assms by (simp add: unatSuc add.commute)

end
