(* ===== verification/Base64.thy ===== *)
theory Base64
  imports Prelude
begin

text \<open>
  The base64 codec of \<open>wireguard.c\<close> that the configuration uses for keys. A C string is a
  \<open>string\<close> without its terminating NUL. The decoder's state is the tuple of the C locals; the
  output buffer is the list of bytes written so far, so writing past the capacity \<open>*outlen\<close>
  shows up as a list longer than the capacity.
\<close>

definition base64_lookup :: string where
  "base64_lookup = ''ABCDEFGHIJKLMNOPQRSTUVWXYZabcdefghijklmnopqrstuvwxyz0123456789+/''"

section \<open>Decoding\<close>

text \<open>\<open>strchr(base64_lookup, c)\<close> as an index.\<close>

definition base64_index :: "char \<Rightarrow> nat option" where
  "base64_index c = find_index (\<lambda>x. x = c) base64_lookup"

record b64_state =
  b64_accum :: u32
  b64_char_count :: nat
  b64_byte_count :: int
  b64_out :: bytes

text \<open>
  One iteration of the decoding loop; \<open>None\<close> for the iterations that set \<open>result = false\<close> and
  break, which keep the state the breaking iteration has reached.
\<close>

definition b64_step :: "nat \<Rightarrow> b64_state \<Rightarrow> char \<Rightarrow> bool \<times> b64_state" where
  "b64_step outlen st c =
     (let pad = (c = CHR ''='');
          byte_count = (if pad then b64_byte_count st - 1 else b64_byte_count st);
          st = st\<lparr>b64_byte_count := byte_count\<rparr>
      in if pad \<and> byte_count < 0 then (False, st)
         else if \<not> pad \<and> byte_count \<noteq> 3 then (False, st)
         else if \<not> pad \<and> base64_index c = None then (False, st)
         else
           (let bits = (if pad then 0 else of_nat (the (base64_index c)) AND 0x3F) :: u32;
                accum = push_bit 6 (b64_accum st) OR bits;
                char_count = b64_char_count st + 1;
                st = st\<lparr>b64_accum := accum, b64_char_count := char_count\<rparr>;
                len = length (b64_out st)
            in if char_count = 4
               then if int len + byte_count > int outlen then (False, st)
                    else (True, st\<lparr>b64_out := b64_out st @ [ucast (drop_bit 16 accum)]
                             @ (if byte_count > 1 then [ucast (drop_bit 8 accum)] else [])
                             @ (if byte_count > 2 then [ucast accum] else []),
                           b64_char_count := 0, b64_accum := 0\<rparr>)
               else (True, st)))"

fun b64_loop :: "nat \<Rightarrow> b64_state \<Rightarrow> string \<Rightarrow> bool \<times> b64_state" where
  "b64_loop outlen st [] = (True, st)"
| "b64_loop outlen st (c # cs) =
     (case b64_step outlen st c of
        (True, st') \<Rightarrow> b64_loop outlen st' cs
      | (False, st') \<Rightarrow> (False, st'))"

definition b64_start :: b64_state where
  "b64_start = \<lparr>b64_accum = 0, b64_char_count = 0, b64_byte_count = 3, b64_out = []\<rparr>"

text \<open>
  \<open>wireguard_base64_decode(str, out, &outlen)\<close>: the result flag and the bytes written; the new
  \<open>*outlen\<close> is the number of bytes written. A null \<open>str\<close> is \<open>None\<close>.
\<close>

definition wireguard_base64_decode :: "string option \<Rightarrow> nat \<Rightarrow> bool \<times> bytes" where
  "wireguard_base64_decode str outlen =
     (case str of
        None \<Rightarrow> (False, [])
      | Some s \<Rightarrow>
          (case b64_loop outlen b64_start s of
             (ok, st) \<Rightarrow> (if b64_char_count st \<noteq> 0 then False else ok, b64_out st)))"

section \<open>Encoding\<close>

definition b64_char :: "u32 \<Rightarrow> nat \<Rightarrow> char" where
  "b64_char tmp shift = base64_lookup ! unat (drop_bit shift tmp AND 0x3F)"

text \<open>
  The encoding loop. Three bytes are read, with 0 for the ones past the end; of the four
  characters the last two are \<open>'='\<close> when their position is at or past \<open>len - padding\<close>.
\<close>

function b64_encode_loop :: "nat \<Rightarrow> nat \<Rightarrow> bytes \<Rightarrow> string \<Rightarrow> string" where
  "b64_encode_loop len padding inp out =
     (if inp = [] then out
      else
        (let byte1 = ucast (inp ! 0) :: u32;
             byte2 = (if 1 < length inp then ucast (inp ! 1) else 0) :: u32;
             byte3 = (if 2 < length inp then ucast (inp ! 2) else 0) :: u32;
             tmp = push_bit 16 byte1 OR push_bit 8 byte2 OR byte3;
             w = length out;
             c2 = (if w + 2 < len - padding then b64_char tmp 6 else CHR ''='');
             c3 = (if w + 3 < len - padding then b64_char tmp 0 else CHR ''='')
         in b64_encode_loop len padding (drop 3 inp)
              (out @ [b64_char tmp 18, b64_char tmp 12, c2, c3])))"
  by pat_completeness auto
termination
  by (relation "measure (\<lambda>(len, padding, inp, out). length inp)") auto

declare b64_encode_loop.simps [simp del]

text \<open>
  \<open>wireguard_base64_encode(in, inlen, out, &outlen)\<close>; \<open>None\<close> is the result false (no room for the
  text and its NUL).
\<close>

definition wireguard_base64_encode :: "bytes \<Rightarrow> nat \<Rightarrow> string option" where
  "wireguard_base64_encode inp outlen =
     (let inlen = length inp;
          len = 4 * ((inlen + 2) div 3);
          padding0 = 3 - inlen mod 3;
          padding = (if padding0 > 2 then 0 else padding0)
      in if outlen > len then Some (b64_encode_loop len padding inp []) else None)"

section \<open>Round trip\<close>

lemma base64_index_lookup: "i < 64 \<Longrightarrow> base64_index (base64_lookup ! i) = Some i"
proof -
  have len: "length base64_lookup = 64"
    by (simp add: base64_lookup_def)
  have all: "map base64_index base64_lookup = map Some [0..<64]"
    by code_simp
  assume "i < 64"
  with all len show ?thesis
    by (metis (no_types, lifting) length_map length_upt nth_map nth_upt add_0 diff_zero)
qed

lemma base64_lookup_no_pad: "i < 64 \<Longrightarrow> base64_lookup ! i \<noteq> CHR ''=''"
proof
  assume "i < 64" "base64_lookup ! i = CHR ''=''"
  then have "base64_index (CHR ''='') = Some i"
    using base64_index_lookup by metis
  moreover have "base64_index (CHR ''='') = None"
    by code_simp
  ultimately show False by simp
qed

definition sextet :: "u32 \<Rightarrow> nat \<Rightarrow> u32" where
  "sextet t k = drop_bit k t AND 0x3F"

lemma sextet_mask: "sextet t k = take_bit 6 (drop_bit k t)"
proof -
  have "(0x3F :: u32) = mask 6"
    by (simp add: mask_eq_exp_minus_1)
  then show ?thesis
    by (simp only: sextet_def take_bit_eq_mask)
qed

lemma bit_sextet: "bit (sextet t k) n \<longleftrightarrow> n < 6 \<and> bit t (k + n)"
  unfolding sextet_mask by (auto simp: bit_simps dest: bit_imp_le_length)

lemma unat_sextet: "unat (sextet t k) < 64"
  unfolding sextet_mask unsigned_take_bit_eq by (simp add: take_bit_eq_mod)

lemma sextet_and_63 [simp]: "sextet t k AND 0x3F = sextet t k"
  by (simp add: sextet_def and.assoc)

text \<open>Reading one character that encodes a sextet.\<close>

lemma b64_step_char:
  assumes "b64_byte_count st = 3" "b64_char_count st < 3"
  shows "b64_step outlen st (b64_char t k) =
    (True, st\<lparr>b64_accum := push_bit 6 (b64_accum st) OR sextet t k,
             b64_char_count := b64_char_count st + 1\<rparr>)"
  using assms base64_index_lookup[OF unat_sextet, of t k] base64_lookup_no_pad[OF unat_sextet, of t k]
  by (cases st) (simp add: b64_step_def b64_char_def Let_def sextet_def[symmetric])

lemma b64_step_last_char:
  assumes "b64_byte_count st = 3" "b64_char_count st = 3" "length (b64_out st) + 3 \<le> outlen"
  shows "b64_step outlen st (b64_char t k) =
    (let accum = push_bit 6 (b64_accum st) OR sextet t k
     in (True, st\<lparr>b64_out := b64_out st @ [ucast (drop_bit 16 accum), ucast (drop_bit 8 accum), ucast accum],
                  b64_char_count := 0, b64_accum := 0\<rparr>))"
  using assms base64_index_lookup[OF unat_sextet, of t k] base64_lookup_no_pad[OF unat_sextet, of t k]
  by (cases st) (simp add: b64_step_def b64_char_def Let_def sextet_def[symmetric])

definition pack3 :: "byte \<Rightarrow> byte \<Rightarrow> byte \<Rightarrow> u32" where
  "pack3 a b c = push_bit 16 (ucast a) OR push_bit 8 (ucast b) OR ucast c"

lemma bit_pack3:
  "bit (pack3 a b c) n \<longleftrightarrow>
     (n < 8 \<and> bit c n) \<or> (8 \<le> n \<and> n < 16 \<and> bit b (n - 8)) \<or> (16 \<le> n \<and> n < 24 \<and> bit a (n - 16))"
  by (auto simp: pack3_def bit_simps dest: bit_imp_le_length)

lemma sextets_pack3:
  "push_bit 6 (push_bit 6 (push_bit 6 (sextet t 18) OR sextet t 12) OR sextet t 6) OR sextet t 0
   = take_bit 24 t"
proof (rule bit_word_eqI)
  fix n assume "n < LENGTH(32)"
  then consider "n < 6" | "6 \<le> n" "n < 12" | "12 \<le> n" "n < 18" | "18 \<le> n" "n < 24" | "24 \<le> n" "n < 32"
    by fastforce
  then show "bit (push_bit 6 (push_bit 6 (push_bit 6 (sextet t 18) OR sextet t 12) OR sextet t 6)
      OR sextet t 0) n = bit (take_bit 24 t) n"
    by cases (auto simp: bit_simps bit_sextet)
qed

lemma pack3_bytes:
  "ucast (drop_bit 16 (take_bit 24 (pack3 a b c))) = a"
  "ucast (drop_bit 8 (take_bit 24 (pack3 a b c))) = b"
  "ucast (take_bit 24 (pack3 a b c)) = c"
  by (auto intro!: bit_word_eqI simp: bit_simps bit_pack3)

lemma sextet_pack3_zero:
  "sextet (pack3 a b 0) 0 = 0" "sextet (pack3 a 0 0) 6 = 0"
  by (auto intro!: bit_word_eqI simp: bit_sextet bit_pack3)

text \<open>The encoder as a function on groups of three bytes.\<close>

fun enc_groups :: "bytes \<Rightarrow> string" where
  "enc_groups [] = []"
| "enc_groups [a] = [b64_char (pack3 a 0 0) 18, b64_char (pack3 a 0 0) 12, CHR ''='', CHR ''='']"
| "enc_groups [a, b] = [b64_char (pack3 a b 0) 18, b64_char (pack3 a b 0) 12,
                        b64_char (pack3 a b 0) 6, CHR ''='']"
| "enc_groups (a # b # c # r) =
     [b64_char (pack3 a b c) 18, b64_char (pack3 a b c) 12,
      b64_char (pack3 a b c) 6, b64_char (pack3 a b c) 0] @ enc_groups r"

lemma Suc_div_3: "(5 + n) div 3 = Suc (Suc (Suc n) div 3)"
  by presburger

lemma length_enc_groups: "length (enc_groups inp) = 4 * ((length inp + 2) div 3)"
  by (induction inp rule: enc_groups.induct) (auto simp: Suc_div_3)

definition b64_padding :: "nat \<Rightarrow> nat" where
  "b64_padding n = (if 3 - n mod 3 > 2 then 0 else 3 - n mod 3)"

lemma b64_encode_loop_groups:
  "len = length out + 4 * ((length inp + 2) div 3) \<Longrightarrow>
   b64_encode_loop len (b64_padding (length inp)) inp out = out @ enc_groups inp"
proof (induction inp arbitrary: out rule: enc_groups.induct)
  case 1
  then show ?case by (simp add: b64_encode_loop.simps)
next
  case (2 a)
  then show ?case
    by (simp add: b64_encode_loop.simps b64_padding_def Let_def pack3_def)
next
  case (3 a b)
  then show ?case
    by (simp add: b64_encode_loop.simps b64_padding_def Let_def pack3_def)
next
  case (4 a b c r)
  have pad: "b64_padding (Suc (Suc (Suc n))) = b64_padding n" for n
    by (simp add: b64_padding_def)
  have room: "length out + 4 \<le> len - b64_padding (length r)"
    using 4(2) by (auto simp: b64_padding_def)
  show ?case
    using 4 room
    by (subst b64_encode_loop.simps) (auto simp: Let_def pack3_def pad Suc_div_3)
qed

lemma wireguard_base64_encode_groups:
  "wireguard_base64_encode inp outlen =
     (if 4 * ((length inp + 2) div 3) < outlen then Some (enc_groups inp) else None)"
  using b64_encode_loop_groups[of "4 * ((length inp + 2) div 3)" "[]" inp]
  by (simp add: wireguard_base64_encode_def b64_padding_def Let_def)

definition b64_group_start :: "bytes \<Rightarrow> b64_state" where
  "b64_group_start out = \<lparr>b64_accum = 0, b64_char_count = 0, b64_byte_count = 3, b64_out = out\<rparr>"

lemma b64_loop_enc_groups:
  assumes "length out + length inp \<le> outlen"
  shows "\<exists>bc. b64_loop outlen (b64_group_start out) (enc_groups inp) =
    (True, \<lparr>b64_accum = 0, b64_char_count = 0, b64_byte_count = bc, b64_out = out @ inp\<rparr>)"
  using assms
proof (induction inp arbitrary: out rule: enc_groups.induct)
  case 1
  then show ?case by (simp add: b64_group_start_def)
next
  case (2 a)
  let ?t = "pack3 a 0 0"
  have "push_bit 6 (push_bit 6 (push_bit 6 (sextet ?t 18) OR sextet ?t 12)) = take_bit 24 ?t"
    using sextets_pack3[of ?t] by (simp add: sextet_pack3_zero)
  with 2 show ?case
    by (simp add: b64_step_char b64_group_start_def)
      (simp add: b64_step_def Let_def pack3_bytes)
next
  case (3 a b)
  let ?t = "pack3 a b 0"
  have "push_bit 6 (push_bit 6 (push_bit 6 (sextet ?t 18) OR sextet ?t 12) OR sextet ?t 6)
      = take_bit 24 ?t"
    using sextets_pack3[of ?t] by (simp add: sextet_pack3_zero)
  with 3 show ?case
    by (simp add: b64_step_char b64_group_start_def)
      (simp add: b64_step_def Let_def pack3_bytes)
next
  case (4 a b c r)
  let ?t = "pack3 a b c"
  have step: "b64_loop outlen (b64_group_start out) (enc_groups (a # b # c # r)) =
      b64_loop outlen (b64_group_start (out @ [a, b, c])) (enc_groups r)"
    using 4(2) sextets_pack3[of ?t]
    by (simp add: b64_step_char b64_step_last_char b64_group_start_def Let_def pack3_bytes)
  then show ?case
    using "4.IH"[of "out @ [a, b, c]"] "4.prems" by (simp del: enc_groups.simps)
qed

text \<open>
  Decoding an encoded byte string gives the byte string back, for every length and every
  output capacity that holds it.
\<close>

lemma base64_roundtrip:
  assumes "wireguard_base64_encode inp outlen = Some s" "length inp \<le> cap"
  shows "wireguard_base64_decode (Some s) cap = (True, inp)"
proof -
  have s: "s = enc_groups inp"
    using assms(1) by (simp add: wireguard_base64_encode_groups split: if_splits)
  obtain bc where "b64_loop cap b64_start s =
      (True, \<lparr>b64_accum = 0, b64_char_count = 0, b64_byte_count = bc, b64_out = inp\<rparr>)"
    using b64_loop_enc_groups[of "[]" inp cap] assms(2)
    by (auto simp: s b64_start_def b64_group_start_def)
  then show ?thesis
    by (simp add: wireguard_base64_decode_def)
qed

lemma base64_roundtrip_witness:
  "wireguard_base64_decode (Some ''AQID/w=='') 4 = (True, [1, 2, 3, 255])"
  by (rule base64_roundtrip[where outlen = 9]) code_simp+

section \<open>What the decoder writes\<close>

text \<open>
  The invariant of the decoding loop after \<open>k\<close> characters: the text read so far determines how
  many bytes have been written, and padding seen in an earlier group leaves no room for another
  complete group.
\<close>

definition b64_inv :: "nat \<Rightarrow> nat \<Rightarrow> b64_state \<Rightarrow> bool" where
  "b64_inv outlen k st \<longleftrightarrow>
     length (b64_out st) \<le> outlen \<and> 0 \<le> b64_byte_count st \<and> b64_byte_count st \<le> 3 \<and>
     b64_char_count st \<le> 3 \<and>
     (b64_byte_count st + int (b64_char_count st) \<ge> 3 \<longrightarrow> length (b64_out st) mod 3 = 0) \<and>
     k = 4 * ((length (b64_out st) + 2) div 3) + b64_char_count st"

lemma b64_inv_step:
  assumes inv: "b64_inv outlen k st" and cap: "outlen mod 3 \<noteq> 0"
  shows "case b64_step outlen st c of
    (True, st') \<Rightarrow> b64_inv outlen (Suc k) st' | (False, st') \<Rightarrow> length (b64_out st') \<le> outlen"
proof -
  obtain accum cc bc out where st: "st = \<lparr>b64_accum = accum, b64_char_count = cc,
      b64_byte_count = bc, b64_out = out\<rparr>"
    by (cases st)
  show ?thesis
  proof (cases "length out mod 3 = 0")
    case True
    then obtain g where g: "length out = 3 * g" by (metis mod_0_imp_dvd dvdE)
    then show ?thesis
      using inv cap unfolding st b64_inv_def b64_step_def
      by (auto simp: Let_def) presburger+
  next
    case False
    then show ?thesis
      using inv unfolding st b64_inv_def b64_step_def
      by (auto simp: Let_def)
  qed
qed

lemma b64_inv_loop:
  assumes "b64_inv outlen k st" "outlen mod 3 \<noteq> 0"
  shows "case b64_loop outlen st s of
    (True, st') \<Rightarrow> b64_inv outlen (k + length s) st' | (False, st') \<Rightarrow> length (b64_out st') \<le> outlen"
  using assms
proof (induction s arbitrary: k st)
  case (Cons c s)
  obtain ok st' where step: "b64_step outlen st c = (ok, st')"
    by (cases "b64_step outlen st c")
  show ?case
    using b64_inv_step[OF Cons.prems, of c] Cons.IH[of "Suc k" st'] Cons.prems(2)
    by (cases ok) (auto simp: step split: prod.splits bool.splits)
qed simp

lemma b64_inv_start: "b64_inv outlen 0 b64_start"
  by (simp add: b64_inv_def b64_start_def)

lemma base64_decode_fits:
  assumes "outlen mod 3 \<noteq> 0"
  shows "length (snd (wireguard_base64_decode str outlen)) \<le> outlen"
proof (cases str)
  case (Some s)
  show ?thesis
    using b64_inv_loop[OF b64_inv_start assms, of s]
    by (auto simp: Some wireguard_base64_decode_def b64_inv_def split: prod.splits bool.splits)
qed (simp add: wireguard_base64_decode_def)

lemma base64_decode_overflow:
  "wireguard_base64_decode (Some ''A==='') 0 = (True, [0]) \<and>
   wireguard_base64_decode (Some ''AQIDA==='') 3 = (True, [1, 2, 3, 0])"
  by (rule conjI) code_simp+

text \<open>
  C39. The decoder stays inside the caller's buffer whenever the capacity is not a multiple of
  three, as the 32 bytes of a key are, for every input string, accepted or not. For a capacity that is
  a multiple of three the bound fails: a last group with three padding characters passes the overflow
  check with \<open>byte_count = 0\<close>, and the decoder still stores one byte, one past the end of a full
  buffer, and reports success.
\<close>

theorem base64_decode_bounds:
  "(outlen mod 3 \<noteq> 0 \<longrightarrow> length (snd (wireguard_base64_decode str outlen)) \<le> outlen)
   \<and> wireguard_base64_decode (Some ''AQIDA==='') 3 = (True, [1, 2, 3, 0])"
  using base64_decode_fits base64_decode_overflow by blast

theorem base64_decode_bounds_witness:
  "length (snd (wireguard_base64_decode (Some ''AQID/w=='') 32)) \<le> 32"
  using base64_decode_bounds [of 32 "Some ''AQID/w==''"] by simp

text \<open>
  A string the decoder accepts has exactly the length of the encoding of what it decodes to; in
  particular every accepted 32-byte key is 44 characters long.
\<close>

lemma base64_decode_length:
  assumes "wireguard_base64_decode (Some s) outlen = (True, b)" "outlen mod 3 \<noteq> 0"
  shows "length s = 4 * ((length b + 2) div 3)"
  using assms b64_inv_loop[OF b64_inv_start assms(2), of s]
  by (auto simp: wireguard_base64_decode_def b64_inv_def split: prod.splits bool.splits if_splits)

end
