(* ===== verification/Crypto_Util.thy ===== *)
theory Crypto_Util
  imports Prelude
begin

text \<open>
  The helpers of \<open>crypto.c\<close> and \<open>crypto.h\<close>: wiping, constant-time comparison, and the
  little-endian and big-endian conversions between integers and bytes. The conversion macros are
  written shift by shift as in the header; the lemmas show that storing and loading are inverse
  to each other, and that the big-endian form is ordered by \<open>memcmp\<close> as the integers are.
\<close>

section \<open>crypto.c\<close>

text \<open>\<open>crypto_zero(dest, len)\<close> overwrites the buffer with zero bytes.\<close>

fun crypto_zero :: "bytes \<Rightarrow> bytes" where
  "crypto_zero [] = []"
| "crypto_zero (_ # p) = 0 # crypto_zero p"

lemma crypto_zero_zeroes [simp]: "crypto_zero b = zeroes (length b)"
  by (induction b) (auto simp: zeroes_def)

text \<open>
  \<open>crypto_equal\<close> accumulates the differences of all byte pairs with \<open>|=\<close> and never leaves the
  loop early.
\<close>

fun crypto_neq :: "byte \<Rightarrow> bytes \<Rightarrow> bytes \<Rightarrow> byte" where
  "crypto_neq neq (x # a) (y # b) = crypto_neq (neq OR (x XOR y)) a b"
| "crypto_neq neq _ _ = neq"

definition crypto_equal :: "bytes \<Rightarrow> bytes \<Rightarrow> bool" where
  "crypto_equal a b = (if crypto_neq 0 a b \<noteq> 0 then False else True)"

lemma word_or_eq_0: "(x :: 'a::len word) OR y = 0 \<longleftrightarrow> x = 0 \<and> y = 0"
  by (fact or_eq_0_iff)

lemma word_xor_eq_0: "(x :: 'a::len word) XOR y = 0 \<longleftrightarrow> x = y"
  by (metis bit.xor_cancel_left bit.xor_cancel_right bit.xor_left_self xor.right_neutral)

lemma crypto_neq_eq_0:
  "length a = length b \<Longrightarrow> crypto_neq n a b = 0 \<longleftrightarrow> n = 0 \<and> a = b"
  by (induction n a b rule: crypto_neq.induct) (auto simp: word_or_eq_0 word_xor_eq_0)

lemma crypto_equal_iff: "length a = length b \<Longrightarrow> crypto_equal a b \<longleftrightarrow> a = b"
  by (simp add: crypto_equal_def crypto_neq_eq_0)

lemma crypto_equal_refl [simp]: "crypto_equal a a"
  by (simp add: crypto_equal_iff)

section \<open>crypto.h: little-endian conversions\<close>

definition U8TO32_LITTLE :: "bytes \<Rightarrow> u32" where
  "U8TO32_LITTLE p =
     ucast (p ! 0) OR push_bit 8 (ucast (p ! 1)) OR push_bit 16 (ucast (p ! 2))
     OR push_bit 24 (ucast (p ! 3))"

definition U8TO64_LITTLE :: "bytes \<Rightarrow> u64" where
  "U8TO64_LITTLE p =
     ucast (p ! 0) OR push_bit 8 (ucast (p ! 1)) OR push_bit 16 (ucast (p ! 2))
     OR push_bit 24 (ucast (p ! 3)) OR push_bit 32 (ucast (p ! 4)) OR push_bit 40 (ucast (p ! 5))
     OR push_bit 48 (ucast (p ! 6)) OR push_bit 56 (ucast (p ! 7))"

definition U32TO8_LITTLE :: "u32 \<Rightarrow> bytes" where
  "U32TO8_LITTLE v =
     [ucast v, ucast (drop_bit 8 v), ucast (drop_bit 16 v), ucast (drop_bit 24 v)]"

definition U64TO8_LITTLE :: "u64 \<Rightarrow> bytes" where
  "U64TO8_LITTLE v =
     [ucast v, ucast (drop_bit 8 v), ucast (drop_bit 16 v), ucast (drop_bit 24 v),
      ucast (drop_bit 32 v), ucast (drop_bit 40 v), ucast (drop_bit 48 v), ucast (drop_bit 56 v)]"

lemma low_byte: "ucast (w AND 0xFF) = (ucast w :: byte)" for w :: u32
proof -
  have "w AND 0xFF = take_bit 8 w" by (simp add: take_bit_eq_mask mask_eq_exp_minus_1)
  then show ?thesis by (auto intro: bit_eqI simp: bit_simps)
qed

lemma length_U32TO8_LITTLE [simp, len_simps]: "length (U32TO8_LITTLE v) = 4"
  by (simp add: U32TO8_LITTLE_def)

lemma length_U64TO8_LITTLE [simp, len_simps]: "length (U64TO8_LITTLE v) = 8"
  by (simp add: U64TO8_LITTLE_def)

lemma bit_byte_of:
  "bit (push_bit k (ucast (ucast (drop_bit k v) :: byte)) :: 'a::len word) n \<longleftrightarrow>
   k \<le> n \<and> n < k + 8 \<and> n < LENGTH('a) \<and> bit v n"
  for v :: "'a::len word"
  by (auto simp: bit_simps)

lemma bit_byte_of_0:
  "bit (ucast (ucast v :: byte) :: 'a::len word) n \<longleftrightarrow> n < 8 \<and> n < LENGTH('a) \<and> bit v n"
  for v :: "'a::len word"
  by (auto simp: bit_simps)

lemma U8TO32_append [simp]: "4 \<le> length p \<Longrightarrow> U8TO32_LITTLE (p @ q) = U8TO32_LITTLE p"
  by (auto simp: U8TO32_LITTLE_def nth_append)

lemma U8TO64_append [simp]: "8 \<le> length p \<Longrightarrow> U8TO64_LITTLE (p @ q) = U8TO64_LITTLE p"
  by (auto simp: U8TO64_LITTLE_def nth_append)

lemma U8TO32_U32TO8 [simp]: "U8TO32_LITTLE (U32TO8_LITTLE v) = v"
proof (rule bit_word_eqI)
  fix n assume n: "n < LENGTH(32)"
  have "bit (U8TO32_LITTLE (U32TO8_LITTLE v)) n \<longleftrightarrow>
      (n < 8 \<or> 8 \<le> n \<and> n < 16 \<or> 16 \<le> n \<and> n < 24 \<or> 24 \<le> n \<and> n < 32) \<and> bit v n"
    unfolding U8TO32_LITTLE_def U32TO8_LITTLE_def
    by (auto simp: bit_or_iff bit_byte_of bit_byte_of_0)
  with n show "bit (U8TO32_LITTLE (U32TO8_LITTLE v)) n = bit v n" by auto
qed

lemma U8TO64_U64TO8 [simp]: "U8TO64_LITTLE (U64TO8_LITTLE v) = v"
proof (rule bit_word_eqI)
  fix n assume n: "n < LENGTH(64)"
  from n consider "n < 8" | "8 \<le> n" "n < 16" | "16 \<le> n" "n < 24" | "24 \<le> n" "n < 32"
    | "32 \<le> n" "n < 40" | "40 \<le> n" "n < 48" | "48 \<le> n" "n < 56" | "56 \<le> n" "n < 64"
    by fastforce
  then show "bit (U8TO64_LITTLE (U64TO8_LITTLE v)) n = bit v n"
    unfolding U8TO64_LITTLE_def U64TO8_LITTLE_def
    by cases (simp_all add: bit_or_iff bit_byte_of bit_byte_of_0)
qed

lemma length_4_cases:
  assumes "length b = 4"
  obtains x0 x1 x2 x3 where "b = [x0, x1, x2, x3]"
  using assms by (auto simp: length_Suc_conv numeral_eq_Suc)

lemma bit_byte_high [simp]: "8 \<le> m \<Longrightarrow> bit x (m + n) \<longleftrightarrow> False" for x :: byte
  by (auto dest: bit_imp_le_length)

lemma U32TO8_U8TO32:
  assumes "length b = 4"
  shows "U32TO8_LITTLE (U8TO32_LITTLE b) = b"
proof -
  obtain x0 x1 x2 x3 where b: "b = [x0, x1, x2, x3]"
    using assms by (rule length_4_cases)
  show ?thesis
    unfolding U8TO32_LITTLE_def U32TO8_LITTLE_def b
    by (auto intro!: bit_word_eqI simp: bit_simps)
qed

section \<open>Big-endian integers\<close>

text \<open>
  The loops of \<open>wireguard_tai64n_now\<close> store an integer most significant byte first. In that
  form \<open>memcmp\<close> orders buffers as the integers.
\<close>

fun be_bytes :: "nat \<Rightarrow> nat \<Rightarrow> bytes" where
  "be_bytes 0 v = []"
| "be_bytes (Suc n) v = of_nat (v div 256 ^ n) # be_bytes n v"

lemma length_be_bytes [simp, len_simps]: "length (be_bytes n v) = n"
  by (induction n) auto

lemma mixed_radix_less:
  fixes q r :: nat
  assumes "x < m" "y < m"
  shows "q * m + x < r * m + y \<longleftrightarrow> q < r \<or> q = r \<and> x < y"
proof (cases q r rule: linorder_cases)
  case less
  then have "q * m + m \<le> r * m"
    by (metis add.commute mult_Suc mult_le_mono1 Suc_leI)
  with assms less show ?thesis by linarith
next
  case greater
  then have "r * m + m \<le> q * m"
    by (metis add.commute mult_Suc mult_le_mono1 Suc_leI)
  with assms greater show ?thesis by linarith
qed auto

lemma memcmp_be_bytes:
  "memcmp (be_bytes n a) (be_bytes n b) < 0 \<longleftrightarrow> a mod 256 ^ n < b mod 256 ^ n"
proof (induction n)
  case (Suc n)
  let ?m = "256 ^ n :: nat"
  let ?q = "\<lambda>v. v div ?m mod 256"
  have decomp: "v mod 256 ^ Suc n = ?q v * ?m + v mod ?m" for v
    by (metis add.commute mod_mult2_eq mult.commute power_Suc)
  have byte: "unat (of_nat v :: byte) = v mod 256" for v
    by (simp add: unat_of_nat)
  have heads: "(of_nat (a div ?m) :: byte) = of_nat (b div ?m) \<longleftrightarrow> ?q a = ?q b"
    "(of_nat (a div ?m) :: byte) < of_nat (b div ?m) \<longleftrightarrow> ?q a < ?q b"
    by (simp_all add: word_less_nat_alt word_unat_eq_iff byte)
  have "memcmp (be_bytes (Suc n) a) (be_bytes (Suc n) b) < 0 \<longleftrightarrow>
      ?q a < ?q b \<or> ?q a = ?q b \<and> a mod ?m < b mod ?m"
    using Suc.IH heads by auto
  also have "\<dots> \<longleftrightarrow> ?q a * ?m + a mod ?m < ?q b * ?m + b mod ?m"
    by (rule mixed_radix_less[symmetric]) simp_all
  finally show ?case by (simp only: decomp)
qed simp

text \<open>The shift-and-truncate form the loops use is the same byte string.\<close>

definition be_word :: "nat \<Rightarrow> 'a::len word \<Rightarrow> bytes" where
  "be_word n v = map (\<lambda>i. ucast (drop_bit (8 * (n - 1 - i)) v)) [0..<n]"

lemma length_be_word [simp, len_simps]: "length (be_word n v) = n"
  by (simp add: be_word_def)

lemma ucast_drop_bit_byte: "(ucast (drop_bit (8 * k) v) :: byte) = of_nat (unat v div 256 ^ k)"
  for v :: "'a::len word"
proof -
  have "unat (drop_bit (8 * k) v) = unat v div 256 ^ k"
    unfolding unat_drop_bit_eq by (simp add: drop_bit_eq_div power_mult)
  then show ?thesis
    by (metis of_nat_unat)
qed

lemma be_bytes_nth: "i < n \<Longrightarrow> be_bytes n v ! i = of_nat (v div 256 ^ (n - 1 - i))"
  by (induction n arbitrary: i) (auto simp: nth_Cons split: nat.split)

lemma be_word_be_bytes: "be_word n v = be_bytes n (unat v)"
  by (rule nth_equalityI) (auto simp: be_word_def be_bytes_nth ucast_drop_bit_byte)

lemma memcmp_be_word:
  fixes v w :: "'a::len word"
  assumes "2 ^ LENGTH('a) \<le> (256 :: nat) ^ n"
  shows "memcmp (be_word n v) (be_word n w) < 0 \<longleftrightarrow> v < w"
    and "be_word n v = be_word n w \<longleftrightarrow> v = w"
proof -
  have small: "unat x mod 256 ^ n = unat x" for x :: "'a word"
    using less_le_trans[OF unsigned_less[of x, where ?'a = nat] assms] by simp
  show lt: "memcmp (be_word n v) (be_word n w) < 0 \<longleftrightarrow> v < w" for v w :: "'a word"
    by (simp add: be_word_be_bytes memcmp_be_bytes small word_less_nat_alt)
  show "be_word n v = be_word n w \<longleftrightarrow> v = w"
    using lt[of v w] lt[of w v] by (metis less_irrefl memcmp_self linorder_less_linear)
qed

end
