(* ===== verification/Chacha20.thy ===== *)
theory Chacha20
  imports Crypto_Util
begin

text \<open>
  The stream cipher \<open>crypto/refc/chacha20.c\<close>: quarter round, block function, the in-order
  encryption loop with its block counter in word 12, key set-up for a 64-bit nonce, and the
  subkey derivation \<open>hchacha20\<close> used for 192-bit nonces. The lemmas show that the loop is the
  exclusive or of the input with the concatenated key-stream blocks, hence its own inverse.
\<close>

section \<open>The code\<close>

record chacha20_ctx =
  ch_state :: "u32 list"

definition CHACHA20_CONSTANT_1 :: u32 where "CHACHA20_CONSTANT_1 = 0x61707865"
definition CHACHA20_CONSTANT_2 :: u32 where "CHACHA20_CONSTANT_2 = 0x3320646e"
definition CHACHA20_CONSTANT_3 :: u32 where "CHACHA20_CONSTANT_3 = 0x79622d32"
definition CHACHA20_CONSTANT_4 :: u32 where "CHACHA20_CONSTANT_4 = 0x6b206574"

definition ROTL32 :: "u32 \<Rightarrow> nat \<Rightarrow> u32" where
  "ROTL32 v n = push_bit n v OR drop_bit (32 - n) v"

definition QUARTERROUND :: "nat \<Rightarrow> nat \<Rightarrow> nat \<Rightarrow> nat \<Rightarrow> u32 list \<Rightarrow> u32 list" where
  "QUARTERROUND a b c d s =
     (let s = s[a := s ! a + s ! b]; s = s[d := s ! d XOR s ! a]; s = s[d := ROTL32 (s ! d) 16];
          s = s[c := s ! c + s ! d]; s = s[b := s ! b XOR s ! c]; s = s[b := ROTL32 (s ! b) 12];
          s = s[a := s ! a + s ! b]; s = s[d := s ! d XOR s ! a]; s = s[d := ROTL32 (s ! d) 8];
          s = s[c := s ! c + s ! d]; s = s[b := s ! b XOR s ! c]; s = s[b := ROTL32 (s ! b) 7]
      in s)"

definition INNER_BLOCK :: "u32 list \<Rightarrow> u32 list" where
  "INNER_BLOCK s =
     (let s = QUARTERROUND 0 4 8 12 s;
          s = QUARTERROUND 1 5 9 13 s;
          s = QUARTERROUND 2 6 10 14 s;
          s = QUARTERROUND 3 7 11 15 s;
          s = QUARTERROUND 0 5 10 15 s;
          s = QUARTERROUND 1 6 11 12 s;
          s = QUARTERROUND 2 7 8 13 s;
          s = QUARTERROUND 3 4 9 14 s
      in s)"

definition TWENTY_ROUNDS :: "u32 list \<Rightarrow> u32 list" where
  "TWENTY_ROUNDS s = (INNER_BLOCK ^^ 10) s"

definition chacha20_block :: "chacha20_ctx \<Rightarrow> bytes" where
  "chacha20_block ctx =
     (let working_state = TWENTY_ROUNDS (ch_state ctx)
      in concat (map (\<lambda>i. U32TO8_LITTLE (working_state ! i + ch_state ctx ! i)) [0..<16]))"

text \<open>One turn of the \<open>for (;;)\<close> loop: produce a block, then count it in word 12.\<close>

definition chacha20_next :: "chacha20_ctx \<Rightarrow> chacha20_ctx" where
  "chacha20_next ctx = ctx\<lparr>ch_state := (ch_state ctx)[12 := ch_state ctx ! 12 + 1]\<rparr>"

function chacha20_loop :: "chacha20_ctx \<Rightarrow> bytes \<Rightarrow> chacha20_ctx \<times> bytes" where
  "chacha20_loop ctx inp =
     (let output = chacha20_block ctx;
          ctx' = chacha20_next ctx
      in if length inp \<le> 64 then (ctx', map2 (XOR) inp output)
         else let (ctx'', rest) = chacha20_loop ctx' (drop 64 inp)
              in (ctx'', map2 (XOR) (take 64 inp) output @ rest))"
  by auto
termination by (relation "measure (\<lambda>(ctx, inp). length inp)") auto

declare chacha20_loop.simps [simp del]

definition chacha20 :: "chacha20_ctx \<Rightarrow> bytes \<Rightarrow> chacha20_ctx \<times> bytes" where
  "chacha20 ctx inp = (if inp = [] then (ctx, []) else chacha20_loop ctx inp)"

definition chacha20_init :: "bytes \<Rightarrow> u64 \<Rightarrow> chacha20_ctx" where
  "chacha20_init key nonce =
     \<lparr>ch_state =
        [CHACHA20_CONSTANT_1, CHACHA20_CONSTANT_2, CHACHA20_CONSTANT_3, CHACHA20_CONSTANT_4,
         U8TO32_LITTLE (bytes_at 0 4 key), U8TO32_LITTLE (bytes_at 4 4 key),
         U8TO32_LITTLE (bytes_at 8 4 key), U8TO32_LITTLE (bytes_at 12 4 key),
         U8TO32_LITTLE (bytes_at 16 4 key), U8TO32_LITTLE (bytes_at 20 4 key),
         U8TO32_LITTLE (bytes_at 24 4 key), U8TO32_LITTLE (bytes_at 28 4 key),
         0, 0, ucast (nonce AND 0xFFFFFFFF), ucast (drop_bit 32 nonce)]\<rparr>"

definition hchacha20 :: "bytes \<Rightarrow> bytes \<Rightarrow> bytes" where
  "hchacha20 nonce key =
     (let state =
        [CHACHA20_CONSTANT_1, CHACHA20_CONSTANT_2, CHACHA20_CONSTANT_3, CHACHA20_CONSTANT_4,
         U8TO32_LITTLE (bytes_at 0 4 key), U8TO32_LITTLE (bytes_at 4 4 key),
         U8TO32_LITTLE (bytes_at 8 4 key), U8TO32_LITTLE (bytes_at 12 4 key),
         U8TO32_LITTLE (bytes_at 16 4 key), U8TO32_LITTLE (bytes_at 20 4 key),
         U8TO32_LITTLE (bytes_at 24 4 key), U8TO32_LITTLE (bytes_at 28 4 key),
         U8TO32_LITTLE (bytes_at 0 4 nonce), U8TO32_LITTLE (bytes_at 4 4 nonce),
         U8TO32_LITTLE (bytes_at 8 4 nonce), U8TO32_LITTLE (bytes_at 12 4 nonce)];
          state = TWENTY_ROUNDS state
      in concat (map U32TO8_LITTLE
           [state ! 0, state ! 1, state ! 2, state ! 3,
            state ! 12, state ! 13, state ! 14, state ! 15]))"

section \<open>The key stream\<close>

text \<open>The context with which block \<open>n\<close> of a stream is produced.\<close>

definition at_block :: "nat \<Rightarrow> chacha20_ctx \<Rightarrow> chacha20_ctx" where
  "at_block n ctx = ctx\<lparr>ch_state := (ch_state ctx)[12 := ch_state ctx ! 12 + of_nat n]\<rparr>"

definition keystream :: "nat \<Rightarrow> chacha20_ctx \<Rightarrow> bytes" where
  "keystream blocks ctx = concat (map (\<lambda>n. chacha20_block (at_block n ctx)) [0..<blocks])"

lemma length_chacha20_block [simp, len_simps]: "length (chacha20_block ctx) = 64"
  by (simp add: chacha20_block_def length_concat comp_def Let_def sum_list_triv)

lemma length_hchacha20 [simp, len_simps]: "length (hchacha20 n k) = 32"
  by (simp add: hchacha20_def Let_def)

lemma length_ch_state_init [simp, len_simps]: "length (ch_state (chacha20_init key nonce)) = 16"
  by (simp add: chacha20_init_def)

lemma at_block_0 [simp]: "at_block 0 ctx = ctx"
  by (simp add: at_block_def)

lemma length_ch_state_next [simp]: "length (ch_state (chacha20_next ctx)) = length (ch_state ctx)"
  by (simp add: chacha20_next_def)

lemma at_block_next: "length (ch_state ctx) = 16 \<Longrightarrow> at_block n (chacha20_next ctx) = at_block (Suc n) ctx"
  by (simp add: at_block_def chacha20_next_def algebra_simps)

lemma keystream_Suc: "length (ch_state ctx) = 16 \<Longrightarrow>
    keystream (Suc n) ctx = chacha20_block ctx @ keystream n (chacha20_next ctx)"
  by (simp add: keystream_def at_block_next upt_conv_Cons map_Suc_upt [symmetric] comp_def
      del: upt_Suc map_Suc_upt)

lemma length_keystream [simp]: "length (keystream n ctx) = 64 * n"
  by (simp add: keystream_def length_concat comp_def sum_list_triv)

lemma chacha20_loop_keystream:
  "length (ch_state ctx) = 16 \<Longrightarrow> inp \<noteq> [] \<Longrightarrow>
    chacha20_loop ctx inp =
      (at_block ((length inp + 63) div 64) ctx, map2 (XOR) inp (keystream ((length inp + 63) div 64) ctx))"
proof (induction ctx inp rule: chacha20_loop.induct)
  case (1 ctx inp)
  show ?case
  proof (cases "length inp \<le> 64")
    case True
    have "1 \<le> length inp" using "1.prems" by (cases inp) simp_all
    then have "(length inp + 63) div 64 = 1" using True by (intro div_nat_eqI) simp_all
    then show ?thesis using True
      by (simp add: chacha20_loop.simps keystream_def at_block_def chacha20_next_def Let_def)
  next
    case False
    define n where "n = (length (drop 64 inp) + 63) div 64"
    have n: "(length inp + 63) div 64 = Suc n"
      using False by (simp add: n_def flip: div_add_self2)
    have IH: "chacha20_loop (chacha20_next ctx) (drop 64 inp) = (at_block n (chacha20_next ctx),
        map2 (XOR) (drop 64 inp) (keystream n (chacha20_next ctx)))"
      using "1.IH" [OF refl refl] False "1.prems" by (simp add: n_def)
    have "map2 (XOR) inp (keystream (Suc n) ctx) = map2 (XOR) (take 64 inp @ drop 64 inp) (keystream (Suc n) ctx)"
      by simp
    also have "\<dots> = map2 (XOR) (take 64 inp) (chacha20_block ctx) @ map2 (XOR) (drop 64 inp) (keystream n (chacha20_next ctx))"
      using False "1.prems" unfolding keystream_Suc [OF "1.prems"(1)] by (subst zip_append) simp_all
    finally show ?thesis
      using False IH "1.prems" by (subst chacha20_loop.simps) (simp add: Let_def n at_block_next)
  qed
qed

lemma chacha20_keystream:
  "length (ch_state ctx) = 16 \<Longrightarrow>
    chacha20 ctx inp =
      (at_block ((length inp + 63) div 64) ctx, map2 (XOR) inp (keystream ((length inp + 63) div 64) ctx))"
  by (simp add: chacha20_def chacha20_loop_keystream)

lemma map2_xor_cancel: "length xs \<le> length ks \<Longrightarrow> map2 (XOR) (map2 (XOR) xs ks) ks = (xs :: bytes)"
  by (induction xs ks rule: list_induct2') (auto simp: ac_simps)

lemma length_chacha20 [simp, len_simps]: "length (ch_state ctx) = 16 \<Longrightarrow> length (snd (chacha20 ctx inp)) = length inp"
  by (simp add: chacha20_keystream)

lemma chacha20_involution:
  assumes "length (ch_state ctx) = 16"
  shows "snd (chacha20 ctx (snd (chacha20 ctx inp))) = inp"
proof -
  have len: "length inp \<le> 64 * ((length inp + 63) div 64)" by linarith
  then show ?thesis
    using assms length_chacha20 [OF assms, of inp]
    by (simp add: chacha20_keystream map2_xor_cancel min_def)
qed

lemma length_ch_state_loop: "length (ch_state (fst (chacha20_loop ctx inp))) = length (ch_state ctx)"
  by (induction ctx inp rule: chacha20_loop.induct)
     (subst chacha20_loop.simps, auto simp: Let_def split: prod.splits)

lemma length_ch_state_chacha20 [simp]: "length (ch_state (fst (chacha20 ctx inp))) = length (ch_state ctx)"
  by (simp add: chacha20_def length_ch_state_loop)

lemma length_ch_state_at_block [simp]: "length (ch_state (at_block n ctx)) = length (ch_state ctx)"
  by (simp add: at_block_def)

lemma at_block_at_block: "length (ch_state ctx) = 16 \<Longrightarrow> at_block m (at_block n ctx) = at_block (n + m) ctx"
  by (simp add: at_block_def algebra_simps)

text \<open>
  From any block position of a stream the cipher is the exclusive or of its input with the
  concatenation of the key-stream blocks of that position, it leaves the context at the next unused
  block, and applying it twice gives the input back.
\<close>

lemma chacha20_stream:
  "chacha20 (at_block c (chacha20_init key nonce)) inp =
     (at_block (c + (length inp + 63) div 64) (chacha20_init key nonce),
      map2 (XOR) inp (keystream ((length inp + 63) div 64) (at_block c (chacha20_init key nonce))))
   \<and> snd (chacha20 (at_block c (chacha20_init key nonce))
           (snd (chacha20 (at_block c (chacha20_init key nonce)) inp))) = inp"
  by (simp add: chacha20_involution at_block_at_block) (simp add: chacha20_keystream at_block_at_block)

end
