(* ===== verification/Poly1305.thy ===== *)
theory Poly1305
  imports Crypto_Util
begin

text \<open>
  The one-time authenticator \<open>crypto/refc/poly1305-donna.c\<close> with its 32-bit arithmetic
  \<open>poly1305-donna-32.h\<close>: five 26-bit limbs, products in 64 bits, a partial reduction after every
  block and the final subtraction of the prime selected by a mask. \<open>unsigned long\<close> is 32 bits
  wide, as on the boards the port targets.
\<close>

section \<open>The code\<close>

record poly1305_state_internal_t =
  po_r :: "u32 list"
  po_h :: "u32 list"
  po_pad :: "u32 list"
  po_leftover :: nat
  po_buffer :: bytes
  po_final :: bool

definition U8TO32 :: "bytes \<Rightarrow> u32" where
  "U8TO32 p = ucast (p ! 0 AND 0xff) OR push_bit 8 (ucast (p ! 1 AND 0xff))
     OR push_bit 16 (ucast (p ! 2 AND 0xff)) OR push_bit 24 (ucast (p ! 3 AND 0xff))"

definition U32TO8 :: "u32 \<Rightarrow> bytes" where
  "U32TO8 v = [ucast (v AND 0xff), ucast (drop_bit 8 v AND 0xff),
     ucast (drop_bit 16 v AND 0xff), ucast (drop_bit 24 v AND 0xff)]"

definition poly1305_init :: "poly1305_state_internal_t \<Rightarrow> bytes \<Rightarrow> poly1305_state_internal_t" where
  "poly1305_init st key =
     st\<lparr>po_r := [U8TO32 (bytes_at 0 4 key) AND 0x3ffffff,
                 drop_bit 2 (U8TO32 (bytes_at 3 4 key)) AND 0x3ffff03,
                 drop_bit 4 (U8TO32 (bytes_at 6 4 key)) AND 0x3ffc0ff,
                 drop_bit 6 (U8TO32 (bytes_at 9 4 key)) AND 0x3f03fff,
                 drop_bit 8 (U8TO32 (bytes_at 12 4 key)) AND 0x00fffff],
        po_h := [0, 0, 0, 0, 0],
        po_pad := [U8TO32 (bytes_at 16 4 key), U8TO32 (bytes_at 20 4 key),
                   U8TO32 (bytes_at 24 4 key), U8TO32 (bytes_at 28 4 key)],
        po_leftover := 0, po_final := False\<rparr>"

abbreviation u64_of :: "u32 \<Rightarrow> u64" where "u64_of \<equiv> ucast"
abbreviation u32_of :: "u64 \<Rightarrow> u32" where "u32_of \<equiv> ucast"

text \<open>The body of the block loop: \<open>h += m; h *= r; (partial) h %= p\<close>.\<close>

definition poly1305_block :: "u32 \<Rightarrow> u32 list \<Rightarrow> bytes \<Rightarrow> u32 list \<Rightarrow> u32 list" where
  "poly1305_block hibit r m h =
     (let r0 = r ! 0; r1 = r ! 1; r2 = r ! 2; r3 = r ! 3; r4 = r ! 4;
          s1 = r1 * 5; s2 = r2 * 5; s3 = r3 * 5; s4 = r4 * 5;
          h0 = h ! 0 + (U8TO32 (bytes_at 0 4 m) AND 0x3ffffff);
          h1 = h ! 1 + (drop_bit 2 (U8TO32 (bytes_at 3 4 m)) AND 0x3ffffff);
          h2 = h ! 2 + (drop_bit 4 (U8TO32 (bytes_at 6 4 m)) AND 0x3ffffff);
          h3 = h ! 3 + (drop_bit 6 (U8TO32 (bytes_at 9 4 m)) AND 0x3ffffff);
          h4 = h ! 4 + (drop_bit 8 (U8TO32 (bytes_at 12 4 m)) OR hibit);
          d0 = u64_of h0 * u64_of r0 + u64_of h1 * u64_of s4 + u64_of h2 * u64_of s3 + u64_of h3 * u64_of s2 + u64_of h4 * u64_of s1;
          d1 = u64_of h0 * u64_of r1 + u64_of h1 * u64_of r0 + u64_of h2 * u64_of s4 + u64_of h3 * u64_of s3 + u64_of h4 * u64_of s2;
          d2 = u64_of h0 * u64_of r2 + u64_of h1 * u64_of r1 + u64_of h2 * u64_of r0 + u64_of h3 * u64_of s4 + u64_of h4 * u64_of s3;
          d3 = u64_of h0 * u64_of r3 + u64_of h1 * u64_of r2 + u64_of h2 * u64_of r1 + u64_of h3 * u64_of r0 + u64_of h4 * u64_of s4;
          d4 = u64_of h0 * u64_of r4 + u64_of h1 * u64_of r3 + u64_of h2 * u64_of r2 + u64_of h3 * u64_of r1 + u64_of h4 * u64_of r0;
          c = u32_of (drop_bit 26 d0); h0 = u32_of d0 AND 0x3ffffff;
          d1 = d1 + u64_of c; c = u32_of (drop_bit 26 d1); h1 = u32_of d1 AND 0x3ffffff;
          d2 = d2 + u64_of c; c = u32_of (drop_bit 26 d2); h2 = u32_of d2 AND 0x3ffffff;
          d3 = d3 + u64_of c; c = u32_of (drop_bit 26 d3); h3 = u32_of d3 AND 0x3ffffff;
          d4 = d4 + u64_of c; c = u32_of (drop_bit 26 d4); h4 = u32_of d4 AND 0x3ffffff;
          h0 = h0 + c * 5; c = drop_bit 26 h0; h0 = h0 AND 0x3ffffff;
          h1 = h1 + c
      in [h0, h1, h2, h3, h4])"

function poly1305_blocks_loop :: "u32 \<Rightarrow> u32 list \<Rightarrow> bytes \<Rightarrow> u32 list \<Rightarrow> u32 list" where
  "poly1305_blocks_loop hibit r m h =
     (if length m \<ge> 16
      then poly1305_blocks_loop hibit r (drop 16 m) (poly1305_block hibit r (take 16 m) h)
      else h)"
  by auto
termination by (relation "measure (\<lambda>(hibit, r, m, h). length m)") auto

declare poly1305_blocks_loop.simps [simp del]

definition poly1305_blocks :: "poly1305_state_internal_t \<Rightarrow> bytes \<Rightarrow> poly1305_state_internal_t" where
  "poly1305_blocks st m =
     (let hibit = (if po_final st then 0 else push_bit 24 1)
      in st\<lparr>po_h := poly1305_blocks_loop hibit (po_r st) m (po_h st)\<rparr>)"

definition poly1305_update :: "poly1305_state_internal_t \<Rightarrow> bytes \<Rightarrow> poly1305_state_internal_t" where
  "poly1305_update st m =
     (let want = min (16 - po_leftover st) (length m);
          st1 = (if po_leftover st = 0 then st
                 else st\<lparr>po_buffer := bytes_put (po_leftover st) (take want m) (po_buffer st),
                         po_leftover := po_leftover st + want\<rparr>);
          m1 = (if po_leftover st = 0 then m else drop want m)
      in if po_leftover st \<noteq> 0 \<and> po_leftover st1 < 16 then st1
         else
           let st2 = (if po_leftover st = 0 then st1
                      else (poly1305_blocks st1 (po_buffer st1))\<lparr>po_leftover := 0\<rparr>);
               full = length m1 div 16 * 16;
               st3 = (if length m1 \<ge> 16 then poly1305_blocks st2 (take full m1) else st2);
               m3 = drop full m1
           in if m3 = [] then st3
              else st3\<lparr>po_buffer := bytes_put (po_leftover st3) m3 (po_buffer st3),
                       po_leftover := po_leftover st3 + length m3\<rparr>)"

text \<open>\<open>poly1305_finish\<close>: the pending block, the final carry, the conditional subtraction, the pad.\<close>

definition poly1305_carry :: "u32 list \<Rightarrow> u32 list" where
  "poly1305_carry h =
     (let h0 = h ! 0; h1 = h ! 1; h2 = h ! 2; h3 = h ! 3; h4 = h ! 4;
          c = drop_bit 26 h1; h1 = h1 AND 0x3ffffff;
          h2 = h2 + c; c = drop_bit 26 h2; h2 = h2 AND 0x3ffffff;
          h3 = h3 + c; c = drop_bit 26 h3; h3 = h3 AND 0x3ffffff;
          h4 = h4 + c; c = drop_bit 26 h4; h4 = h4 AND 0x3ffffff;
          h0 = h0 + c * 5; c = drop_bit 26 h0; h0 = h0 AND 0x3ffffff;
          h1 = h1 + c
      in [h0, h1, h2, h3, h4])"

definition poly1305_select :: "u32 list \<Rightarrow> u32 list" where
  "poly1305_select h =
     (let h0 = h ! 0; h1 = h ! 1; h2 = h ! 2; h3 = h ! 3; h4 = h ! 4;
          g0 = h0 + 5; c = drop_bit 26 g0; g0 = g0 AND 0x3ffffff;
          g1 = h1 + c; c = drop_bit 26 g1; g1 = g1 AND 0x3ffffff;
          g2 = h2 + c; c = drop_bit 26 g2; g2 = g2 AND 0x3ffffff;
          g3 = h3 + c; c = drop_bit 26 g3; g3 = g3 AND 0x3ffffff;
          g4 = h4 + c - push_bit 26 1;
          mask1 = drop_bit 31 g4 - 1;
          mask2 = NOT mask1
      in [h0 AND mask2 OR g0 AND mask1, h1 AND mask2 OR g1 AND mask1, h2 AND mask2 OR g2 AND mask1,
          h3 AND mask2 OR g3 AND mask1, h4 AND mask2 OR g4 AND mask1])"

definition poly1305_pack :: "u32 list \<Rightarrow> u32 list" where
  "poly1305_pack h =
     (let h0 = h ! 0; h1 = h ! 1; h2 = h ! 2; h3 = h ! 3; h4 = h ! 4
      in [(h0 OR push_bit 26 h1) AND 0xffffffff,
          (drop_bit 6 h1 OR push_bit 20 h2) AND 0xffffffff,
          (drop_bit 12 h2 OR push_bit 14 h3) AND 0xffffffff,
          (drop_bit 18 h3 OR push_bit 8 h4) AND 0xffffffff])"

definition poly1305_add_pad :: "u32 list \<Rightarrow> u32 list \<Rightarrow> u32 list" where
  "poly1305_add_pad pad h =
     (let f0 = u64_of (h ! 0) + u64_of (pad ! 0);
          f1 = u64_of (h ! 1) + u64_of (pad ! 1) + drop_bit 32 f0;
          f2 = u64_of (h ! 2) + u64_of (pad ! 2) + drop_bit 32 f1;
          f3 = u64_of (h ! 3) + u64_of (pad ! 3) + drop_bit 32 f2
      in [u32_of f0, u32_of f1, u32_of f2, u32_of f3])"

definition poly1305_finish :: "poly1305_state_internal_t \<Rightarrow> bytes \<times> poly1305_state_internal_t" where
  "poly1305_finish st =
     (let st = (if po_leftover st = 0 then st
                else let i = po_leftover st;
                         buf = take i (po_buffer st) @ [1] @ zeroes (16 - (i + 1));
                         st = st\<lparr>po_buffer := buf, po_final := True\<rparr>
                     in poly1305_blocks st (po_buffer st));
          h = poly1305_add_pad (po_pad st) (poly1305_pack (poly1305_select (poly1305_carry (po_h st))));
          mac = U32TO8 (h ! 0) @ U32TO8 (h ! 1) @ U32TO8 (h ! 2) @ U32TO8 (h ! 3)
      in (mac, st\<lparr>po_h := [0, 0, 0, 0, 0], po_r := [0, 0, 0, 0, 0], po_pad := [0, 0, 0, 0]\<rparr>))"

definition blank_poly :: poly1305_state_internal_t where
  "blank_poly = \<lparr>po_r = [0, 0, 0, 0, 0], po_h = [0, 0, 0, 0, 0], po_pad = [0, 0, 0, 0],
     po_leftover = 0, po_buffer = zeroes 16, po_final = False\<rparr>"

lemma length_poly1305_finish [simp, len_simps]: "length (fst (poly1305_finish st)) = 16"
  by (simp add: poly1305_finish_def U32TO8_def Let_def)

end
