(* ===== verification/Aead.thy ===== *)
theory Aead
  imports Chacha20 Poly1305
begin

text \<open>
  The authenticated encryption \<open>crypto/refc/chacha20poly1305.c\<close>: ChaCha20-Poly1305 with a 64-bit
  nonce and its 192-bit-nonce variant. Their common contract is the locale \<open>aead\<close>, which both
  implementations satisfy and on which the protocol theories rest: decryption accepts exactly the
  encryptions, so it undoes encryption and fixes the length.
\<close>

section \<open>The contract\<close>

locale aead =
  fixes enc :: "bytes \<Rightarrow> bytes \<Rightarrow> 'n \<Rightarrow> bytes \<Rightarrow> bytes"
    and dec :: "bytes \<Rightarrow> bytes \<Rightarrow> 'n \<Rightarrow> bytes \<Rightarrow> bytes option"
  assumes dec_iff_enc: "dec c ad n k = Some p \<longleftrightarrow> c = enc p ad n k"
    and length_enc: "length (enc p ad n k) = length p + 16"
begin

lemma dec_enc: "dec (enc p ad n k) ad n k = Some p"
  by (simp add: dec_iff_enc)

lemma enc_inj: "enc p ad n k = enc q ad n k \<longleftrightarrow> p = q"
  by (metis dec_enc option.inject)

lemma dec_length: "dec c ad n k = Some p \<Longrightarrow> length c = length p + 16"
  by (simp add: dec_iff_enc length_enc)

lemma dec_short: "length c < 16 \<Longrightarrow> dec c ad n k = None"
  by (metis dec_length leD le_add2 not_None_eq)

lemma dec_None: "dec c ad n k = None \<longleftrightarrow> (\<forall>p. c \<noteq> enc p ad n k)"
  by (metis dec_iff_enc not_None_eq)

end

section \<open>The code\<close>

definition generate_poly1305_key :: "bytes \<Rightarrow> u64 \<Rightarrow> poly1305_state_internal_t \<times> chacha20_ctx" where
  "generate_poly1305_key key nonce =
     (let (chacha20_state, block) = chacha20 (chacha20_init key nonce) (zeroes 32)
      in (poly1305_init blank_poly block, chacha20_state))"

text \<open>\<open>padded_len - len\<close> for \<open>padded_len = (len + 15) & 0xFFFFFFF0\<close> in 32-bit \<open>size_t\<close>.\<close>

definition pad16 :: "nat \<Rightarrow> bytes" where
  "pad16 len = zeroes (unat ((of_nat len + 15 AND 0xFFFFFFF0) - of_nat len :: u32))"

text \<open>The seven \<open>poly1305_update\<close> calls over additional data and ciphertext, then the tag.\<close>

definition aead_tag :: "poly1305_state_internal_t \<Rightarrow> bytes \<Rightarrow> bytes \<Rightarrow> bytes" where
  "aead_tag st ad ct =
     (let st = poly1305_update st ad;
          st = poly1305_update st (pad16 (length ad));
          st = poly1305_update st ct;
          st = poly1305_update st (pad16 (length ct));
          st = poly1305_update st (U64TO8_LITTLE (of_nat (length ad)));
          st = poly1305_update st (U64TO8_LITTLE (of_nat (length ct)))
      in fst (poly1305_finish st))"

definition chacha20poly1305_encrypt :: "bytes \<Rightarrow> bytes \<Rightarrow> u64 \<Rightarrow> bytes \<Rightarrow> bytes" where
  "chacha20poly1305_encrypt src ad nonce key =
     (let (poly1305_state, chacha20_state) = generate_poly1305_key key nonce;
          dst = snd (chacha20 chacha20_state src)
      in dst @ aead_tag poly1305_state ad dst)"

definition chacha20poly1305_decrypt :: "bytes \<Rightarrow> bytes \<Rightarrow> u64 \<Rightarrow> bytes \<Rightarrow> bytes option" where
  "chacha20poly1305_decrypt src ad nonce key =
     (if length src \<ge> 16
      then let dst_len = length src - 16;
               (poly1305_state, chacha20_state) = generate_poly1305_key key nonce;
               mac = aead_tag poly1305_state ad (take dst_len src)
           in if crypto_equal mac (bytes_at dst_len 16 src)
              then Some (snd (chacha20 chacha20_state (take dst_len src)))
              else None
      else None)"

definition xchacha20poly1305_encrypt :: "bytes \<Rightarrow> bytes \<Rightarrow> bytes \<Rightarrow> bytes \<Rightarrow> bytes" where
  "xchacha20poly1305_encrypt src ad nonce key =
     (let new_nonce = U8TO64_LITTLE (bytes_at 16 8 nonce);
          subkey = hchacha20 nonce key
      in chacha20poly1305_encrypt src ad new_nonce subkey)"

definition xchacha20poly1305_decrypt :: "bytes \<Rightarrow> bytes \<Rightarrow> bytes \<Rightarrow> bytes \<Rightarrow> bytes option" where
  "xchacha20poly1305_decrypt src ad nonce key =
     (let new_nonce = U8TO64_LITTLE (bytes_at 16 8 nonce);
          subkey = hchacha20 nonce key
      in chacha20poly1305_decrypt src ad new_nonce subkey)"

section \<open>The implementations meet the contract\<close>

lemma length_aead_tag [simp, len_simps]: "length (aead_tag st ad ct) = 16"
  by (simp add: aead_tag_def Let_def)

lemma generate_key_state: "length (ch_state (snd (generate_poly1305_key key nonce))) = 16"
  by (simp add: generate_poly1305_key_def split: prod.split) (metis length_ch_state_chacha20 length_ch_state_init fst_conv)

lemma encrypt_split:
  "chacha20poly1305_encrypt src ad nonce key =
     (let ct = snd (chacha20 (snd (generate_poly1305_key key nonce)) src)
      in ct @ aead_tag (fst (generate_poly1305_key key nonce)) ad ct)"
  by (simp add: chacha20poly1305_encrypt_def Let_def split: prod.split)

lemma length_encrypt [len_simps]: "length (chacha20poly1305_encrypt src ad nonce key) = length src + 16"
  by (simp add: encrypt_split Let_def generate_key_state)

lemma decrypt_eq_encrypt:
  "chacha20poly1305_decrypt src ad nonce key = Some p \<longleftrightarrow> src = chacha20poly1305_encrypt p ad nonce key"
proof (cases "length src \<ge> 16")
  case True
  define st ch where "st = fst (generate_poly1305_key key nonce)" and "ch = snd (generate_poly1305_key key nonce)"
  have ch: "length (ch_state ch) = 16" by (simp add: ch_def generate_key_state)
  define ct tag where "ct = take (length src - 16) src" and "tag = bytes_at (length src - 16) 16 src"
  have split: "src = ct @ tag" "length tag = 16"
    using True by (simp_all add: ct_def tag_def bytes_at_def)
  have "chacha20poly1305_decrypt src ad nonce key = Some p \<longleftrightarrow>
      aead_tag st ad ct = tag \<and> snd (chacha20 ch ct) = p"
    using True split(2)
    by (auto simp: chacha20poly1305_decrypt_def st_def ch_def ct_def tag_def crypto_equal_iff Let_def split_def)
  also have "\<dots> \<longleftrightarrow> aead_tag st ad ct = tag \<and> ct = snd (chacha20 ch p)"
    using chacha20_involution [OF ch] by metis
  also have "\<dots> \<longleftrightarrow> src = chacha20poly1305_encrypt p ad nonce key"
    unfolding encrypt_split st_def [symmetric] ch_def [symmetric] Let_def split(1)
    using split(2) by (subst append_eq_append_conv) auto
  finally show ?thesis .
next
  case False
  then show ?thesis by (auto simp: chacha20poly1305_decrypt_def length_encrypt)
qed

interpretation chachapoly: aead chacha20poly1305_encrypt chacha20poly1305_decrypt
  by unfold_locales (simp_all add: decrypt_eq_encrypt length_encrypt)

interpretation xchachapoly: aead xchacha20poly1305_encrypt xchacha20poly1305_decrypt
  by unfold_locales
     (simp_all add: xchacha20poly1305_encrypt_def xchacha20poly1305_decrypt_def decrypt_eq_encrypt length_encrypt Let_def)

declare chachapoly.length_enc [simp, len_simps] xchachapoly.length_enc [simp, len_simps]
declare chachapoly.dec_enc [simp] xchachapoly.dec_enc [simp]

text \<open>
  C28. Authenticated decryption accepts exactly the encryptions: for both nonce sizes, a buffer
  decrypts to \<open>p\<close> under a key, nonce and additional data if and only if it is the encryption of
  \<open>p\<close> under them. In particular decryption undoes encryption, a buffer shorter than a tag is
  rejected, and the result is 16 bytes shorter than the input.
\<close>

theorem aead_accepts_exactly_encryptions:
  "(chacha20poly1305_decrypt c ad n k = Some p \<longleftrightarrow> c = chacha20poly1305_encrypt p ad n k)
   \<and> (xchacha20poly1305_decrypt c ad n' k = Some p \<longleftrightarrow> c = xchacha20poly1305_encrypt p ad n' k)
   \<and> length (chacha20poly1305_encrypt p ad n k) = length p + 16
   \<and> length (xchacha20poly1305_encrypt p ad n' k) = length p + 16"
  by (simp add: chachapoly.dec_iff_enc xchachapoly.dec_iff_enc)

end
