(* ===== verification/Limbs.thy ===== *)
theory Limbs
  imports Crypto_Util
begin

text \<open>
  The numbers that lists of bytes and of 32-bit limbs stand for, least significant first, and the
  splitting of 64-bit sums and products into a limb and a carry.
\<close>

section \<open>The number that limbs stand for\<close>

fun limbs_val :: "u32 list \<Rightarrow> int" where
  "limbs_val [] = 0"
| "limbs_val (x # xs) = uint x + 2 ^ 32 * limbs_val xs"

lemma limbs_val_append: "limbs_val (xs @ ys) = limbs_val xs + 2 ^ (32 * length xs) * limbs_val ys"
  by (induction xs) (simp_all add: algebra_simps power_add)

lemma limbs_val_zeros [simp]: "limbs_val (replicate n 0) = 0"
  by (induction n) simp_all

lemma uint_32: "0 \<le> uint (x :: u32)" "uint (x :: u32) < 2 ^ 32"
  using uint_lt2p [of x] by simp_all

lemma limbs_val_bounds: "0 \<le> limbs_val xs" "limbs_val xs < 2 ^ (32 * length xs)"
proof -
  have "0 \<le> limbs_val xs \<and> limbs_val xs < 2 ^ (32 * length xs)"
  proof (induction xs)
    case (Cons x xs)
    have "uint x + 2 ^ 32 * limbs_val xs < 2 ^ 32 + 2 ^ 32 * limbs_val xs" using uint_32(2) [of x] by simp
    also have "\<dots> \<le> 2 ^ 32 * 2 ^ (32 * length xs)" using Cons by simp
    finally show ?case using Cons uint_32(1) [of x] by (simp add: power_add)
  qed simp
  then show "0 \<le> limbs_val xs" "limbs_val xs < 2 ^ (32 * length xs)" by blast+
qed

lemma uint_drop: "uint (drop_bit n w) = uint w div 2 ^ n" for w :: "'a::len word"
  using take_bit_int_eq_self [OF _ uint_lt2p [of w]] by (simp only: unsigned_drop_bit_eq uint_ge_0) (simp add: drop_bit_eq_div)

lemma split_64: "uint (ucast t :: u32) + 2 ^ 32 * uint (ucast (drop_bit 32 t) :: u32) = uint (t :: u64)"
proof -
  have "0 \<le> uint t" "uint t < 2 ^ 64" using uint_lt2p [of t] by simp_all
  then have "uint t div 2 ^ 32 mod 2 ^ 32 = uint t div 2 ^ 32"
    by (simp add: mod_pos_pos_trivial pos_imp_zdiv_nonneg_iff)
  moreover have "uint (drop_bit 32 t) = uint t div 2 ^ 32" by (rule uint_drop)
  ultimately show ?thesis
    by (simp add: unsigned_ucast_eq take_bit_eq_mod del: drop_bit_numeral_bit1 word_div_def)
qed

lemma uint_wide [simp]: "uint (ucast (x :: u32) :: u64) = uint x"
  using uint_32 [of x] by (simp add: unsigned_ucast_eq take_bit_int_eq_self)

lemma uint_plus: "uint v + uint w < 2 ^ 64 \<Longrightarrow> uint (v + w) = uint v + uint w" for v w :: u64
  by (simp add: uint_word_ariths(1) mod_pos_pos_trivial)

section \<open>Bytes, bits and limbs\<close>

text \<open>The number that bytes stand for, least significant first.\<close>

fun bytes_val :: "bytes \<Rightarrow> int" where
  "bytes_val [] = 0"
| "bytes_val (b # bs) = uint b + 2 ^ 8 * bytes_val bs"

lemma uint_8: "0 \<le> uint (b :: byte)" "uint b < 2 ^ 8"
  using uint_lt2p [of b] by simp_all

lemma bytes_val_append: "bytes_val (xs @ ys) = bytes_val xs + 2 ^ (8 * length xs) * bytes_val ys"
  by (induction xs) (simp_all add: algebra_simps power_add)

lemma bytes_val_nonneg: "0 \<le> bytes_val bs"
  by (induction bs) (use uint_8 in auto)

lemma bit_bytes_val: "i < 8 * length bs \<Longrightarrow> bit (bytes_val bs) i \<longleftrightarrow> bit (bs ! (i div 8)) (i mod 8)"
proof (induction bs arbitrary: i)
  case (Cons b bs)
  have d: "uint b AND push_bit 8 (bytes_val bs) = 0"
    by (rule bit_eqI) (auto simp: bit_simps dest: bit_imp_le_length)
  have "bytes_val (b # bs) = uint b OR push_bit 8 (bytes_val bs)"
    using disjunctive_add_eq_or [OF d] by (simp add: push_bit_eq_mult mult.commute)
  then have "bit (bytes_val (b # bs)) i \<longleftrightarrow> bit b i \<or> 8 \<le> i \<and> bit (bytes_val bs) (i - 8)"
    by (auto simp: bit_simps)
  moreover have "bit b i \<Longrightarrow> i < 8" by (auto dest: bit_imp_le_length)
  moreover have "8 \<le> i \<Longrightarrow> i div 8 = Suc ((i - 8) div 8) \<and> i mod 8 = (i - 8) mod 8"
    by (simp add: le_div_geq le_mod_geq)
  ultimately show ?case using Cons.IH [of "i - 8"] Cons.prems by (cases "i < 8") auto
qed simp

lemma word_val: "length b = 4 \<Longrightarrow> uint (U8TO32_LITTLE b) = bytes_val b"
proof (rule bit_eqI)
  fix n
  assume l: "length b = 4"
  have "bytes_val b < 2 ^ 32"
  proof -
    obtain x0 x1 x2 x3 where b: "b = [x0, x1, x2, x3]" using l by (rule length_4_cases)
    show ?thesis using uint_8 [of x0] uint_8 [of x1] uint_8 [of x2] uint_8 [of x3] by (simp add: b)
  qed
  then have hi: "\<not> bit (bytes_val b) n" if "32 \<le> n"
    using that bytes_val_nonneg [of b] by (metis bit_take_bit_iff not_le take_bit_int_eq_self)
  obtain x0 x1 x2 x3 where b: "b = [x0, x1, x2, x3]" using l by (rule length_4_cases)
  show "bit (uint (U8TO32_LITTLE b)) n \<longleftrightarrow> bit (bytes_val b) n"
  proof (cases "n < 32")
    case False
    then show ?thesis using hi by (auto simp: bit_simps dest: bit_imp_le_length)
  next
    case True
    then have "bit (bytes_val b) n \<longleftrightarrow> bit (b ! (n div 8)) (n mod 8)" using bit_bytes_val l by simp
    moreover have "bit (U8TO32_LITTLE b) n \<longleftrightarrow> bit (b ! (n div 8)) (n mod 8)"
    proof -
      consider "n < 8" | "8 \<le> n" "n < 16" | "16 \<le> n" "n < 24" | "24 \<le> n" "n < 32" using True by linarith
      then show ?thesis by cases (auto simp: U8TO32_LITTLE_def b bit_simps le_div_geq le_mod_geq dest: bit_imp_le_length)
    qed
    ultimately show ?thesis using True by (simp add: bit_simps)
  qed
qed

lemma limbs_of_bytes: "length b = 4 * n \<Longrightarrow> limbs_val (map (\<lambda>i. U8TO32_LITTLE (bytes_at (4 * i) 4 b)) [0..<n]) = bytes_val b"
proof (induction n arbitrary: b)
  case (Suc n)
  have "map (\<lambda>i. U8TO32_LITTLE (bytes_at (4 * i) 4 b)) [0..<Suc n]
      = U8TO32_LITTLE (take 4 b) # map (\<lambda>i. U8TO32_LITTLE (bytes_at (4 * i) 4 (drop 4 b))) [0..<n]"
    by (simp add: upt_conv_Cons map_Suc_upt [symmetric] bytes_at_def add.commute del: upt_Suc)
  moreover have "bytes_val b = bytes_val (take 4 b) + 2 ^ 32 * bytes_val (drop 4 b)"
    using bytes_val_append [of "take 4 b" "drop 4 b"] Suc.prems by simp
  ultimately show ?case using Suc.IH [of "drop 4 b"] Suc.prems by (simp add: word_val)
qed simp

end
