(* ===== verification/Poly1305_Block.thy ===== *)
theory Poly1305_Block
  imports Poly1305 Limbs
begin

text \<open>
  One block of \<open>poly1305-donna-32.h\<close> against integers modulo \<open>2^130 - 5\<close>: no product or carry
  overflows, and the accumulator stays in five limbs of 26 bits, the second with six bits to spare.
\<close>

section \<open>Words and carries\<close>

lemma uint_and_26: "uint (x AND 0x3ffffff) = uint x mod 2 ^ 26" for x :: u32
proof -
  have "x AND 0x3ffffff = take_bit 26 x" by (simp add: take_bit_eq_mask mask_eq_exp_minus_1)
  then show ?thesis by (simp only: unsigned_take_bit_eq) (simp add: take_bit_eq_mod)
qed

lemma carry_26:
  assumes "uint d < 2 ^ 58"
  shows "uint (u32_of (drop_bit 26 d)) = uint d div 2 ^ 26" "uint (u32_of d AND 0x3ffffff) = uint d mod 2 ^ 26"
proof -
  have "uint d div 2 ^ 26 < 2 ^ 32" using assms by simp
  then show "uint (u32_of (drop_bit 26 d)) = uint d div 2 ^ 26"
    by (simp only: unsigned_ucast_eq uint_drop) (simp add: take_bit_int_eq_self pos_imp_zdiv_nonneg_iff)
  have "uint (u32_of d) mod 2 ^ 26 = uint d mod 2 ^ 26"
    by (simp add: unsigned_ucast_eq take_bit_eq_mod mod_mod_cancel)
  then show "uint (u32_of d AND 0x3ffffff) = uint d mod 2 ^ 26" by (simp only: uint_and_26)
qed

lemma uint_plus_32: "uint v + uint w < 2 ^ 32 \<Longrightarrow> uint (v + w) = uint v + uint w" for v w :: u32
  by (simp add: uint_word_ariths(1) mod_pos_pos_trivial)

lemma uint_times_32: "uint v * uint w < 2 ^ 32 \<Longrightarrow> uint (v * w) = uint v * uint w" for v w :: u32
  by (simp add: uint_word_ariths(3) mod_pos_pos_trivial)

lemma product_64:
  assumes "uint a \<le> A" "uint b \<le> B" "A * B < 2 ^ 64"
  shows "uint (u64_of a * u64_of b) = uint a * uint b" "0 \<le> uint a * uint b" "uint a * uint b \<le> A * B"
proof -
  show b: "0 \<le> uint a * uint b" "uint a * uint b \<le> A * B" using assms(1,2) by (auto intro: mult_mono order_trans [OF uint_32(1)])
  then show "uint (u64_of a * u64_of b) = uint a * uint b"
    using assms(3) by (simp add: uint_word_ariths(3) mod_pos_pos_trivial)
qed

lemma products_64:
  assumes "uint a0 \<le> A" "uint a1 \<le> A" "uint a2 \<le> A" "uint a3 \<le> A" "uint a4 \<le> A"
    "uint b0 \<le> B" "uint b1 \<le> B" "uint b2 \<le> B" "uint b3 \<le> B" "uint b4 \<le> B" "5 * (A * B) < 2 ^ 64"
  shows "uint (u64_of a0 * u64_of b0 + u64_of a1 * u64_of b1 + u64_of a2 * u64_of b2 + u64_of a3 * u64_of b3 + u64_of a4 * u64_of b4)
      = uint a0 * uint b0 + uint a1 * uint b1 + uint a2 * uint b2 + uint a3 * uint b3 + uint a4 * uint b4"
    "uint a0 * uint b0 + uint a1 * uint b1 + uint a2 * uint b2 + uint a3 * uint b3 + uint a4 * uint b4 \<le> 5 * (A * B)"
proof -
  have nn: "0 \<le> A * B" using assms(1,6) uint_32(1) by (metis mult_nonneg_nonneg order_trans)
  then have AB: "A * B < 2 ^ 64" using assms(11) by linarith
  note p0 = product_64 [OF assms(1,6) AB] and p1 = product_64 [OF assms(2,7) AB] and p2 = product_64 [OF assms(3,8) AB]
    and p3 = product_64 [OF assms(4,9) AB] and p4 = product_64 [OF assms(5,10) AB]
  have 1: "uint (u64_of a0 * u64_of b0 + u64_of a1 * u64_of b1) = uint a0 * uint b0 + uint a1 * uint b1"
    using p0(3) p1(3) assms(11) nn by (subst uint_plus) (unfold p0(1) p1(1), linarith+)
  have 2: "uint (u64_of a0 * u64_of b0 + u64_of a1 * u64_of b1 + u64_of a2 * u64_of b2) = uint a0 * uint b0 + uint a1 * uint b1 + uint a2 * uint b2"
    using p0(3) p1(3) p2(3) assms(11) nn by (subst uint_plus) (unfold 1 p2(1), linarith+)
  have 3: "uint (u64_of a0 * u64_of b0 + u64_of a1 * u64_of b1 + u64_of a2 * u64_of b2 + u64_of a3 * u64_of b3)
      = uint a0 * uint b0 + uint a1 * uint b1 + uint a2 * uint b2 + uint a3 * uint b3"
    using p0(3) p1(3) p2(3) p3(3) assms(11) nn by (subst uint_plus) (unfold 2 p3(1), linarith+)
  show "uint (u64_of a0 * u64_of b0 + u64_of a1 * u64_of b1 + u64_of a2 * u64_of b2 + u64_of a3 * u64_of b3 + u64_of a4 * u64_of b4)
      = uint a0 * uint b0 + uint a1 * uint b1 + uint a2 * uint b2 + uint a3 * uint b3 + uint a4 * uint b4"
    using p0(3) p1(3) p2(3) p3(3) p4(3) assms(11) nn by (subst uint_plus) (unfold 3 p4(1), linarith+)
  show "uint a0 * uint b0 + uint a1 * uint b1 + uint a2 * uint b2 + uint a3 * uint b3 + uint a4 * uint b4 \<le> 5 * (A * B)"
    using p0(3) p1(3) p2(3) p3(3) p4(3) by linarith
qed

section \<open>The limbs of a block\<close>

lemma bytes_val_bound: "bytes_val bs < 2 ^ (8 * length bs)"
proof (induction bs)
  case (Cons b bs)
  have "uint b + 2 ^ 8 * bytes_val bs < 2 ^ 8 + 2 ^ 8 * bytes_val bs" using uint_8(2) [of b] by simp
  also have "\<dots> \<le> 2 ^ 8 * 2 ^ (8 * length bs)" using Cons by simp
  finally show ?case by (simp add: power_add)
qed simp

lemma bytes_val_take_drop:
  assumes "k \<le> length bs"
  shows "bytes_val (take k bs) = bytes_val bs mod 2 ^ (8 * k)" "bytes_val (drop k bs) = bytes_val bs div 2 ^ (8 * k)"
proof -
  have v: "bytes_val bs = bytes_val (take k bs) + 2 ^ (8 * k) * bytes_val (drop k bs)"
    using bytes_val_append [of "take k bs" "drop k bs"] assms by simp
  have b: "0 \<le> bytes_val (take k bs)" "bytes_val (take k bs) < 2 ^ (8 * k)"
    using bytes_val_nonneg bytes_val_bound [of "take k bs"] assms by simp_all
  show "bytes_val (take k bs) = bytes_val bs mod 2 ^ (8 * k)" "bytes_val (drop k bs) = bytes_val bs div 2 ^ (8 * k)"
    unfolding v using b by (simp_all add: div_pos_pos_trivial mod_pos_pos_trivial)
qed

lemma U8TO32_eq: "U8TO32 p = U8TO32_LITTLE p"
proof -
  have "(0xff :: byte) = - 1" by simp
  then have "x AND 0xff = x" for x :: byte by (simp only: and.right_neutral)
  then show ?thesis by (simp add: U8TO32_def U8TO32_LITTLE_def)
qed

lemma load_32:
  assumes "k + 4 \<le> length m" "j = 8 * k"
  shows "uint (U8TO32 (bytes_at k 4 m)) = bytes_val m div 2 ^ j mod 2 ^ 32"
proof -
  have "uint (U8TO32 (bytes_at k 4 m)) = bytes_val (take 4 (drop k m))"
    unfolding U8TO32_eq using assms by (subst word_val) (simp_all add: bytes_at_def)
  then show ?thesis using assms bytes_val_take_drop(1) [of 4 "drop k m"] bytes_val_take_drop(2) [of k m] by simp
qed

text \<open>The five limbs of 26 bits.\<close>

definition digit_26 :: "int \<Rightarrow> nat \<Rightarrow> int" where
  "digit_26 n k = n div 2 ^ (26 * k) mod 2 ^ 26"

lemma shifted_digit:
  "n div 2 ^ a mod 2 ^ 32 div 2 ^ b mod 2 ^ 26 = n div 2 ^ (a + b) mod 2 ^ 26" if "b \<le> 6" for n :: int
proof -
  have "take_bit 26 (drop_bit b (take_bit 32 (drop_bit a n))) = take_bit 26 (drop_bit (a + b) n)"
    using that by (auto intro!: bit_eqI simp: bit_simps ac_simps)
  then show ?thesis by (simp add: take_bit_eq_mod drop_bit_eq_div)
qed

lemma digits_26:
  fixes n :: int
  shows "n = digit_26 n 0 + 2 ^ 26 * digit_26 n 1 + 2 ^ 52 * digit_26 n 2 + 2 ^ 78 * digit_26 n 3 + 2 ^ 104 * (n div 2 ^ 104)"
proof -
  define a b c d where "a = n div 2 ^ 26" and "b = a div 2 ^ 26" and "c = b div 2 ^ 26" and "d = c div 2 ^ 26"
  have e: "n div 2 ^ 52 = b" "n div 2 ^ 78 = c" "n div 2 ^ 104 = d"
    by (simp_all add: a_def b_def c_def d_def zdiv_zmult2_eq [symmetric])
  have "n = n mod 2 ^ 26 + 2 ^ 26 * a" "a = a mod 2 ^ 26 + 2 ^ 26 * b" "b = b mod 2 ^ 26 + 2 ^ 26 * c" "c = c mod 2 ^ 26 + 2 ^ 26 * d"
    by (simp_all add: a_def b_def c_def d_def)
  then have "n = n mod 2 ^ 26 + 2 ^ 26 * (a mod 2 ^ 26) + 2 ^ 52 * (b mod 2 ^ 26) + 2 ^ 78 * (c mod 2 ^ 26) + 2 ^ 104 * d" by simp
  moreover have "digit_26 n 0 = n mod 2 ^ 26" "digit_26 n 1 = a mod 2 ^ 26" "digit_26 n 2 = b mod 2 ^ 26" "digit_26 n 3 = c mod 2 ^ 26"
    unfolding digit_26_def a_def using e by (simp_all add: a_def)
  ultimately show ?thesis by (simp only: e)
qed

lemma message_limbs:
  assumes "length m = 16" "hibit = 0 \<or> hibit = push_bit 24 1"
  shows "uint (U8TO32 (bytes_at 0 4 m) AND 0x3ffffff) = digit_26 (bytes_val m) 0"
    "uint (drop_bit 2 (U8TO32 (bytes_at 3 4 m)) AND 0x3ffffff) = digit_26 (bytes_val m) 1"
    "uint (drop_bit 4 (U8TO32 (bytes_at 6 4 m)) AND 0x3ffffff) = digit_26 (bytes_val m) 2"
    "uint (drop_bit 6 (U8TO32 (bytes_at 9 4 m)) AND 0x3ffffff) = digit_26 (bytes_val m) 3"
    "uint (drop_bit 8 (U8TO32 (bytes_at 12 4 m)) OR hibit) = bytes_val m div 2 ^ 104 + uint hibit"
    "0 \<le> bytes_val m div 2 ^ 104" "bytes_val m div 2 ^ 104 < 2 ^ 24"
proof -
  have l: "uint (U8TO32 (bytes_at 0 4 m)) = bytes_val m div 2 ^ 0 mod 2 ^ 32" "uint (U8TO32 (bytes_at 3 4 m)) = bytes_val m div 2 ^ 24 mod 2 ^ 32"
    "uint (U8TO32 (bytes_at 6 4 m)) = bytes_val m div 2 ^ 48 mod 2 ^ 32" "uint (U8TO32 (bytes_at 9 4 m)) = bytes_val m div 2 ^ 72 mod 2 ^ 32"
    by (rule load_32; simp add: assms(1))+
  show "uint (U8TO32 (bytes_at 0 4 m) AND 0x3ffffff) = digit_26 (bytes_val m) 0"
    using shifted_digit [of 0 "bytes_val m" 0] unfolding uint_and_26 l digit_26_def by simp
  show "uint (drop_bit 2 (U8TO32 (bytes_at 3 4 m)) AND 0x3ffffff) = digit_26 (bytes_val m) 1"
    unfolding uint_and_26 uint_drop l digit_26_def by (subst shifted_digit) simp_all
  show "uint (drop_bit 4 (U8TO32 (bytes_at 6 4 m)) AND 0x3ffffff) = digit_26 (bytes_val m) 2"
    unfolding uint_and_26 uint_drop l digit_26_def by (subst shifted_digit) simp_all
  show "uint (drop_bit 6 (U8TO32 (bytes_at 9 4 m)) AND 0x3ffffff) = digit_26 (bytes_val m) 3"
    unfolding uint_and_26 uint_drop l digit_26_def by (subst shifted_digit) simp_all
  have N: "0 \<le> bytes_val m" "bytes_val m < 2 ^ 128" using bytes_val_nonneg bytes_val_bound [of m] assms(1) by simp_all
  show hi: "0 \<le> bytes_val m div 2 ^ 104" "bytes_val m div 2 ^ 104 < 2 ^ 24" using N by (simp_all add: pos_imp_zdiv_nonneg_iff)
  have "bytes_val m div 2 ^ 96 mod 2 ^ 32 = bytes_val m div 2 ^ 96" using N by (simp add: mod_pos_pos_trivial pos_imp_zdiv_nonneg_iff)
  then have v: "uint (drop_bit 8 (U8TO32 (bytes_at 12 4 m))) = bytes_val m div 2 ^ 104"
    unfolding uint_drop using assms(1) load_32 [of 12 m 96] by (simp add: zdiv_zmult2_eq [symmetric])
  define w where "w = drop_bit 8 (U8TO32 (bytes_at 12 4 m))"
  have "w AND push_bit 24 1 = 0"
    unfolding w_def by (rule bit_word_eqI) (simp only: bit_and_iff bit_push_bit_iff bit_drop_bit_eq bit_0_eq, auto simp: bit_1_iff dest: bit_imp_le_length)
  then have "w OR hibit = w + hibit" using assms(2) disjunctive_add_eq_or [of w hibit] by auto
  moreover have "uint hibit \<le> 2 ^ 24" using assms(2) by auto
  ultimately show "uint (drop_bit 8 (U8TO32 (bytes_at 12 4 m)) OR hibit) = bytes_val m div 2 ^ 104 + uint hibit"
    using hi unfolding w_def [symmetric] v [folded w_def, symmetric] by (simp add: uint_plus_32)
qed

section \<open>One block\<close>

definition p1305 :: int where
  "p1305 = 2 ^ 130 - 5"

definition limbs_26 :: "u32 list \<Rightarrow> int" where
  "limbs_26 h = uint (h ! 0) + 2 ^ 26 * uint (h ! 1) + 2 ^ 52 * uint (h ! 2) + 2 ^ 78 * uint (h ! 3) + 2 ^ 104 * uint (h ! 4)"

text \<open>What a block leaves in the accumulator, and what \<open>poly1305_init\<close> puts into the multiplier.\<close>

definition acc_ok :: "u32 list \<Rightarrow> bool" where
  "acc_ok h \<longleftrightarrow> length h = 5 \<and> uint (h ! 0) < 2 ^ 26 \<and> uint (h ! 1) < 2 ^ 26 + 64 \<and> uint (h ! 2) < 2 ^ 26 \<and> uint (h ! 3) < 2 ^ 26 \<and> uint (h ! 4) < 2 ^ 26"

definition mult_ok :: "u32 list \<Rightarrow> bool" where
  "mult_ok r \<longleftrightarrow> length r = 5 \<and> uint (r ! 0) < 2 ^ 26 \<and> uint (r ! 1) < 2 ^ 26 \<and> uint (r ! 2) < 2 ^ 26 \<and> uint (r ! 3) < 2 ^ 26 \<and> uint (r ! 4) < 2 ^ 26"

text \<open>The carries over integers.\<close>

lemma carries:
  fixes d0 d1 d2 d3 d4 :: int
  assumes "e1 = d1 + d0 div 2 ^ 26" "e2 = d2 + e1 div 2 ^ 26" "e3 = d3 + e2 div 2 ^ 26" "e4 = d4 + e3 div 2 ^ 26"
    "x = d0 mod 2 ^ 26 + (e4 div 2 ^ 26) * 5"
  shows "x mod 2 ^ 26 + 2 ^ 26 * (e1 mod 2 ^ 26 + x div 2 ^ 26) + 2 ^ 52 * (e2 mod 2 ^ 26) + 2 ^ 78 * (e3 mod 2 ^ 26) + 2 ^ 104 * (e4 mod 2 ^ 26)
    = d0 + 2 ^ 26 * d1 + 2 ^ 52 * d2 + 2 ^ 78 * d3 + 2 ^ 104 * d4 + p1305 * (- (e4 div 2 ^ 26))"
proof -
  define c0 c1 c2 c3 c4 cx where c: "c0 = d0 div 2 ^ 26" "c1 = e1 div 2 ^ 26" "c2 = e2 div 2 ^ 26" "c3 = e3 div 2 ^ 26" "c4 = e4 div 2 ^ 26" "cx = x div 2 ^ 26"
  have m: "d0 mod 2 ^ 26 = d0 - 2 ^ 26 * c0" "e1 mod 2 ^ 26 = e1 - 2 ^ 26 * c1" "e2 mod 2 ^ 26 = e2 - 2 ^ 26 * c2"
    "e3 mod 2 ^ 26 = e3 - 2 ^ 26 * c3" "e4 mod 2 ^ 26 = e4 - 2 ^ 26 * c4" "x mod 2 ^ 26 = x - 2 ^ 26 * cx"
    unfolding c by (simp_all only: minus_mult_div_eq_mod)
  show ?thesis unfolding m(2-6) c(5,6) [symmetric] using assms(5) unfolding m(1) c(5) [symmetric]
    using assms(1-4) unfolding c(1-4) [symmetric] by (simp add: p1305_def)
qed

lemma block_step:
  assumes h: "acc_ok [h0, h1, h2, h3, h4]" and r: "mult_ok [r0, r1, r2, r3, r4]"
    and m: "length m = 16" "hibit = 0 \<or> hibit = push_bit 24 1"
  shows "acc_ok (poly1305_block hibit [r0, r1, r2, r3, r4] m [h0, h1, h2, h3, h4])"
    "limbs_26 (poly1305_block hibit [r0, r1, r2, r3, r4] m [h0, h1, h2, h3, h4]) mod p1305
      = (limbs_26 [h0, h1, h2, h3, h4] + bytes_val m + 2 ^ 104 * uint hibit) * limbs_26 [r0, r1, r2, r3, r4] mod p1305"
proof -
  note L = message_limbs [OF m]
  define H0 H1 H2 H3 H4 where Hd: "H0 = h0 + (U8TO32 (bytes_at 0 4 m) AND 0x3ffffff)"
    "H1 = h1 + (drop_bit 2 (U8TO32 (bytes_at 3 4 m)) AND 0x3ffffff)"
    "H2 = h2 + (drop_bit 4 (U8TO32 (bytes_at 6 4 m)) AND 0x3ffffff)"
    "H3 = h3 + (drop_bit 6 (U8TO32 (bytes_at 9 4 m)) AND 0x3ffffff)"
    "H4 = h4 + (drop_bit 8 (U8TO32 (bytes_at 12 4 m)) OR hibit)"
  define n0 n1 n2 n3 n4 where n: "n0 = digit_26 (bytes_val m) 0" "n1 = digit_26 (bytes_val m) 1" "n2 = digit_26 (bytes_val m) 2"
    "n3 = digit_26 (bytes_val m) 3" "n4 = bytes_val m div 2 ^ 104 + uint hibit"
  have nb: "0 \<le> n0" "n0 < 2 ^ 26" "0 \<le> n1" "n1 < 2 ^ 26" "0 \<le> n2" "n2 < 2 ^ 26" "0 \<le> n3" "n3 < 2 ^ 26" "0 \<le> n4" "n4 \<le> 2 ^ 25"
    using L(6,7) m(2) unfolding n digit_26_def by auto
  have hb: "uint h0 < 2 ^ 26" "uint h1 < 2 ^ 26 + 64" "uint h2 < 2 ^ 26" "uint h3 < 2 ^ 26" "uint h4 < 2 ^ 26"
    using h by (simp_all add: acc_ok_def)
  have rb: "uint r0 < 2 ^ 26" "uint r1 < 2 ^ 26" "uint r2 < 2 ^ 26" "uint r3 < 2 ^ 26" "uint r4 < 2 ^ 26"
    using r by (simp_all add: mult_ok_def)
  have plus: "uint (a + b) = uint a + k" if "uint b = k" "uint a < 2 ^ 26 + 64" "k \<le> 2 ^ 26" for a b :: u32 and k
    using that uint_plus_32 [of a b] by simp
  have H: "uint H0 = uint h0 + n0" "uint H1 = uint h1 + n1" "uint H2 = uint h2 + n2" "uint H3 = uint h3 + n3" "uint H4 = uint h4 + n4"
    unfolding Hd using plus [OF L(1) [folded n]] plus [OF L(2) [folded n]] plus [OF L(3) [folded n]] plus [OF L(4) [folded n]]
      plus [OF L(5) [folded n]] hb nb by simp_all
  define s1 s2 s3 s4 where sd: "s1 = r1 * 5" "s2 = r2 * 5" "s3 = r3 * 5" "s4 = r4 * 5"
  have s: "uint s1 = uint r1 * 5" "uint s2 = uint r2 * 5" "uint s3 = uint r3 * 5" "uint s4 = uint r4 * 5"
    using rb unfolding sd by (simp_all add: uint_times_32)
  define A :: int where "A = 2 ^ 27 + 64"
  have Hb: "uint H0 \<le> A" "uint H1 \<le> A" "uint H2 \<le> A" "uint H3 \<le> A" "uint H4 \<le> A"
    using hb nb unfolding H A_def by simp_all
  define B :: int where "B = 5 * 2 ^ 26"
  have rs: "uint r0 \<le> B" "uint r1 \<le> B" "uint r2 \<le> B" "uint r3 \<le> B" "uint r4 \<le> B" "uint s1 \<le> B" "uint s2 \<le> B" "uint s3 \<le> B" "uint s4 \<le> B"
    using rb unfolding s B_def by simp_all
  have rl: "uint r0 \<le> 2 ^ 26" "uint r1 \<le> 2 ^ 26" "uint r2 \<le> 2 ^ 26" "uint r3 \<le> 2 ^ 26" "uint r4 \<le> 2 ^ 26" using rb by simp_all
  have AB: "5 * (A * B) < 2 ^ 64" "5 * (A * 2 ^ 26) < 2 ^ 64" by (simp_all add: A_def B_def)
  define d0 d1 d2 d3 d4 where dd:
    "d0 = u64_of H0 * u64_of r0 + u64_of H1 * u64_of s4 + u64_of H2 * u64_of s3 + u64_of H3 * u64_of s2 + u64_of H4 * u64_of s1"
    "d1 = u64_of H0 * u64_of r1 + u64_of H1 * u64_of r0 + u64_of H2 * u64_of s4 + u64_of H3 * u64_of s3 + u64_of H4 * u64_of s2"
    "d2 = u64_of H0 * u64_of r2 + u64_of H1 * u64_of r1 + u64_of H2 * u64_of r0 + u64_of H3 * u64_of s4 + u64_of H4 * u64_of s3"
    "d3 = u64_of H0 * u64_of r3 + u64_of H1 * u64_of r2 + u64_of H2 * u64_of r1 + u64_of H3 * u64_of r0 + u64_of H4 * u64_of s4"
    "d4 = u64_of H0 * u64_of r4 + u64_of H1 * u64_of r3 + u64_of H2 * u64_of r2 + u64_of H3 * u64_of r1 + u64_of H4 * u64_of r0"
  note P = products_64 [OF Hb _ _ _ _ _ AB(1)] and P4 = products_64 [OF Hb rl(5,4,3,2,1) AB(2)]
  note d = P(1) [OF rs(1,9,8,7,6), folded dd] P(1) [OF rs(2,1,9,8,7), folded dd] P(1) [OF rs(3,2,1,9,8), folded dd]
    P(1) [OF rs(4,3,2,1,9), folded dd] P4(1) [folded dd]
  have db: "uint d0 \<le> 5 * (A * B)" "uint d1 \<le> 5 * (A * B)" "uint d2 \<le> 5 * (A * B)" "uint d3 \<le> 5 * (A * B)" "uint d4 \<le> 5 * (A * 2 ^ 26)"
    unfolding d using P(2) [OF rs(1,9,8,7,6)] P(2) [OF rs(2,1,9,8,7)] P(2) [OF rs(3,2,1,9,8)] P(2) [OF rs(4,3,2,1,9)] P4(2) by blast+
  have AB58: "5 * (A * B) + 2 ^ 32 < 2 ^ 58" "5 * (A * 2 ^ 26) + 2 ^ 32 < 2 ^ 56" by (simp_all add: A_def B_def)
  define e1 where "e1 = d1 + u64_of (u32_of (drop_bit 26 d0))"
  define e2 where "e2 = d2 + u64_of (u32_of (drop_bit 26 e1))"
  define e3 where "e3 = d3 + u64_of (u32_of (drop_bit 26 e2))"
  define e4 where "e4 = d4 + u64_of (u32_of (drop_bit 26 e3))"
  define c4 where "c4 = u32_of (drop_bit 26 e4)"
  define x where "x = (u32_of d0 AND 0x3ffffff) + c4 * 5"
  have small: "uint (u64_of (w :: u32)) < 2 ^ 32" for w using uint_32 [of w] by simp
  have b0: "uint d0 < 2 ^ 58" using db(1) AB58(1) by simp
  have b1: "uint e1 < 2 ^ 58" "uint e1 = uint d1 + uint d0 div 2 ^ 26"
    using db(2) AB58(1) small [of "u32_of (drop_bit 26 d0)"] carry_26(1) [OF b0] uint_plus [of d1 "u64_of (u32_of (drop_bit 26 d0))"]
    unfolding e1_def uint_wide by simp_all
  have b2: "uint e2 < 2 ^ 58" "uint e2 = uint d2 + uint e1 div 2 ^ 26"
    using db(3) AB58(1) small [of "u32_of (drop_bit 26 e1)"] carry_26(1) [OF b1(1)] uint_plus [of d2 "u64_of (u32_of (drop_bit 26 e1))"]
    unfolding e2_def uint_wide by simp_all
  have b3: "uint e3 < 2 ^ 58" "uint e3 = uint d3 + uint e2 div 2 ^ 26"
    using db(4) AB58(1) small [of "u32_of (drop_bit 26 e2)"] carry_26(1) [OF b2(1)] uint_plus [of d3 "u64_of (u32_of (drop_bit 26 e2))"]
    unfolding e3_def uint_wide by simp_all
  have b4: "uint e4 \<le> 5 * (A * 2 ^ 26) + 2 ^ 32" "uint e4 = uint d4 + uint e3 div 2 ^ 26"
    using db(5) AB58(2) small [of "u32_of (drop_bit 26 e3)"] carry_26(1) [OF b3(1)] uint_plus [of d4 "u64_of (u32_of (drop_bit 26 e3))"]
    unfolding e4_def uint_wide by simp_all
  have b4': "uint e4 < 2 ^ 58" using b4(1) AB58(2) by simp
  have c4: "uint c4 = uint e4 div 2 ^ 26" unfolding c4_def by (rule carry_26(1) [OF b4'])
  have "uint e4 div 2 ^ 26 \<le> (5 * (A * 2 ^ 26) + 2 ^ 32) div 2 ^ 26" using b4(1) by (intro zdiv_mono1) simp_all
  then have c4b: "uint c4 \<le> 5 * A + 64" unfolding c4 by (simp add: A_def)
  have x0: "uint (c4 * 5) = uint c4 * 5" using c4b by (simp add: uint_times_32 A_def)
  have x: "uint x = uint d0 mod 2 ^ 26 + uint e4 div 2 ^ 26 * 5"
  proof -
    have "uint d0 mod 2 ^ 26 < 2 ^ 26" by simp
    then have "uint (u32_of d0 AND 0x3ffffff) + uint (c4 * 5) < 2 ^ 32"
      unfolding carry_26(2) [OF b0] x0 using c4b by (simp add: A_def)
    then show ?thesis unfolding x_def by (simp only: uint_plus_32 carry_26(2) [OF b0] x0 c4)
  qed
  have xd: "uint (drop_bit 26 x) < 64" unfolding uint_drop using uint_32(2) [of x] by simp
  have code: "poly1305_block hibit [r0, r1, r2, r3, r4] m [h0, h1, h2, h3, h4]
      = [x AND 0x3ffffff, (u32_of e1 AND 0x3ffffff) + drop_bit 26 x, u32_of e2 AND 0x3ffffff, u32_of e3 AND 0x3ffffff, u32_of e4 AND 0x3ffffff]"
    unfolding poly1305_block_def Let_def nth_Cons_0 nth_Cons_numeral pred_numeral_simps nth_Cons_Suc
      x_def c4_def e4_def e3_def e2_def e1_def dd sd Hd
    by simp
  have m1: "uint e1 mod 2 ^ 26 < 2 ^ 26" by simp
  have g: "uint (x AND 0x3ffffff) = uint x mod 2 ^ 26" "uint ((u32_of e1 AND 0x3ffffff) + drop_bit 26 x) = uint e1 mod 2 ^ 26 + uint x div 2 ^ 26"
    "uint (u32_of e2 AND 0x3ffffff) = uint e2 mod 2 ^ 26" "uint (u32_of e3 AND 0x3ffffff) = uint e3 mod 2 ^ 26"
    "uint (u32_of e4 AND 0x3ffffff) = uint e4 mod 2 ^ 26"
    using uint_plus_32 [of "u32_of e1 AND 0x3ffffff" "drop_bit 26 x"] xd m1
    by (simp_all only: uint_and_26 [of x] carry_26(2) [OF b1(1)] carry_26(2) [OF b2(1)] carry_26(2) [OF b3(1)] carry_26(2) [OF b4'] uint_drop) simp
  show "acc_ok (poly1305_block hibit [r0, r1, r2, r3, r4] m [h0, h1, h2, h3, h4])"
    using xd m1 unfolding code by (simp add: acc_ok_def g uint_drop)
  define HV RV where "HV = uint H0 + 2 ^ 26 * uint H1 + 2 ^ 52 * uint H2 + 2 ^ 78 * uint H3 + 2 ^ 104 * uint H4"
    and "RV = uint r0 + 2 ^ 26 * uint r1 + 2 ^ 52 * uint r2 + 2 ^ 78 * uint r3 + 2 ^ 104 * uint r4"
  define K where "K = (uint H1 * uint r4 + uint H2 * uint r3 + uint H3 * uint r2 + uint H4 * uint r1)
    + 2 ^ 26 * (uint H2 * uint r4 + uint H3 * uint r3 + uint H4 * uint r2) + 2 ^ 52 * (uint H3 * uint r4 + uint H4 * uint r3) + 2 ^ 78 * (uint H4 * uint r4)"
  have "HV * RV = uint d0 + 2 ^ 26 * uint d1 + 2 ^ 52 * uint d2 + 2 ^ 78 * uint d3 + 2 ^ 104 * uint d4 + p1305 * K"
    unfolding d s HV_def RV_def K_def p1305_def by (simp add: algebra_simps)
  moreover have "limbs_26 (poly1305_block hibit [r0, r1, r2, r3, r4] m [h0, h1, h2, h3, h4])
      = uint d0 + 2 ^ 26 * uint d1 + 2 ^ 52 * uint d2 + 2 ^ 78 * uint d3 + 2 ^ 104 * uint d4 + p1305 * (- (uint e4 div 2 ^ 26))"
    using carries [OF b1(2) b2(2) b3(2) b4(2) x] unfolding code limbs_26_def by (simp add: g del: mult_minus_right)
  ultimately have "limbs_26 (poly1305_block hibit [r0, r1, r2, r3, r4] m [h0, h1, h2, h3, h4]) = HV * RV + p1305 * (- (uint e4 div 2 ^ 26) - K)"
    by (simp add: algebra_simps)
  moreover have "HV = limbs_26 [h0, h1, h2, h3, h4] + bytes_val m + 2 ^ 104 * uint hibit"
    unfolding HV_def H limbs_26_def using digits_26 [of "bytes_val m"] by (simp add: n algebra_simps)
  moreover have "RV = limbs_26 [r0, r1, r2, r3, r4]" by (simp add: RV_def limbs_26_def)
  ultimately show "limbs_26 (poly1305_block hibit [r0, r1, r2, r3, r4] m [h0, h1, h2, h3, h4]) mod p1305
      = (limbs_26 [h0, h1, h2, h3, h4] + bytes_val m + 2 ^ 104 * uint hibit) * limbs_26 [r0, r1, r2, r3, r4] mod p1305"
    by (simp only: mod_mult_self2)
qed

end
