(* ===== verification/Poly1305_Mac.thy ===== *)
theory Poly1305_Mac
  imports Poly1305_Block
begin

text \<open>
  \<open>crypto/refc/poly1305-donna.c\<close> and the finish of \<open>poly1305-donna-32.h\<close> against the definition of
  Poly1305 over integers: the clamped key, the loop over whole blocks, the final carry, the masked
  subtraction of the prime, packing and the pad, and the buffering of partial blocks, for every way
  to cut the message into pieces.
\<close>


section \<open>The authenticator over integers\<close>

text \<open>The polynomial over the blocks, each with a one bit above its last byte; the last may be short.\<close>

function poly1305_acc :: "int \<Rightarrow> int \<Rightarrow> bytes \<Rightarrow> int" where
  "poly1305_acc r a m =
     (if m = [] then a
      else poly1305_acc r ((a + bytes_val (take 16 m) + 2 ^ (8 * length (take 16 m))) * r mod p1305) (drop 16 m))"
  by auto
termination
  by (relation "measure (\<lambda>(r, a, m). length m)") auto

declare poly1305_acc.simps [simp del]

definition poly1305_clamp :: "bytes \<Rightarrow> int" where
  "poly1305_clamp key = bytes_val (take 16 key) AND 0x0ffffffc0ffffffc0ffffffc0fffffff"

definition poly1305_spec :: "bytes \<Rightarrow> bytes \<Rightarrow> int" where
  "poly1305_spec key m = (poly1305_acc (poly1305_clamp key) 0 m + bytes_val (bytes_at 16 16 key)) mod 2 ^ 128"

lemma acc_Nil [simp]: "poly1305_acc r a [] = a"
  by (simp add: poly1305_acc.simps)

lemma acc_step:
  "16 \<le> length m \<Longrightarrow> poly1305_acc r a m = poly1305_acc r ((a + bytes_val (take 16 m) + 2 ^ 128) * r mod p1305) (drop 16 m)"
  by (subst poly1305_acc.simps) auto

lemma acc_append:
  "length m1 = 16 * n \<Longrightarrow> poly1305_acc r a (m1 @ m2) = poly1305_acc r (poly1305_acc r a m1) m2"
proof (induction n arbitrary: a m1)
  case (Suc n)
  have l: "16 \<le> length m1" "length (drop 16 m1) = 16 * n" using Suc.prems by auto
  then have "take 16 (m1 @ m2) = take 16 m1" "drop 16 (m1 @ m2) = drop 16 m1 @ m2" by simp_all
  then show ?case using acc_step [of m1 r a] acc_step [of "m1 @ m2" r a] Suc.IH [OF l(2)] l(1) by simp
qed simp

lemma acc_mod: "poly1305_acc r 0 m mod p1305 = poly1305_acc r 0 m"
proof -
  have "0 \<le> a \<and> a < p1305 \<Longrightarrow> 0 \<le> poly1305_acc r a m \<and> poly1305_acc r a m < p1305" for a
    by (induction r a m rule: poly1305_acc.induct) (subst (1 2) poly1305_acc.simps, simp add: p1305_def)
  from this [of 0] show ?thesis by (simp add: p1305_def mod_pos_pos_trivial)
qed

section \<open>The key\<close>

lemma digit_26_bits: "digit_26 n k = take_bit 26 (drop_bit (26 * k) n)"
  by (simp add: digit_26_def take_bit_eq_mod drop_bit_eq_div)

lemma and_low: "0 \<le> c \<Longrightarrow> c < 2 ^ 26 \<Longrightarrow> take_bit 26 n AND c = n AND c" for n c :: int
  by (metis take_bit_and take_bit_int_eq_self and.commute and.assoc take_bit_eq_mask and.idem)

lemma uint_and: "uint (a AND b) = uint a AND uint b" for a b :: u32
  by (rule unsigned_and_eq)

lemma init_key:
  assumes "length key = 32"
  shows "mult_ok (po_r (poly1305_init st key))" "limbs_26 (po_r (poly1305_init st key)) = poly1305_clamp key"
proof -
  define N where "N = bytes_val (take 16 key)"
  let ?M = "0x0ffffffc0ffffffc0ffffffc0fffffff :: int"
  have l: "uint (U8TO32 (bytes_at k 4 key)) = N div 2 ^ (8 * k) mod 2 ^ 32" if "k + 4 \<le> 16" for k
  proof -
    have "bytes_at k 4 key = bytes_at k 4 (take 16 key)" using that by (simp add: bytes_at_def drop_take min_def)
    then show ?thesis using load_32 [of k "take 16 key" "8 * k"] that assms by (simp add: N_def)
  qed
  have N: "0 \<le> N" "N < 2 ^ 128" using bytes_val_nonneg bytes_val_bound [of "take 16 key"] assms by (simp_all add: N_def)
  have low: "uint (U8TO32 (bytes_at k 4 key)) div 2 ^ b AND c = digit_26 (N AND ?M) i"
    if "k + 4 \<le> 16" "b \<le> 6" "8 * k + b = 26 * i" "digit_26 ?M i = c" for k b i c
  proof -
    have c: "0 \<le> c" "c < 2 ^ 26" using that(4) by (auto simp: digit_26_def)
    have "uint (U8TO32 (bytes_at k 4 key)) div 2 ^ b mod 2 ^ 26 = digit_26 N i"
      unfolding l [OF that(1)] shifted_digit [OF that(2)] that(3) digit_26_def by (rule refl)
    then have "digit_26 N i AND c = uint (U8TO32 (bytes_at k 4 key)) div 2 ^ b AND c"
      using and_low [OF c, of "uint (U8TO32 (bytes_at k 4 key)) div 2 ^ b"] by (simp only: take_bit_eq_mod)
    then show ?thesis by (simp only: digit_26_bits take_bit_and drop_bit_and that(4) [symmetric])
  qed
  have M: "digit_26 ?M 0 = 0x3ffffff" "digit_26 ?M 1 = 0x3ffff03" "digit_26 ?M 2 = 0x3ffc0ff" "digit_26 ?M 3 = 0x3f03fff" "digit_26 ?M 4 = 0x00fffff"
    by (simp_all add: digit_26_def)
  have "N div 2 ^ 96 mod 2 ^ 32 = N div 2 ^ 96" using N by (simp add: mod_pos_pos_trivial pos_imp_zdiv_nonneg_iff)
  then have "uint (U8TO32 (bytes_at 12 4 key)) div 2 ^ 8 = N div 2 ^ 104" using l [of 12] by (simp add: zdiv_zmult2_eq [symmetric])
  moreover have "N div 2 ^ 104 = digit_26 N 4" using N by (simp add: digit_26_def mod_pos_pos_trivial pos_imp_zdiv_nonneg_iff)
  ultimately have r4: "uint (U8TO32 (bytes_at 12 4 key)) div 2 ^ 8 AND 0x00fffff = digit_26 (N AND ?M) 4"
    by (simp only: digit_26_bits take_bit_and drop_bit_and M(5) [unfolded digit_26_bits])
  let ?r = "po_r (poly1305_init st key)"
  have r: "uint (?r ! 0) = digit_26 (N AND ?M) 0" "uint (?r ! 1) = digit_26 (N AND ?M) 1" "uint (?r ! 2) = digit_26 (N AND ?M) 2"
    "uint (?r ! 3) = digit_26 (N AND ?M) 3" "uint (?r ! 4) = digit_26 (N AND ?M) 4"
    using low [of 0 0 0, OF _ _ _ M(1)] low [of 3 2 1, OF _ _ _ M(2)] low [of 6 4 2, OF _ _ _ M(3)] low [of 9 6 3, OF _ _ _ M(4)] r4
    by (simp_all add: poly1305_init_def unsigned_and_eq uint_drop)
  have d: "0 \<le> digit_26 n k" "digit_26 n k < 2 ^ 26" for n k by (simp_all add: digit_26_def)
  show "mult_ok ?r" unfolding mult_ok_def r using d by (simp add: poly1305_init_def)
  have "0 \<le> N AND ?M" "N AND ?M \<le> ?M" by (simp_all add: AND_upper2)
  moreover from this have "(N AND ?M) div 2 ^ 104 \<le> ?M div 2 ^ 104" by (intro zdiv_mono1) simp_all
  ultimately have "(N AND ?M) div 2 ^ 104 < 2 ^ 26" "0 \<le> (N AND ?M) div 2 ^ 104" by (simp_all add: pos_imp_zdiv_nonneg_iff)
  then have "(N AND ?M) div 2 ^ 104 = digit_26 (N AND ?M) 4" by (simp add: digit_26_def mod_pos_pos_trivial)
  then show "limbs_26 ?r = poly1305_clamp key"
    unfolding limbs_26_def r poly1305_clamp_def N_def [symmetric] using digits_26 [of "N AND ?M"] by simp
qed

section \<open>Blocks\<close>

lemma block:
  assumes "acc_ok h" "mult_ok r" "length m = 16" "hibit = 0 \<or> hibit = push_bit 24 1"
  shows "acc_ok (poly1305_block hibit r m h)"
    "limbs_26 (poly1305_block hibit r m h) mod p1305 = (limbs_26 h + bytes_val m + 2 ^ 104 * uint hibit) * limbs_26 r mod p1305"
proof -
  have five: "\<exists>a b c d e. xs = [a, b, c, d, e]" if "length xs = 5" for xs :: "u32 list"
    using that by (auto simp: length_Suc_conv numeral_eq_Suc)
  have "length h = 5" "length r = 5" using assms(1,2) by (simp_all add: acc_ok_def mult_ok_def)
  then obtain h0 h1 h2 h3 h4 r0 r1 r2 r3 r4 where e: "h = [h0, h1, h2, h3, h4]" "r = [r0, r1, r2, r3, r4]" using five by metis
  show "acc_ok (poly1305_block hibit r m h)"
    "limbs_26 (poly1305_block hibit r m h) mod p1305 = (limbs_26 h + bytes_val m + 2 ^ 104 * uint hibit) * limbs_26 r mod p1305"
    using block_step [OF assms(1,2) [unfolded e] assms(3,4)] unfolding e by blast+
qed

lemma mod_step: "a mod p1305 = b mod p1305 \<Longrightarrow> (a + k + l) * r mod p1305 = (b + k + l) * r mod p1305"
  by (metis mod_add_left_eq mod_mult_left_eq)

lemma blocks_loop:
  "length m = 16 * n \<Longrightarrow> acc_ok h \<Longrightarrow> mult_ok r \<Longrightarrow> limbs_26 h mod p1305 = a mod p1305 \<Longrightarrow>
   acc_ok (poly1305_blocks_loop (push_bit 24 1) r m h)
   \<and> limbs_26 (poly1305_blocks_loop (push_bit 24 1) r m h) mod p1305 = poly1305_acc (limbs_26 r) a m mod p1305"
proof (induction n arbitrary: m h a)
  case 0
  then show ?case by (subst (1 2) poly1305_blocks_loop.simps) simp
next
  case (Suc n)
  let ?h = "poly1305_block (push_bit 24 1) r (take 16 m) h" and ?a = "(a + bytes_val (take 16 m) + 2 ^ 128) * limbs_26 r mod p1305"
  have l: "16 \<le> length m" "length (take 16 m) = 16" "length (drop 16 m) = 16 * n" using Suc.prems(1) by auto
  have hib: "2 ^ 104 * uint (push_bit 24 1 :: u32) = 2 ^ 128" by simp
  have b: "acc_ok ?h" "limbs_26 ?h mod p1305 = ?a mod p1305"
    using block [OF Suc.prems(2,3) l(2), of "push_bit 24 1"] mod_step [OF Suc.prems(4)] unfolding hib by simp_all
  have "poly1305_blocks_loop (push_bit 24 1) r m h = poly1305_blocks_loop (push_bit 24 1) r (drop 16 m) ?h"
    using l(1) by (subst poly1305_blocks_loop.simps) simp
  then show ?case using Suc.IH [OF l(3) b(1) Suc.prems(3) b(2)] acc_step [OF l(1)] by simp
qed

section \<open>Finishing\<close>

definition acc_reduced :: "u32 list \<Rightarrow> bool" where
  "acc_reduced h \<longleftrightarrow> length h = 5 \<and> (\<forall>i < 5. uint (h ! i) < 2 ^ 26)"

lemma acc_reducedD:
  "acc_reduced h \<Longrightarrow> length h = 5 \<and> uint (h ! 0) < 2 ^ 26 \<and> uint (h ! 1) < 2 ^ 26 \<and> uint (h ! 2) < 2 ^ 26 \<and> uint (h ! 3) < 2 ^ 26 \<and> uint (h ! 4) < 2 ^ 26"
  by (simp add: acc_reduced_def)

lemma carry_small:
  fixes a :: int
  assumes "0 \<le> a" "a < 2 ^ 27"
  shows "a div 2 ^ 26 = (if a < 2 ^ 26 then 0 else 1)"
  using assms by auto

lemma limbs_26_Cons:
  "limbs_26 [a, b, c, d, e] = uint a + 2 ^ 26 * uint b + 2 ^ 52 * uint c + 2 ^ 78 * uint d + 2 ^ 104 * uint e"
  by (simp add: limbs_26_def)

lemma poly1305_carry:
  assumes "acc_ok h"
  shows "acc_reduced (poly1305_carry h)" "limbs_26 (poly1305_carry h) mod p1305 = limbs_26 h mod p1305"
proof -
  define k1 where "k1 = h ! 1"
  define k2 where "k2 = h ! 2 + drop_bit 26 k1"
  define k3 where "k3 = h ! 3 + drop_bit 26 k2"
  define k4 where "k4 = h ! 4 + drop_bit 26 k3"
  define k0 where "k0 = h ! 0 + drop_bit 26 k4 * 5"
  have b: "uint (h ! 0) < 2 ^ 26" "uint k1 < 2 ^ 26 + 64" "uint (h ! 2) < 2 ^ 26" "uint (h ! 3) < 2 ^ 26" "uint (h ! 4) < 2 ^ 26"
    using assms by (simp_all add: acc_ok_def k1_def)
  have c: "uint (drop_bit 26 w) = (if uint w < 2 ^ 26 then 0 else 1)" if "uint w < 2 ^ 27" for w :: u32
    unfolding uint_drop using carry_small [OF uint_32(1) that] .
  have c1: "uint (drop_bit 26 k1) = (if uint k1 < 2 ^ 26 then 0 else 1)" using b(2) by (intro c) simp
  have u2: "uint k2 = uint (h ! 2) + uint (drop_bit 26 k1)" unfolding k2_def using b(3) c1 by (intro uint_plus_32) auto
  have c2: "uint (drop_bit 26 k2) = (if uint k2 < 2 ^ 26 then 0 else 1)" using b(3) c1 u2 by (intro c) auto
  have u3: "uint k3 = uint (h ! 3) + uint (drop_bit 26 k2)" unfolding k3_def using b(4) c2 by (intro uint_plus_32) auto
  have c3: "uint (drop_bit 26 k3) = (if uint k3 < 2 ^ 26 then 0 else 1)" using b(4) c2 u3 by (intro c) auto
  have u4: "uint k4 = uint (h ! 4) + uint (drop_bit 26 k3)" unfolding k4_def using b(5) c3 by (intro uint_plus_32) auto
  have c4: "uint (drop_bit 26 k4) = (if uint k4 < 2 ^ 26 then 0 else 1)" using b(5) c3 u4 by (intro c) auto
  have f: "uint (drop_bit 26 k4 * 5) = uint (drop_bit 26 k4) * 5" using c4 by (subst uint_times_32) auto
  have u0: "uint k0 = uint (h ! 0) + uint (drop_bit 26 k4) * 5" unfolding k0_def f [symmetric] using b(1) c4 f by (intro uint_plus_32) auto
  have c0: "uint (drop_bit 26 k0) = (if uint k0 < 2 ^ 26 then 0 else 1)" using b(1) c4 u0 by (intro c) auto
  have code: "poly1305_carry h = [k0 AND 0x3ffffff, (k1 AND 0x3ffffff) + drop_bit 26 k0, k2 AND 0x3ffffff, k3 AND 0x3ffffff, k4 AND 0x3ffffff]"
    unfolding poly1305_carry_def Let_def k0_def k4_def k3_def k2_def k1_def by (rule refl)
  have m: "uint w mod 2 ^ 26 = uint w - 2 ^ 26 * uint (drop_bit 26 w)" for w :: u32 unfolding uint_drop by (simp only: minus_mult_div_eq_mod)
  have small: "uint (k1 AND 0x3ffffff) + uint (drop_bit 26 k0) < 2 ^ 26"
    unfolding uint_and_26 m using b c0 c1 c2 c3 c4 u0 u2 u3 u4 by (auto split: if_splits)
  then have s: "uint ((k1 AND 0x3ffffff) + drop_bit 26 k0) = uint (k1 AND 0x3ffffff) + uint (drop_bit 26 k0)" by (intro uint_plus_32) simp
  show "acc_reduced (poly1305_carry h)"
    unfolding acc_reduced_def code using small s by (auto simp: uint_and_26 less_Suc_eq numeral_eq_Suc)
  have "limbs_26 (poly1305_carry h) = limbs_26 h + p1305 * (- uint (drop_bit 26 k4))"
    unfolding code limbs_26_Cons s uint_and_26 m unfolding u0 u2 u3 u4 by (simp add: p1305_def limbs_26_def k1_def)
  then show "limbs_26 (poly1305_carry h) mod p1305 = limbs_26 h mod p1305" by (simp only: mod_mult_self2)
qed

lemma limbs_26_bound:
  assumes "acc_reduced h"
  shows "0 \<le> limbs_26 h" "limbs_26 h < 2 ^ 130"
  using acc_reducedD [OF assms] uint_32(1) [of "h ! 0"] uint_32(1) [of "h ! 1"] uint_32(1) [of "h ! 2"] uint_32(1) [of "h ! 3"] uint_32(1) [of "h ! 4"]
  unfolding limbs_26_def by simp_all

lemma poly1305_select:
  assumes "acc_reduced h"
  shows "acc_reduced (poly1305_select h)" "limbs_26 (poly1305_select h) = limbs_26 h mod p1305"
proof -
  define g0 where "g0 = h ! 0 + 5"
  define g1 where "g1 = h ! 1 + drop_bit 26 g0"
  define g2 where "g2 = h ! 2 + drop_bit 26 g1"
  define g3 where "g3 = h ! 3 + drop_bit 26 g2"
  define t where "t = h ! 4 + drop_bit 26 g3"
  define g4 where "g4 = t - push_bit 26 1"
  note b = acc_reducedD [OF assms]
  have c: "uint (drop_bit 26 w) = (if uint w < 2 ^ 26 then 0 else 1)" if "uint w < 2 ^ 27" for w :: u32
    unfolding uint_drop using carry_small [OF uint_32(1) that] .
  have u0: "uint g0 = uint (h ! 0) + 5" unfolding g0_def using b uint_plus_32 [of "h ! 0" 5] by simp
  have c0: "uint (drop_bit 26 g0) = (if uint g0 < 2 ^ 26 then 0 else 1)" using b u0 by (intro c) auto
  have u1: "uint g1 = uint (h ! 1) + uint (drop_bit 26 g0)" unfolding g1_def using b c0 by (intro uint_plus_32) auto
  have c1: "uint (drop_bit 26 g1) = (if uint g1 < 2 ^ 26 then 0 else 1)" using b c0 u1 by (intro c) auto
  have u2: "uint g2 = uint (h ! 2) + uint (drop_bit 26 g1)" unfolding g2_def using b c1 by (intro uint_plus_32) auto
  have c2: "uint (drop_bit 26 g2) = (if uint g2 < 2 ^ 26 then 0 else 1)" using b c1 u2 by (intro c) auto
  have u3: "uint g3 = uint (h ! 3) + uint (drop_bit 26 g2)" unfolding g3_def using b c2 by (intro uint_plus_32) auto
  have c3: "uint (drop_bit 26 g3) = (if uint g3 < 2 ^ 26 then 0 else 1)" using b c2 u3 by (intro c) auto
  have u4: "uint t = uint (h ! 4) + uint (drop_bit 26 g3)" unfolding t_def using b c3 by (intro uint_plus_32) auto
  define m1 where "m1 = drop_bit 31 g4 - 1"
  have code: "poly1305_select h = [h ! 0 AND NOT m1 OR (g0 AND 0x3ffffff) AND m1, h ! 1 AND NOT m1 OR (g1 AND 0x3ffffff) AND m1,
      h ! 2 AND NOT m1 OR (g2 AND 0x3ffffff) AND m1, h ! 3 AND NOT m1 OR (g3 AND 0x3ffffff) AND m1, h ! 4 AND NOT m1 OR g4 AND m1]"
    unfolding poly1305_select_def Let_def m1_def g4_def t_def g3_def g2_def g1_def g0_def by (rule refl)
  have m: "uint w mod 2 ^ 26 = uint w - 2 ^ 26 * uint (drop_bit 26 w)" for w :: u32 unfolding uint_drop by (simp only: minus_mult_div_eq_mod)
  have sum: "limbs_26 h + 5 = uint g0 mod 2 ^ 26 + 2 ^ 26 * (uint g1 mod 2 ^ 26) + 2 ^ 52 * (uint g2 mod 2 ^ 26) + 2 ^ 78 * (uint g3 mod 2 ^ 26) + 2 ^ 104 * uint t"
    unfolding m unfolding u0 u1 u2 u3 u4 by (simp add: limbs_26_def)
  have mb: "0 \<le> uint w mod 2 ^ 26" "uint w mod 2 ^ 26 < 2 ^ 26" for w :: u32 by simp_all
  show "acc_reduced (poly1305_select h)" "limbs_26 (poly1305_select h) = limbs_26 h mod p1305"
  proof (atomize (full), cases "uint t < 2 ^ 26")
    case True
    have "uint g4 = uint t - 2 ^ 26 + 2 ^ 32"
    proof -
      have "uint g4 = (uint t - 2 ^ 26) mod 2 ^ 32" unfolding g4_def by (simp add: uint_word_ariths(2))
      also have "\<dots> = (uint t - 2 ^ 26 + 2 ^ 32) mod 2 ^ 32" by (rule mod_add_self2 [symmetric])
      also have "\<dots> = uint t - 2 ^ 26 + 2 ^ 32" using True uint_32(1) [of t] by (intro mod_pos_pos_trivial) simp_all
      finally show ?thesis .
    qed
    then have "uint g4 div 2 ^ 31 = 1"
      using True uint_32(1) [of t] by (intro int_div_pos_eq [of _ _ _ "uint t - 2 ^ 26 + 2 ^ 31"]) simp_all
    then have "uint (drop_bit 31 g4) = 1" by (simp only: uint_drop)
    then have "drop_bit 31 g4 = 1" by (metis uint_1_eq word_uint_eqI)
    then have z: "m1 = 0" by (simp add: m1_def)
    have "poly1305_select h = [h ! 0, h ! 1, h ! 2, h ! 3, h ! 4]" unfolding code z by simp
    moreover have "limbs_26 h < p1305" using sum True mb [of g0] mb [of g1] mb [of g2] mb [of g3] by (simp add: p1305_def)
    ultimately show "acc_reduced (poly1305_select h) \<and> limbs_26 (poly1305_select h) = limbs_26 h mod p1305"
      using limbs_26_bound(1) [OF assms] b
      by (simp add: acc_reduced_def limbs_26_Cons mod_pos_pos_trivial) (auto simp: limbs_26_def less_Suc_eq numeral_eq_Suc)
  next
    case False
    then have t: "uint t = 2 ^ 26" using u4 c3 b by (auto split: if_splits)
    then have "t = push_bit 26 1" by (intro word_uint_eqI) simp
    then have z: "g4 = 0" "m1 = - 1" by (simp_all add: g4_def m1_def)
    have e: "poly1305_select h = [g0 AND 0x3ffffff, g1 AND 0x3ffffff, g2 AND 0x3ffffff, g3 AND 0x3ffffff, 0]" unfolding code z by simp
    have v: "limbs_26 (poly1305_select h) = limbs_26 h - p1305"
      unfolding e limbs_26_Cons uint_and_26 using sum t by (simp add: p1305_def)
    have "0 \<le> limbs_26 (poly1305_select h)" unfolding limbs_26_def by simp
    then have "0 \<le> limbs_26 h - p1305" "limbs_26 h - p1305 < p1305"
      using v limbs_26_bound(2) [OF assms] by (simp_all add: p1305_def)
    then have "(limbs_26 h - p1305) mod p1305 = limbs_26 h - p1305" by (rule mod_pos_pos_trivial)
    then have "limbs_26 h mod p1305 = limbs_26 h - p1305" by simp
    then show "acc_reduced (poly1305_select h) \<and> limbs_26 (poly1305_select h) = limbs_26 h mod p1305"
      using v unfolding e acc_reduced_def by (auto simp: uint_and_26 less_Suc_eq numeral_eq_Suc)
  qed
qed

lemma int_or_shift:
  fixes x :: int
  assumes "0 \<le> x" "x < 2 ^ k"
  shows "x OR push_bit k y = x + 2 ^ k * y"
proof -
  have "take_bit k x = x" using assms by (simp add: take_bit_int_eq_self)
  then have low: "n < k" if "bit x n" for n using that by (metis bit_take_bit_iff)
  have "x AND push_bit k y = 0"
    by (intro bit_eqI) (auto simp: bit_and_iff bit_push_bit_iff dest: low)
  then have "x OR push_bit k y = x + push_bit k y" by (rule disjunctive_add_eq_or [symmetric])
  then show ?thesis by (simp add: push_bit_eq_mult mult.commute)
qed

lemma div_small: "n < c * d \<Longrightarrow> 0 < c \<Longrightarrow> n div c < d" for n c d :: int
proof (rule ccontr)
  assume a: "n < c * d" "0 < c" "\<not> n div c < d"
  then have "c * d \<le> c * (n div c)" by simp
  then show False using a(1) pos_mod_sign [OF a(2), of n] mult_div_mod_eq [of c n] by linarith
qed

lemma poly1305_pack:
  assumes "acc_reduced h"
  shows "length (poly1305_pack h) = 4" "limbs_val (poly1305_pack h) = limbs_26 h mod 2 ^ 128"
proof -
  note b = acc_reducedD [OF assms]
  have full: "w AND 0xffffffff = w" for w :: u32
  proof -
    have "(0xffffffff :: u32) = - 1" by simp
    then show ?thesis by (simp only: and.right_neutral)
  qed
  have low: "uint (push_bit k w :: u32) = 2 ^ k * (uint w mod 2 ^ (32 - k))" if "k \<le> 32" for w k
  proof -
    have "uint (push_bit k w) = take_bit 32 (push_bit k (uint w))" by (simp add: unsigned_push_bit_eq)
    also have "\<dots> = push_bit k (take_bit (32 - k) (uint w))"
      using that by (auto intro!: bit_eqI simp: bit_simps)
    finally show ?thesis by (simp add: push_bit_eq_mult take_bit_eq_mod mult.commute)
  qed
  have join: "uint (drop_bit j a OR push_bit k w :: u32) = uint a div 2 ^ j + 2 ^ k * (uint w mod 2 ^ (32 - k))"
    if "uint a div 2 ^ j < 2 ^ k" "k \<le> 32" for a w j k
  proof -
    have "uint (drop_bit j a OR push_bit k w) = uint a div 2 ^ j OR push_bit k (uint w mod 2 ^ (32 - k))"
      unfolding unsigned_or_eq uint_drop low [OF that(2)] by (simp add: push_bit_eq_mult mult.commute)
    also have "\<dots> = uint a div 2 ^ j + 2 ^ k * (uint w mod 2 ^ (32 - k))"
      by (rule int_or_shift) (use that(1) in \<open>simp_all add: pos_imp_zdiv_nonneg_iff\<close>)
    finally show ?thesis .
  qed
  show "length (poly1305_pack h) = 4" by (simp add: poly1305_pack_def Let_def)
  have sm: "uint (h ! 0) div 2 ^ 0 < 2 ^ 26" "uint (h ! 1) div 2 ^ 6 < 2 ^ 20" "uint (h ! 2) div 2 ^ 12 < 2 ^ 14" "uint (h ! 3) div 2 ^ 18 < 2 ^ 8"
    using b by (auto intro!: div_small)
  have w: "uint (drop_bit 0 (h ! 0) OR push_bit 26 (h ! 1)) = uint (h ! 0) + 2 ^ 26 * (uint (h ! 1) mod 2 ^ 6)"
    "uint (drop_bit 6 (h ! 1) OR push_bit 20 (h ! 2)) = uint (h ! 1) div 2 ^ 6 + 2 ^ 20 * (uint (h ! 2) mod 2 ^ 12)"
    "uint (drop_bit 12 (h ! 2) OR push_bit 14 (h ! 3)) = uint (h ! 2) div 2 ^ 12 + 2 ^ 14 * (uint (h ! 3) mod 2 ^ 18)"
    "uint (drop_bit 18 (h ! 3) OR push_bit 8 (h ! 4)) = uint (h ! 3) div 2 ^ 18 + 2 ^ 8 * (uint (h ! 4) mod 2 ^ 24)"
    using join [OF sm(1), of "h ! 1"] join [OF sm(2), of "h ! 2"] join [OF sm(3), of "h ! 3"] join [OF sm(4), of "h ! 4"]
    by (simp_all del: drop_bit_numeral_bit0 drop_bit_numeral_bit1)
  define a0 a1 a2 a3 a4 where ad: "a0 = uint (h ! 0)" "a1 = uint (h ! 1)" "a2 = uint (h ! 2)" "a3 = uint (h ! 3)" "a4 = uint (h ! 4)"
  have p: "limbs_val (poly1305_pack h) = (a0 + 2 ^ 26 * (a1 mod 2 ^ 6)) + 2 ^ 32 * ((a1 div 2 ^ 6 + 2 ^ 20 * (a2 mod 2 ^ 12))
      + 2 ^ 32 * ((a2 div 2 ^ 12 + 2 ^ 14 * (a3 mod 2 ^ 18)) + 2 ^ 32 * (a3 div 2 ^ 18 + 2 ^ 8 * (a4 mod 2 ^ 24))))"
    unfolding poly1305_pack_def Let_def full limbs_val.simps w [unfolded drop_bit_0 id_apply] ad by simp
  have d: "a1 = 2 ^ 6 * (a1 div 2 ^ 6) + a1 mod 2 ^ 6" "a2 = 2 ^ 12 * (a2 div 2 ^ 12) + a2 mod 2 ^ 12" "a3 = 2 ^ 18 * (a3 div 2 ^ 18) + a3 mod 2 ^ 18"
    "a4 = 2 ^ 24 * (a4 div 2 ^ 24) + a4 mod 2 ^ 24" by simp_all
  define q1 m1 q2 m2 q3 m3 q4 m4 where q: "q1 = a1 div 2 ^ 6" "m1 = a1 mod 2 ^ 6" "q2 = a2 div 2 ^ 12" "m2 = a2 mod 2 ^ 12" "q3 = a3 div 2 ^ 18"
    "m3 = a3 mod 2 ^ 18" "q4 = a4 div 2 ^ 24" "m4 = a4 mod 2 ^ 24"
  have "limbs_26 h = limbs_val (poly1305_pack h) + 2 ^ 128 * q4"
    using d unfolding p limbs_26_def ad [symmetric] q [symmetric] by simp
  moreover have "0 \<le> limbs_val (poly1305_pack h)" "limbs_val (poly1305_pack h) < 2 ^ 128"
    using limbs_val_bounds [of "poly1305_pack h"] by (simp_all add: poly1305_pack_def Let_def)
  ultimately show "limbs_val (poly1305_pack h) = limbs_26 h mod 2 ^ 128" by (simp add: mod_pos_pos_trivial)
qed

lemma poly1305_add_pad:
  assumes "length h = 4" "length pad = 4"
  shows "length (poly1305_add_pad pad h) = 4" "limbs_val (poly1305_add_pad pad h) = (limbs_val h + limbs_val pad) mod 2 ^ 128"
proof -
  define f0 where "f0 = u64_of (h ! 0) + u64_of (pad ! 0)"
  define f1 where "f1 = u64_of (h ! 1) + u64_of (pad ! 1) + drop_bit 32 f0"
  define f2 where "f2 = u64_of (h ! 2) + u64_of (pad ! 2) + drop_bit 32 f1"
  define f3 where "f3 = u64_of (h ! 3) + u64_of (pad ! 3) + drop_bit 32 f2"
  have code: "poly1305_add_pad pad h = [u32_of f0, u32_of f1, u32_of f2, u32_of f3]"
    unfolding poly1305_add_pad_def Let_def f3_def f2_def f1_def f0_def by (rule refl)
  show len: "length (poly1305_add_pad pad h) = 4" by (simp add: code)
  have d32: "uint (drop_bit 32 t) < 2 ^ 32" for t :: u64 unfolding uint_drop using uint_lt2p [of t] by simp
  have s2: "uint (u64_of a + u64_of b) = uint a + uint b" for a b :: u32
    using uint_32(2) [of a] uint_32(2) [of b] by (simp add: uint_plus)
  have s3: "uint (u64_of a + u64_of b + drop_bit 32 t) = uint a + uint b + uint (drop_bit 32 t)" for a b :: u32 and t
    using uint_32(2) [of a] uint_32(2) [of b] d32 [of t] uint_plus [of "u64_of a + u64_of b" "drop_bit 32 t"] unfolding s2 by simp
  have m: "uint (u32_of t) = uint t - 2 ^ 32 * uint (drop_bit 32 t)" for t :: u64
  proof -
    have "uint (u32_of t) = uint t mod 2 ^ 32" by (simp add: unsigned_ucast_eq take_bit_eq_mod)
    then show ?thesis unfolding uint_drop by (simp only: minus_mult_div_eq_mod)
  qed
  have four: "\<exists>a b c d. xs = [a, b, c, d]" if "length xs = 4" for xs :: "u32 list"
    using that by (auto simp: length_Suc_conv numeral_eq_Suc)
  have v: "limbs_val xs = uint (xs ! 0) + 2 ^ 32 * (uint (xs ! 1) + 2 ^ 32 * (uint (xs ! 2) + 2 ^ 32 * uint (xs ! 3)))" if "length xs = 4" for xs
    using four [OF that] by auto
  have u: "uint f0 = uint (h ! 0) + uint (pad ! 0)" "uint f1 = uint (h ! 1) + uint (pad ! 1) + uint (drop_bit 32 f0)"
    "uint f2 = uint (h ! 2) + uint (pad ! 2) + uint (drop_bit 32 f1)" "uint f3 = uint (h ! 3) + uint (pad ! 3) + uint (drop_bit 32 f2)"
    unfolding f0_def f1_def f2_def f3_def by (rule s2 s3)+
  have "limbs_val (poly1305_add_pad pad h) = limbs_val h + limbs_val pad - 2 ^ 128 * uint (drop_bit 32 f3)"
    unfolding v [OF assms(1)] v [OF assms(2)] unfolding code limbs_val.simps m unfolding u by simp
  then have "limbs_val h + limbs_val pad = limbs_val (poly1305_add_pad pad h) + 2 ^ 128 * uint (drop_bit 32 f3)" by simp
  moreover have "0 \<le> limbs_val (poly1305_add_pad pad h)" "limbs_val (poly1305_add_pad pad h) < 2 ^ 128"
    using limbs_val_bounds [of "poly1305_add_pad pad h"] by (simp_all add: len)
  ultimately show "limbs_val (poly1305_add_pad pad h) = (limbs_val h + limbs_val pad) mod 2 ^ 128" by (simp add: mod_pos_pos_trivial)
qed

section \<open>Streaming\<close>

text \<open>A context that has taken the message \<open>F @ L\<close>: whole blocks are in the accumulator, the rest is buffered.\<close>

definition blocks_taken :: "u32 list \<Rightarrow> u32 list \<Rightarrow> poly1305_state_internal_t \<Rightarrow> bytes \<Rightarrow> bool" where
  "blocks_taken r pad st F \<longleftrightarrow> po_r st = r \<and> po_pad st = pad \<and> \<not> po_final st \<and> length (po_buffer st) = 16 \<and> 16 dvd length F
     \<and> acc_ok (po_h st) \<and> limbs_26 (po_h st) mod p1305 = poly1305_acc (limbs_26 r) 0 F mod p1305"

definition bytes_taken :: "u32 list \<Rightarrow> u32 list \<Rightarrow> poly1305_state_internal_t \<Rightarrow> bytes \<Rightarrow> bool" where
  "bytes_taken r pad st M \<longleftrightarrow> (\<exists>F L. M = F @ L \<and> blocks_taken r pad st F \<and> length L < 16 \<and> po_leftover st = length L
     \<and> take (length L) (po_buffer st) = L)"

lemma blocks_taken_blocks:
  assumes "blocks_taken r pad st F" "mult_ok r" "16 dvd length m"
  shows "blocks_taken r pad (poly1305_blocks st m) (F @ m)"
proof -
  obtain k n where l: "length F = 16 * k" "length m = 16 * n" using assms(1,3) by (auto simp: blocks_taken_def dvd_def)
  show ?thesis
    using assms(1) blocks_loop [OF l(2) _ assms(2), of "po_h st" "poly1305_acc (limbs_26 r) 0 F"] acc_append [OF l(1), of "limbs_26 r" 0 m] l
    by (simp add: blocks_taken_def poly1305_blocks_def)
qed

lemma blocks_leftover [simp]: "po_leftover (poly1305_blocks st m) = po_leftover st" "po_buffer (poly1305_blocks st m) = po_buffer st"
  by (simp_all add: poly1305_blocks_def)

lemma blocks_taken_buffer [simp]:
  "blocks_taken r pad (st\<lparr>po_leftover := k\<rparr>) F \<longleftrightarrow> blocks_taken r pad st F"
  "length b = 16 \<Longrightarrow> blocks_taken r pad st F \<Longrightarrow> blocks_taken r pad (st\<lparr>po_buffer := b\<rparr>) F"
  "length b = 16 \<Longrightarrow> blocks_taken r pad st F \<Longrightarrow> blocks_taken r pad (st\<lparr>po_buffer := b, po_leftover := k\<rparr>) F"
  by (simp_all add: blocks_taken_def)

lemma put_prefix:
  assumes "length b = 16" "length L + length x \<le> 16" "take (length L) b = L"
  shows "length (bytes_put (length L) x b) = 16" "take (length L + length x) (bytes_put (length L) x b) = L @ x"
  using assms by (simp_all add: bytes_put_def)

lemma update_tail:
  assumes "blocks_taken r pad st F" "mult_ok r" "po_leftover st = 0"
  shows "bytes_taken r pad
      (let full = length m div 16 * 16; st3 = (if length m \<ge> 16 then poly1305_blocks st (take full m) else st); m3 = drop full m
       in if m3 = [] then st3 else st3\<lparr>po_buffer := bytes_put (po_leftover st3) m3 (po_buffer st3), po_leftover := po_leftover st3 + length m3\<rparr>)
      (F @ m)"
proof -
  define full where "full = length m div 16 * 16"
  define st3 where "st3 = (if length m \<ge> 16 then poly1305_blocks st (take full m) else st)"
  have f: "full \<le> length m" "length (drop full m) < 16" "16 dvd length (take full m)"
    by (auto simp: full_def minus_div_mult_eq_mod)
  have b: "blocks_taken r pad st3 (F @ take full m)"
    using blocks_taken_blocks [OF assms(1,2) f(3)] assms(1) by (auto simp: st3_def full_def)
  have l: "po_leftover st3 = 0" using assms(3) by (simp add: st3_def)
  have "length (po_buffer st3) = 16" using b by (simp add: blocks_taken_def)
  then have p: "length (bytes_put 0 (drop full m) (po_buffer st3)) = 16" "take (length (drop full m)) (bytes_put 0 (drop full m) (po_buffer st3)) = drop full m"
    using put_prefix [of "po_buffer st3" "[]" "drop full m"] f(2) by simp_all
  show ?thesis
  proof (cases "drop full m = []")
    case True
    then have "take full m = m" by simp
    then show ?thesis using b l True by (simp add: bytes_taken_def Let_def flip: full_def st3_def)
  next
    case False
    then show ?thesis
      using b l p f(2) by (simp add: bytes_taken_def Let_def flip: full_def st3_def) (intro exI [of _ "F @ take full m"] exI [of _ "drop full m"], simp)
  qed
qed

lemma poly1305_update_taken:
  assumes "bytes_taken r pad st M" "mult_ok r"
  shows "bytes_taken r pad (poly1305_update st m) (M @ m)"
proof -
  obtain F L where M: "M = F @ L" and b: "blocks_taken r pad st F" and L: "length L < 16" "po_leftover st = length L" "take (length L) (po_buffer st) = L"
    using assms(1) by (auto simp: bytes_taken_def)
  have lb: "length (po_buffer st) = 16" using b by (simp add: blocks_taken_def)
  define want where "want = min (16 - length L) (length m)"
  define st1 where "st1 = st\<lparr>po_buffer := bytes_put (length L) (take want m) (po_buffer st), po_leftover := length L + want\<rparr>"
  have w: "length (take want m) = want" "length L + want \<le> 16" using L(1) by (simp_all add: want_def)
  note p = put_prefix [OF lb _ L(3), of "take want m", unfolded w(1), OF w(2)]
  have b1: "blocks_taken r pad st1 F" using b p(1) by (simp add: st1_def)
  consider "L = []" | "L \<noteq> []" "length L + want < 16" | "L \<noteq> []" "length L + want = 16" using w(2) by linarith
  then show ?thesis
  proof cases
    case 1
    then show ?thesis using update_tail [OF b assms(2)] L(2) M by (simp add: poly1305_update_def Let_def)
  next
    case 2
    then have "want = length m" "poly1305_update st m = st1" using L by (auto simp: poly1305_update_def Let_def st1_def want_def)
    moreover have "bytes_taken r pad st1 (F @ L @ m)"
      unfolding bytes_taken_def using 2 b1 p(2) \<open>want = length m\<close> by (intro exI [of _ F] exI [of _ "L @ m"]) (simp add: st1_def)
    ultimately show ?thesis by (simp add: M)
  next
    case 3
    let ?st2 = "(poly1305_blocks st1 (po_buffer st1))\<lparr>po_leftover := 0\<rparr>"
    have "po_buffer st1 = L @ take want m" using p 3(2) by (simp add: st1_def)
    then have "blocks_taken r pad ?st2 (F @ L @ take want m)" using blocks_taken_blocks [OF b1 assms(2), of "L @ take want m"] w 3(2) by simp
    note t = update_tail [OF this assms(2), of "drop want m"]
    have L0: "(length L = 0) = False" and l1: "(po_leftover st1 < 16) = False" using 3 by (simp_all add: st1_def)
    have "bytes_taken r pad (poly1305_update st m) ((F @ L @ take want m) @ drop want m)"
      using t unfolding poly1305_update_def by (simp only: Let_def L(2) L0 if_False flip: want_def st1_def) (simp add: l1)
    then show ?thesis by (simp add: M)
  qed
qed

section \<open>The authenticator\<close>

lemma init_taken:
  assumes "length key = 32" "length (po_buffer st) = 16"
  defines "s \<equiv> poly1305_init st key"
  shows "bytes_taken (po_r s) (po_pad s) s []"
  using assms(2) unfolding bytes_taken_def blocks_taken_def s_def poly1305_init_def acc_ok_def limbs_26_def by simp

lemma bytes_val_zeroes [simp]: "bytes_val (zeroes n) = 0"
  by (induction n) (simp_all add: zeroes_def)

lemma U32TO8_val: "bytes_val (U32TO8 w) = uint w"
proof -
  have "U32TO8 w = U32TO8_LITTLE w" by (simp only: U32TO8_def U32TO8_LITTLE_def low_byte)
  then show ?thesis using word_val [of "U32TO8_LITTLE w"] by simp
qed

lemma poly1305_finish_taken:
  assumes "bytes_taken r pad st m" "mult_ok r" "length pad = 4"
  shows "bytes_val (fst (poly1305_finish st)) = (poly1305_acc (limbs_26 r) 0 m + limbs_val pad) mod 2 ^ 128"
proof -
  obtain F L where M: "m = F @ L" and b: "blocks_taken r pad st F" and L: "length L < 16" "po_leftover st = length L" "take (length L) (po_buffer st) = L"
    using assms(1) by (auto simp: bytes_taken_def)
  obtain k where k: "length F = 16 * k" using b by (auto simp: blocks_taken_def dvd_def)
  note h = b [unfolded blocks_taken_def]
  define st' where "st' = (if po_leftover st = 0 then st
    else let i = po_leftover st; buf = take i (po_buffer st) @ [1] @ zeroes (16 - (i + 1)); st = st\<lparr>po_buffer := buf, po_final := True\<rparr>
         in poly1305_blocks st (po_buffer st))"
  have pad: "po_pad st' = pad" using h by (simp add: st'_def Let_def poly1305_blocks_def)
  have acc: "acc_ok (po_h st') \<and> limbs_26 (po_h st') mod p1305 = poly1305_acc (limbs_26 r) 0 m mod p1305"
  proof (cases "L = []")
    case True
    then show ?thesis using h L(2) M by (simp add: st'_def)
  next
    case False
    let ?buf = "L @ [1] @ zeroes (16 - (length L + 1))" and ?a = "poly1305_acc (limbs_26 r) 0 F"
    have lb: "length ?buf = 16" using L(1) by simp
    have v: "bytes_val ?buf = bytes_val L + 2 ^ (8 * length L)" by (simp add: bytes_val_append)
    have "po_h st' = poly1305_block 0 r ?buf (po_h st)"
      using False L h lb by (simp add: st'_def Let_def poly1305_blocks_def) (subst poly1305_blocks_loop.simps, simp, subst poly1305_blocks_loop.simps, simp)
    moreover have "poly1305_acc (limbs_26 r) 0 m = (?a + bytes_val L + 2 ^ (8 * length L)) * limbs_26 r mod p1305"
      unfolding M using acc_append [OF k] False L(1) by (simp add: poly1305_acc.simps [of _ _ L])
    moreover have "(limbs_26 (po_h st) + bytes_val L + 2 ^ (8 * length L)) * limbs_26 r mod p1305 = (?a + bytes_val L + 2 ^ (8 * length L)) * limbs_26 r mod p1305"
      using h by (intro mod_step) simp
    ultimately show ?thesis using block [of "po_h st" r ?buf 0] h assms(2) lb v by (simp add: add.assoc)
  qed
  then have c: "acc_reduced (poly1305_carry (po_h st'))" "limbs_26 (poly1305_carry (po_h st')) mod p1305 = poly1305_acc (limbs_26 r) 0 m mod p1305"
    using poly1305_carry [of "po_h st'"] by simp_all
  let ?s = "poly1305_select (poly1305_carry (po_h st'))"
  have s: "acc_reduced ?s" "limbs_26 ?s = poly1305_acc (limbs_26 r) 0 m mod p1305" using poly1305_select [OF c(1)] c(2) by simp_all
  note q = poly1305_pack [OF s(1), unfolded s(2)]
  note a = poly1305_add_pad [OF q(1) assms(3), unfolded q(2)]
  obtain w0 w1 w2 w3 where w: "poly1305_add_pad pad (poly1305_pack ?s) = [w0, w1, w2, w3]"
    using a(1) by (auto simp: length_Suc_conv numeral_eq_Suc)
  have "fst (poly1305_finish st) = U32TO8 w0 @ U32TO8 w1 @ U32TO8 w2 @ U32TO8 w3"
    unfolding poly1305_finish_def st'_def [symmetric] by (simp add: Let_def pad w)
  then have "bytes_val (fst (poly1305_finish st)) = limbs_val (poly1305_add_pad pad (poly1305_pack ?s))"
    unfolding w by (simp add: bytes_val_append U32TO8_val) (simp add: U32TO8_def)
  also have "\<dots> = (poly1305_acc (limbs_26 r) 0 m mod p1305 + limbs_val pad) mod 2 ^ 128" unfolding a(2) by (rule mod_add_left_eq)
  finally show ?thesis by (simp add: acc_mod)
qed

text \<open>The second half of the key is the pad.\<close>

lemma init_pad:
  assumes "length key = 32"
  shows "length (po_pad (poly1305_init st key)) = 4" "limbs_val (po_pad (poly1305_init st key)) = bytes_val (bytes_at 16 16 key)"
proof -
  have e: "bytes_at k 4 (bytes_at 16 16 key) = bytes_at (16 + k) 4 key" if "k \<le> 12" for k
    using that by (simp add: bytes_at_def drop_take min_def add.commute)
  have n: "[0..<4] = [0, 1, 2, 3 :: nat]" by (simp add: upt_conv_Cons)
  then have "po_pad (poly1305_init st key) = map (\<lambda>i. U8TO32_LITTLE (bytes_at (4 * i) 4 (bytes_at 16 16 key))) [0..<4]"
    unfolding n using e [of 0] e [of 4] e [of 8] e [of 12] by (simp add: poly1305_init_def U8TO32_eq)
  then show "length (po_pad (poly1305_init st key)) = 4" "limbs_val (po_pad (poly1305_init st key)) = bytes_val (bytes_at 16 16 key)"
    using limbs_of_bytes [of "bytes_at 16 16 key" 4] assms by (simp_all add: bytes_at_def)
qed

definition poly1305_updates :: "bytes list \<Rightarrow> poly1305_state_internal_t \<Rightarrow> poly1305_state_internal_t" where
  "poly1305_updates ms st = fold (\<lambda>m st. poly1305_update st m) ms st"

lemma poly1305_updates_taken:
  "bytes_taken r pad st M \<Longrightarrow> mult_ok r \<Longrightarrow> bytes_taken r pad (poly1305_updates ms st) (M @ concat ms)"
  unfolding poly1305_updates_def
proof (induction ms arbitrary: st M)
  case (Cons m ms)
  then show ?case using Cons.IH [OF poly1305_update_taken [OF Cons.prems, of m] Cons.prems(2)] by simp
qed simp

lemma poly1305_mac_val:
  assumes "length key = 32" "length (po_buffer st) = 16"
  shows "bytes_val (fst (poly1305_finish (poly1305_updates ms (poly1305_init st key)))) = poly1305_spec key (concat ms)"
  using poly1305_finish_taken [OF poly1305_updates_taken [OF init_taken [OF assms] init_key(1) [OF assms(1)]]
      init_key(1) [OF assms(1)] init_pad(1) [OF assms(1)], of ms]
  unfolding init_key(2) [OF assms(1)] init_pad(2) [OF assms(1)] poly1305_spec_def by simp

text \<open>
  C17. The authenticator computes Poly1305: from any context and whatever pieces the message is fed
  in, the sixteen bytes that \<open>poly1305_finish\<close> returns are, as a little-endian number, the
  polynomial over the 16-byte blocks of the message (each with a one bit above it) at the clamped
  first half of the key modulo \<open>2^130 - 5\<close>, plus the second half of the key modulo
  \<open>2^128\<close>. No limb, product or carry of the 32-bit code overflows.
\<close>

theorem poly1305_computes_mac:
  assumes "length key = 32" "length (po_buffer st) = 16"
  shows "length (fst (poly1305_finish (poly1305_updates ms (poly1305_init st key)))) = 16
    \<and> bytes_val (fst (poly1305_finish (poly1305_updates ms (poly1305_init st key)))) = poly1305_spec key (concat ms)"
  using poly1305_mac_val [OF assms] by simp

lemma poly1305_computes_mac_witness:
  "bytes_val (fst (poly1305_finish (poly1305_updates [[1], replicate 20 2, []] (poly1305_init blank_poly (replicate 32 7)))))
    = poly1305_spec (replicate 32 7) (1 # replicate 20 2)"
  using poly1305_computes_mac [of "replicate 32 7" blank_poly "[[1], replicate 20 2, []]"] by (simp add: blank_poly_def)

end
