(* ===== verification/Aead_Spec.thy ===== *)
theory Aead_Spec
  imports Aead Poly1305_Mac
begin

text \<open>
  The authenticated encryption against the construction of RFC 8439: which key-stream block gives
  the one-time key, what the authenticator is run on, and the padding computed in 32-bit \<open>size_t\<close>.
\<close>

section \<open>The one-time key and the authenticated data\<close>

definition pad_to_16 :: "bytes \<Rightarrow> bytes" where
  "pad_to_16 m = zeroes ((16 - length m mod 16) mod 16)"

definition mac_data :: "bytes \<Rightarrow> bytes \<Rightarrow> bytes" where
  "mac_data ad ct = ad @ pad_to_16 ad @ ct @ pad_to_16 ct @ U64TO8_LITTLE (of_nat (length ad)) @ U64TO8_LITTLE (of_nat (length ct))"

lemma round_up_16: "((x + 15) AND 0xFFFFFFF0) - x = 15 - take_bit 4 (x + 15)" for x :: u32
proof -
  have m: "(0xFFFFFFF0 :: u32) = NOT (mask 4)" by (simp add: mask_eq_exp_minus_1)
  have d: "(y AND NOT (mask 4)) AND take_bit 4 y = 0" for y :: u32 by (intro bit_word_eqI) (auto simp: bit_simps)
  have "(y AND NOT (mask 4)) OR take_bit 4 y = y" for y :: u32 by (intro bit_word_eqI) (auto simp: bit_simps)
  then have "(y AND NOT (mask 4)) + take_bit 4 y = y" for y :: u32 using disjunctive_add_eq_or [OF d] by metis
  then have e: "(x + 15 AND NOT (mask 4)) + take_bit 4 (x + 15) = x + 15" .
  have "a + b = x + 15 \<Longrightarrow> a - x = 15 - b" for a b by (simp add: diff_eq_eq eq_diff_eq) (simp add: algebra_simps)
  from this [OF e] show ?thesis unfolding m .
qed

lemma pad16_eq: "pad16 (length m) = pad_to_16 m"
proof -
  define j where "j = (length m + 15) mod 16"
  have "take_bit 4 (of_nat (length m) + 15 :: u32) = take_bit 4 (of_nat (length m + 15))" by simp
  also have "\<dots> = of_nat j" unfolding take_bit_of_nat by (simp add: take_bit_eq_mod j_def)
  finally have w: "take_bit 4 (of_nat (length m) + 15 :: u32) = of_nat j" .
  define r where "r = length m mod 16"
  have "j = (r + 15) mod 16" by (simp add: j_def r_def mod_add_left_eq)
  moreover have "r < 16" by (simp add: r_def)
  ultimately have j: "j \<le> 15" "15 - j = (16 - length m mod 16) mod 16"
    unfolding r_def [symmetric] by (cases "r = 0"; simp add: le_mod_geq)+
  have "(15 :: u32) - of_nat j = of_nat (15 - j)" using j(1) by (simp add: of_nat_diff)
  moreover have "unat (of_nat (15 - j) :: u32) = 15 - j" by (simp add: unat_of_nat)
  ultimately show ?thesis unfolding pad16_def round_up_16 w pad_to_16_def j(2) [symmetric] by (simp only:)
qed

lemma one_time_key:
  "generate_poly1305_key key nonce =
     (poly1305_init blank_poly (take 32 (chacha20_block (chacha20_init key nonce))), at_block 1 (chacha20_init key nonce))"
proof -
  have "map2 (XOR) (zeroes 32) k = take 32 k" if "length k = 64" for k :: bytes
    using that by (intro nth_equalityI) (simp_all add: zeroes_def)
  then show ?thesis
    by (simp add: generate_poly1305_key_def chacha20_keystream keystream_def)
qed

lemma aead_tag_updates:
  "aead_tag st ad ct = fst (poly1305_finish (poly1305_updates
     [ad, pad_to_16 ad, ct, pad_to_16 ct, U64TO8_LITTLE (of_nat (length ad)), U64TO8_LITTLE (of_nat (length ct))] st))"
  by (simp add: aead_tag_def poly1305_updates_def pad16_eq Let_def)

lemma aead_tag_val:
  assumes "length key = 32"
  shows "bytes_val (aead_tag (poly1305_init blank_poly key) ad ct) = poly1305_spec key (mac_data ad ct)"
  unfolding aead_tag_updates
  by (subst poly1305_mac_val) (simp_all add: assms mac_data_def blank_poly_def)

section \<open>The construction\<close>

text \<open>
  C18. The authenticated encryption is the construction of RFC 8439 (with the 64-bit nonce): the
  ciphertext is the exclusive or of the plaintext with the key stream from block 1 on, followed by a
  16-byte tag whose little-endian value is Poly1305, under the first 32 bytes of key-stream block 0,
  of the additional data and the ciphertext, each padded with zeroes to a multiple of 16 bytes, and
  their two 64-bit lengths.
\<close>

theorem aead_is_rfc8439:
  "let s = chacha20_init key nonce;
       ct = map2 (XOR) src (keystream ((length src + 63) div 64) (at_block 1 s));
       tag = drop (length src) (chacha20poly1305_encrypt src ad nonce key)
   in chacha20poly1305_encrypt src ad nonce key = ct @ tag \<and> length tag = 16
      \<and> bytes_val tag = poly1305_spec (take 32 (chacha20_block s)) (mac_data ad ct)"
proof -
  let ?ct = "map2 (XOR) src (keystream ((length src + 63) div 64) (at_block 1 (chacha20_init key nonce)))"
  have l: "length ?ct = length src" by (simp add: min_def) linarith
  have "chacha20poly1305_encrypt src ad nonce key
      = ?ct @ aead_tag (poly1305_init blank_poly (take 32 (chacha20_block (chacha20_init key nonce)))) ad ?ct"
    unfolding chacha20poly1305_encrypt_def one_time_key by (simp add: chacha20_keystream Let_def)
  then show ?thesis using aead_tag_val [of "take 32 (chacha20_block (chacha20_init key nonce))" ad ?ct] l by (simp add: Let_def)
qed

end
