(* ===== verification/Blake2s.thy ===== *)
theory Blake2s
  imports Crypto_Util
begin

text \<open>
  The hash function \<open>crypto/refc/blake2s.c\<close>: the mixing function \<open>B2S_G\<close>, the compression
  function, and the streaming interface \<open>init\<close> / \<open>update\<close> / \<open>final\<close> on a context record. The
  lemmas show that the context keeps its shape, that splitting the input over several \<open>update\<close>
  calls does not matter, that the uninitialised part of a fresh context does not influence the
  digest, and that the digest has the length asked for.
\<close>

section \<open>The code\<close>

record blake2s_ctx =
  b2_b :: bytes
  b2_h :: "u32 list"
  b2_t0 :: u32
  b2_t1 :: u32
  b2_c :: nat
  b2_outlen :: nat

definition ROTR32 :: "u32 \<Rightarrow> nat \<Rightarrow> u32" where
  "ROTR32 x y = drop_bit y x XOR push_bit (32 - y) x"

definition B2S_G :: "nat \<Rightarrow> nat \<Rightarrow> nat \<Rightarrow> nat \<Rightarrow> u32 \<Rightarrow> u32 \<Rightarrow> u32 list \<Rightarrow> u32 list" where
  "B2S_G a b c d x y v =
     (let v = v[a := v ! a + v ! b + x];
          v = v[d := ROTR32 (v ! d XOR v ! a) 16];
          v = v[c := v ! c + v ! d];
          v = v[b := ROTR32 (v ! b XOR v ! c) 12];
          v = v[a := v ! a + v ! b + y];
          v = v[d := ROTR32 (v ! d XOR v ! a) 8];
          v = v[c := v ! c + v ! d];
          v = v[b := ROTR32 (v ! b XOR v ! c) 7]
      in v)"

definition blake2s_iv :: "u32 list" where
  "blake2s_iv =
     [0x6A09E667, 0xBB67AE85, 0x3C6EF372, 0xA54FF53A,
      0x510E527F, 0x9B05688C, 0x1F83D9AB, 0x5BE0CD19]"

definition blake2s_sigma :: "nat list list" where
  "blake2s_sigma =
     [[0, 1, 2, 3, 4, 5, 6, 7, 8, 9, 10, 11, 12, 13, 14, 15],
      [14, 10, 4, 8, 9, 15, 13, 6, 1, 12, 0, 2, 11, 7, 5, 3],
      [11, 8, 12, 0, 5, 2, 15, 13, 10, 14, 3, 6, 7, 1, 9, 4],
      [7, 9, 3, 1, 13, 12, 11, 14, 2, 6, 5, 10, 4, 0, 15, 8],
      [9, 0, 5, 7, 2, 4, 10, 15, 14, 1, 11, 12, 6, 8, 3, 13],
      [2, 12, 6, 10, 0, 11, 8, 3, 4, 13, 7, 5, 15, 14, 1, 9],
      [12, 5, 1, 15, 14, 13, 4, 10, 0, 7, 6, 3, 9, 2, 8, 11],
      [13, 11, 7, 14, 12, 1, 3, 9, 5, 0, 15, 4, 8, 6, 2, 10],
      [6, 15, 14, 9, 11, 3, 0, 8, 12, 2, 13, 7, 1, 4, 10, 5],
      [10, 2, 8, 4, 7, 6, 1, 5, 15, 11, 9, 14, 3, 12, 13, 0]]"

definition blake2s_round :: "u32 list \<Rightarrow> nat list \<Rightarrow> u32 list \<Rightarrow> u32 list" where
  "blake2s_round m s v =
     (let v = B2S_G 0 4 8 12 (m ! (s ! 0)) (m ! (s ! 1)) v;
          v = B2S_G 1 5 9 13 (m ! (s ! 2)) (m ! (s ! 3)) v;
          v = B2S_G 2 6 10 14 (m ! (s ! 4)) (m ! (s ! 5)) v;
          v = B2S_G 3 7 11 15 (m ! (s ! 6)) (m ! (s ! 7)) v;
          v = B2S_G 0 5 10 15 (m ! (s ! 8)) (m ! (s ! 9)) v;
          v = B2S_G 1 6 11 12 (m ! (s ! 10)) (m ! (s ! 11)) v;
          v = B2S_G 2 7 8 13 (m ! (s ! 12)) (m ! (s ! 13)) v;
          v = B2S_G 3 4 9 14 (m ! (s ! 14)) (m ! (s ! 15)) v
      in v)"

definition blake2s_compress :: "blake2s_ctx \<Rightarrow> bool \<Rightarrow> blake2s_ctx" where
  "blake2s_compress ctx is_last =
     (let v = b2_h ctx @ blake2s_iv;
          v = v[12 := v ! 12 XOR b2_t0 ctx];
          v = v[13 := v ! 13 XOR b2_t1 ctx];
          v = (if is_last then v[14 := NOT (v ! 14)] else v);
          m = map (\<lambda>i. U8TO32_LITTLE (bytes_at (4 * i) 4 (b2_b ctx))) [0..<16];
          v = fold (blake2s_round m) blake2s_sigma v
      in ctx\<lparr>b2_h := map (\<lambda>i. b2_h ctx ! i XOR (v ! i XOR v ! (i + 8))) [0..<8]\<rparr>)"

text \<open>The counter update in front of a compression, shared by \<open>update\<close> and \<open>final\<close>.\<close>

definition blake2s_count :: "blake2s_ctx \<Rightarrow> blake2s_ctx" where
  "blake2s_count ctx =
     (let t0 = b2_t0 ctx + of_nat (b2_c ctx);
          ctx = ctx\<lparr>b2_t0 := t0\<rparr>
      in if unat t0 < b2_c ctx then ctx\<lparr>b2_t1 := b2_t1 ctx + 1\<rparr> else ctx)"

definition blake2s_add_byte :: "byte \<Rightarrow> blake2s_ctx \<Rightarrow> blake2s_ctx" where
  "blake2s_add_byte x ctx =
     (let ctx = (if b2_c ctx = 64
                 then (blake2s_compress (blake2s_count ctx) False)\<lparr>b2_c := 0\<rparr> else ctx)
      in ctx\<lparr>b2_b := (b2_b ctx)[b2_c ctx := x], b2_c := b2_c ctx + 1\<rparr>)"

definition blake2s_update :: "blake2s_ctx \<Rightarrow> bytes \<Rightarrow> blake2s_ctx" where
  "blake2s_update ctx inp = fold blake2s_add_byte inp ctx"

text \<open>
  \<open>blake2s_init\<close> on a context with arbitrary contents; \<open>None\<close> is the return value -1. Only the
  part of the block buffer behind the key is cleared; the key itself is stored by an update.
\<close>

definition blake2s_init :: "blake2s_ctx \<Rightarrow> nat \<Rightarrow> bytes \<Rightarrow> blake2s_ctx option" where
  "blake2s_init ctx outlen key =
     (let keylen = length key
      in if outlen = 0 \<or> outlen > 32 \<or> keylen > 32 then None
         else
           (let h = blake2s_iv[0 := blake2s_iv ! 0
                      XOR (0x01010000 XOR push_bit 8 (of_nat keylen) XOR of_nat outlen)];
                ctx = ctx\<lparr>b2_h := h, b2_t0 := 0, b2_t1 := 0, b2_c := 0, b2_outlen := outlen,
                          b2_b := take keylen (b2_b ctx) @ zeroes (64 - keylen)\<rparr>
            in Some (if keylen > 0 then (blake2s_update ctx key)\<lparr>b2_c := 64\<rparr> else ctx)))"

definition blake2s_final :: "blake2s_ctx \<Rightarrow> bytes" where
  "blake2s_final ctx =
     (let ctx = blake2s_count ctx;
          ctx = ctx\<lparr>b2_b := take (b2_c ctx) (b2_b ctx) @ zeroes (64 - b2_c ctx), b2_c := 64\<rparr>;
          ctx = blake2s_compress ctx True
      in map (\<lambda>i. ucast (drop_bit (8 * (i mod 4)) (b2_h ctx ! (i div 4)) AND 0xFF))
           [0..<b2_outlen ctx])"

text \<open>
  \<open>blake2s\<close>, the one-call form: a fresh context on the stack holds whatever was there before,
  here all zero (\<open>blake2s_streaming_correct\<close> holds for any content).
\<close>

definition stack_ctx :: blake2s_ctx where
  "stack_ctx = \<lparr>b2_b = zeroes 64, b2_h = replicate 8 0, b2_t0 = 0, b2_t1 = 0, b2_c = 0, b2_outlen = 0\<rparr>"

definition blake2s :: "nat \<Rightarrow> bytes \<Rightarrow> bytes \<Rightarrow> bytes option" where
  "blake2s outlen key inp =
     (case blake2s_init stack_ctx outlen key of
        None \<Rightarrow> None
      | Some ctx \<Rightarrow> Some (blake2s_final (blake2s_update ctx inp)))"

section \<open>Shape of the context\<close>

definition b2_wf :: "blake2s_ctx \<Rightarrow> bool" where
  "b2_wf ctx \<longleftrightarrow> length (b2_b ctx) = 64 \<and> length (b2_h ctx) = 8 \<and> b2_c ctx \<le> 64"

lemma blake2s_compress_frame [simp]:
  "b2_b (blake2s_compress ctx l) = b2_b ctx" "b2_c (blake2s_compress ctx l) = b2_c ctx"
  "b2_outlen (blake2s_compress ctx l) = b2_outlen ctx" "length (b2_h (blake2s_compress ctx l)) = 8"
  by (simp_all add: blake2s_compress_def Let_def)

lemma blake2s_count_frame [simp]:
  "b2_b (blake2s_count ctx) = b2_b ctx" "b2_c (blake2s_count ctx) = b2_c ctx"
  "b2_outlen (blake2s_count ctx) = b2_outlen ctx" "b2_h (blake2s_count ctx) = b2_h ctx"
  by (simp_all add: blake2s_count_def Let_def)

lemma b2_wf_add_byte: "b2_wf ctx \<Longrightarrow> b2_wf (blake2s_add_byte x ctx)"
  by (auto simp: b2_wf_def blake2s_add_byte_def Let_def)

lemma b2_wf_update: "b2_wf ctx \<Longrightarrow> b2_wf (blake2s_update ctx inp)"
  unfolding blake2s_update_def by (induction inp arbitrary: ctx) (auto intro: b2_wf_add_byte)

lemma b2_outlen_update [simp]: "b2_outlen (blake2s_update ctx inp) = b2_outlen ctx"
  unfolding blake2s_update_def
  by (induction inp arbitrary: ctx) (auto simp: blake2s_add_byte_def Let_def)

lemma blake2s_update_append: "blake2s_update ctx (xs @ ys) = blake2s_update (blake2s_update ctx xs) ys"
  by (simp add: blake2s_update_def)

lemma blake2s_update_Nil [simp]: "blake2s_update ctx [] = ctx"
  by (simp add: blake2s_update_def)

lemma length_blake2s_final [simp, len_simps]: "length (blake2s_final ctx) = b2_outlen ctx"
  by (simp add: blake2s_final_def Let_def)

lemma blake2s_init_Some:
  assumes "blake2s_init ctx outlen key = Some ctx'"
  shows "b2_outlen ctx' = outlen" "0 < outlen" "outlen \<le> 32" "length key \<le> 32"
  using assms by (auto simp: blake2s_init_def Let_def split: if_splits)

lemma length_blake2s: "blake2s outlen key inp = Some d \<Longrightarrow> length d = outlen"
  by (auto simp: blake2s_def dest: blake2s_init_Some split: option.splits)


section \<open>The blockwise specification\<close>

text \<open>
  What RFC 7693 asks for: the data (with the key as a zero-padded first block) is cut into blocks
  of 64 bytes, each compressed with the number of bytes seen so far, the last one zero-padded and
  flagged.
\<close>

definition block_ctx :: "u32 list \<Rightarrow> bytes \<Rightarrow> u64 \<Rightarrow> blake2s_ctx" where
  "block_ctx h b t = \<lparr>b2_b = b, b2_h = h, b2_t0 = ucast t, b2_t1 = ucast (drop_bit 32 t), b2_c = 64, b2_outlen = 0\<rparr>"

definition compress_block :: "u32 list \<Rightarrow> bytes \<Rightarrow> u64 \<Rightarrow> bool \<Rightarrow> u32 list" where
  "compress_block h b t l = b2_h (blake2s_compress (block_ctx h b t) l)"

function blake2s_blocks :: "u32 list \<Rightarrow> u64 \<Rightarrow> bytes \<Rightarrow> u32 list" where
  "blake2s_blocks h t xs =
     (if length xs \<le> 64
      then compress_block h (xs @ zeroes (64 - length xs)) (t + of_nat (length xs)) True
      else blake2s_blocks (compress_block h (take 64 xs) (t + 64) False) (t + 64) (drop 64 xs))"
  by auto
termination by (relation "measure (\<lambda>(h, t, xs). length xs)") auto

declare blake2s_blocks.simps [simp del]

definition blake2s_spec :: "nat \<Rightarrow> bytes \<Rightarrow> bytes \<Rightarrow> bytes" where
  "blake2s_spec outlen key inp =
     take outlen (concat (map U32TO8_LITTLE
       (blake2s_blocks
          (blake2s_iv[0 := blake2s_iv ! 0 XOR (0x01010000 XOR push_bit 8 (of_nat (length key)) XOR of_nat outlen)])
          0 ((if key = [] then [] else key @ zeroes (64 - length key)) @ inp))))"

definition ctx_count :: "blake2s_ctx \<Rightarrow> u64" where
  "ctx_count ctx = ucast (b2_t0 ctx) + push_bit 32 (ucast (b2_t1 ctx))"

lemma ctx_count_words [simp]:
  "ucast (ctx_count ctx) = b2_t0 ctx" "ucast (drop_bit 32 (ctx_count ctx)) = b2_t1 ctx"
proof -
  have eq: "ctx_count ctx = ucast (b2_t0 ctx) OR push_bit 32 (ucast (b2_t1 ctx))"
    unfolding ctx_count_def
    by (rule disjunctive_add_eq_or, rule bit_eqI) (auto simp: bit_simps dest: bit_imp_le_length)
  show "ucast (ctx_count ctx) = b2_t0 ctx"
    unfolding eq by (rule bit_eqI) (auto simp: bit_simps)
  show "ucast (drop_bit 32 (ctx_count ctx)) = b2_t1 ctx"
    unfolding eq by (rule bit_eqI) (auto simp: bit_simps dest: bit_imp_le_length)
qed

lemma ucast_add_one_shift: "push_bit 32 (ucast (x + 1) :: u64) = push_bit 32 (ucast x) + 2 ^ 32" for x :: u32
proof (cases "x + 1 = 0")
  case True
  then have "x = 0xFFFFFFFF" by (simp add: add_eq_0_iff2)
  then show ?thesis by simp
next
  case False
  then have "unat (x + 1) = unat x + 1" by (rule word_Suc_no_wrap)
  then have "(ucast (x + 1) :: u64) = of_nat (unat x + 1)" by (metis of_nat_unat)
  then show ?thesis by (simp add: push_bit_eq_mult algebra_simps)
qed

lemma ucast_add_small:
  "c \<le> 64 \<Longrightarrow> (ucast (x + of_nat c) :: u64) = ucast x + of_nat c - (if unat (x + of_nat c) < c then 2 ^ 32 else 0)"
  for x :: u32
proof -
  assume c: "c \<le> 64"
  have sum: "unat (x + of_nat c) = (unat x + c) mod 2 ^ 32"
    using c by (simp add: unat_word_ariths unat_of_nat take_bit_eq_mod mod_add_right_eq)
  have lt: "unat x < 2 ^ 32" using unsigned_less [of x] by simp
  show ?thesis
  proof (cases "unat x + c < 2 ^ 32")
    case True
    then have "unat (x + of_nat c) = unat x + c" using sum by simp
    moreover from this have "(ucast (x + of_nat c) :: u64) = of_nat (unat x + c)" by (metis of_nat_unat)
    ultimately show ?thesis by simp
  next
    case False
    then have "(unat x + c) mod 2 ^ 32 = unat x + c - 2 ^ 32"
      using lt c by (subst mod_if) simp
    with sum have u: "unat (x + of_nat c) = unat x + c - 2 ^ 32" by simp
    then have "(ucast (x + of_nat c) :: u64) = of_nat (unat x + c - 2 ^ 32)" by (metis of_nat_unat)
    also have "\<dots> = of_nat (unat x + c) - of_nat (2 ^ 32)" using False by (simp only: of_nat_diff not_less)
    finally show ?thesis using u lt False by simp
  qed
qed

lemma ctx_count_add_byte:
  "b2_c ctx \<le> 64 \<Longrightarrow> ctx_count (blake2s_count ctx) = ctx_count ctx + of_nat (b2_c ctx)"
  by (simp add: ctx_count_def blake2s_count_def Let_def ucast_add_small ucast_add_one_shift)

lemma blake2s_compress_block:
  "b2_c ctx \<le> 64 \<Longrightarrow> b2_h (blake2s_compress ((blake2s_count ctx)\<lparr>b2_b := b, b2_c := c\<rparr>) l)
     = compress_block (b2_h ctx) b (ctx_count ctx + of_nat (b2_c ctx)) l"
  by (simp add: compress_block_def block_ctx_def blake2s_compress_def Let_def flip: ctx_count_add_byte)

lemma blake2s_compress_block':
  "b2_c ctx \<le> 64 \<Longrightarrow> b2_h (blake2s_compress (blake2s_count ctx) l)
     = compress_block (b2_h ctx) (b2_b ctx) (ctx_count ctx + of_nat (b2_c ctx)) l"
  by (simp add: compress_block_def block_ctx_def blake2s_compress_def Let_def flip: ctx_count_add_byte)

lemma ctx_count_cong [simp]:
  "ctx_count (blake2s_compress ctx l) = ctx_count ctx"
  "ctx_count (ctx\<lparr>b2_b := b\<rparr>) = ctx_count ctx" "ctx_count (ctx\<lparr>b2_c := c\<rparr>) = ctx_count ctx"
  by (simp_all add: ctx_count_def blake2s_compress_def Let_def)

definition out_bytes :: "nat \<Rightarrow> u32 list \<Rightarrow> bytes" where
  "out_bytes n h = map (\<lambda>i. ucast (drop_bit (8 * (i mod 4)) (h ! (i div 4)) AND 0xFF)) [0..<n]"

lemma blake2s_final_update:
  "b2_wf ctx \<Longrightarrow> blake2s_final (blake2s_update ctx inp)
     = out_bytes (b2_outlen ctx) (blake2s_blocks (b2_h ctx) (ctx_count ctx) (take (b2_c ctx) (b2_b ctx) @ inp))"
proof (induction inp arbitrary: ctx)
  case Nil
  have "b2_h (blake2s_compress (blake2s_count ctx
      \<lparr>b2_b := take (b2_c ctx) (b2_b ctx) @ zeroes (64 - b2_c ctx), b2_c := 64\<rparr>) True) = 
    blake2s_blocks (b2_h ctx) (ctx_count ctx) (take (b2_c ctx) (b2_b ctx))"
    using Nil by (subst blake2s_compress_block) (auto simp: b2_wf_def min_def blake2s_blocks.simps dest!: le_antisym [of _ 64])
  then show ?case by (simp add: blake2s_final_def out_bytes_def Let_def)
next
  case (Cons x inp)
  let ?ctx = "blake2s_add_byte x ctx"
  have "blake2s_blocks (b2_h ctx) (ctx_count ctx) (take (b2_c ctx) (b2_b ctx) @ x # inp)
    = blake2s_blocks (b2_h ?ctx) (ctx_count ?ctx) (take (b2_c ?ctx) (b2_b ?ctx) @ inp)"
  proof (cases "b2_c ctx = 64")
    case True
    then show ?thesis using Cons.prems
      by (subst blake2s_blocks.simps)
         (simp add: b2_wf_def blake2s_add_byte_def Let_def blake2s_compress_block' ctx_count_add_byte take_Suc_conv_app_nth)
  next
    case False
    then show ?thesis using Cons.prems
      by (simp add: b2_wf_def blake2s_add_byte_def Let_def take_Suc_conv_app_nth)
  qed
  then show ?case using Cons.IH [OF b2_wf_add_byte [OF Cons.prems]]
    by (simp add: blake2s_update_def blake2s_add_byte_def Let_def)
qed
lemma concat_U32TO8_nth:
  "i < 4 * length h \<Longrightarrow> concat (map U32TO8_LITTLE h) ! i = ucast (drop_bit (8 * (i mod 4)) (h ! (i div 4)) AND 0xFF)"
proof (induction h arbitrary: i)
  case (Cons x h)
  show ?case
  proof (cases "i < 4")
    case True
    then consider "i = 0" | "i = 1" | "i = 2" | "i = 3" by linarith
    then show ?thesis by cases (simp_all add: U32TO8_LITTLE_def low_byte)
  next
    case False
    then obtain j where "i = j + 4" using le_Suc_ex [of 4 i] by (auto simp: add.commute)
    moreover have "(j + 4) div 4 = Suc (j div 4)" by simp
    ultimately show ?thesis using Cons by (simp add: nth_append del: div_add_self2)
  qed
qed simp

lemma out_bytes_concat: "length h = 8 \<Longrightarrow> n \<le> 32 \<Longrightarrow> out_bytes n h = take n (concat (map U32TO8_LITTLE h))"
  by (rule nth_equalityI)
     (auto simp: out_bytes_def length_concat comp_def sum_list_triv concat_U32TO8_nth)

lemma length_blake2s_blocks: "length (blake2s_blocks h t xs) = 8"
  by (induction h t xs rule: blake2s_blocks.induct)
     (subst blake2s_blocks.simps, simp add: compress_block_def)

text \<open>Up to the first 64 bytes an update only stores its input.\<close>

lemma blake2s_update_short:
  "b2_wf ctx \<Longrightarrow> b2_c ctx + length inp \<le> 64 \<Longrightarrow>
     blake2s_update ctx inp =
       ctx\<lparr>b2_b := take (b2_c ctx) (b2_b ctx) @ inp @ drop (b2_c ctx + length inp) (b2_b ctx),
           b2_c := b2_c ctx + length inp\<rparr>"
proof (induction inp arbitrary: ctx)
  case Nil
  then show ?case by simp
next
  case (Cons x inp)
  let ?ctx = "blake2s_add_byte x ctx"
  have eq: "?ctx = ctx\<lparr>b2_b := (b2_b ctx)[b2_c ctx := x], b2_c := b2_c ctx + 1\<rparr>"
    using Cons.prems by (simp add: blake2s_add_byte_def Let_def)
  have "b2_c ctx < 64" using Cons.prems by simp
  have "blake2s_update ctx (x # inp) = blake2s_update ?ctx inp" by (simp add: blake2s_update_def)
  also have "\<dots> = ?ctx\<lparr>b2_b := take (b2_c ?ctx) (b2_b ?ctx) @ inp @ drop (b2_c ?ctx + length inp) (b2_b ?ctx),
      b2_c := b2_c ?ctx + length inp\<rparr>"
    by (rule Cons.IH [OF b2_wf_add_byte [OF Cons.prems(1)]]) (use Cons.prems eq in simp)
  finally show ?case using Cons.prems \<open>b2_c ctx < 64\<close>
    by (simp add: eq b2_wf_def take_Suc_conv_app_nth)
qed

lemma blake2s_init_result:
  assumes "length (b2_b ctx0) = 64" and "blake2s_init ctx0 outlen key = Some ctx"
  shows "b2_wf ctx \<and> ctx_count ctx = 0 \<and> b2_outlen ctx = outlen
    \<and> b2_h ctx = blake2s_iv[0 := blake2s_iv ! 0
          XOR (0x01010000 XOR push_bit 8 (of_nat (length key)) XOR of_nat outlen)]
    \<and> take (b2_c ctx) (b2_b ctx) = (if key = [] then [] else key @ zeroes (64 - length key))"
  using assms
  by (auto simp: blake2s_init_def Let_def blake2s_update_short b2_wf_def ctx_count_def blake2s_iv_def
      split: if_splits)

lemma blake2s_init_digest:
  assumes "length (b2_b ctx0) = 64" and "blake2s_init ctx0 outlen key = Some ctx"
  shows "blake2s_final (blake2s_update ctx inp) = blake2s_spec outlen key inp"
  using blake2s_init_result [OF assms] blake2s_init_Some [OF assms(2)]
  by (simp add: blake2s_final_update blake2s_spec_def out_bytes_concat length_blake2s_blocks)

text \<open>
  C37. The streaming implementation computes the blockwise digest of RFC 7693: on any uninitialised
  context with a 64-byte buffer, after a successful \<open>blake2s_init\<close>, feeding the input in any two
  parts and finishing gives the specified digest of the whole input; \<open>init\<close> succeeds exactly for
  a digest of 1 to 32 bytes and a key of at most 32.
\<close>

theorem blake2s_streaming_correct:
  assumes "length (b2_b ctx0) = 64"
  shows "map_option (\<lambda>ctx. blake2s_final (blake2s_update (blake2s_update ctx xs) ys))
           (blake2s_init ctx0 outlen key)
       = (if 1 \<le> outlen \<and> outlen \<le> 32 \<and> length key \<le> 32
          then Some (blake2s_spec outlen key (xs @ ys)) else None)"
proof (cases "blake2s_init ctx0 outlen key")
  case None
  then show ?thesis by (auto simp: blake2s_init_def Let_def split: if_splits)
next
  case (Some ctx)
  show ?thesis
    using blake2s_init_Some [OF Some] blake2s_init_digest [OF assms Some, of "xs @ ys"] Some
    by (simp add: blake2s_update_append)
qed

theorem blake2s_streaming_correct_witness:
  "map_option (\<lambda>ctx. blake2s_final (blake2s_update (blake2s_update ctx [1, 2]) [3]))
     (blake2s_init stack_ctx 32 []) = Some (blake2s_spec 32 [] [1, 2, 3])"
  using blake2s_streaming_correct [of stack_ctx "[1, 2]" "[3]" 32 "[]"] by (simp add: stack_ctx_def)

lemma blake2s_eq_spec:
  "1 \<le> outlen \<Longrightarrow> outlen \<le> 32 \<Longrightarrow> length key \<le> 32 \<Longrightarrow> blake2s outlen key inp = Some (blake2s_spec outlen key inp)"
  using blake2s_init_digest [of stack_ctx outlen key]
  by (cases "blake2s_init stack_ctx outlen key")
     (auto simp: blake2s_def stack_ctx_def blake2s_init_def Let_def split: if_splits)

end
