(* ===== verification/Platform.thy ===== *)
theory Platform
  imports Crypto_Util
begin

text \<open>
  The platform layer \<open>nuttx-platform.c\<close>: the clock, the entropy source and the TAI64N time
  stamp. What the operating system does is the \<open>os\<close> record: the two clock readings, the outcomes
  of the calls on \<open>/dev/urandom\<close>, of \<open>psock_sendto\<close> and of the packet-buffer allocation as oracles
  indexed by call number, the datagrams handed to the socket, and the IP stack behind \<open>ipv4_input\<close> as a function of the
  packets it has been given. The clock readings are what every \<open>clock_gettime\<close> of one handler
  returns; the environment advances them between handlers.
\<close>

record timespec =
  tv_sec :: nat
  tv_nsec :: nat

text \<open>
  The outcome of one \<open>open\<close> or \<open>read\<close> on \<open>/dev/urandom\<close>: a failure, or the bytes available
  (for \<open>open\<close> the bytes do not matter).
\<close>

datatype io_event = IO_fail | IO_data bytes

text \<open>A UDP datagram: payload, IPv4 address in network byte order, port in host byte order.\<close>

record datagram =
  dg_data :: bytes
  dg_addr :: u32
  dg_port :: u16

record os =
  clock_monotonic :: timespec
  clock_realtime :: timespec
  urandom :: "nat \<Rightarrow> io_event"
  urandom_pos :: nat
  udp_ok :: "nat \<Rightarrow> bool"
  udp_calls :: "datagram list"
  iob_ok :: "nat \<Rightarrow> bool"
  iob_calls :: nat
  stack_reply :: "bytes list \<Rightarrow> bytes"
  stack_input :: "bytes list"

section \<open>wireguard_sys_now\<close>

definition wireguard_sys_now :: "os \<Rightarrow> u32" where
  "wireguard_sys_now os =
     (let ts = clock_monotonic os;
          ms = ucast ((of_nat (tv_sec ts) :: u64) * 1000 + of_nat (tv_nsec ts div 1000000)) :: u32
      in if ms = 0 then 1 else ms)"

lemma wireguard_sys_now_nonzero [simp]: "wireguard_sys_now os \<noteq> 0"
  by (simp add: wireguard_sys_now_def Let_def)

definition monotonic_ms :: "os \<Rightarrow> nat" where
  "monotonic_ms os = tv_sec (clock_monotonic os) * 1000 + tv_nsec (clock_monotonic os) div 1000000"

lemma wireguard_sys_now_ms:
  "unat (wireguard_sys_now os) =
     (if monotonic_ms os mod 2 ^ 32 = 0 then 1 else monotonic_ms os mod 2 ^ 32)"
proof -
  let ?w = "(of_nat (tv_sec (clock_monotonic os)) :: u64) * 1000
            + of_nat (tv_nsec (clock_monotonic os) div 1000000)"
  have "?w = of_nat (monotonic_ms os)"
    by (simp add: monotonic_ms_def)
  then have "(ucast ?w :: u32) = of_nat (monotonic_ms os)"
    by (simp add: word_unat_eq_iff unsigned_ucast_eq unat_of_nat take_bit_eq_mod
        mod_mod_cancel)
  moreover have "unat (of_nat (monotonic_ms os) :: u32) = monotonic_ms os mod 2 ^ 32"
    by (simp add: unat_of_nat)
  ultimately show ?thesis
    by (auto simp: wireguard_sys_now_def Let_def word_unat_eq_iff)
qed

section \<open>wireguard_random_bytes\<close>

definition urandom_next :: "os \<Rightarrow> io_event \<times> os" where
  "urandom_next os = (urandom os (urandom_pos os), os\<lparr>urandom_pos := Suc (urandom_pos os)\<rparr>)"

text \<open>
  The \<open>while (total < size)\<close> loop; \<open>dst\<close> holds the \<open>total\<close> bytes read so far. A read that
  returns nothing zero-fills the rest and leaves the loop.
\<close>

function urandom_read :: "nat \<Rightarrow> bytes \<Rightarrow> os \<Rightarrow> bytes \<times> os" where
  "urandom_read sz dst os =
     (if length dst < sz
      then case urandom_next os of
             (IO_fail, os') \<Rightarrow> (dst @ zeroes (sz - length dst), os')
           | (IO_data bs, os') \<Rightarrow>
               (let got = take (sz - length dst) bs
                in if got = [] then (dst @ zeroes (sz - length dst), os')
                   else urandom_read sz (dst @ got) os')
      else (dst, os))"
  by pat_completeness auto
termination
  by (relation "measure (\<lambda>(sz, dst, os). sz - length dst)")
    (auto simp: min_def simp flip: length_greater_0_conv)

declare urandom_read.simps [simp del]

definition wireguard_random_bytes :: "nat \<Rightarrow> os \<Rightarrow> bytes \<times> os" where
  "wireguard_random_bytes sz os =
     (case urandom_next os of
        (IO_fail, os') \<Rightarrow> (zeroes sz, os')
      | (IO_data _, os') \<Rightarrow> urandom_read sz [] os')"

text \<open>
  What the protocol core needs of an entropy source: a request is answered with exactly the number
  of bytes asked for.
\<close>

locale entropy_source =
  fixes random_bytes :: "nat \<Rightarrow> 's \<Rightarrow> bytes \<times> 's"
  assumes random_length: "length (fst (random_bytes n s)) = n"
begin

lemma random_lengthD: "random_bytes n s = (b, s') \<Longrightarrow> length b = n"
  using random_length[of n s] by simp

lemma random_word_roundtrip:
  "random_bytes 4 s = (b, s') \<Longrightarrow> U32TO8_LITTLE (U8TO32_LITTLE b) = b"
  by (rule U32TO8_U8TO32) (rule random_lengthD)

end

lemma urandom_read_length:
  "length dst \<le> sz \<Longrightarrow> length (fst (urandom_read sz dst os)) = sz"
proof (induction sz dst os rule: urandom_read.induct)
  case (1 sz dst os)
  then show ?case
    by (subst urandom_read.simps) (auto simp: urandom_next_def Let_def split: io_event.splits)
qed

interpretation platform_entropy: entropy_source wireguard_random_bytes
  by unfold_locales
    (auto simp: wireguard_random_bytes_def urandom_read_length split: prod.splits io_event.splits)

lemmas random_bytes_length [simp, len_simps] = platform_entropy.random_length

lemma clocks_urandom_read [simp, frame_simps]:
  "clock_monotonic (snd (urandom_read sz dst os)) = clock_monotonic os"
  "clock_realtime (snd (urandom_read sz dst os)) = clock_realtime os"
  by (induction sz dst os rule: urandom_read.induct;
      subst urandom_read.simps; auto simp: urandom_next_def Let_def split: io_event.splits)+

lemma clocks_random_bytes [simp, frame_simps]:
  "clock_monotonic (snd (wireguard_random_bytes sz os)) = clock_monotonic os"
  "clock_realtime (snd (wireguard_random_bytes sz os)) = clock_realtime os"
  by (auto simp: wireguard_random_bytes_def urandom_next_def split: io_event.splits)

lemma random_bytesD:
  "wireguard_random_bytes sz os = (b, os') \<Longrightarrow>
     length b = sz \<and> clock_monotonic os' = clock_monotonic os \<and> clock_realtime os' = clock_realtime os"
  using random_bytes_length [of sz os] clocks_random_bytes [of sz os] by simp

lemma wireguard_sys_now_cong: "clock_monotonic os = clock_monotonic os' \<Longrightarrow> wireguard_sys_now os = wireguard_sys_now os'"
  by (simp add: wireguard_sys_now_def)

section \<open>wireguard_tai64n_now\<close>

definition WG_TAI64_UNIX_EPOCH :: u64 where
  "WG_TAI64_UNIX_EPOCH = 0x400000000000000a"

definition wireguard_tai64n_now :: "os \<Rightarrow> bytes" where
  "wireguard_tai64n_now os =
     (let ts = clock_realtime os;
          seconds = of_nat (tv_sec ts) + WG_TAI64_UNIX_EPOCH :: u64;
          nanos = of_nat (tv_nsec ts) :: u32
      in map (\<lambda>i. ucast (drop_bit (8 * (7 - i)) seconds)) [0..<8]
         @ map (\<lambda>i. ucast (drop_bit (8 * (3 - i)) nanos)) [0..<4])"

lemma clocks_tai64n: "clock_realtime os = clock_realtime os' \<Longrightarrow> wireguard_tai64n_now os = wireguard_tai64n_now os'"
  by (simp add: wireguard_tai64n_now_def)

lemma wireguard_tai64n_now_be:
  "wireguard_tai64n_now os =
     be_word 8 (of_nat (tv_sec (clock_realtime os)) + WG_TAI64_UNIX_EPOCH)
     @ be_word 4 (of_nat (tv_nsec (clock_realtime os)) :: u32)"
  by (simp add: wireguard_tai64n_now_def be_word_def Let_def)

lemma length_tai64n [simp, len_simps]: "length (wireguard_tai64n_now os) = 12"
  by (simp add: wireguard_tai64n_now_be)

lemma of_nat_word_less_iff:
  assumes "a < 2 ^ LENGTH('a)" "b < 2 ^ LENGTH('a)"
  shows "(of_nat a :: 'a::len word) < of_nat b \<longleftrightarrow> a < b"
    and "(of_nat a :: 'a::len word) = of_nat b \<longleftrightarrow> a = b"
  using assms by (simp_all add: word_less_nat_alt word_unat_eq_iff unat_of_nat)

text \<open>
  Time stamps order like time: for readings of the real-time clock whose nanoseconds are
  below \<open>2 ^ 32\<close> and whose seconds do not overflow the TAI64 label, \<open>memcmp\<close> of two TAI64N
  stamps is negative exactly when the first reading is earlier. This is what lets
  \<open>wireguard_process_initiation_message\<close> compare stamps with \<open>memcmp\<close>.
\<close>

lemma tai64n_memcmp_order:
  assumes sec: "tv_sec (clock_realtime o1) < 2 ^ 62" "tv_sec (clock_realtime o2) < 2 ^ 62"
    and nsec: "tv_nsec (clock_realtime o1) < 2 ^ 32" "tv_nsec (clock_realtime o2) < 2 ^ 32"
  shows "memcmp (wireguard_tai64n_now o1) (wireguard_tai64n_now o2) < 0 \<longleftrightarrow>
    tv_sec (clock_realtime o1) < tv_sec (clock_realtime o2) \<or>
    tv_sec (clock_realtime o1) = tv_sec (clock_realtime o2) \<and>
    tv_nsec (clock_realtime o1) < tv_nsec (clock_realtime o2)"
proof -
  let ?s = "\<lambda>o1. of_nat (tv_sec (clock_realtime o1)) + WG_TAI64_UNIX_EPOCH :: u64"
  let ?n = "\<lambda>o1. of_nat (tv_nsec (clock_realtime o1)) :: u32"
  have label: "?s o1 = of_nat (tv_sec (clock_realtime o1) + 0x400000000000000a)" for o1
    by (simp add: WG_TAI64_UNIX_EPOCH_def)
  have secs: "?s o1 < ?s o2 \<longleftrightarrow> tv_sec (clock_realtime o1) < tv_sec (clock_realtime o2)"
    "?s o1 = ?s o2 \<longleftrightarrow> tv_sec (clock_realtime o1) = tv_sec (clock_realtime o2)"
    unfolding label using sec by (simp_all add: of_nat_word_less_iff del: of_nat_add)
  have sec_eq: "(of_nat (tv_sec (clock_realtime o1)) :: u64) = of_nat (tv_sec (clock_realtime o2))
      \<longleftrightarrow> tv_sec (clock_realtime o1) = tv_sec (clock_realtime o2)"
    using sec by (simp add: of_nat_word_less_iff)
  have nsecs: "?n o1 < ?n o2 \<longleftrightarrow> tv_nsec (clock_realtime o1) < tv_nsec (clock_realtime o2)"
    using nsec by (simp add: of_nat_word_less_iff)
  show ?thesis
    unfolding wireguard_tai64n_now_be
    by (subst memcmp_append) (auto simp: memcmp_be_word secs sec_eq nsecs)
qed

text \<open>
  A concrete operating system for the witnesses: an entropy source that delivers four bytes per
  read, a socket that always sends, a stack that never answers.
\<close>

definition sample_os :: "nat \<Rightarrow> os" where
  "sample_os secs =
     \<lparr>clock_monotonic = \<lparr>tv_sec = secs, tv_nsec = 0\<rparr>,
      clock_realtime = \<lparr>tv_sec = 1700000000 + secs, tv_nsec = 0\<rparr>,
      urandom = (\<lambda>i. IO_data [of_nat i, 1, 2, 3]), urandom_pos = 0,
      udp_ok = (\<lambda>_. True), udp_calls = [],
      iob_ok = (\<lambda>_. True), iob_calls = 0, stack_reply = (\<lambda>_. []), stack_input = []\<rparr>"

text \<open>The platform never reports load; the netdev glue decides instead.\<close>

definition wireguard_is_under_load :: bool where
  "wireguard_is_under_load = False"

end
