(* ===== verification/Wg_Types.thy ===== *)
theory Wg_Types
  imports Platform
begin

text \<open>
  The data of \<open>wireguard.h\<close>: the protocol constants, the session key pair, the handshake, the
  peer and the device as records with the header's fields (prefixed by the structure they belong
  to). \<open>WIREGUARD_MAX_PEERS\<close>, \<open>WIREGUARD_MAX_SRC_IPS\<close> and \<open>WIREGUARD_REPLAY_WORDS\<close> are build-time
  settings: they are the lengths of the lists that stand for the arrays. The pointers to lwIP's
  \<open>netif\<close> and \<open>udp_pcb\<close>, which no code reads, are left out. A pointer to a peer is its index in
  the device's array, a pointer to one of a peer's key pairs is a \<open>keypair_slot\<close>.
\<close>

section \<open>Constants\<close>

definition REKEY_AFTER_MESSAGES :: u64 where
  "REKEY_AFTER_MESSAGES = push_bit 60 1"

definition REJECT_AFTER_MESSAGES :: u64 where
  "REJECT_AFTER_MESSAGES = 0xFFFFFFFFFFFFFFFF - push_bit 13 1"

abbreviation (input) COOKIE_SECRET_MAX_AGE :: u32 where "COOKIE_SECRET_MAX_AGE \<equiv> 2 * 60"
abbreviation (input) REKEY_AFTER_TIME :: u32 where "REKEY_AFTER_TIME \<equiv> 120"
abbreviation (input) REJECT_AFTER_TIME :: u32 where "REJECT_AFTER_TIME \<equiv> 180"
abbreviation (input) MAX_INITIATIONS_PER_SECOND :: u32 where "MAX_INITIATIONS_PER_SECOND \<equiv> 2"
abbreviation (input) REKEY_TIMEOUT :: u32 where "REKEY_TIMEOUT \<equiv> 5"

section \<open>Structures\<close>

record wireguard_keypair =
  kp_valid :: bool
  kp_initiator :: bool
  kp_millis :: u32
  kp_sending_key :: bytes
  kp_sending_valid :: bool
  kp_sending_counter :: u64
  kp_receiving_key :: bytes
  kp_receiving_valid :: bool
  kp_last_tx :: u32
  kp_last_rx :: u32
  kp_replay_bitmap :: "u64 list"
  kp_replay_counter :: u64
  kp_local_index :: u32
  kp_remote_index :: u32

record wireguard_handshake =
  hs_valid :: bool
  hs_initiator :: bool
  hs_local_index :: u32
  hs_remote_index :: u32
  hs_ephemeral_private :: bytes
  hs_remote_ephemeral :: bytes
  hs_hash :: bytes
  hs_chaining_key :: bytes

record wireguard_allowed_ip =
  ai_valid :: bool
  ai_ip :: u32
  ai_mask :: u32

record wireguard_peer =
  pr_valid :: bool
  pr_active :: bool
  pr_connect_ip :: u32
  pr_connect_port :: u16
  pr_ip :: u32
  pr_port :: u16
  pr_keepalive_interval :: u16
  pr_allowed_source_ips :: "wireguard_allowed_ip list"
  pr_public_key :: bytes
  pr_preshared_key :: bytes
  pr_public_key_dh :: bytes
  pr_curr_keypair :: wireguard_keypair
  pr_prev_keypair :: wireguard_keypair
  pr_next_keypair :: wireguard_keypair
  pr_greatest_timestamp :: bytes
  pr_handshake :: wireguard_handshake
  pr_cookie_millis :: u32
  pr_cookie :: bytes
  pr_handshake_mac1_valid :: bool
  pr_handshake_mac1 :: bytes
  pr_label_cookie_key :: bytes
  pr_label_mac1_key :: bytes
  pr_last_initiation_rx :: u32
  pr_last_initiation_tx :: u32
  pr_last_tx :: u32
  pr_last_rx :: u32
  pr_send_handshake :: bool

record wireguard_device =
  dv_public_key :: bytes
  dv_private_key :: bytes
  dv_cookie_secret :: bytes
  dv_cookie_secret_millis :: u32
  dv_label_cookie_key :: bytes
  dv_label_mac1_key :: bytes
  dv_peers :: "wireguard_peer list"
  dv_valid :: bool

datatype keypair_slot = Curr | Prev | Next

fun slot_keypair :: "wireguard_peer \<Rightarrow> keypair_slot \<Rightarrow> wireguard_keypair" where
  "slot_keypair p Curr = pr_curr_keypair p"
| "slot_keypair p Prev = pr_prev_keypair p"
| "slot_keypair p Next = pr_next_keypair p"

fun set_slot :: "keypair_slot \<Rightarrow> wireguard_keypair \<Rightarrow> wireguard_peer \<Rightarrow> wireguard_peer" where
  "set_slot Curr k p = p\<lparr>pr_curr_keypair := k\<rparr>"
| "set_slot Prev k p = p\<lparr>pr_prev_keypair := k\<rparr>"
| "set_slot Next k p = p\<lparr>pr_next_keypair := k\<rparr>"

lemma slot_set_slot [simp]:
  "slot_keypair (set_slot s k p) t = (if t = s then k else slot_keypair p t)"
  by (cases s; cases t) auto

text \<open>All-zero structures, as \<open>memset\<close> and \<open>crypto_zero\<close> leave them.\<close>

definition zero_keypair :: "nat \<Rightarrow> wireguard_keypair" where
  "zero_keypair words =
     \<lparr>kp_valid = False, kp_initiator = False, kp_millis = 0, kp_sending_key = zeroes 32,
      kp_sending_valid = False, kp_sending_counter = 0, kp_receiving_key = zeroes 32,
      kp_receiving_valid = False, kp_last_tx = 0, kp_last_rx = 0,
      kp_replay_bitmap = replicate words 0, kp_replay_counter = 0,
      kp_local_index = 0, kp_remote_index = 0\<rparr>"

definition zero_handshake :: wireguard_handshake where
  "zero_handshake =
     \<lparr>hs_valid = False, hs_initiator = False, hs_local_index = 0, hs_remote_index = 0,
      hs_ephemeral_private = zeroes 32, hs_remote_ephemeral = zeroes 32,
      hs_hash = zeroes 32, hs_chaining_key = zeroes 32\<rparr>"

definition zero_peer :: "nat \<Rightarrow> nat \<Rightarrow> wireguard_peer" where
  "zero_peer src_ips words =
     \<lparr>pr_valid = False, pr_active = False, pr_connect_ip = 0, pr_connect_port = 0,
      pr_ip = 0, pr_port = 0, pr_keepalive_interval = 0,
      pr_allowed_source_ips = replicate src_ips \<lparr>ai_valid = False, ai_ip = 0, ai_mask = 0\<rparr>,
      pr_public_key = zeroes 32, pr_preshared_key = zeroes 32, pr_public_key_dh = zeroes 32,
      pr_curr_keypair = zero_keypair words, pr_prev_keypair = zero_keypair words,
      pr_next_keypair = zero_keypair words, pr_greatest_timestamp = zeroes 12,
      pr_handshake = zero_handshake, pr_cookie_millis = 0, pr_cookie = zeroes 16,
      pr_handshake_mac1_valid = False, pr_handshake_mac1 = zeroes 16,
      pr_label_cookie_key = zeroes 32, pr_label_mac1_key = zeroes 32,
      pr_last_initiation_rx = 0, pr_last_initiation_tx = 0, pr_last_tx = 0, pr_last_rx = 0,
      pr_send_handshake = False\<rparr>"

section \<open>Expiry of time stamps\<close>

text \<open>\<open>wireguard_expired\<close>: both the age and the limit are 32-bit milliseconds and wrap.\<close>

definition wireguard_expired :: "os \<Rightarrow> u32 \<Rightarrow> u32 \<Rightarrow> bool" where
  "wireguard_expired os created_millis valid_seconds =
     (let diff = wireguard_sys_now os - created_millis in diff \<ge> valid_seconds * 1000)"

end
