(* ===== verification/Noise.thy ===== *)
theory Noise
  imports Blake2s Aead Wg_Types
begin

text \<open>
  The key schedule of \<open>wireguard.c\<close> on top of BLAKE2s: the start-up constants of
  \<open>wireguard_init\<close>, the keyed MAC, the label keys, the running handshake hash, HMAC and the three
  key derivations, and private-key generation. The Diffie-Hellman function is a parameter \<open>X\<close>
  (\<open>crypto.h\<close> selects its implementation by a macro): \<open>X private point\<close> is the return value and
  the 32 output bytes.
\<close>

section \<open>Hashing\<close>

text \<open>\<open>init\<close> on a stack context, a sequence of \<open>update\<close> calls, \<open>final\<close>; return values are ignored.\<close>

definition blake2s_parts :: "nat \<Rightarrow> bytes \<Rightarrow> bytes list \<Rightarrow> bytes" where
  "blake2s_parts outlen key parts =
     (let ctx = (case blake2s_init stack_ctx outlen key of None \<Rightarrow> stack_ctx | Some ctx \<Rightarrow> ctx)
      in blake2s_final (foldl blake2s_update ctx parts))"

definition ascii :: "string \<Rightarrow> bytes" where
  "ascii s = map (\<lambda>c. of_nat (of_char c)) s"

definition CONSTRUCTION :: bytes where "CONSTRUCTION = ascii ''Noise_IKpsk2_25519_ChaChaPoly_BLAKE2s''"
definition IDENTIFIER :: bytes where "IDENTIFIER = ascii ''WireGuard v1 zx2c4 Jason@zx2c4.com''"
definition LABEL_MAC1 :: bytes where "LABEL_MAC1 = ascii ''mac1----''"
definition LABEL_COOKIE :: bytes where "LABEL_COOKIE = ascii ''cookie--''"
definition zero_key :: bytes where "zero_key = zeroes 32"

definition construction_hash :: bytes where
  "construction_hash = blake2s_parts 32 [] [CONSTRUCTION]"

definition identifier_hash :: bytes where
  "identifier_hash = blake2s_parts 32 [] [construction_hash, IDENTIFIER]"

definition wireguard_mac :: "bytes \<Rightarrow> bytes \<Rightarrow> bytes" where
  "wireguard_mac message key = blake2s_parts 16 key [message]"

definition wireguard_mac_key :: "bytes \<Rightarrow> bytes \<Rightarrow> bytes" where
  "wireguard_mac_key public_key label = blake2s_parts 32 [] [label, public_key]"

definition wireguard_mix_hash :: "bytes \<Rightarrow> bytes \<Rightarrow> bytes" where
  "wireguard_mix_hash hash src = blake2s_parts 32 [] [hash, src]"

definition wireguard_hmac :: "bytes \<Rightarrow> bytes \<Rightarrow> bytes" where
  "wireguard_hmac key0 txt =
     (let key = (if length key0 > 64 then blake2s_parts 32 [] [key0] else key0);
          k_ipad = bytes_put 0 key (zeroes 64);
          k_opad = bytes_put 0 key (zeroes 64);
          k_ipad = map (\<lambda>b. b XOR 0x36) k_ipad;
          k_opad = map (\<lambda>b. b XOR 0x5c) k_opad;
          digest = blake2s_parts 32 [] [k_ipad, txt]
      in blake2s_parts 32 [] [k_opad, digest])"

section \<open>Key derivation\<close>

text \<open>\<open>output\<close> is the 33-byte stack buffer; what it holds before the first store is \<open>junk\<close>, here zeroes; every byte is written before it is read.\<close>

definition junk :: bytes where "junk = zeroes 33"

definition wireguard_kdf1 :: "bytes \<Rightarrow> bytes \<Rightarrow> bytes" where
  "wireguard_kdf1 chaining_key data =
     (let tau0 = wireguard_hmac chaining_key data;
          output = junk[0 := 1];
          output = bytes_put 0 (wireguard_hmac tau0 (take 1 output)) output
      in take 32 output)"

definition wireguard_kdf2 :: "bytes \<Rightarrow> bytes \<Rightarrow> bytes \<times> bytes" where
  "wireguard_kdf2 chaining_key data =
     (let tau0 = wireguard_hmac chaining_key data;
          output = junk[0 := 1];
          output = bytes_put 0 (wireguard_hmac tau0 (take 1 output)) output;
          tau1 = take 32 output;
          output = output[32 := 2];
          output = bytes_put 0 (wireguard_hmac tau0 (take 33 output)) output;
          tau2 = take 32 output
      in (tau1, tau2))"

definition wireguard_kdf3 :: "bytes \<Rightarrow> bytes \<Rightarrow> bytes \<times> bytes \<times> bytes" where
  "wireguard_kdf3 chaining_key data =
     (let tau0 = wireguard_hmac chaining_key data;
          output = junk[0 := 1];
          output = bytes_put 0 (wireguard_hmac tau0 (take 1 output)) output;
          tau1 = take 32 output;
          output = output[32 := 2];
          output = bytes_put 0 (wireguard_hmac tau0 (take 33 output)) output;
          tau2 = take 32 output;
          output = output[32 := 3];
          output = bytes_put 0 (wireguard_hmac tau0 (take 33 output)) output;
          tau3 = take 32 output
      in (tau1, tau2, tau3))"

section \<open>Keys\<close>

type_synonym dh = "bytes \<Rightarrow> bytes \<Rightarrow> int \<times> bytes"

definition basepoint :: bytes where "basepoint = 9 # zeroes 31"

definition wireguard_clamp_private_key :: "bytes \<Rightarrow> bytes" where
  "wireguard_clamp_private_key key =
     (let key = key[0 := key ! 0 AND 248] in key[31 := (key ! 31 AND 127) OR 64])"

definition wireguard_generate_private_key :: "os \<Rightarrow> bytes \<times> os" where
  "wireguard_generate_private_key os =
     (let (key, os) = wireguard_random_bytes 32 os in (wireguard_clamp_private_key key, os))"

text \<open>The result is the return value and the public key, \<open>old\<close> where nothing is written.\<close>

definition wireguard_generate_public_key :: "dh \<Rightarrow> bytes \<Rightarrow> bytes \<Rightarrow> bool \<times> bytes" where
  "wireguard_generate_public_key X old private_key =
     (if memcmp private_key zero_key \<noteq> 0
      then let (ret, public_key) = X private_key basepoint in (ret = 0, public_key)
      else (False, old))"

section \<open>Lengths and specification\<close>

lemma blake2s_parts_spec:
  "1 \<le> outlen \<Longrightarrow> outlen \<le> 32 \<Longrightarrow> length key \<le> 32 \<Longrightarrow>
     blake2s_parts outlen key parts = blake2s_spec outlen key (concat parts)"
proof -
  assume bounds: "1 \<le> outlen" "outlen \<le> 32" "length key \<le> 32"
  obtain ctx where ctx: "blake2s_init stack_ctx outlen key = Some ctx"
    using blake2s_eq_spec [OF bounds, of "[]"] by (auto simp: blake2s_def split: option.splits)
  have "foldl blake2s_update c parts = blake2s_update c (concat parts)" for c
    by (induction parts arbitrary: c) (simp_all add: blake2s_update_append)
  moreover have "length (b2_b stack_ctx) = 64" by (simp add: stack_ctx_def)
  ultimately show ?thesis
    using blake2s_init_digest [OF _ ctx] by (simp add: blake2s_parts_def ctx)
qed

lemma length_blake2s_spec: "outlen \<le> 32 \<Longrightarrow> length (blake2s_spec outlen key inp) = outlen"
  by (simp add: blake2s_spec_def length_concat comp_def sum_list_triv length_blake2s_blocks)

lemma length_blake2s_parts: "1 \<le> n \<Longrightarrow> n \<le> 32 \<Longrightarrow> length k \<le> 32 \<Longrightarrow> length (blake2s_parts n k ps) = n"
  by (simp add: blake2s_parts_spec length_blake2s_spec)

lemma noise_lengths [simp, len_simps]:
  "length construction_hash = 32" "length identifier_hash = 32"
  "length (wireguard_mac_key pk l) = 32" "length (wireguard_mix_hash h s) = 32"
  "length (wireguard_hmac k t) = 32"
  by (simp_all add: construction_hash_def identifier_hash_def wireguard_mac_key_def
      wireguard_mix_hash_def wireguard_hmac_def Let_def length_blake2s_parts)

lemma length_wireguard_mac [len_simps]: "length key \<le> 32 \<Longrightarrow> length (wireguard_mac m key) = 16"
  by (simp add: wireguard_mac_def length_blake2s_parts)

lemma length_zero_key [simp, len_simps]: "length zero_key = 32" "length basepoint = 32"
  by (simp_all add: zero_key_def basepoint_def)

lemma length_clamp [simp, len_simps]: "length (wireguard_clamp_private_key k) = length k"
  by (simp add: wireguard_clamp_private_key_def Let_def)

text \<open>RFC 2104 with BLAKE2s, and the derivation that WireGuard's paper calls Kdf.\<close>

definition hmac_spec :: "bytes \<Rightarrow> bytes \<Rightarrow> bytes" where
  "hmac_spec key txt =
     (let k = (if length key > 64 then blake2s_spec 32 [] key else key) in
      let k64 = k @ zeroes (64 - length k)
      in blake2s_spec 32 [] (map (\<lambda>b. b XOR 0x5c) k64 @ blake2s_spec 32 [] (map (\<lambda>b. b XOR 0x36) k64 @ txt)))"

definition kdf_spec :: "bytes \<Rightarrow> bytes \<Rightarrow> bytes \<times> bytes \<times> bytes" where
  "kdf_spec key inp =
     (let tau0 = hmac_spec key inp;
          tau1 = hmac_spec tau0 [1];
          tau2 = hmac_spec tau0 (tau1 @ [2]);
          tau3 = hmac_spec tau0 (tau2 @ [3])
      in (tau1, tau2, tau3))"

lemma hmac_eq_spec: "wireguard_hmac key txt = hmac_spec key txt"
proof -
  have drop: "drop n (zeroes m) = zeroes (m - n)" for n m by (simp add: zeroes_def)
  show ?thesis
  by (auto simp: wireguard_hmac_def hmac_spec_def Let_def blake2s_parts_spec bytes_put_def drop length_blake2s_spec)
qed
lemma length_hmac_spec: "length (hmac_spec k t) = 32" by (simp flip: hmac_eq_spec)

lemma put33: "length xs = 32 \<Longrightarrow> length buf = 33 \<Longrightarrow> bytes_put 0 xs buf = xs @ [buf ! 32]"
  by (cases buf rule: rev_cases) (simp_all add: bytes_put_def nth_append)

lemma junk_start: "junk[0 := 1] = 1 # zeroes 32"
proof -
  have "junk = 0 # zeroes 32" unfolding junk_def zeroes_def by (simp flip: replicate_Suc)
  show ?thesis by (subst \<open>junk = 0 # zeroes 32\<close>) simp
qed

text \<open>
  C38. The key schedule is HKDF: \<open>wireguard_hmac\<close> is RFC 2104's HMAC over BLAKE2s for keys of any
  length, and the three derivations return the first one, two and three outputs of the expansion
  \<open>tau1 = HMAC(tau0, 1)\<close>, \<open>tau2 = HMAC(tau0, tau1 || 2)\<close>, \<open>tau3 = HMAC(tau0, tau2 || 3)\<close>.
\<close>

theorem kdf_is_hkdf:
  "wireguard_hmac key data = hmac_spec key data
   \<and> wireguard_kdf1 key data = fst (kdf_spec key data)
   \<and> wireguard_kdf2 key data = (fst (kdf_spec key data), fst (snd (kdf_spec key data)))
   \<and> wireguard_kdf3 key data = kdf_spec key data"
  by (simp add: wireguard_kdf1_def wireguard_kdf2_def wireguard_kdf3_def hmac_eq_spec kdf_spec_def Let_def junk_start
     put33 length_hmac_spec nth_append list_update_append)

end
