(* ===== verification/Peers.thy ===== *)
theory Peers
  imports Wg_Types
begin

text \<open>
  The peer table of a device and the searches over it from \<open>wireguard.c\<close>. Each search is the
  index of the first matching entry. The lemmas show that a peer found by a receiver index holds a
  key pair with that index (so that the caller's second search cannot fail), and that the number of
  entries never changes.
\<close>

section \<open>Access\<close>

definition peer_at :: "wireguard_device \<Rightarrow> nat \<Rightarrow> wireguard_peer" where
  "peer_at dev i = dv_peers dev ! i"

definition put_peer :: "nat \<Rightarrow> wireguard_peer \<Rightarrow> wireguard_device \<Rightarrow> wireguard_device" where
  "put_peer i p dev = dev\<lparr>dv_peers := (dv_peers dev)[i := p]\<rparr>"

lemma put_peer_frame [simp, frame_simps]:
  "dv_public_key (put_peer i p dev) = dv_public_key dev"
  "dv_private_key (put_peer i p dev) = dv_private_key dev"
  "dv_cookie_secret (put_peer i p dev) = dv_cookie_secret dev"
  "dv_cookie_secret_millis (put_peer i p dev) = dv_cookie_secret_millis dev"
  "dv_label_cookie_key (put_peer i p dev) = dv_label_cookie_key dev"
  "dv_label_mac1_key (put_peer i p dev) = dv_label_mac1_key dev"
  "dv_valid (put_peer i p dev) = dv_valid dev"
  "length (dv_peers (put_peer i p dev)) = length (dv_peers dev)"
  by (simp_all add: put_peer_def)

lemma peer_at_put_peer [simp]:
  "i < length (dv_peers dev) \<Longrightarrow> peer_at (put_peer i p dev) i = p"
  "j \<noteq> i \<Longrightarrow> peer_at (put_peer i p dev) j = peer_at dev j"
  by (simp_all add: peer_at_def put_peer_def)

lemma put_peer_same [simp]: "put_peer i (peer_at dev i) dev = dev"
  by (simp add: put_peer_def peer_at_def)

lemma put_peer_put_peer [simp]: "put_peer i p (put_peer i q dev) = put_peer i p dev"
  by (simp add: put_peer_def)

section \<open>Searches\<close>

definition peer_alloc :: "wireguard_device \<Rightarrow> nat option" where
  "peer_alloc dev = find_index (\<lambda>p. \<not> pr_valid p) (dv_peers dev)"

definition peer_lookup_by_pubkey :: "wireguard_device \<Rightarrow> bytes \<Rightarrow> nat option" where
  "peer_lookup_by_pubkey dev public_key =
     find_index (\<lambda>p. pr_valid p \<and> memcmp (pr_public_key p) public_key = 0) (dv_peers dev)"

definition wireguard_peer_index :: "wireguard_device \<Rightarrow> nat \<Rightarrow> byte" where
  "wireguard_peer_index dev peer = (if peer < length (dv_peers dev) then of_nat peer else 0xFF)"

definition peer_lookup_by_peer_index :: "wireguard_device \<Rightarrow> byte \<Rightarrow> nat option" where
  "peer_lookup_by_peer_index dev peer_index =
     (if unat peer_index < length (dv_peers dev)
      then if pr_valid (peer_at dev (unat peer_index)) then Some (unat peer_index) else None
      else None)"

definition holds_receiver :: "u32 \<Rightarrow> wireguard_peer \<Rightarrow> bool" where
  "holds_receiver receiver p \<longleftrightarrow>
     kp_valid (pr_curr_keypair p) \<and> kp_local_index (pr_curr_keypair p) = receiver \<or>
     kp_valid (pr_next_keypair p) \<and> kp_local_index (pr_next_keypair p) = receiver \<or>
     kp_valid (pr_prev_keypair p) \<and> kp_local_index (pr_prev_keypair p) = receiver"

definition peer_lookup_by_receiver :: "wireguard_device \<Rightarrow> u32 \<Rightarrow> nat option" where
  "peer_lookup_by_receiver dev receiver =
     find_index (\<lambda>p. pr_valid p \<and> holds_receiver receiver p) (dv_peers dev)"

definition peer_lookup_by_handshake :: "wireguard_device \<Rightarrow> u32 \<Rightarrow> nat option" where
  "peer_lookup_by_handshake dev receiver =
     find_index (\<lambda>p. pr_valid p \<and> hs_valid (pr_handshake p) \<and> hs_initiator (pr_handshake p)
                    \<and> hs_local_index (pr_handshake p) = receiver) (dv_peers dev)"

definition get_peer_keypair_for_idx :: "wireguard_peer \<Rightarrow> u32 \<Rightarrow> keypair_slot option" where
  "get_peer_keypair_for_idx p idx =
     (if kp_valid (pr_curr_keypair p) \<and> kp_local_index (pr_curr_keypair p) = idx then Some Curr
      else if kp_valid (pr_next_keypair p) \<and> kp_local_index (pr_next_keypair p) = idx then Some Next
      else if kp_valid (pr_prev_keypair p) \<and> kp_local_index (pr_prev_keypair p) = idx then Some Prev
      else None)"

section \<open>The searches agree\<close>

lemma holds_receiver_iff: "holds_receiver idx p \<longleftrightarrow> get_peer_keypair_for_idx p idx \<noteq> None"
  by (auto simp: holds_receiver_def get_peer_keypair_for_idx_def)

lemma get_peer_keypair_SomeD:
  assumes "get_peer_keypair_for_idx p idx = Some s"
  shows "kp_valid (slot_keypair p s)" "kp_local_index (slot_keypair p s) = idx"
  using assms by (auto simp: get_peer_keypair_for_idx_def split: if_splits)

lemma lookup_valid:
  "peer_lookup_by_receiver dev r = Some i \<Longrightarrow> i < length (dv_peers dev) \<and> pr_valid (peer_at dev i)"
  "peer_lookup_by_handshake dev r = Some i \<Longrightarrow> i < length (dv_peers dev) \<and> pr_valid (peer_at dev i)"
  "peer_lookup_by_pubkey dev k = Some i \<Longrightarrow> i < length (dv_peers dev) \<and> pr_valid (peer_at dev i)"
  by (auto simp: peer_lookup_by_receiver_def peer_lookup_by_handshake_def
      peer_lookup_by_pubkey_def peer_at_def find_index_Some)

text \<open>
  The two searches for a transport message agree: when a peer is found for a receiver index,
  the peer is valid and the search among its key pairs finds a valid key pair carrying that very
  index; when none is found, no valid peer has a valid key pair
  with the index.
\<close>

lemma receiver_lookups_agree:
  "case peer_lookup_by_receiver dev idx of
     Some i \<Rightarrow> i < length (dv_peers dev) \<and> pr_valid (peer_at dev i) \<and>
       (\<exists>s. get_peer_keypair_for_idx (peer_at dev i) idx = Some s \<and>
            kp_valid (slot_keypair (peer_at dev i) s) \<and>
            kp_local_index (slot_keypair (peer_at dev i) s) = idx)
   | None \<Rightarrow> {i. i < length (dv_peers dev) \<and> pr_valid (peer_at dev i) \<and>
       get_peer_keypair_for_idx (peer_at dev i) idx \<noteq> None} = {}"
proof (cases "peer_lookup_by_receiver dev idx")
  case None
  then have "\<forall>p \<in> set (dv_peers dev). pr_valid p \<longrightarrow> get_peer_keypair_for_idx p idx = None"
    by (auto simp: peer_lookup_by_receiver_def find_index_None holds_receiver_iff)
  then show ?thesis
    unfolding None by (auto simp: peer_at_def)
next
  case (Some i)
  then have "i < length (dv_peers dev)" "pr_valid (peer_at dev i)" "holds_receiver idx (peer_at dev i)"
    by (simp_all add: peer_lookup_by_receiver_def find_index_Some peer_at_def)
  then show ?thesis
    using get_peer_keypair_SomeD [of "peer_at dev i" idx] Some by (auto simp: holds_receiver_iff)
qed

end
