(* ===== verification/Keypairs.thy ===== *)
theory Keypairs
  imports Noise Peers
begin

text \<open>
  The session key pairs of \<open>wireguard.c\<close>: the three slots of a peer, their rotation, the start of a
  session from a finished handshake, and the choice of a receiver index. The index search is a
  loop over random draws that need not end; it is a partial function, \<open>None\<close> when the loop never
  returns. The lemmas characterise exactly when and with what it returns, and what the collision
  test inside does and does not exclude.
\<close>

section \<open>The key pair slots\<close>

definition keypair_destroy :: "wireguard_keypair \<Rightarrow> wireguard_keypair" where
  "keypair_destroy kp = (zero_keypair (length (kp_replay_bitmap kp)))\<lparr>kp_valid := False\<rparr>"

definition keypair_update :: "wireguard_peer \<Rightarrow> keypair_slot \<Rightarrow> wireguard_peer" where
  "keypair_update peer received_keypair =
     (let key_is_next = (received_keypair = Next)
      in if key_is_next
         then let peer = peer\<lparr>pr_prev_keypair := pr_curr_keypair peer\<rparr>;
                  peer = peer\<lparr>pr_curr_keypair := pr_next_keypair peer\<rparr>
              in peer\<lparr>pr_next_keypair := keypair_destroy (pr_next_keypair peer)\<rparr>
         else peer)"

definition add_new_keypair :: "wireguard_peer \<Rightarrow> wireguard_keypair \<Rightarrow> wireguard_peer" where
  "add_new_keypair peer new_keypair =
     (if kp_initiator new_keypair
      then let peer = (if kp_valid (pr_next_keypair peer)
                       then let peer = peer\<lparr>pr_prev_keypair := pr_next_keypair peer\<rparr>
                            in peer\<lparr>pr_next_keypair := keypair_destroy (pr_next_keypair peer)\<rparr>
                       else peer\<lparr>pr_prev_keypair := pr_curr_keypair peer\<rparr>)
           in peer\<lparr>pr_curr_keypair := new_keypair\<rparr>
      else let peer = peer\<lparr>pr_next_keypair := new_keypair\<rparr>
           in peer\<lparr>pr_prev_keypair := keypair_destroy (pr_prev_keypair peer)\<rparr>)"

definition wireguard_start_session :: "os \<Rightarrow> wireguard_peer \<Rightarrow> bool \<Rightarrow> wireguard_peer" where
  "wireguard_start_session os peer initiator =
     (let handshake = pr_handshake peer;
          new_keypair = zero_keypair (length (kp_replay_bitmap (pr_curr_keypair peer)));
          new_keypair = new_keypair\<lparr>kp_initiator := initiator,
            kp_local_index := hs_local_index handshake, kp_remote_index := hs_remote_index handshake,
            kp_millis := wireguard_sys_now os, kp_sending_valid := True, kp_receiving_valid := True\<rparr>;
          (tau1, tau2) = wireguard_kdf2 (hs_chaining_key handshake) [];
          new_keypair = (if kp_initiator new_keypair
            then new_keypair\<lparr>kp_sending_key := tau1, kp_receiving_key := tau2\<rparr>
            else new_keypair\<lparr>kp_receiving_key := tau1, kp_sending_key := tau2\<rparr>);
          new_keypair = new_keypair
            \<lparr>kp_replay_bitmap := replicate (length (kp_replay_bitmap new_keypair)) 0,
             kp_replay_counter := 0, kp_last_tx := 0, kp_last_rx := 0, kp_valid := True\<rparr>;
          handshake = handshake
            \<lparr>hs_ephemeral_private := crypto_zero (hs_ephemeral_private handshake),
             hs_remote_ephemeral := crypto_zero (hs_remote_ephemeral handshake),
             hs_hash := crypto_zero (hs_hash handshake),
             hs_chaining_key := crypto_zero (hs_chaining_key handshake),
             hs_remote_index := 0, hs_local_index := 0, hs_valid := False\<rparr>
      in add_new_keypair (peer\<lparr>pr_handshake := handshake\<rparr>) new_keypair)"

section \<open>The choice of a receiver index\<close>

text \<open>The inner loop: draw until the word is neither 0 nor all ones.\<close>

partial_function (option) random_index :: "os \<Rightarrow> (u32 \<times> os) option" where
  "random_index os =
     (let (buf, os) = wireguard_random_bytes 4 os;
          result = U8TO32_LITTLE buf
      in if result = 0 \<or> result = 0xFFFFFFFF then random_index os else Some (result, os))"

text \<open>The assignment (not an accumulation) to \<open>existing\<close> in the loop over the peers.\<close>

definition peer_uses_index :: "u32 \<Rightarrow> wireguard_peer \<Rightarrow> bool" where
  "peer_uses_index result peer \<longleftrightarrow>
     result = kp_local_index (pr_curr_keypair peer) \<or> result = kp_local_index (pr_prev_keypair peer) \<or>
     result = kp_local_index (pr_next_keypair peer) \<or> result = hs_local_index (pr_handshake peer)"

definition index_existing :: "wireguard_device \<Rightarrow> u32 \<Rightarrow> bool" where
  "index_existing dev result = fold (\<lambda>peer existing. peer_uses_index result peer) (dv_peers dev) False"

partial_function (option) wireguard_generate_unique_index ::
    "wireguard_device \<Rightarrow> os \<Rightarrow> (u32 \<times> os) option" where
  "wireguard_generate_unique_index dev os =
     (case random_index os of
        None \<Rightarrow> None
      | Some (result, os) \<Rightarrow>
          if index_existing dev result then wireguard_generate_unique_index dev os
          else Some (result, os))"

section \<open>When the search returns\<close>

text \<open>The word of the \<open>n\<close>-th successive draw of four random bytes, and the state after it.\<close>

definition draw :: "os \<Rightarrow> u32 \<times> os" where
  "draw os = (let (buf, os) = wireguard_random_bytes 4 os in (U8TO32_LITTLE buf, os))"

definition nth_draw :: "nat \<Rightarrow> os \<Rightarrow> u32 \<times> os" where
  "nth_draw n os = draw (((snd \<circ> draw) ^^ n) os)"

definition index_accepted :: "wireguard_device \<Rightarrow> u32 \<Rightarrow> bool" where
  "index_accepted dev r \<longleftrightarrow> r \<noteq> 0 \<and> r \<noteq> 0xFFFFFFFF \<and> \<not> index_existing dev r"

lemma nth_draw_0: "nth_draw 0 os = draw os"
  by (simp add: nth_draw_def)

lemma nth_draw_Suc: "nth_draw (Suc n) os = nth_draw n (snd (draw os))"
  by (simp add: nth_draw_def funpow_Suc_right del: funpow.simps)

lemma random_index_draw:
  "random_index os = (if fst (draw os) = 0 \<or> fst (draw os) = 0xFFFFFFFF
     then random_index (snd (draw os)) else Some (draw os))"
  by (subst random_index.simps) (simp add: draw_def split: prod.split)

lemma generate_unique_index_step:
  "wireguard_generate_unique_index dev os =
     (if index_accepted dev (fst (draw os)) then Some (draw os)
      else wireguard_generate_unique_index dev (snd (draw os)))"
proof (cases "fst (draw os) = 0 \<or> fst (draw os) = 0xFFFFFFFF")
  case True
  then have "random_index os = random_index (snd (draw os))" by (subst random_index_draw) simp
  then have "wireguard_generate_unique_index dev os = wireguard_generate_unique_index dev (snd (draw os))"
    by (subst (1 2) wireguard_generate_unique_index.simps) simp
  then show ?thesis using True by (auto simp: index_accepted_def)
next
  case False
  then have "random_index os = Some (draw os)" by (subst random_index_draw) simp
  then show ?thesis using False
    by (subst wireguard_generate_unique_index.simps) (simp add: index_accepted_def split: prod.split)
qed

lemma nth_draw_add: "nth_draw m (snd (nth_draw n os)) = nth_draw (m + Suc n) os"
proof -
  have "((snd \<circ> draw) ^^ k) (snd (draw z)) = snd (draw (((snd \<circ> draw) ^^ k) z))" for k z
    using funpow_swap1 [of "snd \<circ> draw" k z] by simp
  then show ?thesis by (simp add: nth_draw_def funpow_add)
qed

lemma random_index_SomeD:
  "random_index os = Some ro \<Longrightarrow> \<exists>n. nth_draw n os = ro"
proof (induction rule: random_index.raw_induct [rotated, consumes 1, case_names step])
  case (step f os ro)
  show ?case
  proof (cases "fst (draw os) = 0 \<or> fst (draw os) = 0xFFFFFFFF")
    case True
    then have "f (snd (draw os)) = Some ro" using step(2) by (auto simp: draw_def split: prod.splits)
    then obtain n where "nth_draw n (snd (draw os)) = ro" using step(1) by blast
    then show ?thesis by (auto simp flip: nth_draw_Suc)
  next
    case False
    then have "draw os = ro" using step(2) by (auto simp: draw_def split: prod.splits)
    then show ?thesis by (metis nth_draw_0)
  qed
qed

lemma random_index_range: "random_index os = Some (r, os') \<Longrightarrow> r \<noteq> 0 \<and> r \<noteq> 0xFFFFFFFF"
proof (induction os "(r, os')" arbitrary: r os' rule: random_index.raw_induct [rotated, consumes 1, case_names step])
  case (step f os)
  then show ?case by (auto simp: Let_def split: prod.splits if_splits)
qed

lemma generate_SomeD:
  "wireguard_generate_unique_index dev os = Some ro \<Longrightarrow> \<exists>n. index_accepted dev (fst (nth_draw n os))"
proof (induction rule: wireguard_generate_unique_index.raw_induct [rotated, consumes 1, case_names step])
  case (step f dev os ro)
  then obtain r os1 where ri: "random_index os = Some (r, os1)"
    and rest: "if index_existing dev r then f dev os1 = Some ro else ro = (r, os1)"
    by (auto split: option.splits if_splits)
  obtain n where n: "nth_draw n os = (r, os1)" using random_index_SomeD [OF ri] by blast
  show ?case
  proof (cases "index_existing dev r")
    case True
    then obtain m where "index_accepted dev (fst (nth_draw m os1))" using step(1) [of dev os1 ro] rest by (cases ro) auto
    then show ?thesis using nth_draw_add [of m n os] n by auto
  next
    case False
    then show ?thesis using random_index_range [OF ri] n by (auto simp: index_accepted_def intro: exI [of _ n])
  qed
qed

lemma generate_first:
  "index_accepted dev (fst (nth_draw n os)) \<Longrightarrow> \<forall>m < n. \<not> index_accepted dev (fst (nth_draw m os)) \<Longrightarrow>
     wireguard_generate_unique_index dev os = Some (nth_draw n os)"
proof (induction n arbitrary: os)
  case 0
  then show ?case by (subst generate_unique_index_step) (simp add: nth_draw_0)
next
  case (Suc n)
  have "\<not> index_accepted dev (fst (draw os))" using Suc.prems(2) nth_draw_0 [of os] by auto
  moreover have "wireguard_generate_unique_index dev (snd (draw os)) = Some (nth_draw n (snd (draw os)))"
    using Suc.prems by (intro Suc.IH) (auto simp flip: nth_draw_Suc)
  ultimately show ?case by (subst generate_unique_index_step) (simp add: nth_draw_Suc)
qed

lemma unique_index_is_first:
  "wireguard_generate_unique_index dev os =
     (if \<exists>n. index_accepted dev (fst (nth_draw n os))
      then Some (nth_draw (LEAST n. index_accepted dev (fst (nth_draw n os))) os) else None)"
proof (cases "\<exists>n. index_accepted dev (fst (nth_draw n os))")
  case True
  then have "index_accepted dev (fst (nth_draw (LEAST n. index_accepted dev (fst (nth_draw n os))) os))"
    by (rule LeastI_ex)
  moreover have "\<forall>m < (LEAST n. index_accepted dev (fst (nth_draw n os))). \<not> index_accepted dev (fst (nth_draw m os))"
    using not_less_Least by blast
  ultimately have "wireguard_generate_unique_index dev os = Some (nth_draw (LEAST n. index_accepted dev (fst (nth_draw n os))) os)"
    by (rule generate_first)
  with True show ?thesis by simp
next
  case False
  then show ?thesis using generate_SomeD by (cases "wireguard_generate_unique_index dev os") auto
qed

text \<open>
  C32. The search for a receiver index returns exactly when some draw of the entropy source is
  acceptable, and then it returns the first acceptable draw with the entropy consumed up to it: a
  word other than 0 and \<open>0xFFFFFFFF\<close> that the collision test does not reject. If no draw is ever
  acceptable the loop does not return.
\<close>

theorem unique_index_first_acceptable:
  "wireguard_generate_unique_index dev os =
     (if \<exists>n. index_accepted dev (fst (nth_draw n os))
      then Some (nth_draw (LEAST n. index_accepted dev (fst (nth_draw n os))) os) else None)"
  by (rule unique_index_is_first)

section \<open>What the collision test excludes\<close>

lemma index_existing_last:
  "index_existing dev r \<longleftrightarrow> dv_peers dev \<noteq> [] \<and> peer_uses_index r (last (dv_peers dev))"
proof -
  have "fold (\<lambda>p e. peer_uses_index r p) ps b = (if ps = [] then b else peer_uses_index r (last ps))" for ps b
    by (induction ps arbitrary: b) auto
  then show ?thesis by (simp add: index_existing_def)
qed

lemma generated_index:
  assumes "wireguard_generate_unique_index dev os = Some (r, os')"
  shows "index_accepted dev r" "\<exists>n. nth_draw n os = (r, os')"
proof -
  let ?n = "LEAST n. index_accepted dev (fst (nth_draw n os))"
  have ex: "\<exists>n. index_accepted dev (fst (nth_draw n os))" and eq: "nth_draw ?n os = (r, os')"
    using assms unique_index_is_first [of dev os] by (auto split: if_splits)
  have n: "index_accepted dev (fst (nth_draw ?n os))" using ex by (rule LeastI_ex)
  then show "index_accepted dev r" "\<exists>n. nth_draw n os = (r, os')" using eq by auto
qed

definition one_peer :: wireguard_device where
  "one_peer =
     \<lparr>dv_public_key = zeroes 32, dv_private_key = zeroes 32, dv_cookie_secret = zeroes 32,
      dv_cookie_secret_millis = 0, dv_label_cookie_key = zeroes 32, dv_label_mac1_key = zeroes 32,
      dv_peers = [zero_peer 1 32], dv_valid = True\<rparr>"

lemma sample_draw: "fst (draw (sample_os 7)) = 0x03020101"
  by (simp add: draw_def wireguard_random_bytes_def urandom_next_def sample_os_def urandom_read.simps
      U8TO32_LITTLE_def Let_def)

lemma sample_generate:
  "index_accepted dev 0x03020101 \<Longrightarrow>
     wireguard_generate_unique_index dev (sample_os 7) = Some (0x03020101, snd (draw (sample_os 7)))"
  by (subst generate_unique_index_step) (simp add: sample_draw prod_eq_iff)

lemma one_peer_accepts: "index_accepted one_peer 0x03020101"
  by (simp add: index_accepted_def index_existing_last one_peer_def peer_uses_index_def zero_peer_def
      zero_keypair_def zero_handshake_def)

text \<open>
  On a device with room for one peer (the default configuration) a generated index is fresh:
  it is neither 0 nor \<open>0xFFFFFFFF\<close>, and it differs from the local index of every key pair and of the
  handshake of the peer.
\<close>

lemma unique_index_fresh_single_peer:
  assumes "wireguard_generate_unique_index dev os = Some (r, os')" and "length (dv_peers dev) = 1"
  shows "r \<noteq> 0 \<and> r \<noteq> 0xFFFFFFFF \<and> r \<noteq> hs_local_index (pr_handshake (peer_at dev 0))
       \<and> r \<noteq> kp_local_index (slot_keypair (peer_at dev 0) s)"
proof -
  obtain p where p: "dv_peers dev = [p]" using assms(2) by (cases "dv_peers dev") auto
  have "index_accepted dev r" by (rule generated_index(1) [OF assms(1)])
  then show ?thesis
    by (cases s) (auto simp: index_accepted_def index_existing_last p peer_uses_index_def peer_at_def)
qed

definition two_peers :: "u32 \<Rightarrow> wireguard_device" where
  "two_peers idx =
     \<lparr>dv_public_key = zeroes 32, dv_private_key = zeroes 32, dv_cookie_secret = zeroes 32,
      dv_cookie_secret_millis = 0, dv_label_cookie_key = zeroes 32, dv_label_mac1_key = zeroes 32,
      dv_peers = [(zero_peer 1 32)\<lparr>pr_valid := True, pr_curr_keypair := (zero_keypair 32)\<lparr>kp_valid := True, kp_local_index := idx\<rparr>\<rparr>,
                  (zero_peer 1 32)\<lparr>pr_valid := True\<rparr>],
      dv_valid = True\<rparr>"

text \<open>
  C33. With two peers the test does not exclude a collision: the loop over the peers overwrites its
  result, so only the last peer counts, and an index already in use by the first peer is returned.
\<close>

theorem unique_index_collision:
  "\<exists>os'. wireguard_generate_unique_index (two_peers 0x03020101) (sample_os 7) = Some (0x03020101, os')
       \<and> peer_lookup_by_receiver (two_peers 0x03020101) 0x03020101 = Some 0"
proof -
  have "index_accepted (two_peers 0x03020101) 0x03020101"
    by (simp add: index_accepted_def index_existing_last two_peers_def peer_uses_index_def zero_peer_def
        zero_keypair_def zero_handshake_def)
  moreover have "peer_lookup_by_receiver (two_peers 0x03020101) 0x03020101 = Some 0"
    by (simp add: peer_lookup_by_receiver_def holds_receiver_def two_peers_def zero_peer_def zero_keypair_def)
  ultimately show ?thesis using sample_generate by blast
qed

end
