(* ===== verification/Messages.thy ===== *)
theory Messages
  imports Wg_Types
begin

text \<open>
  The wire format: the packed message structures of \<open>wireguard.h\<close> as records, their layout as byte
  strings and back (the code casts between the two; the words are in the byte order of the target,
  which is little-endian like the protocol's), and \<open>wireguard_get_message_type\<close>.
\<close>

section \<open>The message structures\<close>

record message_handshake_initiation =
  mi_type :: byte
  mi_reserved :: bytes
  mi_sender :: u32
  mi_ephemeral :: bytes
  mi_enc_static :: bytes
  mi_enc_timestamp :: bytes
  mi_mac1 :: bytes
  mi_mac2 :: bytes

record message_handshake_response =
  mr_type :: byte
  mr_reserved :: bytes
  mr_sender :: u32
  mr_receiver :: u32
  mr_ephemeral :: bytes
  mr_enc_empty :: bytes
  mr_mac1 :: bytes
  mr_mac2 :: bytes

record message_cookie_reply =
  mc_type :: byte
  mc_reserved :: bytes
  mc_receiver :: u32
  mc_nonce :: bytes
  mc_enc_cookie :: bytes

record message_transport_data =
  mt_type :: byte
  mt_reserved :: bytes
  mt_receiver :: u32
  mt_counter :: bytes
  mt_enc_packet :: bytes

abbreviation (input) MESSAGE_INVALID :: byte where "MESSAGE_INVALID \<equiv> 0"
abbreviation (input) MESSAGE_HANDSHAKE_INITIATION :: byte where "MESSAGE_HANDSHAKE_INITIATION \<equiv> 1"
abbreviation (input) MESSAGE_HANDSHAKE_RESPONSE :: byte where "MESSAGE_HANDSHAKE_RESPONSE \<equiv> 2"
abbreviation (input) MESSAGE_COOKIE_REPLY :: byte where "MESSAGE_COOKIE_REPLY \<equiv> 3"
abbreviation (input) MESSAGE_TRANSPORT_DATA :: byte where "MESSAGE_TRANSPORT_DATA \<equiv> 4"

section \<open>Layout\<close>

definition initiation_bytes :: "message_handshake_initiation \<Rightarrow> bytes" where
  "initiation_bytes m = mi_type m # mi_reserved m @ U32TO8_LITTLE (mi_sender m) @ mi_ephemeral m
     @ mi_enc_static m @ mi_enc_timestamp m @ mi_mac1 m @ mi_mac2 m"

definition initiation_of :: "bytes \<Rightarrow> message_handshake_initiation" where
  "initiation_of d = \<lparr>mi_type = d ! 0, mi_reserved = bytes_at 1 3 d,
     mi_sender = U8TO32_LITTLE (bytes_at 4 4 d), mi_ephemeral = bytes_at 8 32 d,
     mi_enc_static = bytes_at 40 48 d, mi_enc_timestamp = bytes_at 88 28 d,
     mi_mac1 = bytes_at 116 16 d, mi_mac2 = bytes_at 132 16 d\<rparr>"

definition response_bytes :: "message_handshake_response \<Rightarrow> bytes" where
  "response_bytes m = mr_type m # mr_reserved m @ U32TO8_LITTLE (mr_sender m)
     @ U32TO8_LITTLE (mr_receiver m) @ mr_ephemeral m @ mr_enc_empty m @ mr_mac1 m @ mr_mac2 m"

definition response_of :: "bytes \<Rightarrow> message_handshake_response" where
  "response_of d = \<lparr>mr_type = d ! 0, mr_reserved = bytes_at 1 3 d,
     mr_sender = U8TO32_LITTLE (bytes_at 4 4 d), mr_receiver = U8TO32_LITTLE (bytes_at 8 4 d),
     mr_ephemeral = bytes_at 12 32 d, mr_enc_empty = bytes_at 44 16 d,
     mr_mac1 = bytes_at 60 16 d, mr_mac2 = bytes_at 76 16 d\<rparr>"

definition cookie_reply_bytes :: "message_cookie_reply \<Rightarrow> bytes" where
  "cookie_reply_bytes m = mc_type m # mc_reserved m @ U32TO8_LITTLE (mc_receiver m)
     @ mc_nonce m @ mc_enc_cookie m"

definition cookie_reply_of :: "bytes \<Rightarrow> message_cookie_reply" where
  "cookie_reply_of d = \<lparr>mc_type = d ! 0, mc_reserved = bytes_at 1 3 d,
     mc_receiver = U8TO32_LITTLE (bytes_at 4 4 d), mc_nonce = bytes_at 8 24 d,
     mc_enc_cookie = bytes_at 32 32 d\<rparr>"

definition transport_bytes :: "message_transport_data \<Rightarrow> bytes" where
  "transport_bytes m = mt_type m # mt_reserved m @ U32TO8_LITTLE (mt_receiver m)
     @ mt_counter m @ mt_enc_packet m"

definition transport_of :: "bytes \<Rightarrow> message_transport_data" where
  "transport_of d = \<lparr>mt_type = d ! 0, mt_reserved = bytes_at 1 3 d,
     mt_receiver = U8TO32_LITTLE (bytes_at 4 4 d), mt_counter = bytes_at 8 8 d,
     mt_enc_packet = drop 16 d\<rparr>"

definition initiation_wf :: "message_handshake_initiation \<Rightarrow> bool" where
  "initiation_wf m \<longleftrightarrow> length (mi_reserved m) = 3 \<and> length (mi_ephemeral m) = 32
     \<and> length (mi_enc_static m) = 48 \<and> length (mi_enc_timestamp m) = 28
     \<and> length (mi_mac1 m) = 16 \<and> length (mi_mac2 m) = 16"

definition response_wf :: "message_handshake_response \<Rightarrow> bool" where
  "response_wf m \<longleftrightarrow> length (mr_reserved m) = 3 \<and> length (mr_ephemeral m) = 32
     \<and> length (mr_enc_empty m) = 16 \<and> length (mr_mac1 m) = 16 \<and> length (mr_mac2 m) = 16"

definition cookie_reply_wf :: "message_cookie_reply \<Rightarrow> bool" where
  "cookie_reply_wf m \<longleftrightarrow> length (mc_reserved m) = 3 \<and> length (mc_nonce m) = 24
     \<and> length (mc_enc_cookie m) = 32"

definition transport_wf :: "message_transport_data \<Rightarrow> bool" where
  "transport_wf m \<longleftrightarrow> length (mt_reserved m) = 3 \<and> length (mt_counter m) = 8"

lemma initiation_length: "initiation_wf m \<Longrightarrow> length (initiation_bytes m) = 148"
  by (simp add: initiation_wf_def initiation_bytes_def)

lemma response_length: "response_wf m \<Longrightarrow> length (response_bytes m) = 92"
  by (simp add: response_wf_def response_bytes_def)

lemma cookie_reply_length: "cookie_reply_wf m \<Longrightarrow> length (cookie_reply_bytes m) = 64"
  by (simp add: cookie_reply_wf_def cookie_reply_bytes_def)

lemma transport_length: "transport_wf m \<Longrightarrow> length (transport_bytes m) = 16 + length (mt_enc_packet m)"
  by (simp add: transport_wf_def transport_bytes_def)

lemma bytes_at_skip: "0 < off \<Longrightarrow> bytes_at off n (x # xs) = bytes_at (off - 1) n xs"
  by (cases off) (simp_all add: bytes_at_def)

lemma bytes_at_here: "length xs = n \<Longrightarrow> bytes_at 0 n (xs @ ys) = xs"
  by (simp add: bytes_at_def)

lemma bytes_at_all: "length xs = n \<Longrightarrow> bytes_at 0 n xs = xs"
  by (simp add: bytes_at_def)

lemmas layout_simps = bytes_at_skip bytes_at_here bytes_at_all bytes_at_append_right

lemma initiation_roundtrip: "initiation_wf m \<Longrightarrow> initiation_of (initiation_bytes m) = m"
  by (cases m) (simp add: initiation_wf_def initiation_bytes_def initiation_of_def layout_simps)

lemma response_roundtrip: "response_wf m \<Longrightarrow> response_of (response_bytes m) = m"
  by (cases m) (simp add: response_wf_def response_bytes_def response_of_def layout_simps)

lemma cookie_reply_roundtrip: "cookie_reply_wf m \<Longrightarrow> cookie_reply_of (cookie_reply_bytes m) = m"
  by (cases m) (simp add: cookie_reply_wf_def cookie_reply_bytes_def cookie_reply_of_def layout_simps)

lemma transport_roundtrip: "transport_wf m \<Longrightarrow> transport_of (transport_bytes m) = m"
  by (cases m) (simp add: transport_wf_def transport_bytes_def transport_of_def layout_simps)

section \<open>wireguard_get_message_type\<close>

definition wireguard_get_message_type :: "bytes \<Rightarrow> byte" where
  "wireguard_get_message_type data =
     (if length data \<ge> 4 \<and> data ! 1 = 0 \<and> data ! 2 = 0 \<and> data ! 3 = 0
      then if data ! 0 = MESSAGE_HANDSHAKE_INITIATION \<and> length data = 148 then MESSAGE_HANDSHAKE_INITIATION
      else if data ! 0 = MESSAGE_HANDSHAKE_RESPONSE \<and> length data = 92 then MESSAGE_HANDSHAKE_RESPONSE
      else if data ! 0 = MESSAGE_COOKIE_REPLY \<and> length data = 64 then MESSAGE_COOKIE_REPLY
      else if data ! 0 = MESSAGE_TRANSPORT_DATA \<and> length data \<ge> 16 + 16 then MESSAGE_TRANSPORT_DATA
      else MESSAGE_INVALID
      else MESSAGE_INVALID)"

section \<open>The casts lose nothing\<close>

lemma bytes_at_join: "bytes_at off n d @ bytes_at (off + n) m d = bytes_at off (n + m) d"
  unfolding bytes_at_def take_add by (simp add: add.commute)

lemma bytes_at_join_rest: "bytes_at off n d @ drop (off + n) d = drop off d"
  by (metis add.commute append_take_drop_id bytes_at_def drop_drop)

lemma bytes_at_join3:
  "k = off + n \<Longrightarrow> bytes_at off n d @ bytes_at k m d = bytes_at off (n + m) d"
  "k = off + n \<Longrightarrow> bytes_at off n d @ bytes_at k m d @ xs = bytes_at off (n + m) d @ xs"
  "k = off + n \<Longrightarrow> bytes_at off n d @ drop k d = drop off d"
  using bytes_at_join [of off n d m] bytes_at_join_rest [of off n d] by (simp_all flip: append_assoc)

lemma head_bytes: "d \<noteq> [] \<Longrightarrow> d ! 0 # bytes_at 1 n d = bytes_at 0 (Suc n) d"
  by (cases d) (simp_all add: bytes_at_def)

lemma message_casts:
  "length d = 148 \<Longrightarrow> initiation_bytes (initiation_of d) = d"
  "length d = 92 \<Longrightarrow> response_bytes (response_of d) = d"
  "length d = 64 \<Longrightarrow> cookie_reply_bytes (cookie_reply_of d) = d"
  "16 \<le> length d \<Longrightarrow> transport_bytes (transport_of d) = d"
proof -
  have hd: "d ! 0 # bytes_at (Suc 0) n d @ xs = bytes_at 0 (Suc n) d @ xs" if "4 \<le> length d" for n xs
    using that head_bytes [of d n] by (cases d) auto
  have hd0: "d ! 0 # bytes_at (Suc 0) n d = bytes_at 0 (Suc n) d" if "4 \<le> length d" for n
    using that head_bytes [of d n] by (cases d) auto
  have w: "U32TO8_LITTLE (U8TO32_LITTLE (bytes_at k 4 d)) = bytes_at k 4 d" if "k + 4 \<le> length d" for k
    by (rule U32TO8_U8TO32) (use that in \<open>simp add: length_bytes_at\<close>)
  show "length d = 148 \<Longrightarrow> initiation_bytes (initiation_of d) = d"
    by (simp add: initiation_bytes_def initiation_of_def w hd hd0 bytes_at_join3 bytes_at_all)
  show "length d = 92 \<Longrightarrow> response_bytes (response_of d) = d"
    by (simp add: response_bytes_def response_of_def w hd hd0 bytes_at_join3 bytes_at_all)
  show "length d = 64 \<Longrightarrow> cookie_reply_bytes (cookie_reply_of d) = d"
    by (simp add: cookie_reply_bytes_def cookie_reply_of_def w hd hd0 bytes_at_join3 bytes_at_all)
  show "16 \<le> length d \<Longrightarrow> transport_bytes (transport_of d) = d"
    by (simp add: transport_bytes_def transport_of_def w hd hd0 bytes_at_join3 bytes_at_all) (cases d, auto)
qed

text \<open>
  The casts between buffers and message structures are faithful in both directions: a
  structure with arrays of the declared sizes, laid out with its type byte and zero reserved bytes,
  is classified as its own type and read back unchanged, and a buffer classified as a type is the
  layout of the structure read from it.
\<close>

lemma message_layout:
  assumes "initiation_wf mi" "response_wf mr" "cookie_reply_wf mc" "transport_wf mt"
    and "16 \<le> length (mt_enc_packet mt)"
    and "mi_type mi = 1" "mr_type mr = 2" "mc_type mc = 3" "mt_type mt = 4"
    and "mi_reserved mi = [0, 0, 0]" "mr_reserved mr = [0, 0, 0]"
    and "mc_reserved mc = [0, 0, 0]" "mt_reserved mt = [0, 0, 0]"
  shows "wireguard_get_message_type (initiation_bytes mi) = MESSAGE_HANDSHAKE_INITIATION
       \<and> wireguard_get_message_type (response_bytes mr) = MESSAGE_HANDSHAKE_RESPONSE
       \<and> wireguard_get_message_type (cookie_reply_bytes mc) = MESSAGE_COOKIE_REPLY
       \<and> wireguard_get_message_type (transport_bytes mt) = MESSAGE_TRANSPORT_DATA
       \<and> initiation_of (initiation_bytes mi) = mi \<and> response_of (response_bytes mr) = mr
       \<and> cookie_reply_of (cookie_reply_bytes mc) = mc \<and> transport_of (transport_bytes mt) = mt
       \<and> (case wireguard_get_message_type d of t \<Rightarrow>
            (if t = MESSAGE_HANDSHAKE_INITIATION then initiation_bytes (initiation_of d) = d
             else if t = MESSAGE_HANDSHAKE_RESPONSE then response_bytes (response_of d) = d
             else if t = MESSAGE_COOKIE_REPLY then cookie_reply_bytes (cookie_reply_of d) = d
             else if t = MESSAGE_TRANSPORT_DATA then transport_bytes (transport_of d) = d
             else t = MESSAGE_INVALID))"
proof -
  have "wireguard_get_message_type (initiation_bytes mi) = 1" "wireguard_get_message_type (response_bytes mr) = 2"
    "wireguard_get_message_type (cookie_reply_bytes mc) = 3" "wireguard_get_message_type (transport_bytes mt) = 4"
    using assms initiation_length [of mi] response_length [of mr] cookie_reply_length [of mc] transport_length [of mt]
    by (simp_all add: wireguard_get_message_type_def)
       (simp_all add: initiation_bytes_def response_bytes_def cookie_reply_bytes_def transport_bytes_def)
  moreover have "case wireguard_get_message_type d of t \<Rightarrow>
            (if t = 1 then initiation_bytes (initiation_of d) = d
             else if t = 2 then response_bytes (response_of d) = d
             else if t = 3 then cookie_reply_bytes (cookie_reply_of d) = d
             else if t = 4 then transport_bytes (transport_of d) = d
             else t = 0)"
    by (simp add: wireguard_get_message_type_def message_casts)
  ultimately show ?thesis
    using assms by (simp add: initiation_roundtrip response_roundtrip cookie_reply_roundtrip transport_roundtrip)
qed

lemma message_layout_witness:
  "initiation_of (initiation_bytes
     \<lparr>mi_type = 1, mi_reserved = [0, 0, 0], mi_sender = 7, mi_ephemeral = zeroes 32, mi_enc_static = zeroes 48,
      mi_enc_timestamp = zeroes 28, mi_mac1 = zeroes 16, mi_mac2 = zeroes 16\<rparr>)
   = \<lparr>mi_type = 1, mi_reserved = [0, 0, 0], mi_sender = 7, mi_ephemeral = zeroes 32, mi_enc_static = zeroes 48,
      mi_enc_timestamp = zeroes 28, mi_mac1 = zeroes 16, mi_mac2 = zeroes 16\<rparr>"
  using message_layout
    [of "\<lparr>mi_type = 1, mi_reserved = [0, 0, 0], mi_sender = 7, mi_ephemeral = zeroes 32, mi_enc_static = zeroes 48,
          mi_enc_timestamp = zeroes 28, mi_mac1 = zeroes 16, mi_mac2 = zeroes 16\<rparr>"
        "\<lparr>mr_type = 2, mr_reserved = [0, 0, 0], mr_sender = 7, mr_receiver = 8, mr_ephemeral = zeroes 32,
          mr_enc_empty = zeroes 16, mr_mac1 = zeroes 16, mr_mac2 = zeroes 16\<rparr>"
        "\<lparr>mc_type = 3, mc_reserved = [0, 0, 0], mc_receiver = 8, mc_nonce = zeroes 24, mc_enc_cookie = zeroes 32\<rparr>"
        "\<lparr>mt_type = 4, mt_reserved = [0, 0, 0], mt_receiver = 8, mt_counter = zeroes 8, mt_enc_packet = zeroes 16\<rparr>"]
  by (simp add: initiation_wf_def response_wf_def cookie_reply_wf_def transport_wf_def)

end
