(* ===== verification/Handshake.thy ===== *)
theory Handshake
  imports Keypairs Messages
begin

text \<open>
  The handshake of \<open>wireguard.c\<close>: device and peer set-up, the two messages, and the cookie MACs
  appended to them. Each handler takes the device, the index of the peer and the operating system
  state and returns them updated, exactly as far as the code got before an early exit; \<open>None\<close> is
  the case that the search for a receiver index never returns.
\<close>

section \<open>Set-up\<close>

definition generate_cookie_secret :: "wireguard_device \<Rightarrow> os \<Rightarrow> wireguard_device \<times> os" where
  "generate_cookie_secret dev os =
     (let (secret, os) = wireguard_random_bytes 32 os
      in (dev\<lparr>dv_cookie_secret := secret, dv_cookie_secret_millis := wireguard_sys_now os\<rparr>, os))"

definition wireguard_device_init ::
    "dh \<Rightarrow> wireguard_device \<Rightarrow> bytes \<Rightarrow> os \<Rightarrow> bool \<times> wireguard_device \<times> os" where
  "wireguard_device_init X dev private_key os =
     (let dev = dev\<lparr>dv_private_key := private_key\<rparr>;
          dev = dev\<lparr>dv_private_key := wireguard_clamp_private_key (dv_private_key dev)\<rparr>;
          (ok, public_key) = wireguard_generate_public_key X (dv_public_key dev) private_key;
          dev = dev\<lparr>dv_public_key := public_key, dv_valid := ok\<rparr>
      in if dv_valid dev
         then let (dev, os) = generate_cookie_secret dev os;
                  dev = dev\<lparr>dv_label_mac1_key := wireguard_mac_key (dv_public_key dev) LABEL_MAC1\<rparr>;
                  dev = dev\<lparr>dv_label_cookie_key := wireguard_mac_key (dv_public_key dev) LABEL_COOKIE\<rparr>
              in (dv_valid dev, dev, os)
         else let dev = dev\<lparr>dv_private_key := crypto_zero (dv_private_key dev)\<rparr>
              in (dv_valid dev, dev, os))"

definition wireguard_peer_init ::
    "dh \<Rightarrow> wireguard_device \<Rightarrow> wireguard_peer \<Rightarrow> bytes \<Rightarrow> bytes option \<Rightarrow> bool \<times> wireguard_peer" where
  "wireguard_peer_init X dev peer0 public_key preshared_key =
     (let peer = zero_peer (length (pr_allowed_source_ips peer0))
                           (length (kp_replay_bitmap (pr_curr_keypair peer0)))
      in if dv_valid dev
         then let peer = peer\<lparr>pr_public_key := public_key\<rparr>;
                  peer = (case preshared_key of
                            Some psk \<Rightarrow> peer\<lparr>pr_preshared_key := psk\<rparr>
                          | None \<Rightarrow> peer\<lparr>pr_preshared_key := crypto_zero (pr_preshared_key peer)\<rparr>);
                  (ret, dh) = X (dv_private_key dev) (pr_public_key peer);
                  peer = peer\<lparr>pr_public_key_dh := dh\<rparr>
              in if ret = 0
                 then let peer = peer\<lparr>pr_handshake := zero_handshake\<rparr>;
                          peer = peer\<lparr>pr_cookie_millis := 0, pr_cookie := zeroes 16\<rparr>;
                          peer = peer\<lparr>pr_label_mac1_key := wireguard_mac_key (pr_public_key peer) LABEL_MAC1\<rparr>;
                          peer = peer\<lparr>pr_label_cookie_key := wireguard_mac_key (pr_public_key peer) LABEL_COOKIE\<rparr>;
                          peer = peer\<lparr>pr_valid := True\<rparr>
                      in (pr_valid peer, peer)
                 else (pr_valid peer, peer\<lparr>pr_public_key_dh := crypto_zero (pr_public_key_dh peer)\<rparr>)
         else (pr_valid peer, peer))"

section \<open>First message: initiator to responder\<close>

definition blank_initiation :: message_handshake_initiation where
  "blank_initiation = \<lparr>mi_type = 0, mi_reserved = zeroes 3, mi_sender = 0, mi_ephemeral = zeroes 32,
     mi_enc_static = zeroes 48, mi_enc_timestamp = zeroes 28, mi_mac1 = zeroes 16, mi_mac2 = zeroes 16\<rparr>"

text \<open>\<open>mac1\<close> under the receiver's label key, \<open>mac2\<close> under a cookie that is not too old.\<close>

definition initiation_macs ::
    "wireguard_peer \<Rightarrow> message_handshake_initiation \<Rightarrow> os \<Rightarrow> message_handshake_initiation" where
  "initiation_macs peer dst os =
     (let dst = dst\<lparr>mi_mac1 := wireguard_mac (take (148 - 2 * 16) (initiation_bytes dst)) (pr_label_mac1_key peer)\<rparr>
      in if pr_cookie_millis peer = 0 \<or> wireguard_expired os (pr_cookie_millis peer) COOKIE_SECRET_MAX_AGE
         then dst\<lparr>mi_mac2 := zeroes 16\<rparr>
         else dst\<lparr>mi_mac2 := wireguard_mac (take (148 - 16) (initiation_bytes dst)) (pr_cookie peer)\<rparr>)"

definition wireguard_create_handshake_initiation ::
    "dh \<Rightarrow> wireguard_device \<Rightarrow> nat \<Rightarrow> os \<Rightarrow>
       (bool \<times> message_handshake_initiation \<times> wireguard_device \<times> os) option" where
  "wireguard_create_handshake_initiation X dev i os =
     (let peer = peer_at dev i;
          store = (\<lambda>hs. put_peer i (peer\<lparr>pr_handshake := hs\<rparr>) dev);
          hs = pr_handshake peer;
          dst = blank_initiation;
          hs = hs\<lparr>hs_chaining_key := construction_hash\<rparr>;
          hs = hs\<lparr>hs_hash := identifier_hash\<rparr>;
          hs = hs\<lparr>hs_hash := wireguard_mix_hash (hs_hash hs) (pr_public_key peer)\<rparr>;
          (ephemeral_private, os) = wireguard_generate_private_key os;
          hs = hs\<lparr>hs_ephemeral_private := ephemeral_private\<rparr>;
          (ok, ephemeral) = wireguard_generate_public_key X (mi_ephemeral dst) (hs_ephemeral_private hs);
          dst = dst\<lparr>mi_ephemeral := ephemeral\<rparr>
      in if ok
         then let hs = hs\<lparr>hs_chaining_key := wireguard_kdf1 (hs_chaining_key hs) (mi_ephemeral dst)\<rparr>;
                  hs = hs\<lparr>hs_hash := wireguard_mix_hash (hs_hash hs) (mi_ephemeral dst)\<rparr>;
                  (_, dh_calculation) = X (hs_ephemeral_private hs) (pr_public_key peer)
              in if \<not> crypto_equal dh_calculation zero_key
                 then let (ck, key) = wireguard_kdf2 (hs_chaining_key hs) dh_calculation;
                          hs = hs\<lparr>hs_chaining_key := ck\<rparr>;
                          dst = dst\<lparr>mi_enc_static := chacha20poly1305_encrypt (dv_public_key dev) (hs_hash hs) 0 key\<rparr>;
                          hs = hs\<lparr>hs_hash := wireguard_mix_hash (hs_hash hs) (mi_enc_static dst)\<rparr>;
                          (ck, key) = wireguard_kdf2 (hs_chaining_key hs) (pr_public_key_dh peer);
                          hs = hs\<lparr>hs_chaining_key := ck\<rparr>;
                          timestamp = wireguard_tai64n_now os;
                          dst = dst\<lparr>mi_enc_timestamp := chacha20poly1305_encrypt timestamp (hs_hash hs) 0 key\<rparr>;
                          hs = hs\<lparr>hs_hash := wireguard_mix_hash (hs_hash hs) (mi_enc_timestamp dst)\<rparr>;
                          dst = dst\<lparr>mi_type := MESSAGE_HANDSHAKE_INITIATION\<rparr>
                      in case wireguard_generate_unique_index (store hs) os of
                           None \<Rightarrow> None
                         | Some (idx, os) \<Rightarrow>
                             let dst = dst\<lparr>mi_sender := idx\<rparr>;
                                 hs = hs\<lparr>hs_valid := True, hs_initiator := True, hs_local_index := mi_sender dst\<rparr>
                             in Some (True, initiation_macs peer dst os, store hs, os)
                 else Some (False, dst, store hs, os)
         else Some (False, dst, store hs, os))"

definition wireguard_process_initiation_message ::
    "dh \<Rightarrow> wireguard_device \<Rightarrow> message_handshake_initiation \<Rightarrow> os \<Rightarrow> nat option \<times> wireguard_device" where
  "wireguard_process_initiation_message X dev msg os =
     (let chaining_key = construction_hash;
          hash = identifier_hash;
          hash = wireguard_mix_hash hash (dv_public_key dev);
          chaining_key = wireguard_kdf1 chaining_key (mi_ephemeral msg);
          e = mi_ephemeral msg;
          hash = wireguard_mix_hash hash (mi_ephemeral msg);
          (_, dh_calculation) = X (dv_private_key dev) e
      in if \<not> crypto_equal dh_calculation zero_key
         then let (chaining_key, key) = wireguard_kdf2 chaining_key dh_calculation
              in case chacha20poly1305_decrypt (mi_enc_static msg) hash 0 key of
                   None \<Rightarrow> (None, dev)
                 | Some s \<Rightarrow>
                     let hash = wireguard_mix_hash hash (mi_enc_static msg)
                     in case peer_lookup_by_pubkey dev s of
                          None \<Rightarrow> (None, dev)
                        | Some i \<Rightarrow>
                            let peer = peer_at dev i;
                                handshake = pr_handshake peer;
                                (chaining_key, key) = wireguard_kdf2 chaining_key (pr_public_key_dh peer)
                            in case chacha20poly1305_decrypt (mi_enc_timestamp msg) hash 0 key of
                                 None \<Rightarrow> (None, dev)
                               | Some t \<Rightarrow>
                                   let hash = wireguard_mix_hash hash (mi_enc_timestamp msg);
                                       now = wireguard_sys_now os;
                                       replay = (memcmp t (pr_greatest_timestamp peer) \<le> 0);
                                       rate_limit = (pr_last_initiation_rx peer \<noteq> 0 \<and>
                                         now - pr_last_initiation_rx peer < 1000 div MAX_INITIATIONS_PER_SECOND)
                                   in if \<not> replay \<and> \<not> rate_limit
                                      then let peer = peer\<lparr>pr_last_initiation_rx := now\<rparr>;
                                               peer = (if memcmp t (pr_greatest_timestamp peer) > 0
                                                       then peer\<lparr>pr_greatest_timestamp := t\<rparr> else peer);
                                               handshake = handshake
                                                 \<lparr>hs_remote_ephemeral := e, hs_hash := hash, hs_chaining_key := chaining_key,
                                                  hs_remote_index := mi_sender msg, hs_valid := True, hs_initiator := False\<rparr>
                                           in (Some i, put_peer i (peer\<lparr>pr_handshake := handshake\<rparr>) dev)
                                      else (None, dev)
         else (None, dev))"

section \<open>Second message: responder to initiator\<close>

definition blank_response :: message_handshake_response where
  "blank_response = \<lparr>mr_type = 0, mr_reserved = zeroes 3, mr_sender = 0, mr_receiver = 0,
     mr_ephemeral = zeroes 32, mr_enc_empty = zeroes 16, mr_mac1 = zeroes 16, mr_mac2 = zeroes 16\<rparr>"

definition response_macs ::
    "wireguard_peer \<Rightarrow> message_handshake_response \<Rightarrow> os \<Rightarrow> message_handshake_response" where
  "response_macs peer dst os =
     (let dst = dst\<lparr>mr_mac1 := wireguard_mac (take (92 - 2 * 16) (response_bytes dst)) (pr_label_mac1_key peer)\<rparr>
      in if pr_cookie_millis peer = 0 \<or> wireguard_expired os (pr_cookie_millis peer) COOKIE_SECRET_MAX_AGE
         then dst\<lparr>mr_mac2 := zeroes 16\<rparr>
         else dst\<lparr>mr_mac2 := wireguard_mac (take (92 - 16) (response_bytes dst)) (pr_cookie peer)\<rparr>)"

definition wireguard_create_handshake_response ::
    "dh \<Rightarrow> wireguard_device \<Rightarrow> nat \<Rightarrow> os \<Rightarrow>
       (bool \<times> message_handshake_response \<times> wireguard_device \<times> os) option" where
  "wireguard_create_handshake_response X dev i os =
     (let peer = peer_at dev i;
          store = (\<lambda>hs. put_peer i (peer\<lparr>pr_handshake := hs\<rparr>) dev);
          hs = pr_handshake peer;
          dst = blank_response
      in if hs_valid hs \<and> \<not> hs_initiator hs
         then let (ephemeral_private, os) = wireguard_generate_private_key os;
                  hs = hs\<lparr>hs_ephemeral_private := ephemeral_private\<rparr>;
                  (ok, ephemeral) = wireguard_generate_public_key X (mr_ephemeral dst) (hs_ephemeral_private hs);
                  dst = dst\<lparr>mr_ephemeral := ephemeral\<rparr>
              in if ok
                 then let hs = hs\<lparr>hs_chaining_key := wireguard_kdf1 (hs_chaining_key hs) (mr_ephemeral dst)\<rparr>;
                          hs = hs\<lparr>hs_hash := wireguard_mix_hash (hs_hash hs) (mr_ephemeral dst)\<rparr>;
                          (_, dh_calculation) = X (hs_ephemeral_private hs) (hs_remote_ephemeral hs)
                      in if \<not> crypto_equal dh_calculation zero_key
                         then let hs = hs\<lparr>hs_chaining_key := wireguard_kdf1 (hs_chaining_key hs) dh_calculation\<rparr>;
                                  (_, dh_calculation) = X (hs_ephemeral_private hs) (pr_public_key peer)
                              in if \<not> crypto_equal dh_calculation zero_key
                                 then let hs = hs\<lparr>hs_chaining_key := wireguard_kdf1 (hs_chaining_key hs) dh_calculation\<rparr>;
                                          (ck, tau, key) = wireguard_kdf3 (hs_chaining_key hs) (pr_preshared_key peer);
                                          hs = hs\<lparr>hs_chaining_key := ck\<rparr>;
                                          hs = hs\<lparr>hs_hash := wireguard_mix_hash (hs_hash hs) tau\<rparr>;
                                          dst = dst\<lparr>mr_enc_empty := chacha20poly1305_encrypt [] (hs_hash hs) 0 key\<rparr>;
                                          hs = hs\<lparr>hs_hash := wireguard_mix_hash (hs_hash hs) (mr_enc_empty dst)\<rparr>;
                                          dst = dst\<lparr>mr_type := MESSAGE_HANDSHAKE_RESPONSE\<rparr>;
                                          dst = dst\<lparr>mr_receiver := hs_remote_index hs\<rparr>
                                      in case wireguard_generate_unique_index (store hs) os of
                                           None \<Rightarrow> None
                                         | Some (idx, os) \<Rightarrow>
                                             let dst = dst\<lparr>mr_sender := idx\<rparr>;
                                                 hs = hs\<lparr>hs_local_index := mr_sender dst\<rparr>
                                             in Some (True, response_macs peer dst os, store hs, os)
                                 else Some (False, dst, store hs, os)
                         else Some (False, dst, store hs, os)
                 else Some (False, dst, store hs, os)
         else Some (False, dst, dev, os))"

definition wireguard_process_handshake_response ::
    "dh \<Rightarrow> wireguard_device \<Rightarrow> nat \<Rightarrow> message_handshake_response \<Rightarrow> bool \<times> wireguard_device" where
  "wireguard_process_handshake_response X dev i src =
     (let peer = peer_at dev i;
          handshake = pr_handshake peer
      in if hs_valid handshake \<and> hs_initiator handshake
         then let hash = hs_hash handshake;
                  chaining_key = hs_chaining_key handshake;
                  ephemeral_private = hs_ephemeral_private handshake;
                  chaining_key = wireguard_kdf1 chaining_key (mr_ephemeral src);
                  e = mr_ephemeral src;
                  hash = wireguard_mix_hash hash (mr_ephemeral src);
                  (_, dh_calculation) = X ephemeral_private e
              in if \<not> crypto_equal dh_calculation zero_key
                 then let chaining_key = wireguard_kdf1 chaining_key dh_calculation;
                          (_, dh_calculation) = X (dv_private_key dev) e
                      in if \<not> crypto_equal dh_calculation zero_key
                         then let chaining_key = wireguard_kdf1 chaining_key dh_calculation;
                                  (chaining_key, tau, key) = wireguard_kdf3 chaining_key (pr_preshared_key peer);
                                  hash = wireguard_mix_hash hash tau
                              in case chacha20poly1305_decrypt (mr_enc_empty src) hash 0 key of
                                   Some _ \<Rightarrow>
                                     let handshake = handshake
                                           \<lparr>hs_remote_ephemeral := e, hs_hash := hash,
                                            hs_chaining_key := chaining_key, hs_remote_index := mr_sender src\<rparr>
                                     in (True, put_peer i (peer\<lparr>pr_handshake := handshake\<rparr>) dev)
                                 | None \<Rightarrow> (False, dev)
                         else (False, dev)
                 else (False, dev)
         else (False, dev))"

section \<open>Transport packets\<close>

definition wireguard_encrypt_packet :: "bytes \<Rightarrow> wireguard_keypair \<Rightarrow> bytes \<times> wireguard_keypair" where
  "wireguard_encrypt_packet src keypair =
     (chacha20poly1305_encrypt src [] (kp_sending_counter keypair) (kp_sending_key keypair),
      keypair\<lparr>kp_sending_counter := kp_sending_counter keypair + 1\<rparr>)"

definition wireguard_decrypt_packet :: "bytes \<Rightarrow> u64 \<Rightarrow> wireguard_keypair \<Rightarrow> bytes option" where
  "wireguard_decrypt_packet src counter keypair =
     chacha20poly1305_decrypt src [] counter (kp_receiving_key keypair)"

section \<open>The Noise pattern\<close>

text \<open>
  What the two messages of Noise IKpsk2 carry and leave behind, as functions of the public keys,
  the shared secrets and the pre-shared key: the abstract handshake both sides implement.
\<close>

definition noise_first ::
    "bytes \<Rightarrow> bytes \<Rightarrow> bytes \<Rightarrow> bytes \<Rightarrow> bytes \<Rightarrow> bytes \<Rightarrow> bytes \<times> bytes \<times> bytes \<times> bytes" where
  "noise_first responder ephemeral es static ss time =
     (let h = wireguard_mix_hash (wireguard_mix_hash identifier_hash responder) ephemeral;
          (c, k) = wireguard_kdf2 (wireguard_kdf1 construction_hash ephemeral) es;
          enc_static = chacha20poly1305_encrypt static h 0 k;
          h = wireguard_mix_hash h enc_static;
          (c, k) = wireguard_kdf2 c ss;
          enc_time = chacha20poly1305_encrypt time h 0 k
      in (enc_static, enc_time, wireguard_mix_hash h enc_time, c))"

definition noise_second ::
    "bytes \<Rightarrow> bytes \<Rightarrow> bytes \<Rightarrow> bytes \<Rightarrow> bytes \<Rightarrow> bytes \<Rightarrow> bytes \<times> bytes \<times> bytes" where
  "noise_second h c ephemeral ee se psk =
     (let c = wireguard_kdf1 (wireguard_kdf1 (wireguard_kdf1 c ephemeral) ee) se;
          (c, t, k) = wireguard_kdf3 c psk;
          h = wireguard_mix_hash (wireguard_mix_hash h ephemeral) t
      in (chacha20poly1305_encrypt [] h 0 k, h, c))"

lemma clocks_private_key [simp, frame_simps]:
  "clock_monotonic (snd (wireguard_generate_private_key os)) = clock_monotonic os"
  "clock_realtime (snd (wireguard_generate_private_key os)) = clock_realtime os"
  using clocks_random_bytes [of 32 os]
  by (simp_all add: wireguard_generate_private_key_def split_def Let_def)

lemma initiation_macs_frame [simp, frame_simps]:
  "mi_type (initiation_macs p m os) = mi_type m" "mi_sender (initiation_macs p m os) = mi_sender m"
  "mi_reserved (initiation_macs p m os) = mi_reserved m"
  "mi_ephemeral (initiation_macs p m os) = mi_ephemeral m" "mi_enc_static (initiation_macs p m os) = mi_enc_static m"
  "mi_enc_timestamp (initiation_macs p m os) = mi_enc_timestamp m"
  by (simp_all add: initiation_macs_def Let_def)

lemma response_macs_frame [simp, frame_simps]:
  "mr_type (response_macs p m os) = mr_type m" "mr_sender (response_macs p m os) = mr_sender m"
  "mr_reserved (response_macs p m os) = mr_reserved m"
  "mr_receiver (response_macs p m os) = mr_receiver m"
  "mr_ephemeral (response_macs p m os) = mr_ephemeral m" "mr_enc_empty (response_macs p m os) = mr_enc_empty m"
  by (simp_all add: response_macs_def Let_def)

lemma generate_public_key_True:
  "wireguard_generate_public_key X old k = (ok, pub) \<Longrightarrow> ok \<Longrightarrow> pub = snd (X k basepoint)"
  by (auto simp: wireguard_generate_public_key_def split: if_splits prod.splits)

lemma index_existing_put_peer:
  assumes "peer_uses_index r p = peer_uses_index r (peer_at dev i)"
  shows "index_existing (put_peer i p dev) r = index_existing dev r"
proof (cases "i < length (dv_peers dev)")
  case True
  then have "dv_peers dev \<noteq> []" by auto
  then have "last ((dv_peers dev)[i := p]) = (if i = length (dv_peers dev) - 1 then p else last (dv_peers dev))"
    using True by (simp add: last_conv_nth nth_list_update)
  then show ?thesis using assms \<open>dv_peers dev \<noteq> []\<close>
    by (auto simp: index_existing_last put_peer_def peer_at_def last_conv_nth nth_list_update True split: if_splits)
next
  case False
  then show ?thesis by (simp add: index_existing_def put_peer_def list_update_beyond)
qed

text \<open>A successful creation sends the abstract first message and stores its hash and chaining key.\<close>

lemma create_initiation_True:
  assumes create: "wireguard_create_handshake_initiation X dev i os = Some (True, m, dev', os')"
    and i: "i < length (dv_peers dev)"
  defines "priv \<equiv> fst (wireguard_generate_private_key os)" and "peer \<equiv> peer_at dev i"
    and "hs \<equiv> pr_handshake (peer_at dev' i)"
  shows "dev' = put_peer i (peer\<lparr>pr_handshake := hs\<rparr>) dev"
    and "hs_valid hs \<and> hs_initiator hs \<and> hs_local_index hs = mi_sender m \<and> hs_ephemeral_private hs = priv"
    and "mi_ephemeral m = snd (X priv basepoint)"
    and "\<not> crypto_equal (snd (X priv (pr_public_key peer))) zero_key"
    and "noise_first (pr_public_key peer) (mi_ephemeral m) (snd (X priv (pr_public_key peer)))
           (dv_public_key dev) (pr_public_key_dh peer) (wireguard_tai64n_now os)
         = (mi_enc_static m, mi_enc_timestamp m, hs_hash hs, hs_chaining_key hs)"
    and "index_accepted dev (mi_sender m)"
proof -
  obtain os1 where gen: "wireguard_generate_private_key os = (priv, os1)"
    by (cases "wireguard_generate_private_key os") (simp add: priv_def)
  have tai: "wireguard_tai64n_now os1 = wireguard_tai64n_now os"
    using clocks_private_key(2) [of os] gen by (intro clocks_tai64n) simp
  obtain ok pub where pub: "wireguard_generate_public_key X (zeroes 32) priv = (ok, pub)" by fastforce
  have ok: ok and ne: "\<not> crypto_equal (snd (X priv (pr_public_key peer))) zero_key"
    using create pub
    by (auto simp: wireguard_create_handshake_initiation_def Let_def gen blank_initiation_def split_def peer_def
        split: if_splits option.splits)
  have eq: "pub = snd (X priv basepoint)" by (rule generate_public_key_True [OF pub ok])
  note unfold = wireguard_create_handshake_initiation_def blank_initiation_def Let_def split_def gen tai
    hs_def noise_first_def
  show "dev' = put_peer i (peer\<lparr>pr_handshake := hs\<rparr>) dev" 
    using create i pub ok ne by (auto simp: unfold peer_def split: option.splits)
  show "hs_valid hs \<and> hs_initiator hs \<and> hs_local_index hs = mi_sender m \<and> hs_ephemeral_private hs = priv"
    using create i pub ok ne by (auto simp: unfold peer_def split: option.splits)
  show "mi_ephemeral m = snd (X priv basepoint)"
    using create i pub ok ne eq by (auto simp: unfold peer_def split: option.splits)
  show "noise_first (pr_public_key peer) (mi_ephemeral m) (snd (X priv (pr_public_key peer)))
           (dv_public_key dev) (pr_public_key_dh peer) (wireguard_tai64n_now os)
         = (mi_enc_static m, mi_enc_timestamp m, hs_hash hs, hs_chaining_key hs)"
    using create i pub ok ne eq by (auto simp: unfold peer_def split: option.splits)
  show "\<not> crypto_equal (snd (X priv (pr_public_key peer))) zero_key" by (rule ne)
  show "index_accepted dev (mi_sender m)"
    using create i pub ok ne
    by (auto simp: unfold peer_def index_accepted_def index_existing_put_peer peer_uses_index_def
        split: option.splits dest!: generated_index(1))
qed

end
