(* ===== verification/Agreement.thy ===== *)
theory Agreement
  imports Handshake
begin

text \<open>
  The handshake end to end. Both creation functions send the messages of the abstract Noise pattern
  (\<open>noise_first\<close>, \<open>noise_second\<close>), both processing functions accept them when the shared secrets
  coincide, and two devices configured for each other therefore end up with crossed session keys.
\<close>

section \<open>The messages are accepted\<close>

text \<open>A responder that shares the two secrets accepts the abstract first message.\<close>

lemma process_initiation_accepts:
  assumes msg: "noise_first (dv_public_key dev) (mi_ephemeral msg) (snd (X (dv_private_key dev) (mi_ephemeral msg)))
            static (pr_public_key_dh (peer_at dev j)) time
          = (mi_enc_static msg, mi_enc_timestamp msg, h, c)"
    and ne: "\<not> crypto_equal (snd (X (dv_private_key dev) (mi_ephemeral msg))) zero_key"
    and lookup: "peer_lookup_by_pubkey dev static = Some j"
    and fresh: "memcmp time (pr_greatest_timestamp (peer_at dev j)) > 0"
    and rate: "pr_last_initiation_rx (peer_at dev j) = 0
          \<or> \<not> wireguard_sys_now os - pr_last_initiation_rx (peer_at dev j) < 1000 div MAX_INITIATIONS_PER_SECOND"
  shows "wireguard_process_initiation_message X dev msg os =
    (Some j, put_peer j ((peer_at dev j)
       \<lparr>pr_last_initiation_rx := wireguard_sys_now os, pr_greatest_timestamp := time,
        pr_handshake := (pr_handshake (peer_at dev j))
          \<lparr>hs_remote_ephemeral := mi_ephemeral msg, hs_hash := h, hs_chaining_key := c,
           hs_remote_index := mi_sender msg, hs_valid := True, hs_initiator := False\<rparr>\<rparr>) dev)"
proof -
  define es where "es = snd (X (dv_private_key dev) (mi_ephemeral msg))"
  define h1 where "h1 = wireguard_mix_hash (wireguard_mix_hash identifier_hash (dv_public_key dev)) (mi_ephemeral msg)"
  obtain c1 k1 where kdf1: "wireguard_kdf2 (wireguard_kdf1 construction_hash (mi_ephemeral msg)) es = (c1, k1)" by fastforce
  obtain c2 k2 where kdf2: "wireguard_kdf2 c1 (pr_public_key_dh (peer_at dev j)) = (c2, k2)" by fastforce
  have st: "mi_enc_static msg = chacha20poly1305_encrypt static h1 0 k1"
    and ts: "mi_enc_timestamp msg = chacha20poly1305_encrypt time (wireguard_mix_hash h1 (mi_enc_static msg)) 0 k2"
    and out: "h = wireguard_mix_hash (wireguard_mix_hash h1 (mi_enc_static msg)) (mi_enc_timestamp msg)" "c = c2"
    using msg by (auto simp: noise_first_def Let_def kdf1 kdf2 h1_def simp flip: es_def)
  have d1: "chacha20poly1305_decrypt (mi_enc_static msg) h1 0 k1 = Some static"
    by (simp add: st)
  have d2: "chacha20poly1305_decrypt (mi_enc_timestamp msg) (wireguard_mix_hash h1 (mi_enc_static msg)) 0 k2 = Some time"
    by (simp add: ts)
  obtain r where "X (dv_private_key dev) (mi_ephemeral msg) = (r, es)" by (cases "X (dv_private_key dev) (mi_ephemeral msg)") (simp add: es_def)
  then show ?thesis
    using ne fresh rate
    by (simp add: wireguard_process_initiation_message_def es_def [symmetric] h1_def [symmetric] kdf1 kdf2 d1 d2 lookup out) (simp add: Let_def)
qed

lemma create_response_True:
  assumes create: "wireguard_create_handshake_response X dev j os = Some (True, m, dev', os')"
    and j: "j < length (dv_peers dev)"
  defines "priv \<equiv> fst (wireguard_generate_private_key os)" and "peer \<equiv> peer_at dev j"
    and "hs \<equiv> pr_handshake (peer_at dev' j)"
  shows "dev' = put_peer j (peer\<lparr>pr_handshake := hs\<rparr>) dev"
    and "hs_valid (pr_handshake peer) \<and> \<not> hs_initiator (pr_handshake peer)"
    and "hs_valid hs \<and> \<not> hs_initiator hs \<and> hs_local_index hs = mr_sender m
         \<and> hs_remote_index hs = hs_remote_index (pr_handshake peer)"
    and "mr_receiver m = hs_remote_index (pr_handshake peer)"
    and "mr_ephemeral m = snd (X priv basepoint)"
    and "\<not> crypto_equal (snd (X priv (hs_remote_ephemeral (pr_handshake peer)))) zero_key"
    and "\<not> crypto_equal (snd (X priv (pr_public_key peer))) zero_key"
    and "\<exists>h. noise_second (hs_hash (pr_handshake peer)) (hs_chaining_key (pr_handshake peer)) (mr_ephemeral m)
           (snd (X priv (hs_remote_ephemeral (pr_handshake peer)))) (snd (X priv (pr_public_key peer)))
           (pr_preshared_key peer)
         = (mr_enc_empty m, h, hs_chaining_key hs)"
    and "index_accepted dev (mr_sender m)"
proof -
  obtain os1 where gen: "wireguard_generate_private_key os = (priv, os1)"
    by (cases "wireguard_generate_private_key os") (simp add: priv_def)
  obtain ok pub where pub: "wireguard_generate_public_key X (zeroes 32) priv = (ok, pub)" by fastforce
  have v: "hs_valid (pr_handshake peer) \<and> \<not> hs_initiator (pr_handshake peer)" and ok: ok
    and ee: "\<not> crypto_equal (snd (X priv (hs_remote_ephemeral (pr_handshake peer)))) zero_key"
    and se: "\<not> crypto_equal (snd (X priv (pr_public_key peer))) zero_key"
    using create pub
    by (auto simp: wireguard_create_handshake_response_def Let_def gen blank_response_def split_def peer_def
        split: if_splits option.splits)
  have eq: "pub = snd (X priv basepoint)" by (rule generate_public_key_True [OF pub ok])
  note unfold = wireguard_create_handshake_response_def blank_response_def Let_def split_def gen
    hs_def noise_second_def
  show "dev' = put_peer j (peer\<lparr>pr_handshake := hs\<rparr>) dev" 
    using create j pub ok ee se v by (auto simp: unfold peer_def split: option.splits)
  show "hs_valid hs \<and> \<not> hs_initiator hs \<and> hs_local_index hs = mr_sender m
         \<and> hs_remote_index hs = hs_remote_index (pr_handshake peer)"
    using create j pub ok ee se v by (auto simp: unfold peer_def split: option.splits)
  show "mr_receiver m = hs_remote_index (pr_handshake peer)"
    using create j pub ok ee se v by (auto simp: unfold peer_def split: option.splits)
  show "mr_ephemeral m = snd (X priv basepoint)"
    using create j pub ok ee se v eq by (auto simp: unfold peer_def split: option.splits)
  show "\<exists>h. noise_second (hs_hash (pr_handshake peer)) (hs_chaining_key (pr_handshake peer)) (mr_ephemeral m)
           (snd (X priv (hs_remote_ephemeral (pr_handshake peer)))) (snd (X priv (pr_public_key peer)))
           (pr_preshared_key peer)
         = (mr_enc_empty m, h, hs_chaining_key hs)"
    using create j pub ok ee se v eq by (auto simp: unfold peer_def split: option.splits)
  show "index_accepted dev (mr_sender m)"
    using create j pub ok ee se v
    by (auto simp: unfold peer_def index_accepted_def index_existing_put_peer peer_uses_index_def
        split: option.splits dest!: generated_index(1))
qed (use create in \<open>auto simp: wireguard_create_handshake_response_def Let_def blank_response_def split_def peer_def priv_def
        split: if_splits option.splits\<close>)

lemma process_response_accepts:
  fixes dev i X m
  defines "peer \<equiv> peer_at dev i" 
  defines "hs \<equiv> pr_handshake peer"
  defines "ee \<equiv> snd (X (hs_ephemeral_private hs) (mr_ephemeral m))" and "se \<equiv> snd (X (dv_private_key dev) (mr_ephemeral m))"
  assumes "hs_valid hs" "hs_initiator hs" 
    and ne: "\<not> crypto_equal ee zero_key" "\<not> crypto_equal se zero_key"
    and msg: "noise_second (hs_hash hs) (hs_chaining_key hs) (mr_ephemeral m) ee se (pr_preshared_key peer) = (mr_enc_empty m, h, c)"
  shows "wireguard_process_handshake_response X dev i m =
     (True, put_peer i (peer\<lparr>pr_handshake := hs\<lparr>hs_remote_ephemeral := mr_ephemeral m, hs_hash := h,
        hs_chaining_key := c, hs_remote_index := mr_sender m\<rparr>\<rparr>) dev)"
proof -
  obtain c1 t k where kdf: "wireguard_kdf3 (wireguard_kdf1 (wireguard_kdf1 (wireguard_kdf1 (hs_chaining_key hs) (mr_ephemeral m)) ee) se)
      (pr_preshared_key peer) = (c1, t, k)" by (metis prod_cases3)
  have d: "chacha20poly1305_decrypt (mr_enc_empty m) h 0 k = Some []" and out: "c = c1"
    "h = wireguard_mix_hash (wireguard_mix_hash (hs_hash hs) (mr_ephemeral m)) t"
    using msg by (auto simp: noise_second_def Let_def kdf chachapoly.dec_iff_enc)
  obtain r1 r2 where "X (hs_ephemeral_private hs) (mr_ephemeral m) = (r1, ee)" "X (dv_private_key dev) (mr_ephemeral m) = (r2, se)"
    by (metis ee_def se_def prod.collapse)
  then show ?thesis
    using assms(5,6) ne d
    by (simp add: wireguard_process_handshake_response_def hs_def [symmetric] peer_def [symmetric] kdf out) (simp add: Let_def)
qed


section \<open>Sessions\<close>

text \<open>The two sides of a finished handshake with the same chaining key get crossed session keys.\<close>

lemma start_session_keys:
  "wireguard_kdf2 (hs_chaining_key (pr_handshake peer)) [] = (t1, t2) \<Longrightarrow>
     let k = pr_curr_keypair (wireguard_start_session os peer True)
     in kp_sending_key k = t1 \<and> kp_receiving_key k = t2 \<and> kp_valid k \<and> kp_initiator k
        \<and> kp_sending_valid k \<and> kp_receiving_valid k \<and> kp_sending_counter k = 0 \<and> kp_replay_counter k = 0
        \<and> kp_local_index k = hs_local_index (pr_handshake peer) \<and> kp_remote_index k = hs_remote_index (pr_handshake peer)"
  "wireguard_kdf2 (hs_chaining_key (pr_handshake peer)) [] = (t1, t2) \<Longrightarrow>
     let k = pr_next_keypair (wireguard_start_session os peer False)
     in kp_sending_key k = t2 \<and> kp_receiving_key k = t1 \<and> kp_valid k \<and> \<not> kp_initiator k
        \<and> kp_sending_valid k \<and> kp_receiving_valid k \<and> kp_sending_counter k = 0 \<and> kp_replay_counter k = 0
        \<and> kp_local_index k = hs_local_index (pr_handshake peer) \<and> kp_remote_index k = hs_remote_index (pr_handshake peer)"
  by (simp_all add: wireguard_start_session_def add_new_keypair_def zero_keypair_def Let_def)

text \<open>The static configuration of two devices that hold each other as a peer.\<close>

definition dh_commutes :: "dh \<Rightarrow> bytes \<Rightarrow> bytes \<Rightarrow> bool" where
  "dh_commutes X a b \<longleftrightarrow> snd (X a (snd (X b basepoint))) = snd (X b (snd (X a basepoint)))"

definition paired :: "dh \<Rightarrow> wireguard_device \<Rightarrow> nat \<Rightarrow> wireguard_device \<Rightarrow> nat \<Rightarrow> bool" where
  "paired X devI i devR j \<longleftrightarrow>
     i < length (dv_peers devI) \<and> j < length (dv_peers devR)
     \<and> dv_public_key devI = snd (X (dv_private_key devI) basepoint)
     \<and> dv_public_key devR = snd (X (dv_private_key devR) basepoint)
     \<and> pr_public_key (peer_at devI i) = dv_public_key devR
     \<and> pr_public_key (peer_at devR j) = dv_public_key devI
     \<and> peer_lookup_by_pubkey devR (dv_public_key devI) = Some j
     \<and> pr_public_key_dh (peer_at devI i) = snd (X (dv_private_key devI) (dv_public_key devR))
     \<and> pr_public_key_dh (peer_at devR j) = snd (X (dv_private_key devR) (dv_public_key devI))
     \<and> pr_preshared_key (peer_at devI i) = pr_preshared_key (peer_at devR j)"

lemma initiation_delivered:
  assumes paired: "paired X devI i devR j"
    and dh: "dh_commutes X (dv_private_key devI) (dv_private_key devR)"
      "dh_commutes X (fst (wireguard_generate_private_key osI)) (dv_private_key devR)"
    and create: "wireguard_create_handshake_initiation X devI i osI = Some (True, m, devI1, osI1)"
    and fresh: "memcmp (wireguard_tai64n_now osI) (pr_greatest_timestamp (peer_at devR j)) > 0"
    and rate: "pr_last_initiation_rx (peer_at devR j) = 0
          \<or> \<not> wireguard_sys_now osR - pr_last_initiation_rx (peer_at devR j) < 1000 div MAX_INITIATIONS_PER_SECOND"
  shows "wireguard_process_initiation_message X devR m osR =
    (Some j, put_peer j ((peer_at devR j)
       \<lparr>pr_last_initiation_rx := wireguard_sys_now osR, pr_greatest_timestamp := wireguard_tai64n_now osI,
        pr_handshake := (pr_handshake (peer_at devR j))
          \<lparr>hs_remote_ephemeral := mi_ephemeral m, hs_hash := hs_hash (pr_handshake (peer_at devI1 i)),
           hs_chaining_key := hs_chaining_key (pr_handshake (peer_at devI1 i)),
           hs_remote_index := mi_sender m, hs_valid := True, hs_initiator := False\<rparr>\<rparr>) devR)"
proof -
  have i: "i < length (dv_peers devI)" using paired by (simp add: paired_def)
  note c = create_initiation_True [OF create i]
  show ?thesis
    using c(3,4,5) paired dh
    by (intro process_initiation_accepts [OF _ _ _ fresh rate, where static = "dv_public_key devI"])
       (simp_all add: paired_def dh_commutes_def, metis)
qed


text \<open>The second half: the response is accepted and both sides hold the same chaining key.\<close>

lemma response_delivered:
  assumes paired: "paired X devI i devR j"
    and create: "wireguard_create_handshake_initiation X devI i osI = Some (True, m1, devI1, osI1)"
    and hsR: "pr_handshake (peer_at devR1 j) = hs\<lparr>hs_remote_ephemeral := mi_ephemeral m1,
             hs_hash := hs_hash (pr_handshake (peer_at devI1 i)),
             hs_chaining_key := hs_chaining_key (pr_handshake (peer_at devI1 i)),
             hs_remote_index := mi_sender m1, hs_valid := True, hs_initiator := False\<rparr>"
    and R1: "pr_public_key (peer_at devR1 j) = pr_public_key (peer_at devR j)"
      "pr_preshared_key (peer_at devR1 j) = pr_preshared_key (peer_at devR j)" "j < length (dv_peers devR1)"
    and resp: "wireguard_create_handshake_response X devR1 j osR = Some (True, m2, devR2, osR2)"
    and dh: "dh_commutes X (dv_private_key devI) (fst (wireguard_generate_private_key osR))"
      "dh_commutes X (fst (wireguard_generate_private_key osI)) (fst (wireguard_generate_private_key osR))"
  shows "\<exists>devI2. wireguard_process_handshake_response X devI1 i m2 = (True, devI2)
     \<and> hs_chaining_key (pr_handshake (peer_at devI2 i)) = hs_chaining_key (pr_handshake (peer_at devR2 j))
     \<and> hs_local_index (pr_handshake (peer_at devI2 i)) = mi_sender m1
     \<and> hs_remote_index (pr_handshake (peer_at devI2 i)) = mr_sender m2
     \<and> hs_local_index (pr_handshake (peer_at devR2 j)) = mr_sender m2
     \<and> hs_remote_index (pr_handshake (peer_at devR2 j)) = mi_sender m1 \<and> mr_receiver m2 = mi_sender m1"
proof -
  have i: "i < length (dv_peers devI)" using paired by (simp add: paired_def)
  note c = create_initiation_True [OF create i] and r = create_response_True [OF resp R1(3)]
  have i1: "i < length (dv_peers devI1)" by (subst c(1)) (simp add: i)
  have I1: "dv_private_key devI1 = dv_private_key devI"
    "pr_preshared_key (peer_at devI1 i) = pr_preshared_key (peer_at devI i)"
    by (subst c(1), simp add: i)+
  let ?eI = "fst (wireguard_generate_private_key osI)" and ?eR = "fst (wireguard_generate_private_key osR)"
  have ee: "snd (X ?eR (mi_ephemeral m1)) = snd (X (hs_ephemeral_private (pr_handshake (peer_at devI1 i))) (mr_ephemeral m2))"
    using c(2,3) r(5) dh(2) by (simp add: dh_commutes_def)
  have se: "snd (X ?eR (pr_public_key (peer_at devR1 j))) = snd (X (dv_private_key devI1) (mr_ephemeral m2))"
    using paired r(5) dh(1) by (simp add: dh_commutes_def paired_def I1 R1)
  have psk: "pr_preshared_key (peer_at devR1 j) = pr_preshared_key (peer_at devI1 i)"
    using paired by (simp add: paired_def I1 R1)
  obtain h where n: "noise_second (hs_hash (pr_handshake (peer_at devI1 i))) (hs_chaining_key (pr_handshake (peer_at devI1 i)))
      (mr_ephemeral m2) (snd (X (hs_ephemeral_private (pr_handshake (peer_at devI1 i))) (mr_ephemeral m2)))
      (snd (X (dv_private_key devI1) (mr_ephemeral m2))) (pr_preshared_key (peer_at devI1 i))
      = (mr_enc_empty m2, h, hs_chaining_key (pr_handshake (peer_at devR2 j)))"
    using r(8) by (auto simp: hsR ee se psk)
  have ne: "\<not> crypto_equal (snd (X (hs_ephemeral_private (pr_handshake (peer_at devI1 i))) (mr_ephemeral m2))) zero_key"
    "\<not> crypto_equal (snd (X (dv_private_key devI1) (mr_ephemeral m2))) zero_key"
    using r(6,7) by (simp_all add: hsR ee se)
  have "wireguard_process_handshake_response X devI1 i m2 =
     (True, put_peer i ((peer_at devI1 i)\<lparr>pr_handshake := (pr_handshake (peer_at devI1 i))
        \<lparr>hs_remote_ephemeral := mr_ephemeral m2, hs_hash := h,
        hs_chaining_key := hs_chaining_key (pr_handshake (peer_at devR2 j)), hs_remote_index := mr_sender m2\<rparr>\<rparr>) devI1)"
    using c(2) ne n by (intro process_response_accepts) simp_all
  then show ?thesis using i1 c(2) r(3,4) by (simp add: hsR)
qed

text \<open>
  C1. Handshake agreement. Take two devices that hold each other as a peer (\<open>paired\<close>), a
  Diffie-Hellman function that commutes on the keys in play, and a responder that has not seen the
  initiator's time stamp and is not rate limiting it. If the initiator's message is created, the
  responder accepts it; if the response is created, the initiator accepts that; and the sessions
  both then start have crossed keys and crossed indices, so that every packet either side encrypts
  is decrypted by the other.
\<close>

theorem handshake_agreement:
  assumes paired: "paired X devI i devR j"
    and dh: "dh_commutes X (dv_private_key devI) (dv_private_key devR)"
      "dh_commutes X (fst (wireguard_generate_private_key osI)) (dv_private_key devR)"
      "dh_commutes X (dv_private_key devI) (fst (wireguard_generate_private_key osR2))"
      "dh_commutes X (fst (wireguard_generate_private_key osI)) (fst (wireguard_generate_private_key osR2))"
    and create: "wireguard_create_handshake_initiation X devI i osI = Some (True, m1, devI1, osI1)"
    and fresh: "memcmp (wireguard_tai64n_now osI) (pr_greatest_timestamp (peer_at devR j)) > 0"
    and rate: "pr_last_initiation_rx (peer_at devR j) = 0
          \<or> \<not> wireguard_sys_now osR - pr_last_initiation_rx (peer_at devR j) < 1000 div MAX_INITIATIONS_PER_SECOND"
    and resp: "wireguard_create_handshake_response X (snd (wireguard_process_initiation_message X devR m1 osR)) j osR2
                 = Some (True, m2, devR2, osR3)"
  shows "fst (wireguard_process_initiation_message X devR m1 osR) = Some j
    \<and> fst (wireguard_process_handshake_response X devI1 i m2)
    \<and> (let devI2 = snd (wireguard_process_handshake_response X devI1 i m2);
           kI = pr_curr_keypair (wireguard_start_session osI2 (peer_at devI2 i) True);
           kR = pr_next_keypair (wireguard_start_session osR4 (peer_at devR2 j) False)
       in kp_sending_key kI = kp_receiving_key kR \<and> kp_receiving_key kI = kp_sending_key kR
        \<and> kp_local_index kI = kp_remote_index kR \<and> kp_remote_index kI = kp_local_index kR
        \<and> mr_receiver m2 = kp_local_index kI
        \<and> wireguard_decrypt_packet (fst (wireguard_encrypt_packet p kI)) (kp_sending_counter kI) kR = Some p
        \<and> wireguard_decrypt_packet (fst (wireguard_encrypt_packet p kR)) (kp_sending_counter kR) kI = Some p)"
proof -
  have j: "j < length (dv_peers devR)" using paired by (simp add: paired_def)
  note got = initiation_delivered [OF paired dh(1,2) create fresh rate]
  obtain devI2 where I2: "wireguard_process_handshake_response X devI1 i m2 = (True, devI2)"
    and ck: "hs_chaining_key (pr_handshake (peer_at devI2 i)) = hs_chaining_key (pr_handshake (peer_at devR2 j))"
    and ix: "hs_local_index (pr_handshake (peer_at devI2 i)) = mi_sender m1"
     "hs_remote_index (pr_handshake (peer_at devI2 i)) = mr_sender m2"
     "hs_local_index (pr_handshake (peer_at devR2 j)) = mr_sender m2"
     "hs_remote_index (pr_handshake (peer_at devR2 j)) = mi_sender m1" "mr_receiver m2 = mi_sender m1"
    using response_delivered [OF paired create _ _ _ _ resp dh(3,4)] j got by fastforce
  obtain t1 t2 where kdf: "wireguard_kdf2 (hs_chaining_key (pr_handshake (peer_at devI2 i))) [] = (t1, t2)" by fastforce
  note s = start_session_keys(1) [OF kdf, of osI2] start_session_keys(2) [OF kdf [unfolded ck], of osR4]
  show ?thesis
    using got I2 s ix by (simp add: Let_def wireguard_decrypt_packet_def wireguard_encrypt_packet_def)
qed

section \<open>A concrete pair of devices\<close>

text \<open>A commuting stand-in for the Diffie-Hellman function, and two devices that know each other.\<close>

definition toy_dh :: dh where
  "toy_dh a b = (0, map2 (XOR) a b)"

definition sample_device :: "byte \<Rightarrow> byte \<Rightarrow> wireguard_device" where
  "sample_device me other =
     (let priv = replicate 32 me; pub = snd (toy_dh (replicate 32 other) basepoint)
      in \<lparr>dv_public_key = snd (toy_dh priv basepoint), dv_private_key = priv, dv_cookie_secret = zeroes 32,
          dv_cookie_secret_millis = 0, dv_label_cookie_key = zeroes 32, dv_label_mac1_key = zeroes 32,
          dv_peers = [(zero_peer 1 32)\<lparr>pr_valid := True, pr_public_key := pub,
             pr_public_key_dh := snd (toy_dh priv pub)\<rparr>],
          dv_valid = True\<rparr>)"

lemma create_initiation_succeeds:
  assumes "wireguard_generate_private_key os = (priv, os1)" "memcmp priv zero_key \<noteq> 0"
    and "fst (X priv basepoint) = 0" "\<not> crypto_equal (snd (X priv (pr_public_key (peer_at dev i)))) zero_key"
    and "index_accepted dev (fst (draw os1))"
  shows "\<exists>m dev' os'. wireguard_create_handshake_initiation X dev i os = Some (True, m, dev', os')"
proof -
  have "wireguard_generate_unique_index (put_peer i ((peer_at dev i)\<lparr>pr_handshake := h\<rparr>) dev) os1 = Some (draw os1)"
    if "hs_local_index h = hs_local_index (pr_handshake (peer_at dev i))" for h
    using assms(5) that
    by (subst generate_unique_index_step) (simp add: index_accepted_def index_existing_put_peer peer_uses_index_def)
  then show ?thesis using assms
    by (auto simp: wireguard_create_handshake_initiation_def wireguard_generate_public_key_def Let_def split_def)
qed

lemma create_response_succeeds:
  assumes "wireguard_generate_private_key os = (priv, os1)" "memcmp priv zero_key \<noteq> 0"
    and "hs_valid (pr_handshake (peer_at dev j))" "\<not> hs_initiator (pr_handshake (peer_at dev j))"
    and "fst (X priv basepoint) = 0" "\<not> crypto_equal (snd (X priv (pr_public_key (peer_at dev j)))) zero_key"
    and "\<not> crypto_equal (snd (X priv (hs_remote_ephemeral (pr_handshake (peer_at dev j))))) zero_key"
    and "index_accepted dev (fst (draw os1))"
  shows "\<exists>m dev' os'. wireguard_create_handshake_response X dev j os = Some (True, m, dev', os')"
proof -
  have "wireguard_generate_unique_index (put_peer j ((peer_at dev j)\<lparr>pr_handshake := h\<rparr>) dev) os1 = Some (draw os1)"
    if "hs_local_index h = hs_local_index (pr_handshake (peer_at dev j))" for h
    using assms(8) that
    by (subst generate_unique_index_step) (simp add: index_accepted_def index_existing_put_peer peer_uses_index_def)
  then show ?thesis using assms
    by (auto simp: wireguard_create_handshake_response_def wireguard_generate_public_key_def Let_def split_def)
qed

definition sample_ephemeral :: bytes where
  "sample_ephemeral = [0, 1, 2, 3, 2, 1, 2, 3, 3, 1, 2, 3, 4, 1, 2, 3, 5, 1, 2, 3, 6, 1, 2, 3, 7, 1, 2, 3, 8, 1, 2, 67]"

lemma sample_private_key:
  "wireguard_generate_private_key (sample_os n) = (sample_ephemeral, (sample_os n)\<lparr>urandom_pos := 9\<rparr>)"
  by (simp add: wireguard_generate_private_key_def wireguard_random_bytes_def urandom_next_def sample_os_def
      urandom_read.simps wireguard_clamp_private_key_def sample_ephemeral_def Let_def)

lemma sample_index: "fst (draw ((sample_os n)\<lparr>urandom_pos := 9\<rparr>)) = 0x0302010A"
  by (simp add: draw_def wireguard_random_bytes_def urandom_next_def sample_os_def urandom_read.simps
      U8TO32_LITTLE_def Let_def)


lemma toy_commutes: "dh_commutes toy_dh a b"
proof -
  have "map2 (XOR) a (map2 (XOR) b c) = map2 (XOR) b (map2 (XOR) a c)" for c
    by (induction a b arbitrary: c rule: list_induct2') (case_tac [!] c, auto simp: ac_simps)
  then show ?thesis by (simp add: dh_commutes_def toy_dh_def)
qed

lemma sample_paired: "paired toy_dh (sample_device 1 2) 0 (sample_device 2 1) 0"
  by (simp add: paired_def sample_device_def Let_def peer_at_def peer_lookup_by_pubkey_def zero_peer_def)

lemma sample_values:
  "\<not> crypto_equal (snd (toy_dh sample_ephemeral (snd (toy_dh (replicate 32 1) basepoint)))) zero_key"
  "\<not> crypto_equal (snd (toy_dh sample_ephemeral (snd (toy_dh (replicate 32 2) basepoint)))) zero_key"
  "\<not> crypto_equal (snd (toy_dh sample_ephemeral (snd (toy_dh sample_ephemeral basepoint)))) zero_key"
  "memcmp sample_ephemeral zero_key \<noteq> 0"
proof -
  have nz: "\<not> crypto_equal xs zero_key" if "length xs = 32" "xs ! 0 \<noteq> 0" for xs
    using that by (auto simp: crypto_equal_iff zero_key_def zeroes_def)
  have len: "length sample_ephemeral = 32" "sample_ephemeral ! 0 = 0" "sample_ephemeral ! 1 = 1"
    by (simp_all add: sample_ephemeral_def)
  have base: "basepoint ! 0 = 9" by (simp add: basepoint_def)
  show "\<not> crypto_equal (snd (toy_dh sample_ephemeral (snd (toy_dh (replicate 32 1) basepoint)))) zero_key"
    "\<not> crypto_equal (snd (toy_dh sample_ephemeral (snd (toy_dh (replicate 32 2) basepoint)))) zero_key"
    "\<not> crypto_equal (snd (toy_dh sample_ephemeral (snd (toy_dh sample_ephemeral basepoint)))) zero_key"
    by (rule nz; simp add: toy_dh_def len base)+
  have "sample_ephemeral \<noteq> zero_key"
  proof
    assume "sample_ephemeral = zero_key"
    then have "sample_ephemeral ! 1 = zero_key ! 1" by (rule arg_cong)
    with len(3) show False by (simp add: zero_key_def zeroes_def)
  qed
  then show "memcmp sample_ephemeral zero_key \<noteq> 0" by (simp add: memcmp_eq_0 len)
qed

lemma sample_time_after_zero: "memcmp (wireguard_tai64n_now (sample_os 7)) (zeroes 12) > 0"
proof -
  have hd: "hd (wireguard_tai64n_now os) =
      ucast (drop_bit 56 (of_nat (tv_sec (clock_realtime os)) + WG_TAI64_UNIX_EPOCH))" for os
    by (simp add: wireguard_tai64n_now_def Let_def hd_map)
  have "hd (wireguard_tai64n_now (sample_os 7)) = 64" 
    by (simp add: hd sample_os_def WG_TAI64_UNIX_EPOCH_def)
  moreover have "wireguard_tai64n_now (sample_os 7) \<noteq> []" by (simp add: wireguard_tai64n_now_def Let_def)
  moreover have "zeroes 12 = 0 # zeroes 11" by (simp add: zeroes_def flip: replicate_Suc)
  ultimately show ?thesis by (cases "wireguard_tai64n_now (sample_os 7)") auto
qed

theorem handshake_agreement_witness:
  "\<exists>m1 devI1 osI1 m2 devR2 osR3.
     wireguard_create_handshake_initiation toy_dh (sample_device 1 2) 0 (sample_os 7) = Some (True, m1, devI1, osI1)
   \<and> wireguard_create_handshake_response toy_dh
       (snd (wireguard_process_initiation_message toy_dh (sample_device 2 1) m1 (sample_os 8))) 0 (sample_os 8)
       = Some (True, m2, devR2, osR3)
   \<and> fst (wireguard_process_handshake_response toy_dh devI1 0 m2)"
proof -
  let ?I = "sample_device 1 2" and ?R = "sample_device 2 1"
  have len: "length (dv_peers ?I) = 1" "length (dv_peers ?R) = 1"
    and pk: "pr_public_key (peer_at ?I 0) = snd (toy_dh (replicate 32 2) basepoint)"
      "pr_public_key (peer_at ?R 0) = snd (toy_dh (replicate 32 1) basepoint)"
    and zero: "pr_greatest_timestamp (peer_at ?R 0) = zeroes 12" "pr_last_initiation_rx (peer_at ?R 0) = 0"
    by (simp_all add: sample_device_def Let_def peer_at_def zero_peer_def)
  have acc: "index_accepted ?I 0x0302010A" "index_accepted ?R 0x0302010A"
    by (simp_all add: index_accepted_def index_existing_last sample_device_def Let_def peer_uses_index_def
        zero_peer_def zero_keypair_def zero_handshake_def)
  obtain m1 devI1 osI1 where m1: "wireguard_create_handshake_initiation toy_dh ?I 0 (sample_os 7) = Some (True, m1, devI1, osI1)"
    using create_initiation_succeeds [OF sample_private_key [of 7], of toy_dh ?I 0] sample_values acc
    by (auto simp: pk sample_index toy_dh_def)
  have fresh: "memcmp (wireguard_tai64n_now (sample_os 7)) (pr_greatest_timestamp (peer_at ?R 0)) > 0"
    using sample_time_after_zero by (simp add: zero)
  note got = initiation_delivered [OF sample_paired toy_commutes toy_commutes m1 fresh, of "sample_os 8"]
  have eph: "mi_ephemeral m1 = snd (toy_dh sample_ephemeral basepoint)"
    using create_initiation_True(3) [OF m1] len by (simp add: sample_private_key)
  let ?R1 = "snd (wireguard_process_initiation_message toy_dh ?R m1 (sample_os 8))"
  have "index_accepted ?R1 0x0302010A"
    using acc(2) got len by (simp add: zero index_accepted_def index_existing_put_peer peer_uses_index_def)
  then obtain m2 devR2 osR3 where m2: "wireguard_create_handshake_response toy_dh ?R1 0 (sample_os 8) = Some (True, m2, devR2, osR3)"
    using create_response_succeeds [OF sample_private_key [of 8], of ?R1 0 toy_dh] sample_values got len
    by (auto simp: zero pk sample_index eph toy_dh_def)
  have "fst (wireguard_process_handshake_response toy_dh devI1 0 m2)"
    using handshake_agreement [OF sample_paired toy_commutes toy_commutes toy_commutes toy_commutes m1 fresh _ m2] zero by simp
  then show ?thesis using m1 m2 by blast
qed

end
