(* ===== verification/Cookie.thy ===== *)
theory Cookie
  imports Agreement
begin

text \<open>
  The denial-of-service protection of \<open>wireguard.c\<close>: the two message MACs, the cookie that a loaded
  responder derives from the sender's address under a secret it renews every two minutes, the
  encrypted cookie reply and its reception.
\<close>

section \<open>The code\<close>

definition wireguard_check_mac1 :: "wireguard_device \<Rightarrow> bytes \<Rightarrow> bytes \<Rightarrow> bool" where
  "wireguard_check_mac1 dev data mac1 =
     (let calculated = wireguard_mac data (dv_label_mac1_key dev) in crypto_equal calculated mac1)"

text \<open>The cookie for a source address; a secret that is too old is renewed first.\<close>

definition generate_peer_cookie ::
    "wireguard_device \<Rightarrow> bytes \<Rightarrow> os \<Rightarrow> bytes \<times> wireguard_device \<times> os" where
  "generate_peer_cookie dev source_addr_port os =
     (let (dev, os) = (if wireguard_expired os (dv_cookie_secret_millis dev) COOKIE_SECRET_MAX_AGE
                       then generate_cookie_secret dev os else (dev, os));
          cookie = blake2s_parts 16 (dv_cookie_secret dev)
                     (if length source_addr_port > 0 then [source_addr_port] else [])
      in (cookie, dev, os))"

definition wireguard_check_mac2 ::
    "wireguard_device \<Rightarrow> bytes \<Rightarrow> bytes \<Rightarrow> bytes \<Rightarrow> os \<Rightarrow> bool \<times> wireguard_device \<times> os" where
  "wireguard_check_mac2 dev data source_addr_port mac2 os =
     (let (cookie, dev, os) = generate_peer_cookie dev source_addr_port os;
          calculated = wireguard_mac data cookie
      in (crypto_equal calculated mac2, dev, os))"

definition wireguard_create_cookie_reply ::
    "wireguard_device \<Rightarrow> bytes \<Rightarrow> u32 \<Rightarrow> bytes \<Rightarrow> os \<Rightarrow> message_cookie_reply \<times> wireguard_device \<times> os" where
  "wireguard_create_cookie_reply dev mac1 index source_addr_port os =
     (let dst = \<lparr>mc_type = 0, mc_reserved = zeroes 3, mc_receiver = 0, mc_nonce = zeroes 24, mc_enc_cookie = zeroes 32\<rparr>;
          dst = dst\<lparr>mc_type := MESSAGE_COOKIE_REPLY\<rparr>;
          dst = dst\<lparr>mc_receiver := index\<rparr>;
          (nonce, os) = wireguard_random_bytes 24 os;
          dst = dst\<lparr>mc_nonce := nonce\<rparr>;
          (cookie, dev, os) = generate_peer_cookie dev source_addr_port os;
          dst = dst\<lparr>mc_enc_cookie := xchacha20poly1305_encrypt cookie mac1 (mc_nonce dst) (dv_label_cookie_key dev)\<rparr>
      in (dst, dev, os))"

definition wireguard_process_cookie_message ::
    "wireguard_device \<Rightarrow> nat \<Rightarrow> message_cookie_reply \<Rightarrow> os \<Rightarrow> bool \<times> wireguard_device" where
  "wireguard_process_cookie_message dev i src os =
     (let peer = peer_at dev i
      in if pr_handshake_mac1_valid peer
         then case xchacha20poly1305_decrypt (mc_enc_cookie src) (pr_handshake_mac1 peer) (mc_nonce src) (pr_label_cookie_key peer) of
                Some cookie \<Rightarrow>
                  let peer = peer\<lparr>pr_cookie := cookie, pr_cookie_millis := wireguard_sys_now os,
                                  pr_handshake_mac1_valid := False\<rparr>
                  in (True, put_peer i peer dev)
              | None \<Rightarrow> (False, dev)
         else (False, dev))"

section \<open>The cookie exchange\<close>

lemma generate_peer_cookie_frame:
  "generate_peer_cookie dev src os = (cookie, dev', os') \<Longrightarrow>
     dv_peers dev' = dv_peers dev \<and> dv_label_mac1_key dev' = dv_label_mac1_key dev
     \<and> dv_label_cookie_key dev' = dv_label_cookie_key dev \<and> dv_public_key dev' = dv_public_key dev
     \<and> dv_private_key dev' = dv_private_key dev \<and> dv_valid dev' = dv_valid dev
     \<and> clock_monotonic os' = clock_monotonic os \<and> clock_realtime os' = clock_realtime os"
  by (auto dest: random_bytesD simp: generate_peer_cookie_def generate_cookie_secret_def Let_def split: if_splits prod.splits)

text \<open>Once used, the secret is fresh, and it gives the same cookie again until it is two minutes old.\<close>

lemma generate_peer_cookie_stable:
  assumes "generate_peer_cookie dev src os = (cookie, dev', os')"
    and "\<not> wireguard_expired os'' (dv_cookie_secret_millis dev') COOKIE_SECRET_MAX_AGE"
  shows "generate_peer_cookie dev' src os'' = (cookie, dev', os'')"
  using assms by (auto simp: generate_peer_cookie_def Let_def split: if_splits prod.splits)

text \<open>
  C27. The cookie exchange closes. An initiator that has sent a message with a given \<open>mac1\<close> and gets
  the cookie reply a responder created for that \<open>mac1\<close>, with both deriving the cookie key from the
  responder's public key, accepts it and stores the cookie; the \<open>mac2\<close> it then puts on its next
  message is accepted by the responder for the same source address, as long as the responder's
  secret and the stored cookie are not yet two minutes old.
\<close>

theorem cookie_exchange:
  assumes reply: "wireguard_create_cookie_reply devR mac1 idx src osR = (reply, devR1, osR1)"
    and peer: "i < length (dv_peers devI)" "pr_handshake_mac1_valid (peer_at devI i)"
      "pr_handshake_mac1 (peer_at devI i) = mac1"
      "pr_label_cookie_key (peer_at devI i) = dv_label_cookie_key devR"
    and fresh: "\<not> wireguard_expired osR2 (dv_cookie_secret_millis devR1) COOKIE_SECRET_MAX_AGE"
      "\<not> wireguard_expired osI2 (wireguard_sys_now osI) COOKIE_SECRET_MAX_AGE"
    and msg: "initiation_wf m" "length (pr_label_mac1_key (peer_at devI i)) = 32"
  shows "let (ok, devI1) = wireguard_process_cookie_message devI i reply osI;
             m2 = initiation_macs (peer_at devI1 i) m osI2
         in ok \<and> pr_cookie_millis (peer_at devI1 i) = wireguard_sys_now osI \<and> \<not> pr_handshake_mac1_valid (peer_at devI1 i)
          \<and> fst (wireguard_check_mac2 devR1 (take (148 - 16) (initiation_bytes m2)) src (mi_mac2 m2) osR2)"
proof -
  obtain nonce os1 cookie where n: "wireguard_random_bytes 24 osR = (nonce, os1)"
    and c: "generate_peer_cookie devR src os1 = (cookie, devR1, osR1)"
    and r: "mc_nonce reply = nonce"
      "mc_enc_cookie reply = xchacha20poly1305_encrypt cookie mac1 nonce (dv_label_cookie_key devR1)"
    using reply by (auto simp: wireguard_create_cookie_reply_def Let_def split: prod.splits)
  define p1 where "p1 = (peer_at devI i)\<lparr>pr_cookie := cookie, pr_cookie_millis := wireguard_sys_now osI,
    pr_handshake_mac1_valid := False\<rparr>"
  have "dv_label_cookie_key devR1 = dv_label_cookie_key devR"
    using generate_peer_cookie_frame [OF c] by simp
  then have proc: "wireguard_process_cookie_message devI i reply osI = (True, put_peer i p1 devI)"
    using peer r by (simp add: wireguard_process_cookie_message_def p1_def)
  define m1 where "m1 = m\<lparr>mi_mac1 := wireguard_mac (take (148 - 2 * 16) (initiation_bytes m)) (pr_label_mac1_key p1)\<rparr>"
  define mac2 where "mac2 = wireguard_mac (take (148 - 16) (initiation_bytes m1)) cookie"
  have macs: "initiation_macs p1 m osI2 = m1\<lparr>mi_mac2 := mac2\<rparr>"
    using fresh(2) by (simp add: initiation_macs_def p1_def m1_def mac2_def Let_def)
  have len: "length (mi_mac1 m1) = 16"
    using msg(2) by (simp add: m1_def p1_def length_wireguard_mac)
  have prefix: "take (148 - 16) (initiation_bytes (m1\<lparr>mi_mac2 := x\<rparr>)) = take (148 - 16) (initiation_bytes m1)" for x
    using msg(1) len by (simp add: m1_def initiation_bytes_def initiation_wf_def)
  have "fst (wireguard_check_mac2 devR1 (take (148 - 16) (initiation_bytes m1)) src mac2 osR2)"
    using generate_peer_cookie_stable [OF c fresh(1)] by (simp add: wireguard_check_mac2_def mac2_def)
  then show ?thesis
    using peer(1) by (simp add: proc macs prefix [simplified]) (simp add: p1_def)
qed


theorem cookie_exchange_witness:
  "\<exists>reply devR1 osR1.
     wireguard_create_cookie_reply (sample_device 2 1) (zeroes 16) 7 [1, 2, 3, 4, 5, 6] (sample_os 7) = (reply, devR1, osR1)
   \<and> fst (wireguard_process_cookie_message
        (put_peer 0 ((peer_at (sample_device 1 2) 0)\<lparr>pr_handshake_mac1_valid := True\<rparr>) (sample_device 1 2)) 0 reply (sample_os 7))"
proof -
  obtain reply devR1 osR1 where r:
    "wireguard_create_cookie_reply (sample_device 2 1) (zeroes 16) 7 [1, 2, 3, 4, 5, 6] (sample_os 7) = (reply, devR1, osR1)"
    by (metis prod_cases3)
  have t: "wireguard_sys_now os = 7000" if "clock_monotonic os = \<lparr>tv_sec = 7, tv_nsec = 0\<rparr>" for os
    using that by (simp add: wireguard_sys_now_def)
  have now: "wireguard_sys_now (sample_os 7) = 7000" by (simp add: t sample_os_def)
  have millis: "dv_cookie_secret_millis devR1 = 0"
    using r by (auto simp: wireguard_create_cookie_reply_def generate_peer_cookie_def wireguard_expired_def
       sample_device_def sample_os_def Let_def t split: prod.splits if_splits dest!: random_bytesD)
  let ?I = "put_peer 0 ((peer_at (sample_device 1 2) 0)\<lparr>pr_handshake_mac1_valid := True\<rparr>) (sample_device 1 2)"
  let ?m = "\<lparr>mi_type = 1, mi_reserved = [0, 0, 0], mi_sender = 7, mi_ephemeral = zeroes 32, mi_enc_static = zeroes 48,
      mi_enc_timestamp = zeroes 28, mi_mac1 = zeroes 16, mi_mac2 = zeroes 16\<rparr>"
  have I: "length (dv_peers (sample_device 1 2)) = 1" "pr_handshake_mac1 (peer_at (sample_device 1 2) 0) = zeroes 16"
    "pr_label_cookie_key (peer_at (sample_device 1 2) 0) = zeroes 32" "pr_label_mac1_key (peer_at (sample_device 1 2) 0) = zeroes 32"
    "dv_label_cookie_key (sample_device 2 1) = zeroes 32"
    by (simp_all add: sample_device_def peer_at_def Let_def zero_peer_def)
  have "fst (wireguard_process_cookie_message ?I 0 reply (sample_os 7))"
    using cookie_exchange [OF r, of 0 ?I "sample_os 7" "sample_os 7" "sample_os 7" ?m]
    by (simp add: I millis initiation_wf_def wireguard_expired_def now Let_def split: prod.splits)
  then show ?thesis using r by blast
qed

end
