(* ===== verification/Replay.thy ===== *)
theory Replay
  imports Wg_Types
begin

text \<open>
  The anti-replay window \<open>wireguard_check_replay\<close>. The bitmap is an array of 64-bit words; the
  code shifts it in place, from the highest word down. The section on correctness shows that the
  window is exactly the set of accepted counters seen through a window: a packet is accepted if and
  only if its counter has not been accepted before and is not further behind the newest accepted
  one than the window is wide.
\<close>

section \<open>The code\<close>

text \<open>
  The shifting loop: \<open>shift_loop (i + 1)\<close> is the iteration for index \<open>i\<close> and the ones after it,
  down to index 0.
\<close>

fun shift_loop :: "nat \<Rightarrow> nat \<Rightarrow> nat \<Rightarrow> u64 list \<Rightarrow> u64 list" where
  "shift_loop 0 word_shift bit_shift bm = bm"
| "shift_loop (Suc i) word_shift bit_shift bm =
     (let v = (if word_shift \<le> i
               then (let v = push_bit bit_shift (bm ! (i - word_shift))
                     in if bit_shift \<noteq> 0 \<and> word_shift < i
                        then v OR drop_bit (64 - bit_shift) (bm ! (i - word_shift - 1)) else v)
               else 0)
      in shift_loop i word_shift bit_shift (bm[i := v]))"

definition wireguard_check_replay :: "wireguard_keypair \<Rightarrow> u64 \<Rightarrow> bool \<times> wireguard_keypair" where
  "wireguard_check_replay kp seq0 =
     (let bm = kp_replay_bitmap kp;
          words = length bm;
          ReplayWindowSize = of_nat words * 64 :: u64;
          seq = seq0 + 1
      in if seq \<noteq> 0
         then if seq > kp_replay_counter kp
              then let diff = seq - kp_replay_counter kp;
                       bm' = (if diff < ReplayWindowSize
                              then let s = shift_loop words (unat (diff div 64)) (unat (diff mod 64)) bm
                                   in s[0 := s ! 0 OR 1]
                              else (replicate words 0)[0 := 1])
                   in (True, kp\<lparr>kp_replay_bitmap := bm', kp_replay_counter := seq\<rparr>)
              else let diff = kp_replay_counter kp - seq
                   in if diff < ReplayWindowSize
                      then let b = push_bit (unat (diff mod 64)) 1 :: u64;
                               word = unat (diff div 64)
                           in if bm ! word AND b \<noteq> 0 then (False, kp)
                              else (True, kp\<lparr>kp_replay_bitmap := bm[word := bm ! word OR b]\<rparr>)
                      else (False, kp)
         else (False, kp))"

section \<open>The bitmap as a sequence of bits\<close>

definition bm_bit :: "u64 list \<Rightarrow> nat \<Rightarrow> bool" where
  "bm_bit bm k \<longleftrightarrow> bit (bm ! (k div 64)) (k mod 64)"

lemma bm_bit_split: "r < 64 \<Longrightarrow> bm_bit bm (64 * q + r) \<longleftrightarrow> bit (bm ! q) r"
  by (simp add: bm_bit_def)

definition shifted_word :: "nat \<Rightarrow> nat \<Rightarrow> u64 list \<Rightarrow> nat \<Rightarrow> u64" where
  "shifted_word ws bs bm i =
     (if ws \<le> i
      then (let v = push_bit bs (bm ! (i - ws))
            in if bs \<noteq> 0 \<and> ws < i then v OR drop_bit (64 - bs) (bm ! (i - ws - 1)) else v)
      else 0)"

lemma length_shift_loop [simp]: "length (shift_loop n ws bs bm) = length bm"
  by (induction n ws bs bm rule: shift_loop.induct) (auto simp: Let_def)

lemma check_replay_frame:
  "wireguard_check_replay k n = (ok, k') \<Longrightarrow> kp_valid k' = kp_valid k \<and> kp_initiator k' = kp_initiator k \<and> kp_millis k' = kp_millis k
     \<and> kp_receiving_valid k' = kp_receiving_valid k \<and> kp_receiving_key k' = kp_receiving_key k \<and> kp_sending_key k' = kp_sending_key k
     \<and> kp_sending_counter k' = kp_sending_counter k \<and> kp_local_index k' = kp_local_index k \<and> kp_remote_index k' = kp_remote_index k
     \<and> kp_last_rx k' = kp_last_rx k \<and> length (kp_replay_bitmap k') = length (kp_replay_bitmap k)"
  unfolding wireguard_check_replay_def Let_def by (auto split: if_splits)

lemma shift_loop_nth:
  "n \<le> length bm \<Longrightarrow> j < length bm \<Longrightarrow>
   shift_loop n ws bs bm ! j = (if j < n then shifted_word ws bs bm j else bm ! j)"
proof (induction n arbitrary: bm)
  case (Suc i)
  have same: "j < i \<Longrightarrow> shifted_word ws bs (bm[i := v]) j = shifted_word ws bs bm j" for j v
    by (auto simp: shifted_word_def Let_def)
  show ?case
    using Suc same by (auto simp: Let_def shifted_word_def[symmetric] nth_list_update less_Suc_eq)
qed simp

lemma bit_shifted_word:
  assumes "bs < 64" "b < 64"
  shows "bit (shifted_word ws bs bm j) b \<longleftrightarrow>
    64 * ws + bs \<le> 64 * j + b \<and> bm_bit bm (64 * j + b - (64 * ws + bs))"
proof (cases "bs \<le> b")
  case True
  have hi: "\<not> bit y (64 - bs + b)" for y :: u64
    using True by (auto dest: bit_imp_le_length)
  show ?thesis
  proof (cases "ws \<le> j")
    case ws: True
    have "64 * j + b - (64 * ws + bs) = 64 * (j - ws) + (b - bs)"
      using True ws by (simp add: algebra_simps)
    then have "bm_bit bm (64 * j + b - (64 * ws + bs)) \<longleftrightarrow> bit (bm ! (j - ws)) (b - bs)"
      using assms by (simp only: bm_bit_split)
    then show ?thesis
      using True ws assms hi by (simp add: shifted_word_def Let_def bit_simps)
  next
    case False
    with assms show ?thesis by (simp add: shifted_word_def)
  qed
next
  case False
  show ?thesis
  proof (cases "ws < j")
    case True
    have "64 * j + b - (64 * ws + bs) = 64 * (j - ws - 1) + (64 - bs + b)"
      using False True assms by (simp add: algebra_simps)
    then have "bm_bit bm (64 * j + b - (64 * ws + bs)) \<longleftrightarrow> bit (bm ! (j - ws - 1)) (64 - bs + b)"
      using False assms by (simp only: bm_bit_split)
    then show ?thesis
      using True False assms by (simp add: shifted_word_def Let_def bit_simps)
  next
    case ws: False
    with False assms show ?thesis
      by (auto simp: shifted_word_def Let_def bit_simps)
  qed
qed

lemma bm_bit_shift:
  assumes "k < 64 * length bm" "bs < 64"
  shows "bm_bit (shift_loop (length bm) ws bs bm) k \<longleftrightarrow>
    64 * ws + bs \<le> k \<and> bm_bit bm (k - (64 * ws + bs))"
proof -
  have "k div 64 < length bm"
    using assms(1) by (simp add: less_mult_imp_div_less mult.commute)
  then show ?thesis
    using bit_shifted_word[of bs "k mod 64" ws bm "k div 64"] assms(2)
    by (simp add: bm_bit_def shift_loop_nth)
qed

section \<open>The window as a set of accepted counters\<close>

text \<open>The least counter above every accepted one, plus one as the code counts from 1.\<close>

definition top_counter :: "u64 set \<Rightarrow> nat" where
  "top_counter H = (if H = {} then 0 else Suc (Max (unat ` H)))"

lemma finite_u64 [simp]: "finite (H :: u64 set)"
  by (rule finite_subset[OF subset_UNIV]) simp

lemma top_counter_ge: "h \<in> H \<Longrightarrow> Suc (unat h) \<le> top_counter H"
  by (auto simp: top_counter_def)

lemma top_counter_le_iff: "top_counter H \<le> n \<longleftrightarrow> (\<forall>h \<in> H. unat h < n)"
  by (auto simp: top_counter_def Suc_le_eq)

lemma top_counter_insert: "top_counter (insert x H) = max (Suc (unat x)) (top_counter H)"
  by (auto simp: top_counter_def)

text \<open>
  What the window promises: with the counters in \<open>H\<close> accepted so far, the counter \<open>s\<close> is accepted
  if it is not the reserved largest one, is new, and trails no accepted one by the window's width.
\<close>

definition window_accepts :: "nat \<Rightarrow> u64 set \<Rightarrow> u64 \<Rightarrow> bool" where
  "window_accepts words H s \<longleftrightarrow>
     s + 1 \<noteq> 0 \<and> s \<notin> H \<and> (\<forall>h \<in> H. unat h < unat s + 64 * words)"

definition replay_inv :: "u64 set \<Rightarrow> wireguard_keypair \<Rightarrow> bool" where
  "replay_inv H kp \<longleftrightarrow>
     0 < length (kp_replay_bitmap kp) \<and> length (kp_replay_bitmap kp) < 2 ^ 32 \<and>
     unat (kp_replay_counter kp) = top_counter H \<and>
     (\<forall>k < 64 * length (kp_replay_bitmap kp).
        bm_bit (kp_replay_bitmap kp) k \<longleftrightarrow> (\<exists>h \<in> H. Suc (unat h) + k = top_counter H))"

lemma replay_inv_zero:
  assumes "0 < words" "words < 2 ^ 32" "kp_replay_bitmap kp = replicate words 0"
    "kp_replay_counter kp = 0"
  shows "replay_inv {} kp"
  using assms by (auto simp: replay_inv_def top_counter_def bm_bit_def less_mult_imp_div_less mult.commute)

lemma bm_bit_update:
  assumes "w < length bm" "b < 64" "k < 64 * length bm"
  shows "bm_bit (bm[w := bm ! w OR push_bit b 1]) k \<longleftrightarrow> k = 64 * w + b \<or> bm_bit bm k"
proof -
  have k: "k = 64 * w + b \<longleftrightarrow> k div 64 = w \<and> k mod 64 = b"
    using assms(2) by auto
  have "bit (push_bit b 1 :: u64) (k mod 64) \<longleftrightarrow> k mod 64 = b"
    using assms(2) by (auto simp: bit_exp_iff)
  then show ?thesis
    using assms k by (cases "k div 64 = w") (auto simp: bm_bit_def nth_list_update bit_or_iff)
qed

lemma bm_bit_replicate: "k < 64 * words \<Longrightarrow> bm_bit (replicate words 0) k \<longleftrightarrow> False"
  by (simp add: bm_bit_def less_mult_imp_div_less mult.commute)

lemma bm_bit_first:
  assumes "0 < length bm" "k < 64 * length bm"
  shows "bm_bit (bm[0 := bm ! 0 OR 1]) k \<longleftrightarrow> k = 0 \<or> bm_bit bm k"
  using bm_bit_update[of 0 bm 0 k] assms by simp

lemma word_test_bit: "bm ! w AND push_bit b 1 \<noteq> 0 \<longleftrightarrow> b < 64 \<and> bit (bm ! w) b" for bm :: "u64 list"
proof -
  have "x AND push_bit b 1 = (if bit x b then push_bit b 1 else 0)" for x :: u64
    by (rule bit_word_eqI) (auto simp: bit_simps)
  then show ?thesis
    by (auto dest: bit_imp_le_length simp: push_bit_eq_mult)
qed

lemma window_size:
  assumes "words < 2 ^ 32"
  shows "unat (of_nat words * 64 :: u64) = 64 * words"
proof -
  have "(of_nat words * 64 :: u64) = of_nat (64 * words)" by simp
  then show ?thesis using assms by (simp add: unat_of_nat del: of_nat_mult)
qed

lemma shift_arith: "a \<le> c \<Longrightarrow> c < q \<Longrightarrow> (q - c \<le> k \<and> a + (k - (q - c)) = c) \<longleftrightarrow> a + k = q"
  for a :: nat
  by auto

text \<open>The three ways the code accepts or refuses, over natural numbers.\<close>

lemma check_replay_newer:
  assumes inv: "replay_inv H kp" and s: "s + 1 \<noteq> 0" and new: "kp_replay_counter kp < s + 1"
  shows "\<exists>kp'. wireguard_check_replay kp s = (True, kp') \<and> replay_inv (insert s H) kp' \<and>
     length (kp_replay_bitmap kp') = length (kp_replay_bitmap kp) \<and> window_accepts (length (kp_replay_bitmap kp)) H s"
proof -
  let ?bm = "kp_replay_bitmap kp" and ?W = "64 * length (kp_replay_bitmap kp)"
  let ?c = "top_counter H" and ?q = "Suc (unat s)" and ?d = "s + 1 - kp_replay_counter kp"
  have len: "0 < length ?bm" "length ?bm < 2 ^ 32"
    and c: "unat (kp_replay_counter kp) = ?c"
    and bits: "\<And>k. k < ?W \<Longrightarrow> bm_bit ?bm k \<longleftrightarrow> (\<exists>h \<in> H. Suc (unat h) + k = ?c)"
    using inv by (auto simp: replay_inv_def)
  have q: "unat (s + 1) = ?q" using word_Suc_no_wrap[OF s] by simp
  have less: "?c < ?q" using new by (simp add: word_less_nat_alt c q)
  have d: "unat ?d = ?q - ?c"
    using new by (simp add: unat_sub_if_size word_less_nat_alt q c less_imp_le)
  have dW: "?d < of_nat (length ?bm) * 64 \<longleftrightarrow> ?q - ?c < ?W"
    using len by (simp add: word_less_nat_alt d window_size)
  have dsplit: "64 * unat (?d div 64) + unat (?d mod 64) = ?q - ?c" "unat (?d mod 64) < 64"
    by (simp_all add: unat_div unat_mod d)
  define bm' where "bm' = (if ?d < of_nat (length ?bm) * 64
     then let s = shift_loop (length ?bm) (unat (?d div 64)) (unat (?d mod 64)) ?bm in s[0 := s ! 0 OR 1]
     else (replicate (length ?bm) 0)[0 := 1])"
  have len': "length bm' = length ?bm" by (simp add: bm'_def Let_def)
  have old: "Suc (unat h) \<le> ?c" if "h \<in> H" for h using top_counter_ge[OF that] .
  have bits': "bm_bit bm' k \<longleftrightarrow> (\<exists>h \<in> insert s H. Suc (unat h) + k = ?q)" if k: "k < ?W" for k
  proof (cases "?q - ?c < ?W")
    case True
    have "bm_bit bm' k \<longleftrightarrow> k = 0 \<or> (?q - ?c \<le> k \<and> bm_bit ?bm (k - (?q - ?c)))"
      using True k len dsplit
      by (simp add: bm'_def Let_def dW bm_bit_first bm_bit_shift)
    also have "\<dots> \<longleftrightarrow> k = 0 \<or> (\<exists>h \<in> H. ?q - ?c \<le> k \<and> Suc (unat h) + (k - (?q - ?c)) = ?c)"
      using k bits by auto
    also have "\<dots> \<longleftrightarrow> k = 0 \<or> (\<exists>h \<in> H. Suc (unat h) + k = ?q)"
      by (intro arg_cong2[where f = "(\<or>)"] bex_cong refl shift_arith[OF old less]) assumption
    also have "\<dots> \<longleftrightarrow> (\<exists>h \<in> insert s H. Suc (unat h) + k = ?q)"
      by auto
    finally show ?thesis .
  next
    case False
    have "bm_bit bm' k \<longleftrightarrow> k = 0"
      using False k len bm_bit_first[of "replicate (length ?bm) 0" k]
      by (simp add: bm'_def dW bm_bit_replicate)
    also have "\<dots> \<longleftrightarrow> (\<exists>h \<in> insert s H. Suc (unat h) + k = ?q)"
      using old less False k by fastforce
    finally show ?thesis .
  qed
  let ?kp' = "kp\<lparr>kp_replay_bitmap := bm', kp_replay_counter := s + 1\<rparr>"
  have "wireguard_check_replay kp s = (True, ?kp')"
    using s new by (simp add: wireguard_check_replay_def bm'_def Let_def)
  moreover have "replay_inv (insert s H) ?kp'"
    using len len' bits' less q by (simp add: replay_inv_def top_counter_insert max_def)
  moreover have "window_accepts (length ?bm) H s"
    using s old less by (fastforce simp: window_accepts_def)
  ultimately show ?thesis using len' by auto
qed

lemma check_replay_older:
  assumes inv: "replay_inv H kp" and s: "s + 1 \<noteq> 0" and old: "\<not> kp_replay_counter kp < s + 1"
    and in_window: "top_counter H \<le> unat s + 64 * length (kp_replay_bitmap kp)"
  shows "\<exists>kp'. wireguard_check_replay kp s = (s \<notin> H, kp') \<and> replay_inv (insert s H) kp' \<and>
     length (kp_replay_bitmap kp') = length (kp_replay_bitmap kp)"
proof -
  let ?bm = "kp_replay_bitmap kp" and ?W = "64 * length (kp_replay_bitmap kp)"
  let ?c = "top_counter H" and ?q = "Suc (unat s)" and ?d = "kp_replay_counter kp - (s + 1)"
  have len: "0 < length ?bm" "length ?bm < 2 ^ 32"
    and c: "unat (kp_replay_counter kp) = ?c"
    and bits: "\<And>k. k < ?W \<Longrightarrow> bm_bit ?bm k \<longleftrightarrow> (\<exists>h \<in> H. Suc (unat h) + k = ?c)"
    using inv by (auto simp: replay_inv_def)
  have q: "unat (s + 1) = ?q" using word_Suc_no_wrap[OF s] by simp
  have le: "?q \<le> ?c" using old by (simp add: word_less_nat_alt c q)
  have d: "unat ?d = ?c - ?q"
    using old by (simp add: unat_sub_if_size word_less_nat_alt q c)
  have small: "?c - ?q < ?W" using in_window len(1) by linarith
  have dW: "?d < of_nat (length ?bm) * 64"
    using small len(2) by (simp add: word_less_nat_alt d window_size)
  define w b where "w = unat (?d div 64)" and "b = unat (?d mod 64)"
  have wb: "64 * w + b = ?c - ?q" "b < 64"
    by (simp_all add: w_def b_def unat_div unat_mod d)
  have w: "w < length ?bm" using wb small by linarith
  have "bit (?bm ! w) b \<longleftrightarrow> bm_bit ?bm (?c - ?q)"
    by (metis bm_bit_split wb)
  also have "\<dots> \<longleftrightarrow> (\<exists>h \<in> H. Suc (unat h) + (?c - ?q) = ?c)"
    by (rule bits[OF small])
  also have "\<dots> \<longleftrightarrow> s \<in> H"
  proof -
    have "Suc (unat h) + (?c - ?q) = ?c \<longleftrightarrow> h = s" for h
      using le by (auto simp: word_unat_eq_iff)
    then show ?thesis by simp
  qed
  finally have seen: "?bm ! w AND push_bit b 1 \<noteq> 0 \<longleftrightarrow> s \<in> H"
    using wb(2) by (simp only: word_test_bit) simp
  define kp' where "kp' = (if s \<in> H then kp
     else kp\<lparr>kp_replay_bitmap := ?bm[w := ?bm ! w OR push_bit b 1]\<rparr>)"
  have run: "wireguard_check_replay kp s = (s \<notin> H, kp')"
    using s old dW seen
    by (simp add: wireguard_check_replay_def Let_def kp'_def w_def b_def del: push_bit_of_1)
  have top: "top_counter (insert s H) = ?c" using le by (simp add: top_counter_insert)
  have "bm_bit (?bm[w := ?bm ! w OR push_bit b 1]) k \<longleftrightarrow> (\<exists>h \<in> insert s H. Suc (unat h) + k = ?c)"
    if k: "k < ?W" for k
  proof -
    have "k = 64 * w + b \<longleftrightarrow> ?q + k = ?c" using wb(1) le by linarith
    then show ?thesis
      using bm_bit_update[OF w wb(2) k] bits[OF k] by auto
  qed
  then have "replay_inv (insert s H) kp'"
    using inv len c top by (auto simp: kp'_def replay_inv_def insert_absorb)
  with run show ?thesis by (auto simp: kp'_def)
qed

lemma check_replay_refused:
  assumes inv: "replay_inv H kp"
    and "s + 1 = 0 \<or> unat s + 64 * length (kp_replay_bitmap kp) < top_counter H"
  shows "wireguard_check_replay kp s = (False, kp)"
proof (cases "s + 1 = 0")
  case False
  let ?d = "kp_replay_counter kp - (s + 1)"
  have len: "0 < length (kp_replay_bitmap kp)" "length (kp_replay_bitmap kp) < 2 ^ 32"
    and c: "unat (kp_replay_counter kp) = top_counter H"
    using inv by (auto simp: replay_inv_def)
  have q: "unat (s + 1) = Suc (unat s)" using word_Suc_no_wrap[OF False] by simp
  have old: "\<not> kp_replay_counter kp < s + 1"
    using assms(2) False len(1) by (simp add: word_less_nat_alt c q)
  have "unat ?d = top_counter H - Suc (unat s)"
    using old by (simp add: unat_sub_if_size word_less_nat_alt q c)
  then have "\<not> ?d < of_nat (length (kp_replay_bitmap kp)) * 64"
    using assms(2) False len(2) by (simp add: word_less_nat_alt window_size)
  with False old show ?thesis
    by (simp add: wireguard_check_replay_def Let_def)
qed (simp add: wireguard_check_replay_def Let_def)

lemma window_accepts_top:
  "window_accepts words H s \<longleftrightarrow> s + 1 \<noteq> 0 \<and> s \<notin> H \<and> top_counter H \<le> unat s + 64 * words"
  by (simp add: window_accepts_def top_counter_le_iff)

lemma check_replay_refines:
  assumes inv: "replay_inv H kp" and run: "wireguard_check_replay kp s = (ok, kp')"
  shows "(ok \<longleftrightarrow> window_accepts (length (kp_replay_bitmap kp)) H s) \<and>
    replay_inv (if ok then insert s H else H) kp' \<and>
    length (kp_replay_bitmap kp') = length (kp_replay_bitmap kp)"
proof -
  let ?W = "64 * length (kp_replay_bitmap kp)"
  consider "s + 1 = 0 \<or> unat s + ?W < top_counter H" | "s + 1 \<noteq> 0" "kp_replay_counter kp < s + 1"
    | "s + 1 \<noteq> 0" "\<not> kp_replay_counter kp < s + 1" "top_counter H \<le> unat s + ?W"
    by linarith
  then show ?thesis
  proof cases
    case 1
    with check_replay_refused[OF inv 1] inv run show ?thesis
      by (auto simp: window_accepts_top)
  next
    case 2
    with check_replay_newer[OF inv 2] run show ?thesis by auto
  next
    case 3
    with check_replay_older[OF inv 3] run inv show ?thesis
      by (cases "s \<in> H") (auto simp: window_accepts_top insert_absorb)
  qed
qed

section \<open>Runs of the window\<close>

text \<open>Offering a sequence of counters to a filter: the accepted ones, in order.\<close>

fun run_filter :: "('s \<Rightarrow> u64 \<Rightarrow> bool \<times> 's) \<Rightarrow> 's \<Rightarrow> u64 list \<Rightarrow> u64 list \<times> 's" where
  "run_filter check s [] = ([], s)"
| "run_filter check s (x # xs) =
     (case check s x of (ok, s') \<Rightarrow>
        (case run_filter check s' xs of (acc, s'') \<Rightarrow> (if ok then x # acc else acc, s'')))"

text \<open>
  The contract of a replay filter towards the receive path: it keeps track of the accepted
  counters (\<open>seen H s\<close>) and never accepts one of them again.
\<close>

locale replay_filter =
  fixes check :: "'s \<Rightarrow> u64 \<Rightarrow> bool \<times> 's"
    and seen :: "u64 set \<Rightarrow> 's \<Rightarrow> bool"
  assumes check_fresh: "seen H s \<Longrightarrow> check s x = (True, s') \<Longrightarrow> x \<notin> H"
    and seen_accept: "seen H s \<Longrightarrow> check s x = (True, s') \<Longrightarrow> seen (insert x H) s'"
    and seen_refuse: "seen H s \<Longrightarrow> check s x = (False, s') \<Longrightarrow> seen H s'"
begin

lemma run_accepts_once:
  "seen H s \<Longrightarrow> run_filter check s xs = (acc, s') \<Longrightarrow>
   distinct acc \<and> set acc \<inter> H = {} \<and> seen (H \<union> set acc) s'"
proof (induction xs arbitrary: H s acc s')
  case (Cons x xs)
  obtain ok s1 acc1 where step: "check s x = (ok, s1)" "run_filter check s1 xs = (acc1, s')"
    and acc: "acc = (if ok then x # acc1 else acc1)"
    using Cons.prems(2) by (auto split: prod.splits)
  show ?case
  proof (cases ok)
    case True
    with step acc check_fresh[OF Cons.prems(1)] Cons.IH[OF seen_accept[OF Cons.prems(1)]]
    show ?thesis by fastforce
  next
    case False
    with step acc Cons.IH[OF seen_refuse[OF Cons.prems(1)]] show ?thesis by simp
  qed
qed simp

lemma no_second_acceptance:
  assumes "seen H s" "run_filter check s xs = (acc, s')" "x \<in> set acc"
  shows "\<not> fst (check s' x)"
proof
  assume "fst (check s' x)"
  then obtain s2 where "check s' x = (True, s2)" by (cases "check s' x") auto
  from check_fresh[OF _ this] run_accepts_once[OF assms(1,2)] assms(3) show False by blast
qed

end

interpretation wg_replay: replay_filter wireguard_check_replay replay_inv
proof
  show "replay_inv H kp \<Longrightarrow> wireguard_check_replay kp x = (True, kp') \<Longrightarrow> x \<notin> H" for H kp x kp'
    using check_replay_refines by (fastforce simp: window_accepts_def)
  show "replay_inv H kp \<Longrightarrow> wireguard_check_replay kp x = (True, kp') \<Longrightarrow> replay_inv (insert x H) kp'"
    for H kp x kp'
    using check_replay_refines by fastforce
  show "replay_inv H kp \<Longrightarrow> wireguard_check_replay kp x = (False, kp') \<Longrightarrow> replay_inv H kp'"
    for H kp x kp'
    using check_replay_refines by fastforce
qed

lemma run_window_length:
  "replay_inv H kp \<Longrightarrow> run_filter wireguard_check_replay kp xs = (acc, kp') \<Longrightarrow>
   length (kp_replay_bitmap kp') = length (kp_replay_bitmap kp)"
proof (induction xs arbitrary: H kp acc)
  case (Cons x xs)
  obtain ok kp1 acc1 where step: "wireguard_check_replay kp x = (ok, kp1)"
    "run_filter wireguard_check_replay kp1 xs = (acc1, kp')"
    using Cons.prems(2) by (auto split: prod.splits)
  from check_replay_refines[OF Cons.prems(1) step(1)] Cons.IH[OF _ step(2)] show ?case by auto
qed simp

text \<open>A key pair as \<open>wireguard_start_session\<close> creates it: empty window, counter zero.\<close>

definition fresh_window :: "nat \<Rightarrow> wireguard_keypair \<Rightarrow> bool" where
  "fresh_window words kp \<longleftrightarrow> 0 < words \<and> words < 2 ^ 32 \<and>
     kp_replay_bitmap kp = replicate words 0 \<and> kp_replay_counter kp = 0"

lemma fresh_window_inv: "fresh_window words kp \<Longrightarrow> replay_inv {} kp"
  by (auto simp: fresh_window_def intro: replay_inv_zero)

text \<open>
  C26. The window is exact. After any sequence of packets on a fresh key pair, a packet is accepted
  if and only if its counter is not the reserved largest value, was not accepted before, and is
  less than one window width behind every accepted counter: no replay is accepted, and no packet
  inside the window is dropped.
\<close>

theorem replay_window_exact:
  assumes "fresh_window words kp" "run_filter wireguard_check_replay kp xs = (acc, kp')"
  shows "fst (wireguard_check_replay kp' s) \<longleftrightarrow>
    s + 1 \<noteq> 0 \<and> s \<notin> set acc \<and> (\<forall>h \<in> set acc. unat h < unat s + 64 * words)"
proof -
  have inv: "replay_inv (set acc) kp'"
    using wg_replay.run_accepts_once[OF fresh_window_inv[OF assms(1)] assms(2)] by simp
  have words: "length (kp_replay_bitmap kp') = words"
    using run_window_length[OF fresh_window_inv[OF assms(1)] assms(2)] assms(1)
    by (simp add: fresh_window_def)
  show ?thesis
    using check_replay_refines[OF inv, of s] words
    by (cases "wireguard_check_replay kp' s") (auto simp: window_accepts_def)
qed

theorem replay_window_exact_witness:
  "fst (wireguard_check_replay (snd (run_filter wireguard_check_replay (zero_keypair 2) [5, 200, 100])) 73)
   \<and> \<not> fst (wireguard_check_replay (snd (run_filter wireguard_check_replay (zero_keypair 2) [5, 200, 100])) 72)"
proof -
  have fresh: "fresh_window 2 (zero_keypair 2)"
    by (simp add: fresh_window_def zero_keypair_def)
  have acc: "fst (run_filter wireguard_check_replay (zero_keypair 2) [5, 200, 100]) = [5, 200, 100]"
    by code_simp
  obtain kp' where run: "run_filter wireguard_check_replay (zero_keypair 2) [5, 200, 100] = ([5, 200, 100], kp')"
    using acc by (metis prod.collapse)
  show ?thesis
    using replay_window_exact[OF fresh run, of 73] replay_window_exact[OF fresh run, of 72] run by simp
qed

text \<open>
  C3. No packet counter is accepted twice on a key pair: the counters accepted in any run are
  distinct, whatever the attacker resends.
\<close>

theorem replay_never_accepts_twice:
  assumes "fresh_window words kp"
  shows "distinct (fst (run_filter wireguard_check_replay kp xs))"
  using wg_replay.run_accepts_once[OF fresh_window_inv[OF assms]]
  by (cases "run_filter wireguard_check_replay kp xs") auto

theorem replay_never_accepts_twice_witness:
  "distinct (fst (run_filter wireguard_check_replay (zero_keypair 1) [1, 0, 1, 2, 0, 70]))"
  by (rule replay_never_accepts_twice[where words = 1]) (simp add: fresh_window_def zero_keypair_def)

end
