(* ===== verification/Netdev.thy ===== *)
theory Netdev
  imports Cookie Replay
begin

text \<open>
  The network device of \<open>nuttx-wireguardif.c\<close>: the interface state around the protocol device, routing
  by allowed-ips, encryption towards a peer, the handlers for received datagrams, the timers, and
  interface up and down. A handler takes the state and the operating system and returns both; the
  ones that may have to choose a receiver index return \<open>None\<close> when that search never returns. The
  network lock makes every handler atomic. Addresses are in network byte order as the 32-bit word
  a little-endian target loads, ports in host byte order, as in the code.
\<close>

section \<open>State\<close>

text \<open>The build-time settings (\<open>CONFIG_NET_WIREGUARD_*\<close>) the handlers read.\<close>

record kconfig =
  cf_load_threshold :: u32
  cf_listen_port :: u16
  cf_private_key :: string
  cf_local_ipaddr :: string
  cf_local_netmask :: string
  cf_peer_public_key :: string
  cf_peer_endpoint_ip :: string
  cf_peer_endpoint_port :: u16
  cf_peer_allowed_ip :: string
  cf_peer_allowed_mask :: string
  cf_peer_keepalive :: int
  cf_max_peers :: nat
  cf_max_src_ips :: nat
  cf_replay_words :: nat
  cf_config_path :: string

record wg_netdev_s =
  nd_wg :: wireguard_device
  nd_bifup :: bool
  nd_running :: bool
  nd_registered :: bool
  nd_carrier :: bool
  nd_rxtask :: int
  nd_rxtask_done :: bool
  nd_ipaddr :: u32
  nd_netmask :: u32
  nd_peer_rx_bytes :: "u64 list"
  nd_peer_tx_bytes :: "u64 list"
  nd_init_window_start :: u32
  nd_init_count :: u32

abbreviation (input) WG_MAX_PACKET :: nat where "WG_MAX_PACKET \<equiv> 1500"
abbreviation (input) WG_CRYPT_BUFSIZE :: nat where "WG_CRYPT_BUFSIZE \<equiv> 16 + 1500 + 16"

definition nd_peer :: "wg_netdev_s \<Rightarrow> nat \<Rightarrow> wireguard_peer" where
  "nd_peer priv i = peer_at (nd_wg priv) i"

definition nd_put :: "nat \<Rightarrow> wireguard_peer \<Rightarrow> wg_netdev_s \<Rightarrow> wg_netdev_s" where
  "nd_put i p priv = priv\<lparr>nd_wg := put_peer i p (nd_wg priv)\<rparr>"

section \<open>The socket and the IP stack\<close>

definition psock_sendto :: "bytes \<Rightarrow> u32 \<Rightarrow> u16 \<Rightarrow> os \<Rightarrow> bool \<times> os" where
  "psock_sendto data addr port os =
     (udp_ok os (length (udp_calls os)),
      os\<lparr>udp_calls := udp_calls os @ [\<lparr>dg_data = data, dg_addr = addr, dg_port = port\<rparr>]\<rparr>)"

definition iob_attempt :: "os \<Rightarrow> bool \<times> os" where
  "iob_attempt os = (iob_ok os (iob_calls os), os\<lparr>iob_calls := Suc (iob_calls os)\<rparr>)"

text \<open>\<open>ipv4_input\<close>: the stack takes the packet and may leave a reply in the device's buffer.\<close>

definition ipv4_input :: "bytes \<Rightarrow> os \<Rightarrow> bytes \<times> os" where
  "ipv4_input packet os =
     (let os = os\<lparr>stack_input := stack_input os @ [packet]\<rparr> in (stack_reply os (stack_input os), os))"

definition ntohl :: "u32 \<Rightarrow> u32" where
  "ntohl v = (let b = U32TO8_LITTLE v in U8TO32_LITTLE [b ! 3, b ! 2, b ! 1, b ! 0])"

definition htons :: "u16 \<Rightarrow> u16" where
  "htons v = push_bit 8 v OR drop_bit 8 v"

section \<open>Routing by allowed-ips\<close>

definition allowed_matches :: "u32 \<Rightarrow> wireguard_allowed_ip \<Rightarrow> bool" where
  "allowed_matches a allowed \<longleftrightarrow> ai_valid allowed \<and> a AND ai_mask allowed = ai_ip allowed AND ai_mask allowed"

text \<open>The two nested loops carry the best peer so far and its mask in host order.\<close>

definition dest_entry ::
    "u32 \<Rightarrow> nat \<Rightarrow> wireguard_allowed_ip \<Rightarrow> nat option \<times> u32 \<Rightarrow> nat option \<times> u32" where
  "dest_entry dest x allowed st =
     (let (best, best_mask) = st
      in if \<not> allowed_matches dest allowed then (best, best_mask)
         else let mask = ntohl (ai_mask allowed)
              in if best = None \<or> mask > best_mask then (Some x, mask) else (best, best_mask))"

definition dest_peer :: "u32 \<Rightarrow> nat \<times> wireguard_peer \<Rightarrow> nat option \<times> u32 \<Rightarrow> nat option \<times> u32" where
  "dest_peer dest xp st =
     (let (x, peer) = xp
      in if pr_valid peer then fold (dest_entry dest x) (pr_allowed_source_ips peer) st else st)"

definition wg_peer_for_dest :: "wg_netdev_s \<Rightarrow> u32 \<Rightarrow> nat option" where
  "wg_peer_for_dest priv dest =
     fst (fold (dest_peer dest) (enumerate 0 (dv_peers (nd_wg priv))) (None, 0))"

section \<open>Encryption towards a peer\<close>

text \<open>The current key pair, or the previous one while the current is not confirmed.\<close>

definition send_slot :: "wireguard_peer \<Rightarrow> keypair_slot" where
  "send_slot peer =
     (let keypair = pr_curr_keypair peer
      in if kp_valid keypair \<and> \<not> kp_initiator keypair \<and> kp_last_rx keypair = 0 then Prev else Curr)"

text \<open>A key pair that is getting old makes the peer ask for a new handshake.\<close>

definition mark_rekey :: "wireguard_keypair \<Rightarrow> os \<Rightarrow> wireguard_peer \<Rightarrow> wireguard_peer" where
  "mark_rekey keypair os peer =
     (if kp_sending_counter keypair \<ge> REKEY_AFTER_MESSAGES then peer\<lparr>pr_send_handshake := True\<rparr>
      else if kp_initiator keypair \<and> wireguard_expired os (kp_millis keypair) REKEY_AFTER_TIME
      then peer\<lparr>pr_send_handshake := True\<rparr> else peer)"

definition wg_encrypt_and_send :: "wg_netdev_s \<Rightarrow> nat \<Rightarrow> bytes \<Rightarrow> os \<Rightarrow> bool \<times> wg_netdev_s \<times> os" where
  "wg_encrypt_and_send priv i plaintext os =
     (let peer = nd_peer priv i;
          s = send_slot peer;
          keypair = slot_keypair peer s
      in if \<not> kp_valid keypair \<or> \<not> kp_initiator keypair \<and> kp_last_rx keypair = 0
         then (False, priv, os)
         else if wireguard_expired os (kp_millis keypair) REJECT_AFTER_TIME
                 \<or> kp_sending_counter keypair \<ge> REJECT_AFTER_MESSAGES
         then (False, nd_put i (set_slot s (keypair_destroy keypair) peer) priv, os)
         else let padded_len = (length plaintext + 15) div 16 * 16;
                  total_len = 16 + padded_len + 16
              in if total_len > WG_CRYPT_BUFSIZE then (False, priv, os)
                 else let hdr = \<lparr>mt_type = MESSAGE_TRANSPORT_DATA, mt_reserved = zeroes 3,
                                 mt_receiver = kp_remote_index keypair,
                                 mt_counter = U64TO8_LITTLE (kp_sending_counter keypair), mt_enc_packet = []\<rparr>;
                          (enc_packet, keypair) = wireguard_encrypt_packet
                             (plaintext @ zeroes (padded_len - length plaintext)) keypair;
                          hdr = hdr\<lparr>mt_enc_packet := enc_packet\<rparr>;
                          (sent, os) = psock_sendto (transport_bytes hdr) (pr_ip peer) (pr_port peer) os;
                          now = wireguard_sys_now os;
                          peer = (if sent then peer\<lparr>pr_last_tx := now\<rparr> else peer);
                          keypair = (if sent then keypair\<lparr>kp_last_tx := now\<rparr> else keypair);
                          peer = set_slot s keypair peer;
                          tx = nd_peer_tx_bytes priv;
                          k = unat (wireguard_peer_index (nd_wg priv) i);
                          priv = (if sent then priv\<lparr>nd_peer_tx_bytes := tx[k := tx ! k + of_nat (total_len - 16)]\<rparr> else priv);
                          peer = mark_rekey keypair os peer
                      in (sent, nd_put i peer priv, os))"

definition wg_send_keepalive :: "wg_netdev_s \<Rightarrow> nat \<Rightarrow> os \<Rightarrow> wg_netdev_s \<times> os" where
  "wg_send_keepalive priv i os = snd (wg_encrypt_and_send priv i [] os)"

section \<open>Handshake messages\<close>

definition wg_start_handshake :: "dh \<Rightarrow> wg_netdev_s \<Rightarrow> nat \<Rightarrow> os \<Rightarrow> (wg_netdev_s \<times> os) option" where
  "wg_start_handshake X priv i os =
     (case wireguard_create_handshake_initiation X (nd_wg priv) i os of
        None \<Rightarrow> None
      | Some (ok, msg, dev, os) \<Rightarrow>
          let priv = priv\<lparr>nd_wg := dev\<rparr>
          in if \<not> ok then Some (priv, os)
             else let peer = nd_peer priv i;
                      (_, os) = psock_sendto (initiation_bytes msg) (pr_ip peer) (pr_port peer) os;
                      peer = peer\<lparr>pr_send_handshake := False\<rparr>;
                      peer = peer\<lparr>pr_last_initiation_tx := wireguard_sys_now os\<rparr>;
                      peer = peer\<lparr>pr_handshake_mac1 := mi_mac1 msg\<rparr>;
                      peer = peer\<lparr>pr_handshake_mac1_valid := True\<rparr>
                  in Some (nd_put i peer priv, os))"

definition wg_send_handshake_response :: "dh \<Rightarrow> wg_netdev_s \<Rightarrow> nat \<Rightarrow> os \<Rightarrow> (wg_netdev_s \<times> os) option" where
  "wg_send_handshake_response X priv i os =
     (case wireguard_create_handshake_response X (nd_wg priv) i os of
        None \<Rightarrow> None
      | Some (ok, packet, dev, os) \<Rightarrow>
          let priv = priv\<lparr>nd_wg := dev\<rparr>
          in if \<not> ok then Some (priv, os)
             else let peer = wireguard_start_session os (nd_peer priv i) False;
                      (_, os) = psock_sendto (response_bytes packet) (pr_ip peer) (pr_port peer) os
                  in Some (nd_put i peer priv, os))"

definition wg_source_addr_port :: "u32 \<Rightarrow> u16 \<Rightarrow> bytes" where
  "wg_source_addr_port addr port =
     (let nport = htons port in U32TO8_LITTLE addr @ [ucast nport, ucast (drop_bit 8 nport)])"

definition wg_under_load :: "kconfig \<Rightarrow> wg_netdev_s \<Rightarrow> os \<Rightarrow> bool \<times> wg_netdev_s" where
  "wg_under_load cfg priv os =
     (let now = wireguard_sys_now os;
          priv = (if now - nd_init_window_start priv \<ge> 1000
                  then priv\<lparr>nd_init_window_start := now, nd_init_count := 0\<rparr> else priv);
          priv = priv\<lparr>nd_init_count := nd_init_count priv + 1\<rparr>
      in (nd_init_count priv > cf_load_threshold cfg, priv))"

definition wg_send_cookie_reply ::
    "wg_netdev_s \<Rightarrow> bytes \<Rightarrow> u32 \<Rightarrow> u32 \<Rightarrow> u16 \<Rightarrow> os \<Rightarrow> wg_netdev_s \<times> os" where
  "wg_send_cookie_reply priv mac1 sender_index addr port os =
     (let src = wg_source_addr_port addr port;
          (reply, dev, os) = wireguard_create_cookie_reply (nd_wg priv) mac1 sender_index src os;
          (_, os) = psock_sendto (cookie_reply_bytes reply) addr port os
      in (priv\<lparr>nd_wg := dev\<rparr>, os))"

section \<open>Received data\<close>

text \<open>
  A field of the IP header of the packet at the start of the 1500-byte \<open>plainbuf\<close>. \<open>wg_process_data_message\<close> clears the
  buffer before it decrypts into it, so a short packet reads zeroes. The transmit path and the reply path of
  \<open>wg_inject_plaintext\<close> do not: there the code reads what an earlier packet left, when the stack's own packet is
  shorter than an IPv4 header; the model reads zeroes there too.
\<close>

definition ip_field :: "nat \<Rightarrow> bytes \<Rightarrow> u32" where
  "ip_field off packet = U8TO32_LITTLE (bytes_at off 4 (packet @ zeroes (WG_MAX_PACKET - length packet)))"

definition wg_inject_plaintext :: "wg_netdev_s \<Rightarrow> bytes \<Rightarrow> os \<Rightarrow> wg_netdev_s \<times> os" where
  "wg_inject_plaintext priv plaintext os =
     (if length plaintext = 0 \<or> length plaintext > WG_MAX_PACKET \<or> \<not> nd_bifup priv then (priv, os)
      else let (prepared, os) = iob_attempt os
           in if \<not> prepared then (priv, os)
              else let (copied, os) = iob_attempt os
                   in if \<not> copied then (priv, os)
                      else let (reply, os) = ipv4_input plaintext os
                           in if length reply > 0 \<and> length reply \<le> WG_MAX_PACKET
                              then case wg_peer_for_dest priv (ip_field 16 reply) of
                                     Some i \<Rightarrow> snd (wg_encrypt_and_send priv i reply os)
                                   | None \<Rightarrow> (priv, os)
                              else (priv, os))"

text \<open>The filter behind decryption: an IPv4 packet, from an allowed source, no longer than received.\<close>

definition packet_totlen :: "bytes \<Rightarrow> nat" where
  "packet_totlen plainbuf = unat (push_bit 8 (ucast (plainbuf ! 2)) OR ucast (plainbuf ! 3) :: u16)"

definition wg_deliver :: "wg_netdev_s \<Rightarrow> wireguard_peer \<Rightarrow> bytes \<Rightarrow> os \<Rightarrow> wg_netdev_s \<times> os" where
  "wg_deliver priv peer plaintext os =
     (if length plaintext = 0 then (priv, os)
      else let plainbuf = plaintext @ zeroes (WG_MAX_PACKET - length plaintext)
           in if drop_bit 4 (plainbuf ! 0) AND 0x0f = 4
              then let srcip = ip_field 12 plaintext;
                       totlen = packet_totlen plainbuf;
                       src_ok = list_ex (allowed_matches srcip) (pr_allowed_source_ips peer)
                   in if src_ok \<and> totlen \<le> length plaintext
                      then wg_inject_plaintext priv (take totlen plainbuf) os
                      else (priv, os)
              else (priv, os))"

text \<open>
  An authentic and fresh packet: endpoint, receive times, counters, confirmation of a next key pair,
  rekeying, delivery. \<open>s\<close> is the slot the code's pointer points into, also after the rotation.
\<close>

definition accept_data ::
    "wg_netdev_s \<Rightarrow> nat \<Rightarrow> keypair_slot \<Rightarrow> wireguard_keypair \<Rightarrow> bytes \<Rightarrow> nat \<Rightarrow> u32 \<Rightarrow> u16 \<Rightarrow> os \<Rightarrow> wg_netdev_s \<times> os" where
  "accept_data priv i s keypair plaintext data_len addr port os =
     (let peer = nd_peer priv i;
          peer = peer\<lparr>pr_ip := addr, pr_port := port\<rparr>;
          now = wireguard_sys_now os;
          keypair = keypair\<lparr>kp_last_rx := now\<rparr>;
          peer = set_slot s keypair peer;
          peer = peer\<lparr>pr_last_rx := now\<rparr>;
          rx = nd_peer_rx_bytes priv;
          k = unat (wireguard_peer_index (nd_wg priv) i);
          priv = priv\<lparr>nd_peer_rx_bytes := rx[k := rx ! k + of_nat data_len]\<rparr>;
          peer = keypair_update peer s;
          keypair = slot_keypair peer s;
          peer = (if kp_initiator keypair \<and> wireguard_expired os (kp_millis keypair)
                      (REJECT_AFTER_TIME - ucast (pr_keepalive_interval peer) - REKEY_TIMEOUT)
                  then peer\<lparr>pr_send_handshake := True\<rparr> else peer);
          priv = priv\<lparr>nd_carrier := True\<rparr>
      in wg_deliver (nd_put i peer priv) peer plaintext os)"

definition wg_process_data_message ::
    "wg_netdev_s \<Rightarrow> nat \<Rightarrow> message_transport_data \<Rightarrow> u32 \<Rightarrow> u16 \<Rightarrow> os \<Rightarrow> wg_netdev_s \<times> os" where
  "wg_process_data_message priv i hdr addr port os =
     (let peer = nd_peer priv i; data_len = length (mt_enc_packet hdr)
      in case get_peer_keypair_for_idx peer (mt_receiver hdr) of
           None \<Rightarrow> (priv, os)
         | Some s \<Rightarrow>
             let keypair = slot_keypair peer s
             in if \<not> kp_receiving_valid keypair \<or> wireguard_expired os (kp_millis keypair) REJECT_AFTER_TIME
                   \<or> kp_replay_counter keypair \<ge> REJECT_AFTER_MESSAGES
                then (nd_put i (set_slot s (keypair_destroy keypair) peer) priv, os)
                else if data_len < 16 \<or> data_len - 16 > WG_MAX_PACKET then (priv, os)
                else let nonce = U8TO64_LITTLE (mt_counter hdr)
                     in case wireguard_decrypt_packet (mt_enc_packet hdr) nonce keypair of
                          None \<Rightarrow> (priv, os)
                        | Some plaintext \<Rightarrow>
                            let (fresh, keypair) = wireguard_check_replay keypair nonce
                            in if \<not> fresh then (nd_put i (set_slot s keypair peer) priv, os)
                               else accept_data priv i s keypair plaintext data_len addr port os)"

section \<open>A received datagram\<close>

text \<open>Whether an initiation may be answered: under load only with a valid \<open>mac2\<close>.\<close>

definition admit_initiation ::
    "kconfig \<Rightarrow> wg_netdev_s \<Rightarrow> bytes \<Rightarrow> bytes \<Rightarrow> u32 \<Rightarrow> u16 \<Rightarrow> os \<Rightarrow> bool \<times> wg_netdev_s \<times> os" where
  "admit_initiation cfg priv data mac2 addr port os =
     (let (loaded, priv) = wg_under_load cfg priv os;
          src = wg_source_addr_port addr port
      in if loaded
         then let (ok, dev, os) = wireguard_check_mac2 (nd_wg priv) (take (148 - 16) data) src mac2 os
              in (ok, priv\<lparr>nd_wg := dev\<rparr>, os)
         else (True, priv, os))"

definition udp_initiation ::
    "dh \<Rightarrow> kconfig \<Rightarrow> wg_netdev_s \<Rightarrow> bytes \<Rightarrow> u32 \<Rightarrow> u16 \<Rightarrow> os \<Rightarrow> (wg_netdev_s \<times> os) option" where
  "udp_initiation X cfg priv data addr port os =
     (let msg = initiation_of data
      in if length data \<noteq> 148 \<or> \<not> wireguard_check_mac1 (nd_wg priv) (take (148 - 2 * 16) data) (mi_mac1 msg)
         then Some (priv, os)
         else let (passed, priv, os) = admit_initiation cfg priv data (mi_mac2 msg) addr port os
              in if \<not> passed then Some (wg_send_cookie_reply priv (mi_mac1 msg) (mi_sender msg) addr port os)
                 else let (found, dev) = wireguard_process_initiation_message X (nd_wg priv) msg os;
                          priv = priv\<lparr>nd_wg := dev\<rparr>
                      in case found of
                           None \<Rightarrow> Some (priv, os)
                         | Some i \<Rightarrow>
                             let peer = (nd_peer priv i)\<lparr>pr_ip := addr, pr_port := port\<rparr>
                             in wg_send_handshake_response X (nd_put i peer priv) i os)"

definition udp_response ::
    "dh \<Rightarrow> wg_netdev_s \<Rightarrow> bytes \<Rightarrow> u32 \<Rightarrow> u16 \<Rightarrow> os \<Rightarrow> wg_netdev_s \<times> os" where
  "udp_response X priv data addr port os =
     (let msg = response_of data
      in if length data = 92 \<and> wireguard_check_mac1 (nd_wg priv) (take (92 - 2 * 16) data) (mr_mac1 msg)
         then case peer_lookup_by_handshake (nd_wg priv) (mr_receiver msg) of
                None \<Rightarrow> (priv, os)
              | Some i \<Rightarrow>
                  let (ok, dev) = wireguard_process_handshake_response X (nd_wg priv) i msg;
                      priv = priv\<lparr>nd_wg := dev\<rparr>
                  in if ok
                     then let peer = (nd_peer priv i)\<lparr>pr_ip := addr, pr_port := port\<rparr>;
                              peer = wireguard_start_session os peer True;
                              (priv, os) = wg_send_keepalive (nd_put i peer priv) i os
                          in (priv\<lparr>nd_carrier := True\<rparr>, os)
                     else (priv, os)
         else (priv, os))"

definition udp_cookie ::
    "dh \<Rightarrow> wg_netdev_s \<Rightarrow> bytes \<Rightarrow> os \<Rightarrow> (wg_netdev_s \<times> os) option" where
  "udp_cookie X priv data os =
     (let msg = cookie_reply_of data
      in if length data = 64
         then case peer_lookup_by_handshake (nd_wg priv) (mc_receiver msg) of
                None \<Rightarrow> Some (priv, os)
              | Some i \<Rightarrow>
                  let (ok, dev) = wireguard_process_cookie_message (nd_wg priv) i msg os;
                      priv = priv\<lparr>nd_wg := dev\<rparr>
                  in if ok then wg_start_handshake X priv i os else Some (priv, os)
         else Some (priv, os))"

definition udp_transport ::
    "wg_netdev_s \<Rightarrow> bytes \<Rightarrow> u32 \<Rightarrow> u16 \<Rightarrow> os \<Rightarrow> wg_netdev_s \<times> os" where
  "udp_transport priv data addr port os =
     (let msg = transport_of data
      in if length data > 16
         then case peer_lookup_by_receiver (nd_wg priv) (mt_receiver msg) of
                None \<Rightarrow> (priv, os)
              | Some i \<Rightarrow> wg_process_data_message priv i msg addr port os
         else (priv, os))"

definition wg_process_udp_packet ::
    "dh \<Rightarrow> kconfig \<Rightarrow> wg_netdev_s \<Rightarrow> bytes \<Rightarrow> u32 \<Rightarrow> u16 \<Rightarrow> os \<Rightarrow> (wg_netdev_s \<times> os) option" where
  "wg_process_udp_packet X cfg priv data addr port os =
     (let type = wireguard_get_message_type data
      in if type = MESSAGE_HANDSHAKE_INITIATION then udp_initiation X cfg priv data addr port os
         else if type = MESSAGE_HANDSHAKE_RESPONSE then Some (udp_response X priv data addr port os)
         else if type = MESSAGE_COOKIE_REPLY then udp_cookie X priv data os
         else if type = MESSAGE_TRANSPORT_DATA then Some (udp_transport priv data addr port os)
         else Some (priv, os))"

section \<open>Access lemmas\<close>

lemma nd_put_simps [simp]:
  "i < length (dv_peers (nd_wg priv)) \<Longrightarrow> nd_peer (nd_put i p priv) i = p"
  "j \<noteq> i \<Longrightarrow> nd_peer (nd_put i p priv) j = nd_peer priv j"
  "dv_peers (nd_wg (nd_put i p priv)) = (dv_peers (nd_wg priv))[i := p]"
  "nd_bifup (nd_put i p priv) = nd_bifup priv" "nd_carrier (nd_put i p priv) = nd_carrier priv"
  "nd_peer_rx_bytes (nd_put i p priv) = nd_peer_rx_bytes priv"
  "nd_peer_tx_bytes (nd_put i p priv) = nd_peer_tx_bytes priv"
  "nd_put i (nd_peer priv i) priv = priv"
  by (simp_all add: nd_peer_def nd_put_def put_peer_def peer_at_def)

lemma set_slot_frame [simp]:
  "pr_valid (set_slot s k p) = pr_valid p" "pr_ip (set_slot s k p) = pr_ip p" "pr_port (set_slot s k p) = pr_port p"
  "pr_handshake (set_slot s k p) = pr_handshake p" "pr_public_key (set_slot s k p) = pr_public_key p"
  "pr_allowed_source_ips (set_slot s k p) = pr_allowed_source_ips p"
  "pr_last_tx (set_slot s k p) = pr_last_tx p" "pr_last_rx (set_slot s k p) = pr_last_rx p"
  "pr_send_handshake (set_slot s k p) = pr_send_handshake p"
  "pr_connect_ip (set_slot s k p) = pr_connect_ip p" "pr_connect_port (set_slot s k p) = pr_connect_port p"
  by (cases s; simp)+

lemma slot_keypair_frame [simp]:
  "slot_keypair (p\<lparr>pr_last_tx := x\<rparr>) s = slot_keypair p s"
  "slot_keypair (p\<lparr>pr_last_rx := x\<rparr>) s = slot_keypair p s"
  "slot_keypair (p\<lparr>pr_send_handshake := b\<rparr>) s = slot_keypair p s"
  "slot_keypair (p\<lparr>pr_ip := a\<rparr>) s = slot_keypair p s" "slot_keypair (p\<lparr>pr_port := w\<rparr>) s = slot_keypair p s"
  "slot_keypair (p\<lparr>pr_handshake := h\<rparr>) s = slot_keypair p s"
  by (cases s; simp)+

lemma keypair_destroy_simps [simp]:
  "\<not> kp_valid (keypair_destroy k)" "kp_sending_counter (keypair_destroy k) = 0"
  "kp_replay_counter (keypair_destroy k) = 0"
  by (simp_all add: keypair_destroy_def zero_keypair_def)

lemma reject_no_wrap: "c < REJECT_AFTER_MESSAGES \<Longrightarrow> unat (c + 1) = unat c + 1 \<and> c + 1 \<le> REJECT_AFTER_MESSAGES"
proof -
  assume c: "c < REJECT_AFTER_MESSAGES"
  then have "unat c < unat REJECT_AFTER_MESSAGES" by (simp add: word_less_nat_alt)
  then have "unat c + 1 < 2 ^ 64" by (simp add: REJECT_AFTER_MESSAGES_def)
  then have "unat (c + 1) = unat c + 1" by (simp add: unat_word_ariths)
  then show ?thesis using c by (simp add: word_less_nat_alt word_le_nat_alt)
qed

lemma mark_rekey_frame [simp]:
  "slot_keypair (mark_rekey k os p) s = slot_keypair p s" "pr_ip (mark_rekey k os p) = pr_ip p"
  "pr_port (mark_rekey k os p) = pr_port p" "pr_valid (mark_rekey k os p) = pr_valid p"
  "pr_handshake (mark_rekey k os p) = pr_handshake p" "pr_last_rx (mark_rekey k os p) = pr_last_rx p"
  by (simp_all add: mark_rekey_def)

lemma nd_peer_cong [simp]:
  "nd_peer (p\<lparr>nd_peer_tx_bytes := b\<rparr>) i = nd_peer p i" "nd_peer (p\<lparr>nd_peer_rx_bytes := b\<rparr>) i = nd_peer p i"
  "nd_peer (p\<lparr>nd_carrier := c\<rparr>) i = nd_peer p i"
  by (simp_all add: nd_peer_def)

section \<open>A concrete interface\<close>

text \<open>One configured peer with a given current key pair, for the witnesses.\<close>

definition sample_keypair :: wireguard_keypair where
  "sample_keypair = (zero_keypair 32)\<lparr>kp_valid := True, kp_initiator := True, kp_millis := 1000,
     kp_sending_valid := True, kp_receiving_valid := True, kp_local_index := 5, kp_remote_index := 6\<rparr>"

definition sample_config :: kconfig where
  "sample_config = \<lparr>cf_load_threshold = 4, cf_listen_port = 51820, cf_private_key = [], cf_local_ipaddr = ''10.10.0.2'',
     cf_local_netmask = ''255.255.255.0'', cf_peer_public_key = [], cf_peer_endpoint_ip = [],
     cf_peer_endpoint_port = 51820, cf_peer_allowed_ip = ''10.10.0.1'', cf_peer_allowed_mask = ''255.255.255.255'',
     cf_peer_keepalive = 25, cf_max_peers = 1, cf_max_src_ips = 2, cf_replay_words = 32,
     cf_config_path = ''/data/wg0.conf''\<rparr>"

definition sample_netdev :: "wireguard_keypair \<Rightarrow> wg_netdev_s" where
  "sample_netdev k =
     \<lparr>nd_wg = put_peer 0 ((peer_at (sample_device 1 2) 0)\<lparr>pr_curr_keypair := k,
        pr_allowed_source_ips := [\<lparr>ai_valid = True, ai_ip = 0, ai_mask = 0\<rparr>]\<rparr>) (sample_device 1 2),
      nd_bifup = True, nd_running = True, nd_registered = True, nd_carrier = True,
      nd_rxtask = 1, nd_rxtask_done = False, nd_ipaddr = 0, nd_netmask = 0,
      nd_peer_rx_bytes = [0], nd_peer_tx_bytes = [0], nd_init_window_start = 0, nd_init_count = 0\<rparr>"

lemma sample_now [simp]: "wireguard_sys_now (sample_os 7) = 7000"
  by (simp add: wireguard_sys_now_def sample_os_def)

lemma sample_netdev_simps [simp]:
  "length (dv_peers (nd_wg (sample_netdev k))) = 1" "slot_keypair (nd_peer (sample_netdev k) 0) Curr = k"
  "pr_curr_keypair (nd_peer (sample_netdev k) 0) = k"
  "pr_valid (nd_peer (sample_netdev k) 0)" "nd_bifup (sample_netdev k)"
  "pr_allowed_source_ips (nd_peer (sample_netdev k) 0) = [\<lparr>ai_valid = True, ai_ip = 0, ai_mask = 0\<rparr>]"
  by (simp_all add: sample_netdev_def sample_device_def nd_peer_def put_peer_def peer_at_def Let_def)

lemma sample_keypair_simps [simp]:
  "kp_valid sample_keypair" "kp_initiator sample_keypair" "kp_receiving_valid sample_keypair"
  "kp_millis sample_keypair = 1000" "kp_sending_counter sample_keypair = 0" "kp_local_index sample_keypair = 5"
  "kp_replay_counter sample_keypair = 0" "kp_replay_bitmap sample_keypair = replicate 32 0"
  "kp_receiving_key sample_keypair = zeroes 32"
  by (simp_all add: sample_keypair_def zero_keypair_def)

end
