(* ===== verification/Routing.thy ===== *)
theory Routing
  imports Netdev
begin

text \<open>
  Cryptokey routing: the two nested loops of \<open>wg_peer_for_dest\<close> compute a longest-prefix match over the
  allowed-ips of the valid peers.
\<close>

section \<open>Routing is a longest-prefix match\<close>

text \<open>All routes to an address: a valid peer and the host-order mask of a matching entry.\<close>

definition routes :: "wg_netdev_s \<Rightarrow> u32 \<Rightarrow> (nat \<times> u32) list" where
  "routes priv dest = concat (map (\<lambda>(x, p). if pr_valid p
     then map (\<lambda>a. (x, ntohl (ai_mask a))) (filter (allowed_matches dest) (pr_allowed_source_ips p)) else [])
     (enumerate 0 (dv_peers (nd_wg priv))))"

definition route_step :: "nat \<times> u32 \<Rightarrow> nat option \<times> u32 \<Rightarrow> nat option \<times> u32" where
  "route_step xm st = (if fst st = None \<or> snd xm > snd st then (Some (fst xm), snd xm) else st)"

lemma wg_peer_for_dest_routes: "wg_peer_for_dest priv dest = fst (fold route_step (routes priv dest) (None, 0))"
proof -
  have entry: "fold (dest_entry dest x) as st =
      fold route_step (map (\<lambda>a. (x, ntohl (ai_mask a))) (filter (allowed_matches dest) as)) st" for x as st
    by (induction as arbitrary: st) (auto simp: dest_entry_def route_step_def Let_def split: prod.splits)
  have "fold (dest_peer dest) ps st = fold route_step (concat (map (\<lambda>(x, p). if pr_valid p
     then map (\<lambda>a. (x, ntohl (ai_mask a))) (filter (allowed_matches dest) (pr_allowed_source_ips p)) else []) ps)) st" for ps st
    by (induction ps arbitrary: st) (auto simp: dest_peer_def entry split: prod.splits)
  then show ?thesis by (simp add: wg_peer_for_dest_def routes_def)
qed

lemma set_routes: "set (routes priv dest) = {(x, ntohl (ai_mask a)) | x a. x < length (dv_peers (nd_wg priv))
     \<and> pr_valid (nd_peer priv x) \<and> a \<in> set (pr_allowed_source_ips (nd_peer priv x)) \<and> allowed_matches dest a}"
  by (force simp: routes_def nd_peer_def peer_at_def enumerate_eq_zip in_set_zip split: if_splits)

lemma sorted_blocks:
  assumes block: "\<And>x p q. q \<in> set (B x p) \<Longrightarrow> fst q = (x :: nat)"
  shows "sorted (map fst (concat (map (\<lambda>(x, p). B x p) (enumerate n ps))))
    \<and> (\<forall>q \<in> set (concat (map (\<lambda>(x, p). B x p) (enumerate n ps))). n \<le> fst q)"
proof (induction ps arbitrary: n)
  case (Cons p ps)
  have "map fst (B n p) = replicate (length (B n p)) n"
    using block by (intro replicate_eqI) auto
  then have s: "sorted (map fst (B n p))" by (simp only: sorted_replicate)
  define R where "R = concat (map (\<lambda>(x, p). B x p) (enumerate (Suc n) ps))"
  have "\<forall>q \<in> set (B n p). fst q = n" using block by blast
  moreover have "concat (map (\<lambda>(x, p). B x p) (enumerate n (p # ps))) = B n p @ R"
    unfolding R_def by simp
  moreover have "sorted (map fst R) \<and> (\<forall>q \<in> set R. Suc n \<le> fst q)"
    using Cons.IH [of "Suc n"] unfolding R_def .
  ultimately show ?case
    using s by (simp only: map_append sorted_append set_append) (force dest: Suc_leD)
qed simp

lemma routes_sorted: "sorted (map fst (routes priv dest))"
  unfolding routes_def by (rule conjunct1 [OF sorted_blocks]) (auto split: if_splits)

lemma fold_route_step:
  "sorted (map fst l) \<Longrightarrow> l \<noteq> [] \<Longrightarrow>
     fold route_step l (None, 0) = (Some (LEAST x. (x, Max (snd ` set l)) \<in> set l), Max (snd ` set l))"
proof (induction l rule: rev_induct)
  case (snoc xm l)
  obtain x m where xm: "xm = (x, m)" by (cases xm)
  show ?case
  proof (cases "l = []")
    case True
    then show ?thesis by (simp add: route_step_def xm Least_equality)
  next
    case False
    define M where "M = Max (snd ` set l)"
    have IH: "fold route_step l (None, 0) = (Some (LEAST y. (y, M) \<in> set l), M)"
      using snoc False by (simp add: sorted_append M_def)
    have last: "fold route_step (l @ [xm]) (None, 0) = route_step (x, m) (Some (LEAST y. (y, M) \<in> set l), M)"
      by (simp only: fold_append fold.simps comp_apply id_apply IH xm)
    have le: "\<forall>y\<in>fst ` set l. y \<le> x" using snoc.prems(1) by (auto simp: sorted_append xm)
    have Mle: "n \<le> M" if "(y, n) \<in> set l" for y n
      using that by (auto simp: M_def intro!: Max_ge image_eqI [of _ snd "(y, n)"])
    have max: "Max (snd ` set (l @ [xm])) = max m M" using False by (simp add: xm M_def)
    obtain y where y: "(y, M) \<in> set l" 
    proof -
      have "M \<in> snd ` set l" unfolding M_def using False by (intro Max_in) auto
      then show thesis using that by (auto simp: image_iff)
    qed
    show ?thesis
    proof (cases "m > M")
      case True
      then have "(LEAST z. (z, m) \<in> set (l @ [xm])) = x"
        using Mle leD by (intro Least_equality) (auto simp: xm)
      moreover have "max m M = m" using True by (rule max_absorb1 [OF less_imp_le])
      ultimately show ?thesis unfolding max last using True by (simp add: route_step_def)
    next
      case le': False
      have "(LEAST z. z = x \<and> M = m \<or> (z, M) \<in> set l) = (LEAST z. (z, M) \<in> set l)"
      proof (rule Least_equality)
        show "(LEAST z. (z, M) \<in> set l) = x \<and> M = m \<or> (LEAST z. (z, M) \<in> set l, M) \<in> set l"
          using LeastI [of "\<lambda>z. (z, M) \<in> set l"] y by blast
        fix z assume "z = x \<and> M = m \<or> (z, M) \<in> set l"
        moreover have "(LEAST z. (z, M) \<in> set l) \<le> y" using y by (rule Least_le)
        moreover have "y \<le> x" using le y by force
        ultimately show "(LEAST z. (z, M) \<in> set l) \<le> z" by (auto intro: Least_le)
      qed
      moreover have "max m M = M" using le' by (simp add: max_absorb2)
      ultimately show ?thesis unfolding max last using le' by (simp add: route_step_def xm)
    qed
  qed
qed simp

text \<open>
  C25. Outgoing packets are routed by longest prefix: the peer chosen for an address is the first
  valid peer that has a matching allowed-ips entry of the greatest mask among all matching entries
  of all valid peers, and none is chosen exactly when no valid peer has a matching entry.
\<close>

theorem route_longest_prefix:
  "wg_peer_for_dest priv dest =
     (let R = {(x, ntohl (ai_mask a)) | x a. x < length (dv_peers (nd_wg priv)) \<and> pr_valid (nd_peer priv x)
                 \<and> a \<in> set (pr_allowed_source_ips (nd_peer priv x)) \<and> allowed_matches dest a}
      in if R = {} then None else Some (LEAST x. (x, Max (snd ` R)) \<in> R))"
proof (cases "routes priv dest = []")
  case True
  then have "set (routes priv dest) = {}" by simp
  then show ?thesis unfolding set_routes [symmetric] using True by (simp add: wg_peer_for_dest_routes)
next
  case False
  then show ?thesis unfolding set_routes [symmetric]
    using fold_route_step [OF routes_sorted False] by (simp add: wg_peer_for_dest_routes Let_def)
qed

end
