(* ===== verification/Send.thy ===== *)
theory Send
  imports Netdev
begin

text \<open>
  The sending side: what one call of \<open>wg_encrypt_and_send\<close> hands to the socket and leaves behind, and
  that a nonce is used once.
\<close>

section \<open>Sending: the contract of wg_encrypt_and_send\<close>

text \<open>What one send did: nothing (\<open>None\<close>), or a datagram with the key pair of a slot.\<close>

definition send_effect :: "wg_netdev_s \<Rightarrow> nat \<Rightarrow> bytes \<Rightarrow> os \<Rightarrow> keypair_slot option" where
  "send_effect priv i plaintext os =
     (let peer = nd_peer priv i; k = slot_keypair peer (send_slot peer)
      in if kp_valid k \<and> (kp_initiator k \<or> kp_last_rx k \<noteq> 0) \<and> \<not> wireguard_expired os (kp_millis k) REJECT_AFTER_TIME
            \<and> kp_sending_counter k < REJECT_AFTER_MESSAGES \<and> 32 + (length plaintext + 15) div 16 * 16 \<le> WG_CRYPT_BUFSIZE
         then Some (send_slot peer) else None)"

lemma send_none:
  assumes "send_effect priv i plaintext os = None" and "wg_encrypt_and_send priv i plaintext os = (ok, priv', os')"
  shows "\<not> ok \<and> os' = os \<and> (priv' = priv \<or>
     priv' = nd_put i (set_slot (send_slot (nd_peer priv i))
               (keypair_destroy (slot_keypair (nd_peer priv i) (send_slot (nd_peer priv i)))) (nd_peer priv i)) priv)"
  using assms
  by (auto simp: wg_encrypt_and_send_def send_effect_def Let_def not_le split: if_splits prod.splits)

lemma send_some:
  assumes "send_effect priv i plaintext os = Some s" and "wg_encrypt_and_send priv i plaintext os = (ok, priv', os')"
  defines "peer \<equiv> nd_peer priv i" defines "k \<equiv> slot_keypair peer s"
  defines "padded \<equiv> plaintext @ zeroes ((length plaintext + 15) div 16 * 16 - length plaintext)"
  shows "s = send_slot peer \<and> kp_valid k \<and> (kp_initiator k \<or> kp_last_rx k \<noteq> 0) \<and> kp_sending_counter k < REJECT_AFTER_MESSAGES
    \<and> os' = os\<lparr>udp_calls := udp_calls os @
             [\<lparr>dg_data = transport_bytes \<lparr>mt_type = MESSAGE_TRANSPORT_DATA, mt_reserved = zeroes 3,
                  mt_receiver = kp_remote_index k, mt_counter = U64TO8_LITTLE (kp_sending_counter k),
                  mt_enc_packet = chacha20poly1305_encrypt padded [] (kp_sending_counter k) (kp_sending_key k)\<rparr>,
               dg_addr = pr_ip peer, dg_port = pr_port peer\<rparr>]\<rparr>
    \<and> (\<exists>t b os2 p. priv' = nd_put i (mark_rekey (k\<lparr>kp_sending_counter := kp_sending_counter k + 1, kp_last_tx := t\<rparr>) os2
           (set_slot s (k\<lparr>kp_sending_counter := kp_sending_counter k + 1, kp_last_tx := t\<rparr>) (peer\<lparr>pr_last_tx := p\<rparr>)))
           (priv\<lparr>nd_peer_tx_bytes := b\<rparr>))"
proof -
  have s: "s = send_slot peer" and c: "kp_valid k" "kp_initiator k \<or> kp_last_rx k \<noteq> 0" "\<not> wireguard_expired os (kp_millis k) REJECT_AFTER_TIME"
    "kp_sending_counter k < REJECT_AFTER_MESSAGES" "\<not> 32 + (length plaintext + 15) div 16 * 16 > WG_CRYPT_BUFSIZE"
    using assms(1) by (auto simp: send_effect_def Let_def peer_def k_def split: if_splits)
  have same: "nd_peer_tx_bytes priv = b \<Longrightarrow> priv\<lparr>nd_peer_tx_bytes := b\<rparr> = priv"
    "kp_last_tx kk = t \<Longrightarrow> kk\<lparr>kp_last_tx := t\<rparr> = kk" "pr_last_tx pp = t \<Longrightarrow> pp\<lparr>pr_last_tx := t\<rparr> = pp"
    for b kk t pp by auto
  define os1 where "os1 = os\<lparr>udp_calls := udp_calls os @
             [\<lparr>dg_data = transport_bytes \<lparr>mt_type = MESSAGE_TRANSPORT_DATA, mt_reserved = zeroes 3,
                  mt_receiver = kp_remote_index k, mt_counter = U64TO8_LITTLE (kp_sending_counter k),
                  mt_enc_packet = chacha20poly1305_encrypt padded [] (kp_sending_counter k) (kp_sending_key k)\<rparr>,
               dg_addr = pr_ip peer, dg_port = pr_port peer\<rparr>]\<rparr>"
  define sent where "sent = udp_ok os (length (udp_calls os))"
  define t where "t = (if sent then wireguard_sys_now os1 else kp_last_tx k)"
  define p where "p = (if sent then wireguard_sys_now os1 else pr_last_tx peer)"
  define k' where "k' = k\<lparr>kp_sending_counter := kp_sending_counter k + 1, kp_last_tx := t\<rparr>"
  define b where "b = (if sent then (nd_peer_tx_bytes priv)[unat (wireguard_peer_index (nd_wg priv) i) :=
     nd_peer_tx_bytes priv ! unat (wireguard_peer_index (nd_wg priv) i) + of_nat (16 + (length plaintext + 15) div 16 * 16)] else nd_peer_tx_bytes priv)"
  have conds: "(\<not> kp_valid k \<or> \<not> kp_initiator k \<and> kp_last_rx k = 0) = False"
    "(wireguard_expired os (kp_millis k) REJECT_AFTER_TIME \<or> kp_sending_counter k \<ge> REJECT_AFTER_MESSAGES) = False"
    "(16 + (length plaintext + 15) div 16 * 16 + 16 > WG_CRYPT_BUFSIZE) = False"
    using c by auto
  have "wg_encrypt_and_send priv i plaintext os =
      (sent, nd_put i (mark_rekey k' os1 (set_slot s k' (peer\<lparr>pr_last_tx := p\<rparr>))) (priv\<lparr>nd_peer_tx_bytes := b\<rparr>), os1)"
    unfolding wg_encrypt_and_send_def Let_def
    by (simp only: peer_def [symmetric] s [symmetric] k_def [symmetric] conds if_False psock_sendto_def wireguard_encrypt_packet_def prod.case)
       (cases sent; simp add: sent_def k'_def t_def p_def b_def os1_def padded_def s same)
  then have "priv' = nd_put i (mark_rekey k' os1 (set_slot s k' (peer\<lparr>pr_last_tx := p\<rparr>))) (priv\<lparr>nd_peer_tx_bytes := b\<rparr>)"
    "os' = os1" using assms(2) by simp_all
  then show ?thesis using s c unfolding k'_def os1_def by blast
qed

text \<open>
  C4. A send uses each nonce once. \<open>wg_encrypt_and_send\<close> either hands no datagram to the socket,
  or exactly one: a transport message for the remote index of a valid key pair that, if this side
  was the responder, has already received data; its nonce is the key pair's counter, which is below
  \<open>REJECT_AFTER_MESSAGES\<close> and is afterwards one higher without wrapping, sent or not; the peer's
  other key pairs and every other peer are unchanged.
\<close>

theorem send_contract:
  assumes "i < length (dv_peers (nd_wg priv))" and "wg_encrypt_and_send priv i plaintext os = (ok, priv', os')"
  shows "case send_effect priv i plaintext os of
      None \<Rightarrow> \<not> ok \<and> udp_calls os' = udp_calls os
    | Some s \<Rightarrow>
        let peer = nd_peer priv i; k = slot_keypair peer s; c = kp_sending_counter k;
            padded = plaintext @ zeroes ((length plaintext + 15) div 16 * 16 - length plaintext)
        in udp_calls os' = udp_calls os @
             [\<lparr>dg_data = transport_bytes \<lparr>mt_type = MESSAGE_TRANSPORT_DATA, mt_reserved = zeroes 3,
                  mt_receiver = kp_remote_index k, mt_counter = U64TO8_LITTLE c,
                  mt_enc_packet = chacha20poly1305_encrypt padded [] c (kp_sending_key k)\<rparr>,
               dg_addr = pr_ip peer, dg_port = pr_port peer\<rparr>]
         \<and> kp_valid k \<and> (kp_initiator k \<or> kp_last_rx k \<noteq> 0) \<and> c < REJECT_AFTER_MESSAGES
         \<and> unat (kp_sending_counter (slot_keypair (nd_peer priv' i) s)) = unat c + 1
         \<and> kp_sending_key (slot_keypair (nd_peer priv' i) s) = kp_sending_key k
         \<and> (t \<noteq> s \<longrightarrow> slot_keypair (nd_peer priv' i) t = slot_keypair peer t)
         \<and> (j \<noteq> i \<longrightarrow> nd_peer priv' j = nd_peer priv j)"
proof (cases "send_effect priv i plaintext os")
  case None
  then show ?thesis using send_none [OF None assms(2)] by simp
next
  case (Some s)
  note e = send_some [OF Some assms(2)]
  then obtain t' b os2 p where priv': "priv' = nd_put i (mark_rekey ((slot_keypair (nd_peer priv i) s)
      \<lparr>kp_sending_counter := kp_sending_counter (slot_keypair (nd_peer priv i) s) + 1, kp_last_tx := t'\<rparr>) os2
      (set_slot s ((slot_keypair (nd_peer priv i) s)\<lparr>kp_sending_counter := kp_sending_counter (slot_keypair (nd_peer priv i) s) + 1,
         kp_last_tx := t'\<rparr>) ((nd_peer priv i)\<lparr>pr_last_tx := p\<rparr>))) (priv\<lparr>nd_peer_tx_bytes := b\<rparr>)"
    by blast
  have "unat (kp_sending_counter (slot_keypair (nd_peer priv i) s) + 1) = unat (kp_sending_counter (slot_keypair (nd_peer priv i) s)) + 1"
    using e reject_no_wrap by blast
  then have after: "unat (kp_sending_counter (slot_keypair (nd_peer priv' i) s)) = unat (kp_sending_counter (slot_keypair (nd_peer priv i) s)) + 1"
      "kp_sending_key (slot_keypair (nd_peer priv' i) s) = kp_sending_key (slot_keypair (nd_peer priv i) s)"
      "t \<noteq> s \<longrightarrow> slot_keypair (nd_peer priv' i) t = slot_keypair (nd_peer priv i) t"
      "j \<noteq> i \<longrightarrow> nd_peer priv' j = nd_peer priv j"
    unfolding priv' using assms(1) by simp_all
  have os': "udp_calls os' = udp_calls os @
             [\<lparr>dg_data = transport_bytes \<lparr>mt_type = MESSAGE_TRANSPORT_DATA, mt_reserved = zeroes 3,
                  mt_receiver = kp_remote_index (slot_keypair (nd_peer priv i) s),
                  mt_counter = U64TO8_LITTLE (kp_sending_counter (slot_keypair (nd_peer priv i) s)),
                  mt_enc_packet = chacha20poly1305_encrypt
                    (plaintext @ zeroes ((length plaintext + 15) div 16 * 16 - length plaintext)) []
                    (kp_sending_counter (slot_keypair (nd_peer priv i) s)) (kp_sending_key (slot_keypair (nd_peer priv i) s))\<rparr>,
               dg_addr = pr_ip (nd_peer priv i), dg_port = pr_port (nd_peer priv i)\<rparr>]"
    using e by (elim conjE) simp
  show ?thesis unfolding Some option.case Let_def using e os' after by blast
qed

theorem send_contract_witness:
  "\<exists>ok priv' os'. wg_encrypt_and_send (sample_netdev sample_keypair) 0 [1, 2, 3] (sample_os 7) = (ok, priv', os')
     \<and> length (udp_calls os') = length (udp_calls (sample_os 7)) + 1"
proof -
  obtain ok priv' os' where r: "wg_encrypt_and_send (sample_netdev sample_keypair) 0 [1, 2, 3] (sample_os 7) = (ok, priv', os')"
    by (metis prod_cases3)
  have "send_effect (sample_netdev sample_keypair) 0 [1, 2, 3] (sample_os 7) = Some Curr"
    by (simp add: send_effect_def send_slot_def wireguard_expired_def REJECT_AFTER_MESSAGES_def)
  then show ?thesis
    using send_contract [OF _ r, of Next 1] r by (simp add: Let_def)
qed

end
