(* ===== verification/Receive.thy ===== *)
theory Receive
  imports Send
begin

text \<open>
  The receiving side of the data path: which transport packets \<open>wg_process_data_message\<close> accepts, that the
  others leave no trace, what acceptance changes and delivers, and that a packet is accepted once.
\<close>

section \<open>What a send leaves alone\<close>

text \<open>A key pair after a send: wiped, or with the fields of the receiving side unchanged.\<close>

definition rx_same :: "wireguard_keypair \<Rightarrow> wireguard_keypair \<Rightarrow> bool" where
  "rx_same k k' \<longleftrightarrow> \<not> kp_valid k' \<or>
     kp_valid k \<and> kp_local_index k' = kp_local_index k \<and> kp_replay_bitmap k' = kp_replay_bitmap k
     \<and> kp_replay_counter k' = kp_replay_counter k \<and> kp_receiving_key k' = kp_receiving_key k"

definition peer_rx_same :: "wireguard_peer \<Rightarrow> wireguard_peer \<Rightarrow> bool" where
  "peer_rx_same p p' \<longleftrightarrow> pr_ip p' = pr_ip p \<and> pr_port p' = pr_port p \<and> pr_valid p' = pr_valid p
     \<and> pr_last_rx p' = pr_last_rx p \<and> (\<forall>s. rx_same (slot_keypair p s) (slot_keypair p' s))"

lemma rx_same_refl [simp]: "rx_same k k"
  by (simp add: rx_same_def)

lemma rx_same_destroy [simp]: "rx_same k (keypair_destroy k')"
  by (simp add: rx_same_def)

lemma peer_rx_same_refl [simp]: "peer_rx_same p p"
  by (simp add: peer_rx_same_def)

lemma send_rx_same:
  assumes "wg_encrypt_and_send priv i plaintext os = (ok, priv', os')"
  shows "peer_rx_same (nd_peer priv j) (nd_peer priv' j)" "stack_input os' = stack_input os"
    "nd_peer_rx_bytes priv' = nd_peer_rx_bytes priv"
proof -
  have put: "peer_rx_same (nd_peer priv j) (nd_peer (nd_put i p (priv\<lparr>nd_peer_tx_bytes := b\<rparr>)) j)"
    if "peer_rx_same (nd_peer priv i) p" for p b
    using that by (cases "j = i"; cases "i < length (dv_peers (nd_wg priv))")
      (auto simp: nd_put_def put_peer_def nd_peer_def peer_at_def list_update_beyond)
  have put0: "peer_rx_same (nd_peer priv j) (nd_peer (nd_put i p priv) j)"
    if "peer_rx_same (nd_peer priv i) p" for p
    using put [OF that, of "nd_peer_tx_bytes priv"] by simp
  have "peer_rx_same (nd_peer priv j) (nd_peer priv' j) \<and> stack_input os' = stack_input os
    \<and> nd_peer_rx_bytes priv' = nd_peer_rx_bytes priv"
  proof (cases "send_effect priv i plaintext os")
    case None
    then have "os' = os \<and> (priv' = priv \<or> priv' = nd_put i (set_slot (send_slot (nd_peer priv i))
               (keypair_destroy (slot_keypair (nd_peer priv i) (send_slot (nd_peer priv i)))) (nd_peer priv i)) priv)"
      using send_none [OF None assms] by blast
    moreover have "peer_rx_same (nd_peer priv i) (set_slot s (keypair_destroy k) (nd_peer priv i))" for s k
      by (simp add: peer_rx_same_def)
    ultimately show ?thesis
      by (auto simp: put0)
  next
    case (Some s)
    note e = send_some [OF Some assms]
    then obtain t' b os2 p where priv': "priv' = nd_put i (mark_rekey ((slot_keypair (nd_peer priv i) s)
      \<lparr>kp_sending_counter := kp_sending_counter (slot_keypair (nd_peer priv i) s) + 1, kp_last_tx := t'\<rparr>) os2
      (set_slot s ((slot_keypair (nd_peer priv i) s)\<lparr>kp_sending_counter := kp_sending_counter (slot_keypair (nd_peer priv i) s) + 1,
         kp_last_tx := t'\<rparr>) ((nd_peer priv i)\<lparr>pr_last_tx := p\<rparr>))) (priv\<lparr>nd_peer_tx_bytes := b\<rparr>)"
      by blast
    have "peer_rx_same (nd_peer priv j) (nd_peer priv' j)"
      unfolding priv' by (rule put) (simp add: peer_rx_same_def rx_same_def)
    moreover have "nd_peer_rx_bytes priv' = nd_peer_rx_bytes priv" unfolding priv' by simp
    moreover have "stack_input os' = stack_input os" using e by (elim conjE) simp
    ultimately show ?thesis by blast
  qed
  then show "peer_rx_same (nd_peer priv j) (nd_peer priv' j)" "stack_input os' = stack_input os"
    "nd_peer_rx_bytes priv' = nd_peer_rx_bytes priv" by blast+
qed

lemma send_rx_same_snd:
  assumes "snd (wg_encrypt_and_send priv i plaintext os) = (priv', os')"
  shows "peer_rx_same (nd_peer priv j) (nd_peer priv' j)" "stack_input os' = stack_input os"
    "nd_peer_rx_bytes priv' = nd_peer_rx_bytes priv"
  using send_rx_same [of priv i plaintext os "fst (wg_encrypt_and_send priv i plaintext os)" priv' os'] assms
  by (metis prod.collapse)+

lemma inject_effect:
  assumes "wg_inject_plaintext priv packet os = (priv', os')"
  shows "peer_rx_same (nd_peer priv j) (nd_peer priv' j)"
    "stack_input os' = stack_input os \<or> stack_input os' = stack_input os @ [packet] \<and> nd_bifup priv"
    "nd_peer_rx_bytes priv' = nd_peer_rx_bytes priv"
proof -
  obtain p1 o1 p2 o2 rep o3 where o: "iob_attempt os = (p1, o1)" "iob_attempt o1 = (p2, o2)" "ipv4_input packet o2 = (rep, o3)"
    by (metis prod.exhaust)
  then have i: "stack_input o1 = stack_input os" "stack_input o2 = stack_input os" "stack_input o3 = stack_input os @ [packet]"
    by (auto simp: iob_attempt_def ipv4_input_def Let_def)
  have r: "(priv', os') = (priv, os) \<or> (priv', os') = (priv, o1) \<or> (priv', os') = (priv, o2)
      \<or> nd_bifup priv \<and> (priv', os') = (priv, o3)
      \<or> nd_bifup priv \<and> (\<exists>k. snd (wg_encrypt_and_send priv k rep o3) = (priv', os'))"
    using assms o by (auto simp: wg_inject_plaintext_def split: if_splits option.splits prod.splits)
  then show "peer_rx_same (nd_peer priv j) (nd_peer priv' j)"
    "stack_input os' = stack_input os \<or> stack_input os' = stack_input os @ [packet] \<and> nd_bifup priv"
    "nd_peer_rx_bytes priv' = nd_peer_rx_bytes priv"
    using i by (auto dest: send_rx_same_snd)
qed


section \<open>When a data packet is accepted\<close>

text \<open>The slot and the plaintext of a packet that is authentic, fresh and within the key's limits.\<close>

definition data_accepted :: "wg_netdev_s \<Rightarrow> nat \<Rightarrow> message_transport_data \<Rightarrow> os \<Rightarrow> (keypair_slot \<times> bytes) option" where
  "data_accepted priv i hdr os =
     (case get_peer_keypair_for_idx (nd_peer priv i) (mt_receiver hdr) of
        None \<Rightarrow> None
      | Some s \<Rightarrow>
          let k = slot_keypair (nd_peer priv i) s; nonce = U8TO64_LITTLE (mt_counter hdr)
          in if kp_receiving_valid k \<and> \<not> wireguard_expired os (kp_millis k) REJECT_AFTER_TIME
                \<and> kp_replay_counter k < REJECT_AFTER_MESSAGES
                \<and> 16 \<le> length (mt_enc_packet hdr) \<and> length (mt_enc_packet hdr) - 16 \<le> WG_MAX_PACKET
                \<and> fst (wireguard_check_replay k nonce)
             then map_option (Pair s) (chacha20poly1305_decrypt (mt_enc_packet hdr) [] nonce (kp_receiving_key k))
             else None)"

lemma check_replay_False: "\<not> fst (wireguard_check_replay k n) \<Longrightarrow> snd (wireguard_check_replay k n) = k"
proof -
  have "fst (wireguard_check_replay k n) \<or> snd (wireguard_check_replay k n) = k"
    unfolding wireguard_check_replay_def Let_def
    by (simp only: fst_conv snd_conv simp_thms split: if_split)
  then show "\<not> fst (wireguard_check_replay k n) \<Longrightarrow> snd (wireguard_check_replay k n) = k" by blast
qed

lemma data_rejected:
  assumes "data_accepted priv i hdr os = None"
  shows "\<exists>s. wg_process_data_message priv i hdr addr port os = (priv, os)
    \<or> wg_process_data_message priv i hdr addr port os =
        (nd_put i (set_slot s (keypair_destroy (slot_keypair (nd_peer priv i) s)) (nd_peer priv i)) priv, os)"
proof (cases "get_peer_keypair_for_idx (nd_peer priv i) (mt_receiver hdr)")
  case None
  then show ?thesis by (simp add: wg_process_data_message_def)
next
  case (Some s)
  define k where "k = slot_keypair (nd_peer priv i) s"
  define nonce where "nonce = U8TO64_LITTLE (mt_counter hdr)"
  have same: "nd_put i (set_slot s k (nd_peer priv i)) priv = priv" by (cases s) (simp_all add: k_def)
  note run = wg_process_data_message_def Let_def Some option.case k_def [symmetric] nonce_def [symmetric]
  show ?thesis
  proof (cases "\<not> kp_receiving_valid k \<or> wireguard_expired os (kp_millis k) REJECT_AFTER_TIME
        \<or> kp_replay_counter k \<ge> REJECT_AFTER_MESSAGES")
    case True
    then show ?thesis unfolding run by (auto simp: k_def)
  next
    case usable: False
    show ?thesis
    proof (cases "length (mt_enc_packet hdr) < 16 \<or> length (mt_enc_packet hdr) - 16 > WG_MAX_PACKET")
      case True
      then show ?thesis using usable unfolding run by auto
    next
      case size: False
      show ?thesis
      proof (cases "chacha20poly1305_decrypt (mt_enc_packet hdr) [] nonce (kp_receiving_key k)")
        case None
        then show ?thesis using usable size unfolding run by (auto simp: wireguard_decrypt_packet_def)
      next
        case (Some p)
        then have "\<not> fst (wireguard_check_replay k nonce)"
          using assms usable size \<open>get_peer_keypair_for_idx (nd_peer priv i) (mt_receiver hdr) = Some s\<close>
          by (auto simp: data_accepted_def k_def [symmetric] nonce_def [symmetric] Let_def split: if_splits)
        then have "wireguard_check_replay k nonce = (False, k)"
          using check_replay_False by (metis (full_types) prod.collapse)
        then show ?thesis using usable size Some unfolding run by (auto simp: wireguard_decrypt_packet_def same)
      qed
    qed
  qed
qed

text \<open>
  C5. A data packet that is not accepted is silent: when it is not authentic, not fresh, too short
  or too long, or its key pair is unknown or past its limits, nothing is delivered to the stack or
  sent, no peer's endpoint, receive time or counters change, and of the key pairs at most one is
  wiped.
\<close>

theorem rejected_data_is_silent:
  assumes "data_accepted priv i hdr os = None" and "wg_process_data_message priv i hdr addr port os = (priv', os')"
  shows "os' = os \<and> nd_peer_rx_bytes priv' = nd_peer_rx_bytes priv \<and> nd_carrier priv' = nd_carrier priv
    \<and> pr_ip (nd_peer priv' j) = pr_ip (nd_peer priv j) \<and> pr_port (nd_peer priv' j) = pr_port (nd_peer priv j)
    \<and> pr_last_rx (nd_peer priv' j) = pr_last_rx (nd_peer priv j)
    \<and> (\<exists>s. priv' = priv \<or> priv' = nd_put i (set_slot s (keypair_destroy (slot_keypair (nd_peer priv i) s)) (nd_peer priv i)) priv)"
proof -
  have put: "nd_peer (nd_put i p priv) j = (if j = i \<and> i < length (dv_peers (nd_wg priv)) then p else nd_peer priv j)" for p
    by (auto simp: nd_put_def put_peer_def nd_peer_def peer_at_def list_update_beyond)
  show ?thesis using data_rejected [OF assms(1), of addr port] assms(2) by (auto simp: put)
qed

theorem rejected_data_is_silent_witness:
  "nd_peer_rx_bytes (fst (wg_process_data_message (sample_netdev sample_keypair) 0
     \<lparr>mt_type = 4, mt_reserved = [0, 0, 0], mt_receiver = 99, mt_counter = zeroes 8, mt_enc_packet = zeroes 16\<rparr>
     1 2 (sample_os 7))) = [0]"
proof -
  let ?hdr = "\<lparr>mt_type = 4, mt_reserved = [0, 0, 0], mt_receiver = 99, mt_counter = zeroes 8, mt_enc_packet = zeroes 16\<rparr>"
  have "data_accepted (sample_netdev sample_keypair) 0 ?hdr (sample_os 7) = None"
    by (simp add: data_accepted_def get_peer_keypair_for_idx_def sample_netdev_def nd_peer_def put_peer_def peer_at_def
        sample_device_def Let_def zero_peer_def zero_keypair_def)
  from rejected_data_is_silent [OF this, of 1 2] show ?thesis
    by (cases "wg_process_data_message (sample_netdev sample_keypair) 0 ?hdr 1 2 (sample_os 7)") (auto simp: sample_netdev_def)
qed

section \<open>What acceptance does\<close>

text \<open>
  The packets the filter behind decryption hands to the stack: an IPv4 packet with an allowed source
  and a total length that was received, while the interface is up and both buffer allocations succeed.
\<close>

definition delivered :: "wg_netdev_s \<Rightarrow> wireguard_peer \<Rightarrow> bytes \<Rightarrow> os \<Rightarrow> bytes list" where
  "delivered priv peer p os =
     (let buf = p @ zeroes (WG_MAX_PACKET - length p); totlen = packet_totlen buf
      in if drop_bit 4 (buf ! 0) AND 0x0f = 4 \<and> 0 < totlen \<and> totlen \<le> length p
            \<and> (\<exists>a \<in> set (pr_allowed_source_ips peer). allowed_matches (ip_field 12 p) a)
            \<and> nd_bifup priv \<and> iob_ok os (iob_calls os) \<and> iob_ok os (Suc (iob_calls os))
         then [take totlen p] else [])"

lemma inject_stack:
  assumes "wg_inject_plaintext priv packet os = (priv', os')" and "length packet \<le> WG_MAX_PACKET"
  shows "stack_input os' = stack_input os @
    (if packet \<noteq> [] \<and> nd_bifup priv \<and> iob_ok os (iob_calls os) \<and> iob_ok os (Suc (iob_calls os)) then [packet] else [])"
  using assms
  by (auto simp: wg_inject_plaintext_def iob_attempt_def ipv4_input_def Let_def
      split: if_splits option.splits dest: send_rx_same_snd)

lemma deliver_effect:
  assumes "wg_deliver priv peer p os = (priv', os')"
  shows "peer_rx_same (nd_peer priv j) (nd_peer priv' j)"
    "length p \<le> WG_MAX_PACKET \<Longrightarrow> stack_input os' = stack_input os @ delivered priv peer p os"
proof -
  let ?t = "packet_totlen (p @ zeroes (WG_MAX_PACKET - length p))"
  let ?buf = "p @ zeroes (WG_MAX_PACKET - length p)"
  define pass where "pass \<longleftrightarrow> p \<noteq> [] \<and> drop_bit 4 (?buf ! 0) AND 0x0f = 4 \<and> ?t \<le> length p
            \<and> (\<exists>a \<in> set (pr_allowed_source_ips peer). allowed_matches (ip_field 12 p) a)"
  have run: "if pass then wg_inject_plaintext priv (take ?t p) os = (priv', os') else (priv', os') = (priv, os)"
    using assms by (auto simp: pass_def wg_deliver_def Let_def list_ex_iff split: if_splits)
  then show "peer_rx_same (nd_peer priv j) (nd_peer priv' j)"
    by (auto split: if_splits dest: inject_effect)
  assume len: "length p \<le> WG_MAX_PACKET"
  show "stack_input os' = stack_input os @ delivered priv peer p os"
  proof (cases pass)
    case True
    then have "stack_input os' = stack_input os @
      (if take ?t p \<noteq> [] \<and> nd_bifup priv \<and> iob_ok os (iob_calls os) \<and> iob_ok os (Suc (iob_calls os)) then [take ?t p] else [])"
      using run len by (intro inject_stack [of priv "take ?t p"]) auto
    then show ?thesis using True by (auto simp: delivered_def pass_def Let_def)
  next
    case False
    then show ?thesis using run by (auto simp: delivered_def pass_def Let_def)
  qed
qed

text \<open>The peer as it is stored before delivery; \<open>s'\<close> is the slot the key pair then sits in.\<close>

lemma accept_data_stored:
  assumes "accept_data priv i s k p len addr port os = (priv', os')"
  defines "s' \<equiv> (if s = Next then Curr else s)"
  shows "\<exists>P rx. wg_deliver (nd_put i P (priv\<lparr>nd_peer_rx_bytes := rx, nd_carrier := True\<rparr>)) P p os = (priv', os')
    \<and> pr_ip P = addr \<and> pr_port P = port \<and> pr_last_rx P = wireguard_sys_now os
    \<and> pr_allowed_source_ips P = pr_allowed_source_ips (nd_peer priv i) \<and> (\<exists>t. slot_keypair P s' = k\<lparr>kp_last_rx := t\<rparr>)
    \<and> (\<forall>t. t \<noteq> s' \<longrightarrow> kp_valid (slot_keypair P t) \<longrightarrow> (\<exists>t'. t' \<noteq> s \<and> slot_keypair P t = slot_keypair (nd_peer priv i) t'))"
proof -
  define P0 where "P0 = (set_slot s (k\<lparr>kp_last_rx := wireguard_sys_now os\<rparr>)
      ((nd_peer priv i)\<lparr>pr_ip := addr, pr_port := port\<rparr>))\<lparr>pr_last_rx := wireguard_sys_now os\<rparr>"
  define P1 where "P1 = keypair_update P0 s"
  define P where "P = (if kp_initiator (slot_keypair P1 s) \<and> wireguard_expired os (kp_millis (slot_keypair P1 s))
                      (REJECT_AFTER_TIME - ucast (pr_keepalive_interval P1) - REKEY_TIMEOUT)
                  then P1\<lparr>pr_send_handshake := True\<rparr> else P1)"
  obtain rx where d: "wg_deliver (nd_put i P (priv\<lparr>nd_peer_rx_bytes := rx, nd_carrier := True\<rparr>)) P p os = (priv', os')"
    using assms(1) by (simp only: accept_data_def Let_def P_def P1_def P0_def)
  have slots: "slot_keypair P t = slot_keypair P1 t" for t by (cases t) (simp_all add: P_def)
  have fields: "pr_ip P = addr" "pr_port P = port" "pr_last_rx P = wireguard_sys_now os"
     "pr_allowed_source_ips P = pr_allowed_source_ips (nd_peer priv i)"
    by (simp_all add: P_def P1_def P0_def keypair_update_def Let_def)
  have main: "slot_keypair P s' = k\<lparr>kp_last_rx := wireguard_sys_now os\<rparr>"
    unfolding slots s'_def by (cases s) (simp_all add: P1_def P0_def keypair_update_def Let_def)
  have others: "\<exists>t'. t' \<noteq> s \<and> slot_keypair P t = slot_keypair (nd_peer priv i) t'"
    if "t \<noteq> s'" "kp_valid (slot_keypair P t)" for t
    using that unfolding slots s'_def
    by (cases s; cases t; auto simp: P1_def P0_def keypair_update_def Let_def intro: exI [of _ Curr] exI [of _ Prev] exI [of _ Next])
  show ?thesis using d fields main others by (intro exI [of _ P]) blast
qed

lemma accept_data_effect:
  assumes "i < length (dv_peers (nd_wg priv))" and "accept_data priv i s k p len addr port os = (priv', os')"
  defines "s' \<equiv> (if s = Next then Curr else s)"
  shows "\<exists>P. peer_rx_same P (nd_peer priv' i) \<and> pr_ip P = addr \<and> pr_port P = port
    \<and> pr_last_rx P = wireguard_sys_now os \<and> (\<exists>t. slot_keypair P s' = k\<lparr>kp_last_rx := t\<rparr>)
    \<and> (\<forall>t. t \<noteq> s' \<longrightarrow> kp_valid (slot_keypair P t) \<longrightarrow> (\<exists>t'. t' \<noteq> s \<and> slot_keypair P t = slot_keypair (nd_peer priv i) t'))"
    "length p \<le> WG_MAX_PACKET \<Longrightarrow> stack_input os' = stack_input os @ delivered priv (nd_peer priv i) p os"
    "j \<noteq> i \<Longrightarrow> peer_rx_same (nd_peer priv j) (nd_peer priv' j)"
proof -
  obtain P rx where d: "wg_deliver (nd_put i P (priv\<lparr>nd_peer_rx_bytes := rx, nd_carrier := True\<rparr>)) P p os = (priv', os')"
    and fields: "pr_ip P = addr" "pr_port P = port" "pr_last_rx P = wireguard_sys_now os"
      "pr_allowed_source_ips P = pr_allowed_source_ips (nd_peer priv i)"
    and main: "\<exists>t. slot_keypair P s' = k\<lparr>kp_last_rx := t\<rparr>"
    and others: "\<forall>t. t \<noteq> s' \<longrightarrow> kp_valid (slot_keypair P t) \<longrightarrow> (\<exists>t'. t' \<noteq> s \<and> slot_keypair P t = slot_keypair (nd_peer priv i) t')"
    using accept_data_stored [OF assms(2)] unfolding s'_def by blast
  show "\<exists>P. peer_rx_same P (nd_peer priv' i) \<and> pr_ip P = addr \<and> pr_port P = port
    \<and> pr_last_rx P = wireguard_sys_now os \<and> (\<exists>t. slot_keypair P s' = k\<lparr>kp_last_rx := t\<rparr>)
    \<and> (\<forall>t. t \<noteq> s' \<longrightarrow> kp_valid (slot_keypair P t) \<longrightarrow> (\<exists>t'. t' \<noteq> s \<and> slot_keypair P t = slot_keypair (nd_peer priv i) t'))"
    using deliver_effect(1) [OF d, of i] fields main others assms(1) by (intro exI [of _ P]) auto
  show "j \<noteq> i \<Longrightarrow> peer_rx_same (nd_peer priv j) (nd_peer priv' j)"
    using deliver_effect(1) [OF d, of j] by simp
  show "length p \<le> WG_MAX_PACKET \<Longrightarrow> stack_input os' = stack_input os @ delivered priv (nd_peer priv i) p os"
    using deliver_effect(2) [OF d] by (simp add: delivered_def fields)
qed

lemma data_acceptedD:
  assumes "data_accepted priv i hdr os = Some (s, p)"
  defines "k \<equiv> slot_keypair (nd_peer priv i) s" defines "n \<equiv> U8TO64_LITTLE (mt_counter hdr)"
  shows "get_peer_keypair_for_idx (nd_peer priv i) (mt_receiver hdr) = Some s" "fst (wireguard_check_replay k n)"
    "chacha20poly1305_decrypt (mt_enc_packet hdr) [] n (kp_receiving_key k) = Some p" "length p \<le> WG_MAX_PACKET"
    "wg_process_data_message priv i hdr addr port os =
       accept_data priv i s (snd (wireguard_check_replay k n)) p (length p + 16) addr port os"
proof -
  have a: "get_peer_keypair_for_idx (nd_peer priv i) (mt_receiver hdr) = Some s" "kp_receiving_valid k"
    "\<not> wireguard_expired os (kp_millis k) REJECT_AFTER_TIME" "kp_replay_counter k < REJECT_AFTER_MESSAGES"
    "16 \<le> length (mt_enc_packet hdr)" "length (mt_enc_packet hdr) - 16 \<le> WG_MAX_PACKET"
    "fst (wireguard_check_replay k n)" "chacha20poly1305_decrypt (mt_enc_packet hdr) [] n (kp_receiving_key k) = Some p"
    using assms(1) by (auto simp: data_accepted_def Let_def k_def n_def split: option.splits if_splits)
  have len: "length (mt_enc_packet hdr) = length p + 16"
    using a(8) decrypt_eq_encrypt length_encrypt by auto
  show "get_peer_keypair_for_idx (nd_peer priv i) (mt_receiver hdr) = Some s" "fst (wireguard_check_replay k n)"
    "chacha20poly1305_decrypt (mt_enc_packet hdr) [] n (kp_receiving_key k) = Some p" "length p \<le> WG_MAX_PACKET"
    using a len by simp_all
  have c: "(\<not> kp_receiving_valid k \<or> wireguard_expired os (kp_millis k) REJECT_AFTER_TIME
     \<or> kp_replay_counter k \<ge> REJECT_AFTER_MESSAGES) = False"
    "(length p + 16 < 16 \<or> length p + 16 - 16 > WG_MAX_PACKET) = False"
    using a len by auto
  obtain k' where "wireguard_check_replay k n = (True, k')" using a(7) by (cases "wireguard_check_replay k n") auto
  then show "wg_process_data_message priv i hdr addr port os =
       accept_data priv i s (snd (wireguard_check_replay k n)) p (length p + 16) addr port os"
    unfolding wg_process_data_message_def Let_def a(1) option.case k_def [symmetric] n_def [symmetric] len
      c if_False wireguard_decrypt_packet_def a(8) by simp
qed

text \<open>
  C7. An accepted data packet has exactly these effects: the ciphertext was the encryption of the
  plaintext under the key pair's receiving key and the packet's counter; the peer's endpoint becomes
  the datagram's source and its receive time now; the stack gets the decrypted packet, cut to its
  total length, exactly when it is an IPv4 packet from one of the peer's allowed source addresses,
  not longer than what was authenticated, and the stack accepts input; the other peers keep their
  endpoints and receive windows.
\<close>

theorem accepted_data_effect:
  assumes "i < length (dv_peers (nd_wg priv))" and "data_accepted priv i hdr os = Some (s, p)"
    and "wg_process_data_message priv i hdr addr port os = (priv', os')"
  shows "mt_enc_packet hdr = chacha20poly1305_encrypt p [] (U8TO64_LITTLE (mt_counter hdr)) (kp_receiving_key (slot_keypair (nd_peer priv i) s))
    \<and> pr_ip (nd_peer priv' i) = addr \<and> pr_port (nd_peer priv' i) = port
    \<and> pr_last_rx (nd_peer priv' i) = wireguard_sys_now os
    \<and> stack_input os' = stack_input os @ delivered priv (nd_peer priv i) p os
    \<and> (j \<noteq> i \<longrightarrow> peer_rx_same (nd_peer priv j) (nd_peer priv' j))"
proof -
  note d = data_acceptedD [OF assms(2)]
  note e = accept_data_effect [OF assms(1), of s "snd (wireguard_check_replay (slot_keypair (nd_peer priv i) s) (U8TO64_LITTLE (mt_counter hdr)))"
    p "length p + 16" addr port os priv' os']
  have "accept_data priv i s (snd (wireguard_check_replay (slot_keypair (nd_peer priv i) s) (U8TO64_LITTLE (mt_counter hdr))))
    p (length p + 16) addr port os = (priv', os')" using assms(3) d(5) by simp
  note e = e [OF this]
  show ?thesis using e(1) e(2) [OF d(4)] e(3) [of j] d(3) decrypt_eq_encrypt by (auto simp: peer_rx_same_def)
qed

text \<open>A key pair of a peer that no other valid key pair of the peer shares its index with.\<close>

definition index_unshared :: "wireguard_peer \<Rightarrow> keypair_slot \<Rightarrow> bool" where
  "index_unshared peer s \<longleftrightarrow> (\<forall>t. t \<noteq> s \<longrightarrow> kp_valid (slot_keypair peer t) \<longrightarrow>
     kp_local_index (slot_keypair peer t) \<noteq> kp_local_index (slot_keypair peer s))"

text \<open>
  C6. A data packet is accepted at most once: sent again to the state its acceptance left, from any
  address and at any later time, it is rejected, also when the first copy confirmed and moved its
  key pair.
\<close>

theorem replayed_data_is_rejected:
  assumes "i < length (dv_peers (nd_wg priv))" and "data_accepted priv i hdr os = Some (s, p)"
    and "wg_process_data_message priv i hdr addr port os = (priv', os')"
    and "replay_inv H (slot_keypair (nd_peer priv i) s)" and "index_unshared (nd_peer priv i) s"
  shows "data_accepted priv' i hdr os2 = None"
proof (rule ccontr)
  define k where "k = slot_keypair (nd_peer priv i) s"
  define n where "n = U8TO64_LITTLE (mt_counter hdr)"
  assume "\<not> data_accepted priv' i hdr os2 = None"
  then obtain t q where "data_accepted priv' i hdr os2 = Some (t, q)" by auto
  note d' = data_acceptedD [OF this]
  note d = data_acceptedD [OF assms(2)]
  obtain k' where k': "wireguard_check_replay k n = (True, k')"
    using d(2) by (cases "wireguard_check_replay k n") (auto simp: k_def n_def)
  then have idx: "kp_local_index k' = kp_local_index k"
    by (auto simp: wireguard_check_replay_def Let_def split: if_splits)
  have "accept_data priv i s k' p (length p + 16) addr port os = (priv', os')"
    using assms(3) d(5) k' by (simp add: k_def n_def)
  from accept_data_effect(1) [OF assms(1) this] obtain P t0
    where P: "peer_rx_same P (nd_peer priv' i)" "slot_keypair P (if s = Next then Curr else s) = k'\<lparr>kp_last_rx := t0\<rparr>"
      "\<And>t. t \<noteq> (if s = Next then Curr else s) \<Longrightarrow> kp_valid (slot_keypair P t) \<Longrightarrow>
         \<exists>t'. t' \<noteq> s \<and> slot_keypair P t = slot_keypair (nd_peer priv i) t'"
    by blast
  have t: "kp_valid (slot_keypair (nd_peer priv' i) t)" "kp_local_index (slot_keypair (nd_peer priv' i) t) = kp_local_index k"
    using get_peer_keypair_SomeD [OF d'(1)] get_peer_keypair_SomeD [OF d(1)] by (simp_all add: k_def)
  then have r: "kp_valid (slot_keypair P t)" "kp_local_index (slot_keypair P t) = kp_local_index k"
     "kp_replay_bitmap (slot_keypair (nd_peer priv' i) t) = kp_replay_bitmap (slot_keypair P t)"
     "kp_replay_counter (slot_keypair (nd_peer priv' i) t) = kp_replay_counter (slot_keypair P t)"
    using P(1) by (auto simp: peer_rx_same_def rx_same_def)
  have "t = (if s = Next then Curr else s)"
    using P(3) r(1,2) assms(5) unfolding index_unshared_def k_def by metis
  then have "replay_inv (insert n H) (slot_keypair (nd_peer priv' i) t)"
    using wg_replay.seen_accept [OF assms(4) [folded k_def] k'] r(3,4) P(2) by (simp add: replay_inv_def)
  moreover obtain k2 where "wireguard_check_replay (slot_keypair (nd_peer priv' i) t) n = (True, k2)"
    using d'(2) by (cases "wireguard_check_replay (slot_keypair (nd_peer priv' i) t) n") (auto simp: n_def)
  ultimately show False using wg_replay.check_fresh by blast
qed

section \<open>A packet that is accepted\<close>

definition sample_packet :: bytes where
  "sample_packet = [0x45, 0, 0, 20] @ replicate 16 7"

definition sample_data :: message_transport_data where
  "sample_data = \<lparr>mt_type = 4, mt_reserved = [0, 0, 0], mt_receiver = 5, mt_counter = U64TO8_LITTLE 0,
     mt_enc_packet = chacha20poly1305_encrypt sample_packet [] 0 (zeroes 32)\<rparr>"

lemma sample_data_accepted:
  "data_accepted (sample_netdev sample_keypair) 0 sample_data (sample_os 7) = Some (Curr, sample_packet)"
proof -
  have "fst (wireguard_check_replay sample_keypair 0)"
    by (simp add: wireguard_check_replay_def Let_def)
  moreover have "length (chacha20poly1305_encrypt sample_packet [] 0 (zeroes 32)) = 36"
    by (simp add: length_encrypt sample_packet_def)
  moreover have "U8TO64_LITTLE (U64TO8_LITTLE 0) = 0" by simp
  moreover have "get_peer_keypair_for_idx (nd_peer (sample_netdev sample_keypair) 0) 5 = Some Curr"
    by (simp add: get_peer_keypair_for_idx_def)
  ultimately show ?thesis
    by (simp add: data_accepted_def sample_data_def Let_def wireguard_expired_def decrypt_eq_encrypt REJECT_AFTER_MESSAGES_def)
qed

lemma sample_delivered:
  "delivered (sample_netdev sample_keypair) (nd_peer (sample_netdev sample_keypair) 0) sample_packet (sample_os 7) = [sample_packet]"
  by (simp add: delivered_def sample_packet_def packet_totlen_def allowed_matches_def sample_os_def Let_def
      zeroes_def nth_append)

theorem accepted_data_effect_witness:
  "pr_port (nd_peer (fst (wg_process_data_message (sample_netdev sample_keypair) 0 sample_data 1 2 (sample_os 7))) 0) = 2
   \<and> stack_input (snd (wg_process_data_message (sample_netdev sample_keypair) 0 sample_data 1 2 (sample_os 7))) = [sample_packet]"
proof -
  obtain priv' os' where r: "wg_process_data_message (sample_netdev sample_keypair) 0 sample_data 1 2 (sample_os 7) = (priv', os')"
    by fastforce
  show ?thesis
    using accepted_data_effect [OF _ sample_data_accepted r] r sample_delivered by (simp add: sample_os_def)
qed

lemma sample_replay_inv: "replay_inv {} (slot_keypair (nd_peer (sample_netdev sample_keypair) 0) Curr)"
  by (simp add: fresh_window_inv [of 32] fresh_window_def)

lemma sample_unshared: "index_unshared (nd_peer (sample_netdev sample_keypair) 0) Curr"
proof -
  have "\<not> kp_valid (slot_keypair (nd_peer (sample_netdev sample_keypair) 0) t)" if "t \<noteq> Curr" for t
    using that by (cases t) (simp_all add: sample_netdev_def sample_device_def nd_peer_def put_peer_def peer_at_def Let_def zero_peer_def zero_keypair_def)
  then show ?thesis by (auto simp: index_unshared_def)
qed

theorem replayed_data_is_rejected_witness:
  "data_accepted (fst (wg_process_data_message (sample_netdev sample_keypair) 0 sample_data 1 2 (sample_os 7))) 0 sample_data (sample_os 8) = None"
proof -
  obtain priv' os' where r: "wg_process_data_message (sample_netdev sample_keypair) 0 sample_data 1 2 (sample_os 7) = (priv', os')"
    by fastforce
  show ?thesis
    using replayed_data_is_rejected [OF _ sample_data_accepted r sample_replay_inv sample_unshared, of "sample_os 8"] r by simp
qed

end
