(* ===== verification/Lifecycle.thy ===== *)
theory Lifecycle
  imports Netdev
begin

text \<open>
  What drives the handlers of \<open>nuttx-wireguardif.c\<close>: the periodic timers, one turn of the receive
  task, the transmit poll, and interface up and down. The turn of the receive task takes the
  datagrams the socket had queued; its wait and the work queue are in \<open>Tasks\<close>.
\<close>

section \<open>Timers\<close>

text \<open>The body of the loop over the peers; it returns whether the peer keeps the link up.\<close>

definition timer_expiry :: "wg_netdev_s \<Rightarrow> nat \<Rightarrow> os \<Rightarrow> wg_netdev_s" where
  "timer_expiry priv x os =
     (let peer = nd_peer priv x;
          peer = (if kp_valid (pr_curr_keypair peer)
                     \<and> wireguard_expired os (kp_millis (pr_curr_keypair peer)) (REJECT_AFTER_TIME * 3)
                  then peer\<lparr>pr_next_keypair := keypair_destroy (pr_next_keypair peer),
                            pr_curr_keypair := keypair_destroy (pr_curr_keypair peer),
                            pr_prev_keypair := keypair_destroy (pr_prev_keypair peer),
                            pr_ip := pr_connect_ip peer, pr_port := pr_connect_port peer\<rparr>
                  else peer);
          peer = (if kp_valid (pr_curr_keypair peer)
                     \<and> (wireguard_expired os (kp_millis (pr_curr_keypair peer)) REJECT_AFTER_TIME
                        \<or> kp_sending_counter (pr_curr_keypair peer) \<ge> REJECT_AFTER_MESSAGES)
                  then peer\<lparr>pr_curr_keypair := keypair_destroy (pr_curr_keypair peer)\<rparr> else peer)
      in nd_put x peer priv)"

definition timer_keepalive :: "wg_netdev_s \<Rightarrow> nat \<Rightarrow> os \<Rightarrow> wg_netdev_s \<times> os" where
  "timer_keepalive priv x os =
     (let peer = nd_peer priv x
      in if pr_keepalive_interval peer > 0
            \<and> (kp_valid (pr_curr_keypair peer) \<or> kp_valid (pr_prev_keypair peer))
            \<and> wireguard_expired os (pr_last_tx peer) (ucast (pr_keepalive_interval peer))
         then wg_send_keepalive priv x os else (priv, os))"

definition should_initiate :: "wireguard_peer \<Rightarrow> os \<Rightarrow> bool" where
  "should_initiate peer os =
     (let can_send_initiation = (pr_last_initiation_tx peer = 0
                                 \<or> wireguard_expired os (pr_last_initiation_tx peer) REKEY_TIMEOUT);
          rekey_at = REJECT_AFTER_TIME - ucast (pr_keepalive_interval peer)
      in can_send_initiation \<and>
         (pr_send_handshake peer
          \<or> kp_valid (pr_curr_keypair peer) \<and> \<not> kp_initiator (pr_curr_keypair peer)
            \<and> wireguard_expired os (kp_millis (pr_curr_keypair peer)) rekey_at
          \<or> \<not> kp_valid (pr_curr_keypair peer) \<and> pr_active peer))"

definition timer_peer :: "dh \<Rightarrow> wg_netdev_s \<Rightarrow> nat \<Rightarrow> os \<Rightarrow> (bool \<times> wg_netdev_s \<times> os) option" where
  "timer_peer X priv x os =
     (if \<not> pr_valid (nd_peer priv x) then Some (False, priv, os)
      else let priv = timer_expiry priv x os;
               (priv, os) = timer_keepalive priv x os
           in case (if should_initiate (nd_peer priv x) os then wg_start_handshake X priv x os
                    else Some (priv, os)) of
                None \<Rightarrow> None
              | Some (priv, os) \<Rightarrow>
                  let peer = nd_peer priv x
                  in Some (kp_valid (pr_curr_keypair peer) \<or> kp_valid (pr_prev_keypair peer), priv, os))"

fun timer_peers :: "dh \<Rightarrow> nat list \<Rightarrow> bool \<Rightarrow> wg_netdev_s \<Rightarrow> os \<Rightarrow> (bool \<times> wg_netdev_s \<times> os) option" where
  "timer_peers X [] link_up priv os = Some (link_up, priv, os)"
| "timer_peers X (x # xs) link_up priv os =
     (case timer_peer X priv x os of
        None \<Rightarrow> None
      | Some (up, priv, os) \<Rightarrow> timer_peers X xs (link_up \<or> up) priv os)"

definition wg_run_timers :: "dh \<Rightarrow> wg_netdev_s \<Rightarrow> os \<Rightarrow> (wg_netdev_s \<times> os) option" where
  "wg_run_timers X priv os =
     (case timer_peers X [0..<length (dv_peers (nd_wg priv))] False priv os of
        None \<Rightarrow> None
      | Some (link_up, priv, os) \<Rightarrow> Some (if link_up then priv else priv\<lparr>nd_carrier := False\<rparr>, os))"

section \<open>The receive task\<close>

text \<open>The inner loop over the queued datagrams, then the timers, while the task is to run.\<close>

fun rx_drain :: "dh \<Rightarrow> kconfig \<Rightarrow> datagram list \<Rightarrow> wg_netdev_s \<Rightarrow> os \<Rightarrow> (wg_netdev_s \<times> os) option" where
  "rx_drain X cfg [] priv os = Some (priv, os)"
| "rx_drain X cfg (d # ds) priv os =
     (if dg_data d = [] then Some (priv, os)
      else case wg_process_udp_packet X cfg priv (take WG_MAX_PACKET (dg_data d)) (dg_addr d) (dg_port d) os of
             None \<Rightarrow> None
           | Some (priv, os) \<Rightarrow> rx_drain X cfg ds priv os)"

definition wg_rx_turn :: "dh \<Rightarrow> kconfig \<Rightarrow> datagram list \<Rightarrow> wg_netdev_s \<Rightarrow> os \<Rightarrow> (wg_netdev_s \<times> os) option" where
  "wg_rx_turn X cfg queued priv os =
     (if nd_running priv
      then case rx_drain X cfg queued priv os of
             None \<Rightarrow> None
           | Some (priv, os) \<Rightarrow> wg_run_timers X priv os
      else Some (priv\<lparr>nd_rxtask_done := True\<rparr>, os))"

section \<open>Transmission\<close>

text \<open>
  \<open>wg_txpoll\<close> on the packet in the device's buffer; \<open>wg_txavail_work\<close> polls while the interface is up. The
  destination of a packet shorter than an IPv4 header, which no stack sends, is read with zeroes for what is missing;
  the code reads what an earlier packet left in \<open>plainbuf\<close> there.
\<close>

definition wg_txpoll :: "wg_netdev_s \<Rightarrow> bytes \<Rightarrow> os \<Rightarrow> wg_netdev_s \<times> os" where
  "wg_txpoll priv packet os =
     (if length packet > 0 \<and> length packet \<le> WG_MAX_PACKET
      then case wg_peer_for_dest priv (ip_field 16 packet) of
             Some i \<Rightarrow> snd (wg_encrypt_and_send priv i packet os)
           | None \<Rightarrow> (priv, os)
      else (priv, os))"

fun wg_txavail_work :: "bytes list \<Rightarrow> wg_netdev_s \<Rightarrow> os \<Rightarrow> wg_netdev_s \<times> os" where
  "wg_txavail_work [] priv os = (priv, os)"
| "wg_txavail_work (p # ps) priv os =
     (if nd_bifup priv then let (priv, os) = wg_txpoll priv p os in wg_txavail_work ps priv os
      else (priv, os))"

section \<open>Interface up and down\<close>

definition ifup_peer :: "wireguard_peer \<Rightarrow> wireguard_peer" where
  "ifup_peer peer =
     (if pr_valid peer \<and> pr_connect_ip peer \<noteq> 0 \<and> pr_connect_port peer > 0
      then peer\<lparr>pr_active := True, pr_ip := pr_connect_ip peer, pr_port := pr_connect_port peer,
                pr_send_handshake := True\<rparr>
      else peer)"

definition wg_ifup :: "wg_netdev_s \<Rightarrow> wg_netdev_s" where
  "wg_ifup priv =
     (let priv = priv\<lparr>nd_bifup := True, nd_carrier := True\<rparr>; dev = nd_wg priv
      in priv\<lparr>nd_wg := dev\<lparr>dv_peers := map ifup_peer (dv_peers dev)\<rparr>\<rparr>)"

definition ifdown_peer :: "wireguard_peer \<Rightarrow> wireguard_peer" where
  "ifdown_peer peer =
     (if \<not> pr_valid peer then peer
      else peer\<lparr>pr_curr_keypair := keypair_destroy (pr_curr_keypair peer),
                pr_prev_keypair := keypair_destroy (pr_prev_keypair peer),
                pr_next_keypair := keypair_destroy (pr_next_keypair peer),
                pr_handshake := zero_handshake\<lparr>hs_valid := False\<rparr>,
                pr_handshake_mac1_valid := False, pr_active := False, pr_send_handshake := False,
                pr_ip := pr_connect_ip peer, pr_port := pr_connect_port peer\<rparr>)"

definition wg_ifdown :: "wg_netdev_s \<Rightarrow> wg_netdev_s" where
  "wg_ifdown priv =
     (let priv = priv\<lparr>nd_carrier := False, nd_bifup := False\<rparr>; dev = nd_wg priv
      in priv\<lparr>nd_wg := dev\<lparr>dv_peers := map ifdown_peer (dv_peers dev)\<rparr>\<rparr>)"

end
