(* ===== verification/Frames.thy ===== *)
theory Frames
  imports Receive Lifecycle
begin

text \<open>
  What every handler of the network device preserves: a locale for relations between a peer's states
  before and after a handler, closed under the few primitive updates the handlers are made of, and
  the proof that every handler stays within such a relation.
\<close>

section \<open>The primitive updates of a peer\<close>

text \<open>Updates that touch neither the sessions nor the identity of a peer.\<close>

definition bookkeeping :: "wireguard_peer \<Rightarrow> wireguard_peer \<Rightarrow> bool" where
  "bookkeeping p p' \<longleftrightarrow> pr_valid p' = pr_valid p \<and> pr_public_key p' = pr_public_key p
     \<and> pr_public_key_dh p' = pr_public_key_dh p \<and> pr_preshared_key p' = pr_preshared_key p
     \<and> pr_greatest_timestamp p' = pr_greatest_timestamp p
     \<and> pr_allowed_source_ips p' = pr_allowed_source_ips p
     \<and> pr_label_mac1_key p' = pr_label_mac1_key p \<and> pr_label_cookie_key p' = pr_label_cookie_key p
     \<and> pr_connect_ip p' = pr_connect_ip p \<and> pr_connect_port p' = pr_connect_port p
     \<and> pr_curr_keypair p' = pr_curr_keypair p \<and> pr_prev_keypair p' = pr_prev_keypair p
     \<and> pr_next_keypair p' = pr_next_keypair p"

lemma bookkeeping_sent: "bookkeeping (set_slot s k p) (mark_rekey k os (set_slot s k (p\<lparr>pr_last_tx := t\<rparr>)))"
  by (cases s) (simp_all add: bookkeeping_def mark_rekey_def)

text \<open>
  What a relation between a peer's states before and after a handler has to satisfy to hold for
  every handler that starts no session, and below, with one more law, for every handler: the handlers
  are built from these updates only.
\<close>

locale session_relation =
  fixes Q :: "wireguard_peer \<Rightarrow> wireguard_peer \<Rightarrow> bool"
  assumes Q_trans: "Q p q \<Longrightarrow> Q q r \<Longrightarrow> Q p r"
    and Q_bookkeeping: "bookkeeping p p' \<Longrightarrow> Q p p'"
    and Q_wipe: "Q p (set_slot s (keypair_destroy (slot_keypair p s)) p)"
    and Q_sent: "kp_sending_counter (slot_keypair p s) < REJECT_AFTER_MESSAGES \<Longrightarrow>
      Q p (set_slot s ((slot_keypair p s)\<lparr>kp_sending_counter := kp_sending_counter (slot_keypair p s) + 1, kp_last_tx := t\<rparr>) p)"
    and Q_received: "wireguard_check_replay (slot_keypair p s) n = (True, k) \<Longrightarrow> Q p (set_slot s (k\<lparr>kp_last_rx := t\<rparr>) p)"
    and Q_rotate: "Q p (keypair_update p s)"
    and Q_timestamp: "length ts = 12 \<Longrightarrow> memcmp ts (pr_greatest_timestamp p) > 0 \<Longrightarrow> Q p (p\<lparr>pr_greatest_timestamp := ts\<rparr>)"
begin

definition lift_dev :: "wireguard_device \<Rightarrow> wireguard_device \<Rightarrow> bool" where
  "lift_dev dev dev' \<longleftrightarrow> dv_public_key dev' = dv_public_key dev \<and> dv_private_key dev' = dv_private_key dev
     \<and> dv_valid dev' = dv_valid dev \<and> length (dv_peers dev') = length (dv_peers dev)
     \<and> (\<forall>i < length (dv_peers dev). Q (peer_at dev i) (peer_at dev' i))"

abbreviation lift_nd :: "wg_netdev_s \<Rightarrow> wg_netdev_s \<Rightarrow> bool" where
  "lift_nd priv priv' \<equiv> lift_dev (nd_wg priv) (nd_wg priv')"

lemma Q_refl: "Q p p"
  by (rule Q_bookkeeping) (simp add: bookkeeping_def)

lemma lift_refl [simp]: "lift_dev dev dev"
  by (simp add: lift_dev_def Q_refl)

lemma lift_trans: "lift_dev a b \<Longrightarrow> lift_dev b c \<Longrightarrow> lift_dev a c"
  unfolding lift_dev_def by (metis Q_trans)

lemma lift_put: "(i < length (dv_peers dev) \<Longrightarrow> Q (peer_at dev i) p) \<Longrightarrow> lift_dev dev (put_peer i p dev)"
proof -
  assume q: "i < length (dv_peers dev) \<Longrightarrow> Q (peer_at dev i) p"
  have "Q (peer_at dev j) (peer_at (put_peer i p dev) j)" if "j < length (dv_peers dev)" for j
    using q that by (cases "j = i") (simp_all add: Q_refl)
  then show ?thesis by (simp add: lift_dev_def)
qed

lemma lift_nd_put: "Q (nd_peer priv i) p \<Longrightarrow> nd_wg priv' = nd_wg priv \<Longrightarrow> lift_nd priv (nd_put i p priv')"
  by (simp add: nd_put_def nd_peer_def lift_put)

lemma lift_put_after: "lift_dev dev dev' \<Longrightarrow> (i < length (dv_peers dev) \<Longrightarrow> Q (peer_at dev' i) p) \<Longrightarrow> lift_dev dev (put_peer i p dev')"
  by (rule lift_trans [OF _ lift_put]) (simp_all add: lift_dev_def)

lemma lift_same_peers: "dv_peers dev' = dv_peers dev \<Longrightarrow> dv_public_key dev' = dv_public_key dev \<Longrightarrow>
    dv_private_key dev' = dv_private_key dev \<Longrightarrow> dv_valid dev' = dv_valid dev \<Longrightarrow> lift_dev dev dev'"
  by (simp add: lift_dev_def peer_at_def Q_refl)

lemma Q_handshake: "Q p (p\<lparr>pr_handshake := h\<rparr>)"
  by (rule Q_bookkeeping) (auto simp: bookkeeping_def)

lemma Q_bookkeeping_after: "Q p q \<Longrightarrow> bookkeeping q r \<Longrightarrow> Q p r"
  using Q_trans Q_bookkeeping by blast

section \<open>Sending\<close>

lemma send_lift:
  assumes "wg_encrypt_and_send priv i plaintext os = (ok, priv', os')"
  shows "lift_nd priv priv'"
proof (cases "send_effect priv i plaintext os")
  case None
  from send_none [OF this assms] show ?thesis
    by (elim conjE disjE) (simp_all add: lift_nd_put Q_wipe)
next
  case (Some s)
  from send_some [OF Some assms] obtain t b os2 p where lt: "kp_sending_counter (slot_keypair (nd_peer priv i) s) < REJECT_AFTER_MESSAGES"
    and priv': "priv' = nd_put i (mark_rekey ((slot_keypair (nd_peer priv i) s)
      \<lparr>kp_sending_counter := kp_sending_counter (slot_keypair (nd_peer priv i) s) + 1, kp_last_tx := t\<rparr>) os2
      (set_slot s ((slot_keypair (nd_peer priv i) s)\<lparr>kp_sending_counter := kp_sending_counter (slot_keypair (nd_peer priv i) s) + 1,
         kp_last_tx := t\<rparr>) ((nd_peer priv i)\<lparr>pr_last_tx := p\<rparr>))) (priv\<lparr>nd_peer_tx_bytes := b\<rparr>)"
    by blast
  let ?k = "(slot_keypair (nd_peer priv i) s)\<lparr>kp_sending_counter := kp_sending_counter (slot_keypair (nd_peer priv i) s) + 1, kp_last_tx := t\<rparr>"
  have "Q (nd_peer priv i) (set_slot s ?k (nd_peer priv i))" by (rule Q_sent [OF lt])
  then have "Q (nd_peer priv i) (mark_rekey ?k os2 (set_slot s ?k ((nd_peer priv i)\<lparr>pr_last_tx := p\<rparr>)))"
    by (rule Q_bookkeeping_after [OF _ bookkeeping_sent])
  then show ?thesis unfolding priv' by (rule lift_nd_put) simp
qed

lemma send_lift_snd: "snd (wg_encrypt_and_send priv i plaintext os) = (priv', os') \<Longrightarrow> lift_nd priv priv'"
  using send_lift by (metis prod.collapse)

end

section \<open>What the handshake functions store\<close>

lemma create_initiation_shape:
  "wireguard_create_handshake_initiation X dev i os = Some (ok, m, dev', os') \<Longrightarrow>
     \<exists>hs. dev' = put_peer i ((peer_at dev i)\<lparr>pr_handshake := hs\<rparr>) dev"
  unfolding wireguard_create_handshake_initiation_def Let_def
  by (clarsimp split: prod.splits if_splits option.splits; blast)

lemma create_response_shape:
  assumes "wireguard_create_handshake_response X dev i os = Some (ok, m, dev', os')"
  shows "\<exists>hs. dev' = put_peer i ((peer_at dev i)\<lparr>pr_handshake := hs\<rparr>) dev"
proof -
  have "dev' = dev \<or> (\<exists>hs. dev' = put_peer i ((peer_at dev i)\<lparr>pr_handshake := hs\<rparr>) dev)"
    using assms unfolding wireguard_create_handshake_response_def Let_def
    by (clarsimp split: prod.splits if_splits option.splits; blast)
  moreover have "dev = put_peer i ((peer_at dev i)\<lparr>pr_handshake := pr_handshake (peer_at dev i)\<rparr>) dev" by simp
  ultimately show ?thesis by metis
qed

lemma process_response_shape:
  assumes "wireguard_process_handshake_response X dev i m = (ok, dev')"
  shows "\<exists>hs. dev' = put_peer i ((peer_at dev i)\<lparr>pr_handshake := hs\<rparr>) dev"
proof -
  have "dev' = dev \<or> (\<exists>hs. dev' = put_peer i ((peer_at dev i)\<lparr>pr_handshake := hs\<rparr>) dev)"
    using assms unfolding wireguard_process_handshake_response_def Let_def
    by (clarsimp split: prod.splits if_splits option.splits; blast)
  moreover have "dev = put_peer i ((peer_at dev i)\<lparr>pr_handshake := pr_handshake (peer_at dev i)\<rparr>) dev" by simp
  ultimately show ?thesis by metis
qed

lemma process_initiation_None: "wireguard_process_initiation_message X dev m os = (None, dev') \<Longrightarrow> dev' = dev"
  unfolding wireguard_process_initiation_message_def Let_def
  by (clarsimp split: prod.splits if_splits option.splits)

lemma process_initiation_Some:
  assumes "wireguard_process_initiation_message X dev m os = (Some i, dev')"
  shows "i < length (dv_peers dev) \<and> pr_valid (peer_at dev i) \<and>
    (\<exists>ts hs. dev' = put_peer i ((peer_at dev i)\<lparr>pr_last_initiation_rx := wireguard_sys_now os,
           pr_greatest_timestamp := ts, pr_handshake := hs\<rparr>) dev
       \<and> memcmp ts (pr_greatest_timestamp (peer_at dev i)) > 0 \<and> length (mi_enc_timestamp m) = length ts + 16)"
  using assms unfolding wireguard_process_initiation_message_def Let_def
  by (clarsimp simp: decrypt_eq_encrypt length_encrypt not_le lookup_valid split: prod.splits if_splits option.splits;
      blast intro: length_encrypt)

lemma process_cookie_shape:
  assumes "wireguard_process_cookie_message dev i m os = (ok, dev')"
  shows "dev' = dev \<or> (\<exists>c. dev' = put_peer i ((peer_at dev i)\<lparr>pr_cookie := c,
      pr_cookie_millis := wireguard_sys_now os, pr_handshake_mac1_valid := False\<rparr>) dev)"
  using assms unfolding wireguard_process_cookie_message_def Let_def
  by (auto split: if_splits option.splits)

section \<open>Receiving and the handshake\<close>

context session_relation
begin

lemma stored_handshake_lift: "dev' = put_peer i ((peer_at dev i)\<lparr>pr_handshake := hs\<rparr>) dev \<Longrightarrow> lift_dev dev dev'"
  by (simp add: lift_put Q_handshake)

lemma lift_nd_put_after: "lift_nd priv priv' \<Longrightarrow> Q (nd_peer priv' i) p \<Longrightarrow> nd_wg priv'' = nd_wg priv' \<Longrightarrow> lift_nd priv (nd_put i p priv'')"
  by (rule lift_trans [OF _ lift_nd_put])

lemma start_handshake_lift:
  assumes "wg_start_handshake X priv i os = Some (priv', os')"
  shows "lift_nd priv priv'"
proof -
  obtain ok m dev os1 where c: "wireguard_create_handshake_initiation X (nd_wg priv) i os = Some (ok, m, dev, os1)"
    using assms by (auto simp: wg_start_handshake_def split: option.splits)
  have dev: "lift_nd priv (priv\<lparr>nd_wg := dev\<rparr>)"
    using create_initiation_shape [OF c] stored_handshake_lift by auto
  consider "priv' = priv\<lparr>nd_wg := dev\<rparr>"
    | t m1 where "priv' = nd_put i ((nd_peer (priv\<lparr>nd_wg := dev\<rparr>) i)\<lparr>pr_send_handshake := False, pr_last_initiation_tx := t,
        pr_handshake_mac1 := m1, pr_handshake_mac1_valid := True\<rparr>) (priv\<lparr>nd_wg := dev\<rparr>)"
    using assms by (auto simp: wg_start_handshake_def c Let_def split: if_splits prod.splits)
  then show ?thesis
  proof cases
    case 1
    then show ?thesis using dev by simp
  next
    case 2
    show ?thesis unfolding 2 by (rule lift_nd_put_after [OF dev Q_bookkeeping]) (simp_all add: bookkeeping_def)
  qed
qed

lemma inject_lift:
  assumes "wg_inject_plaintext priv packet os = (priv', os')"
  shows "lift_nd priv priv'"
  using assms by (auto simp: wg_inject_plaintext_def split: if_splits option.splits prod.splits dest: send_lift_snd)

lemma deliver_lift: "wg_deliver priv peer p os = (priv', os') \<Longrightarrow> lift_nd priv priv'"
  by (auto simp: wg_deliver_def Let_def split: if_splits dest: inject_lift)

lemma received_peer:
  assumes "wireguard_check_replay (slot_keypair p s) n = (True, k)"
  shows "Q p (keypair_update ((set_slot s (k\<lparr>kp_last_rx := t\<rparr>) (p\<lparr>pr_ip := a, pr_port := w\<rparr>))\<lparr>pr_last_rx := u\<rparr>) s)"
proof -
  have "Q p (set_slot s (k\<lparr>kp_last_rx := t\<rparr>) p)" by (rule Q_received [OF assms])
  then have "Q p ((set_slot s (k\<lparr>kp_last_rx := t\<rparr>) (p\<lparr>pr_ip := a, pr_port := w\<rparr>))\<lparr>pr_last_rx := u\<rparr>)"
    by (rule Q_bookkeeping_after) (cases s; simp add: bookkeeping_def)
  then show ?thesis using Q_rotate Q_trans by blast
qed

lemma data_message_lift:
  assumes "wg_process_data_message priv i hdr addr port os = (priv', os')"
  shows "lift_nd priv priv'"
proof (cases "data_accepted priv i hdr os")
  case None
  from data_rejected [OF this, of addr port] assms show ?thesis
    by (auto intro: lift_nd_put Q_wipe)
next
  case (Some sp)
  obtain s p where sp: "sp = (s, p)" by fastforce
  note d = data_acceptedD [OF Some [unfolded sp]]
  let ?n = "U8TO64_LITTLE (mt_counter hdr)"
  obtain k where k: "wireguard_check_replay (slot_keypair (nd_peer priv i) s) ?n = (True, k)"
    using d(2) by (cases "wireguard_check_replay (slot_keypair (nd_peer priv i) s) ?n") auto
  define P1 where "P1 = keypair_update ((set_slot s (k\<lparr>kp_last_rx := wireguard_sys_now os\<rparr>)
      ((nd_peer priv i)\<lparr>pr_ip := addr, pr_port := port\<rparr>))\<lparr>pr_last_rx := wireguard_sys_now os\<rparr>) s"
  define P where "P = (if kp_initiator (slot_keypair P1 s) \<and> wireguard_expired os (kp_millis (slot_keypair P1 s))
                      (REJECT_AFTER_TIME - ucast (pr_keepalive_interval P1) - REKEY_TIMEOUT)
                  then P1\<lparr>pr_send_handshake := True\<rparr> else P1)"
  have "Q (nd_peer priv i) P1" unfolding P1_def by (rule received_peer [OF k])
  then have Q: "Q (nd_peer priv i) P" by (rule Q_bookkeeping_after) (simp add: P_def bookkeeping_def)
  obtain rx where del: "wg_deliver (nd_put i P (priv\<lparr>nd_peer_rx_bytes := rx, nd_carrier := True\<rparr>)) P p os = (priv', os')"
    using assms d(5) k by (simp only: accept_data_def Let_def P_def P1_def snd_conv)
  show ?thesis by (rule lift_trans [OF lift_nd_put [OF Q] deliver_lift [OF del]]) simp
qed

lemma process_initiation_lift:
  assumes "wireguard_process_initiation_message X dev m os = (found, dev')" and "length (mi_enc_timestamp m) = 28"
  shows "lift_dev dev dev'"
proof (cases found)
  case None
  then show ?thesis using process_initiation_None [of X dev m os dev'] assms by simp
next
  case (Some i)
  then obtain ts hs where dev': "dev' = put_peer i ((peer_at dev i)\<lparr>pr_last_initiation_rx := wireguard_sys_now os,
           pr_greatest_timestamp := ts, pr_handshake := hs\<rparr>) dev"
    and ts: "memcmp ts (pr_greatest_timestamp (peer_at dev i)) > 0" "length ts = 12"
    using assms process_initiation_Some by fastforce
  have "Q (peer_at dev i) ((peer_at dev i)\<lparr>pr_greatest_timestamp := ts\<rparr>)"
    by (rule Q_timestamp [OF ts(2,1)])
  then have "Q (peer_at dev i) ((peer_at dev i)\<lparr>pr_last_initiation_rx := wireguard_sys_now os,
           pr_greatest_timestamp := ts, pr_handshake := hs\<rparr>)"
    by (rule Q_bookkeeping_after) (simp add: bookkeeping_def)
  then show ?thesis unfolding dev' by (simp add: lift_put)
qed

lemma cookie_lift:
  "wireguard_process_cookie_message dev i m os = (ok, dev') \<Longrightarrow> lift_dev dev dev'"
  by (drule process_cookie_shape) (auto intro!: lift_put Q_bookkeeping simp: bookkeeping_def)

lemma generate_cookie_lift: "generate_peer_cookie dev src os = (c, dev', os') \<Longrightarrow> lift_dev dev dev'"
  by (drule generate_peer_cookie_frame) (simp add: lift_same_peers)

lemma mac2_lift: "wireguard_check_mac2 dev d src m os = (ok, dev', os') \<Longrightarrow> lift_dev dev dev'"
  by (auto simp: wireguard_check_mac2_def split: prod.splits intro: generate_cookie_lift)

lemma cookie_reply_lift: "wg_send_cookie_reply priv mac1 idx addr port os = (priv', os') \<Longrightarrow> lift_nd priv priv'"
  by (auto simp: wg_send_cookie_reply_def wireguard_create_cookie_reply_def Let_def split: prod.splits intro: generate_cookie_lift)

lemma under_load_wg: "wg_under_load cfg priv os = (l, priv') \<Longrightarrow> nd_wg priv' = nd_wg priv"
  by (auto simp: wg_under_load_def Let_def split: if_splits)

end

section \<open>Dispatching\<close>

context session_relation
begin

lemma admit_lift: "admit_initiation cfg priv data mac2 addr port os = (ok, priv', os') \<Longrightarrow> lift_nd priv priv'"
  by (auto simp: admit_initiation_def Let_def split: prod.splits if_splits dest!: mac2_lift under_load_wg)

lemma udp_cookie_lift:
  assumes run: "udp_cookie X priv data os = Some (priv', os')"
  shows "lift_nd priv priv'"
proof (cases "peer_lookup_by_handshake (nd_wg priv) (mc_receiver (cookie_reply_of data))")
  case None
  then show ?thesis using run by (auto simp: udp_cookie_def Let_def split: if_splits)
next
  case (Some i)
  obtain ok dev where p: "wireguard_process_cookie_message (nd_wg priv) i (cookie_reply_of data) os = (ok, dev)" by fastforce
  have dev: "lift_nd priv (priv\<lparr>nd_wg := dev\<rparr>)" using cookie_lift [OF p] by simp
  have "priv' = priv \<or> priv' = priv\<lparr>nd_wg := dev\<rparr> \<or> wg_start_handshake X (priv\<lparr>nd_wg := dev\<rparr>) i os = Some (priv', os')"
    using run Some p by (auto simp: udp_cookie_def Let_def split: if_splits)
  then show ?thesis
    using dev lift_trans [OF dev start_handshake_lift] by auto
qed

lemma transport_lift: "udp_transport priv data addr port os = (priv', os') \<Longrightarrow> lift_nd priv priv'"
  by (auto simp: udp_transport_def Let_def split: if_splits option.splits dest: data_message_lift)

text \<open>A datagram that is no handshake initiation and no handshake response starts no session.\<close>

lemma quiet_udp_lift:
  assumes "wg_process_udp_packet X cfg priv data addr port os = Some (priv', os')"
    and "wireguard_get_message_type data \<notin> {MESSAGE_HANDSHAKE_INITIATION, MESSAGE_HANDSHAKE_RESPONSE}"
  shows "lift_nd priv priv'"
  using assms by (auto simp: wg_process_udp_packet_def Let_def split: if_splits dest: udp_cookie_lift transport_lift)

section \<open>Timers, transmission and interface state\<close>

lemma wipe_slot: "Q p (set_slot s (keypair_destroy (slot_keypair p s)) p)"
  by (rule Q_wipe)

lemma wipe_all:
  "Q p (p\<lparr>pr_next_keypair := keypair_destroy (pr_next_keypair p), pr_curr_keypair := keypair_destroy (pr_curr_keypair p),
          pr_prev_keypair := keypair_destroy (pr_prev_keypair p)\<rparr>)"
  using Q_trans [OF Q_trans [OF wipe_slot [of p Next] wipe_slot [of _ Curr]] wipe_slot [of _ Prev]] by simp

lemma timer_expiry_lift: "lift_nd priv (timer_expiry priv x os)"
proof -
  have all: "Q p (p\<lparr>pr_next_keypair := keypair_destroy (pr_next_keypair p), pr_curr_keypair := keypair_destroy (pr_curr_keypair p),
          pr_prev_keypair := keypair_destroy (pr_prev_keypair p), pr_ip := a, pr_port := w\<rparr>)" for p a w
    by (rule Q_bookkeeping_after [OF wipe_all]) (simp add: bookkeeping_def)
  have curr: "Q p (p\<lparr>pr_curr_keypair := keypair_destroy (pr_curr_keypair p)\<rparr>)" for p
    using wipe_slot [of p Curr] by simp
  show ?thesis
    unfolding timer_expiry_def Let_def
    by (rule lift_nd_put) (auto intro: all curr Q_refl Q_trans [OF all curr])
qed

lemma timer_peer_lift:
  assumes "timer_peer X priv x os = Some (up, priv', os')"
  shows "lift_nd priv priv'"
proof (cases "pr_valid (nd_peer priv x)")
  case False
  then show ?thesis using assms by (simp add: timer_peer_def)
next
  case True
  obtain priv2 os2 where k: "timer_keepalive (timer_expiry priv x os) x os = (priv2, os2)" by fastforce
  have "lift_nd (timer_expiry priv x os) priv2"
    using k by (auto simp: timer_keepalive_def wg_send_keepalive_def Let_def split: if_splits dest: send_lift_snd)
  then have p2: "lift_nd priv priv2" by (rule lift_trans [OF timer_expiry_lift])
  have "priv' = priv2 \<or> wg_start_handshake X priv2 x os2 = Some (priv', os')"
    using assms True k by (auto simp: timer_peer_def Let_def split: if_splits option.splits)
  then show ?thesis using p2 lift_trans [OF p2 start_handshake_lift] by auto
qed

lemma timer_peers_lift: "timer_peers X xs up priv os = Some (up', priv', os') \<Longrightarrow> lift_nd priv priv'"
proof (induction xs arbitrary: up priv os)
  case (Cons x xs)
  then obtain u priv1 os1 where "timer_peer X priv x os = Some (u, priv1, os1)" "timer_peers X xs (up \<or> u) priv1 os1 = Some (up', priv', os')"
    by (auto split: option.splits)
  then show ?case using Cons.IH timer_peer_lift lift_trans by blast
qed simp

lemma timers_lift: "wg_run_timers X priv os = Some (priv', os') \<Longrightarrow> lift_nd priv priv'"
  by (auto simp: wg_run_timers_def split: option.splits if_splits dest: timer_peers_lift)

lemma txpoll_lift: "wg_txpoll priv p os = (priv', os') \<Longrightarrow> lift_nd priv priv'"
  by (auto simp: wg_txpoll_def split: if_splits option.splits dest: send_lift_snd)

lemma txavail_lift: "wg_txavail_work ps priv os = (priv', os') \<Longrightarrow> lift_nd priv priv'"
proof (induction ps arbitrary: priv os)
  case (Cons p ps)
  then show ?case
    by (auto split: if_splits prod.splits intro: lift_trans dest!: txpoll_lift)
qed simp

lemma map_peers_lift: "(\<And>p. Q p (f p)) \<Longrightarrow> lift_dev dev (dev\<lparr>dv_peers := map f (dv_peers dev)\<rparr>)"
  by (simp add: lift_dev_def peer_at_def)

lemma ifup_lift: "lift_nd priv (wg_ifup priv)"
proof -
  have "Q p (ifup_peer p)" for p by (rule Q_bookkeeping) (simp add: ifup_peer_def bookkeeping_def)
  then show ?thesis by (simp add: wg_ifup_def Let_def map_peers_lift)
qed

lemma ifdown_lift: "lift_nd priv (wg_ifdown priv)"
proof -
  have "Q p (ifdown_peer p)" for p
    by (rule Q_bookkeeping_after [where q = "if pr_valid p then p\<lparr>pr_next_keypair := keypair_destroy (pr_next_keypair p),
          pr_curr_keypair := keypair_destroy (pr_curr_keypair p), pr_prev_keypair := keypair_destroy (pr_prev_keypair p)\<rparr> else p"])
       (simp_all add: wipe_all Q_refl ifdown_peer_def bookkeeping_def)
  then show ?thesis by (simp add: wg_ifdown_def Let_def map_peers_lift)
qed

end

section \<open>The handlers that start a session\<close>

locale peer_relation = session_relation +
  assumes Q_session: "Q p (wireguard_start_session os p b)"
begin

lemma send_response_lift:
  assumes "wg_send_handshake_response X priv i os = Some (priv', os')"
  shows "lift_nd priv priv'"
proof -
  obtain ok m dev os1 where c: "wireguard_create_handshake_response X (nd_wg priv) i os = Some (ok, m, dev, os1)"
    using assms by (auto simp: wg_send_handshake_response_def split: option.splits)
  have dev: "lift_nd priv (priv\<lparr>nd_wg := dev\<rparr>)"
    using create_response_shape [OF c] stored_handshake_lift by auto
  consider "priv' = priv\<lparr>nd_wg := dev\<rparr>"
    | "priv' = nd_put i (wireguard_start_session os1 (nd_peer (priv\<lparr>nd_wg := dev\<rparr>) i) False) (priv\<lparr>nd_wg := dev\<rparr>)"
    using assms by (auto simp: wg_send_handshake_response_def c Let_def split: if_splits prod.splits)
  then show ?thesis
  proof cases
    case 1
    then show ?thesis using dev by simp
  next
    case 2
    show ?thesis unfolding 2 by (rule lift_nd_put_after [OF dev Q_session]) simp
  qed
qed

lemma initiation_lift:
  assumes run: "udp_initiation X cfg priv data addr port os = Some (priv', os')"
  shows "lift_nd priv priv'"
proof (cases "length data \<noteq> 148 \<or> \<not> wireguard_check_mac1 (nd_wg priv) (take (148 - 2 * 16) data) (mi_mac1 (initiation_of data))")
  case True
  then show ?thesis using run by (auto simp: udp_initiation_def Let_def)
next
  case ok: False
  let ?msg = "initiation_of data"
  have len: "length (mi_enc_timestamp ?msg) = 28"
    using ok by (simp add: initiation_of_def length_bytes_at)
  obtain pass privM osM where m: "admit_initiation cfg priv data (mi_mac2 ?msg) addr port os = (pass, privM, osM)"
    by (metis prod_cases3)
  obtain found dev where p: "wireguard_process_initiation_message X (nd_wg privM) ?msg osM = (found, dev)" by fastforce
  have M: "lift_nd priv privM" by (rule admit_lift [OF m])
  have dev: "lift_nd priv (privM\<lparr>nd_wg := dev\<rparr>)"
    using lift_trans [OF M process_initiation_lift [OF p len]] by simp
  consider "wg_send_cookie_reply privM (mi_mac1 ?msg) (mi_sender ?msg) addr port osM = (priv', os')"
    | "priv' = privM\<lparr>nd_wg := dev\<rparr>"
    | i where "wg_send_handshake_response X
        (nd_put i ((nd_peer (privM\<lparr>nd_wg := dev\<rparr>) i)\<lparr>pr_ip := addr, pr_port := port\<rparr>) (privM\<lparr>nd_wg := dev\<rparr>)) i osM = Some (priv', os')"
    using run ok m p by (cases pass; cases found) (auto simp: udp_initiation_def Let_def)
  then show ?thesis
  proof cases
    case 1
    then show ?thesis by (rule lift_trans [OF M cookie_reply_lift])
  next
    case 2
    then show ?thesis using dev by simp
  next
    case 3
    have "lift_nd priv (nd_put i ((nd_peer (privM\<lparr>nd_wg := dev\<rparr>) i)\<lparr>pr_ip := addr, pr_port := port\<rparr>) (privM\<lparr>nd_wg := dev\<rparr>))"
      by (rule lift_nd_put_after [OF dev Q_bookkeeping]) (simp_all add: bookkeeping_def)
    then show ?thesis by (rule lift_trans [OF _ send_response_lift [OF 3]])
  qed
qed

lemma response_lift:
  assumes run: "udp_response X priv data addr port os = (priv', os')"
  shows "lift_nd priv priv'"
proof (cases "peer_lookup_by_handshake (nd_wg priv) (mr_receiver (response_of data))")
  case None
  then show ?thesis using run by (auto simp: udp_response_def Let_def split: if_splits)
next
  case (Some i)
  obtain ok dev where p: "wireguard_process_handshake_response X (nd_wg priv) i (response_of data) = (ok, dev)" by fastforce
  have dev: "lift_nd priv (priv\<lparr>nd_wg := dev\<rparr>)"
    using process_response_shape [OF p] stored_handshake_lift by auto
  let ?P = "wireguard_start_session os ((nd_peer (priv\<lparr>nd_wg := dev\<rparr>) i)\<lparr>pr_ip := addr, pr_port := port\<rparr>) True"
  obtain priv2 os2 where k: "wg_send_keepalive (nd_put i ?P (priv\<lparr>nd_wg := dev\<rparr>)) i os = (priv2, os2)" by fastforce
  have "priv' = priv \<or> priv' = priv\<lparr>nd_wg := dev\<rparr> \<or> priv' = priv2\<lparr>nd_carrier := True\<rparr>"
    using run Some p k by (auto simp: udp_response_def Let_def split: if_splits)
  moreover have "lift_nd priv priv2"
  proof -
    have "Q (nd_peer (priv\<lparr>nd_wg := dev\<rparr>) i) ((nd_peer (priv\<lparr>nd_wg := dev\<rparr>) i)\<lparr>pr_ip := addr, pr_port := port\<rparr>)"
      by (rule Q_bookkeeping) (simp add: bookkeeping_def)
    then have "Q (nd_peer (priv\<lparr>nd_wg := dev\<rparr>) i) ?P" by (rule Q_trans [OF _ Q_session])
    then have "lift_nd priv (nd_put i ?P (priv\<lparr>nd_wg := dev\<rparr>))" by (rule lift_nd_put_after [OF dev]) simp
    then show ?thesis
      using k unfolding wg_send_keepalive_def by (rule lift_trans [OF _ send_lift_snd])
  qed
  ultimately show ?thesis using dev by auto
qed

lemma udp_lift:
  assumes "wg_process_udp_packet X cfg priv data addr port os = Some (priv', os')"
  shows "lift_nd priv priv'"
  using assms
  by (auto simp: wg_process_udp_packet_def Let_def split: if_splits
      dest: initiation_lift response_lift udp_cookie_lift transport_lift)

lemma rx_drain_lift: "rx_drain X cfg ds priv os = Some (priv', os') \<Longrightarrow> lift_nd priv priv'"
proof (induction ds arbitrary: priv os)
  case (Cons d ds)
  then show ?case
    by (auto split: if_splits option.splits intro: lift_trans dest!: udp_lift)
qed simp

lemma rx_turn_lift: "wg_rx_turn X cfg ds priv os = Some (priv', os') \<Longrightarrow> lift_nd priv priv'"
  by (auto simp: wg_rx_turn_def split: if_splits option.splits intro: lift_trans dest!: rx_drain_lift timers_lift)

end

end
