(* ===== verification/System.thy ===== *)
theory System
  imports Frames
begin

text \<open>
  Runs of the whole interface as a step relation: datagrams, timers, transmissions, interface up and
  down and the environment, in any order. The lemmas of the locale in \<open>Frames\<close> give the invariants
  of every run, and the properties are about arbitrary runs.
\<close>

section \<open>Runs of the interface\<close>

text \<open>
  Between handlers the environment may do anything to the clocks and to the outcomes of future
  calls; what was sent and delivered stays.
\<close>

definition env_step :: "os \<Rightarrow> os \<Rightarrow> bool" where
  "env_step os os' \<longleftrightarrow> udp_calls os' = udp_calls os \<and> stack_input os' = stack_input os"

inductive wg_step :: "dh \<Rightarrow> kconfig \<Rightarrow> wg_netdev_s \<times> os \<Rightarrow> wg_netdev_s \<times> os \<Rightarrow> bool" for X cfg where
  receive: "wg_process_udp_packet X cfg priv data addr port os = Some (priv', os') \<Longrightarrow> wg_step X cfg (priv, os) (priv', os')"
| timers: "wg_run_timers X priv os = Some (priv', os') \<Longrightarrow> wg_step X cfg (priv, os) (priv', os')"
| transmit: "wg_txavail_work packets priv os = (priv', os') \<Longrightarrow> wg_step X cfg (priv, os) (priv', os')"
| up: "wg_step X cfg (priv, os) (wg_ifup priv, os)"
| down: "wg_step X cfg (priv, os) (wg_ifdown priv, os)"
| environment: "env_step os os' \<Longrightarrow> wg_step X cfg (priv, os) (priv, os')"

inductive_cases wg_stepE: "wg_step X cfg (priv, os) (priv', os')"

abbreviation wg_run :: "dh \<Rightarrow> kconfig \<Rightarrow> wg_netdev_s \<times> os \<Rightarrow> wg_netdev_s \<times> os \<Rightarrow> bool" where
  "wg_run X cfg \<equiv> (wg_step X cfg)\<^sup>*\<^sup>*"

context peer_relation
begin

lemma step_lift: "wg_step X cfg (priv, os) (priv', os') \<Longrightarrow> lift_nd priv priv'"
  by (erule wg_stepE) (auto dest: udp_lift timers_lift txavail_lift simp: ifup_lift ifdown_lift)

lemma run_lift: "wg_run X cfg (priv, os) (priv', os') \<Longrightarrow> lift_nd priv priv'"
  by (induction rule: rtranclp_induct2) (auto intro: lift_trans dest: step_lift)

end

section \<open>Key pairs stay well-formed\<close>

definition keypair_ok :: "nat \<Rightarrow> wireguard_keypair \<Rightarrow> bool" where
  "keypair_ok words k \<longleftrightarrow> kp_sending_counter k \<le> REJECT_AFTER_MESSAGES
     \<and> length (kp_replay_bitmap k) = words \<and> (\<exists>H. replay_inv H k)"

definition peer_ok :: "nat \<Rightarrow> wireguard_peer \<Rightarrow> bool" where
  "peer_ok words p \<longleftrightarrow> (\<forall>s. keypair_ok words (slot_keypair p s))"

lemma keypair_ok_zero:
  assumes "0 < words" "words < 2 ^ 32" "kp_replay_bitmap k = replicate words 0" "kp_replay_counter k = 0"
    "kp_sending_counter k = 0"
  shows "keypair_ok words k"
  using replay_inv_zero [OF assms(1-4)] assms by (auto simp: keypair_ok_def)

lemma peer_ok_slots: "peer_ok words p \<longleftrightarrow> keypair_ok words (pr_curr_keypair p) \<and> keypair_ok words (pr_prev_keypair p) \<and> keypair_ok words (pr_next_keypair p)"
proof
  assume "peer_ok words p"
  then show "keypair_ok words (pr_curr_keypair p) \<and> keypair_ok words (pr_prev_keypair p) \<and> keypair_ok words (pr_next_keypair p)"
    unfolding peer_ok_def by (metis slot_keypair.simps)
next
  assume "keypair_ok words (pr_curr_keypair p) \<and> keypair_ok words (pr_prev_keypair p) \<and> keypair_ok words (pr_next_keypair p)"
  then show "peer_ok words p" unfolding peer_ok_def by (metis slot_keypair.elims)
qed

lemma keypair_ok_destroy: "0 < words \<Longrightarrow> words < 2 ^ 32 \<Longrightarrow> keypair_ok words k \<Longrightarrow> keypair_ok words (keypair_destroy k)"
  by (rule keypair_ok_zero) (simp_all add: keypair_destroy_def zero_keypair_def keypair_ok_def)

lemma replay_inv_cong: "kp_replay_bitmap k' = kp_replay_bitmap k \<Longrightarrow> kp_replay_counter k' = kp_replay_counter k \<Longrightarrow> replay_inv H k' = replay_inv H k"
  by (simp add: replay_inv_def)

lemma keypair_ok_received:
  assumes "wireguard_check_replay k n = (True, k')" and "keypair_ok words k"
  shows "keypair_ok words (k'\<lparr>kp_last_rx := t\<rparr>)"
proof -
  obtain H where H: "replay_inv H k" using assms(2) by (auto simp: keypair_ok_def)
  from check_replay_refines [OF H assms(1)] show ?thesis
    using assms(2) check_replay_frame [OF assms(1)]
      replay_inv_cong [of "k'\<lparr>kp_last_rx := t\<rparr>" k'] by (auto simp: keypair_ok_def)
qed

lemma set_slot_ok: "peer_ok words p \<Longrightarrow> keypair_ok words k \<Longrightarrow> peer_ok words (set_slot s k p)"
  by (simp add: peer_ok_def)

lemma keypair_ok_sent:
  "keypair_ok words k \<Longrightarrow> kp_sending_counter k < REJECT_AFTER_MESSAGES \<Longrightarrow>
   keypair_ok words (k\<lparr>kp_sending_counter := kp_sending_counter k + 1, kp_last_tx := t\<rparr>)"
  using reject_no_wrap [of "kp_sending_counter k"] replay_inv_cong [of "k\<lparr>kp_sending_counter := kp_sending_counter k + 1, kp_last_tx := t\<rparr>" k]
  by (auto simp: keypair_ok_def)

lemma peer_ok_rotate:
  assumes "0 < words" "words < 2 ^ 32" "peer_ok words p"
  shows "peer_ok words (keypair_update p s)"
  using assms keypair_ok_destroy by (auto simp: keypair_update_def Let_def peer_ok_slots)

lemma start_session_shape:
  "\<exists>h k. wireguard_start_session os p b = add_new_keypair (p\<lparr>pr_handshake := h\<rparr>) k
     \<and> kp_replay_bitmap k = replicate (length (kp_replay_bitmap (pr_curr_keypair p))) 0
     \<and> kp_replay_counter k = 0 \<and> kp_sending_counter k = 0"
  unfolding wireguard_start_session_def Let_def split_def
  by (intro exI conjI, rule refl) (simp_all add: zero_keypair_def)

lemma add_new_keypair_ok:
  assumes "0 < words" "words < 2 ^ 32" "peer_ok words p" "keypair_ok words k"
  shows "peer_ok words (add_new_keypair p k)"
  using assms keypair_ok_destroy by (simp add: add_new_keypair_def Let_def peer_ok_slots)

lemma peer_ok_session:
  assumes w: "0 < words" "words < 2 ^ 32" and ok: "peer_ok words p"
  shows "peer_ok words (wireguard_start_session os p b)"
proof -
  have len: "length (kp_replay_bitmap (pr_curr_keypair p)) = words"
    using ok by (simp add: peer_ok_slots keypair_ok_def)
  obtain h k where s: "wireguard_start_session os p b = add_new_keypair (p\<lparr>pr_handshake := h\<rparr>) k"
    and k: "kp_replay_bitmap k = replicate words 0" "kp_replay_counter k = 0" "kp_sending_counter k = 0"
    using start_session_shape [of os p b] len by auto
  have "peer_ok words (p\<lparr>pr_handshake := h\<rparr>)" using ok by (simp add: peer_ok_slots)
  then show ?thesis unfolding s by (rule add_new_keypair_ok [OF w _ keypair_ok_zero [OF w k]])
qed

interpretation wg_windows: peer_relation "\<lambda>p p'. 0 < words \<and> words < 2 ^ 32 \<and> peer_ok words p \<longrightarrow> peer_ok words p'" for words
proof (unfold_locales, goal_cases)
  case (2 p p')
  then show ?case by (simp add: bookkeeping_def peer_ok_slots)
next
  case (3 p s)
  then show ?case using set_slot_ok keypair_ok_destroy by (metis peer_ok_def)
next
  case (4 p s t)
  then show ?case using set_slot_ok keypair_ok_sent by (metis peer_ok_def)
next
  case (5 p s n k t)
  then show ?case using set_slot_ok keypair_ok_received by (metis peer_ok_def)
next
  case (7 ts p)
  then show ?case by (simp add: peer_ok_slots)
qed (auto intro: peer_ok_rotate peer_ok_session)

section \<open>Peers keep their identity and their time stamps grow\<close>

definition same_identity :: "wireguard_peer \<Rightarrow> wireguard_peer \<Rightarrow> bool" where
  "same_identity p p' \<longleftrightarrow> pr_valid p' = pr_valid p \<and> pr_public_key p' = pr_public_key p
     \<and> pr_public_key_dh p' = pr_public_key_dh p \<and> pr_preshared_key p' = pr_preshared_key p
     \<and> pr_allowed_source_ips p' = pr_allowed_source_ips p
     \<and> (length (pr_greatest_timestamp p) = 12 \<longrightarrow> length (pr_greatest_timestamp p') = 12
          \<and> memcmp (pr_greatest_timestamp p') (pr_greatest_timestamp p) \<ge> 0)"

lemma memcmp_ge_trans:
  assumes "length a = n" "length b = n" "length c = n" "memcmp b a \<ge> 0" "memcmp c b \<ge> 0"
  shows "memcmp c a \<ge> 0"
proof (rule ccontr)
  assume "\<not> memcmp c a \<ge> 0"
  moreover have "memcmp a b \<le> 0" using assms memcmp_antisym [of a b] by simp
  ultimately have "memcmp c b < 0"
    using assms memcmp_trans [of c a b] memcmp_eq_0 [of a b] by (cases "a = b") auto
  then show False using assms by simp
qed

interpretation wg_identity: peer_relation same_identity
proof (unfold_locales, goal_cases)
  case (1 p q r)
  then show ?case
    using memcmp_ge_trans [of "pr_greatest_timestamp p" 12 "pr_greatest_timestamp q" "pr_greatest_timestamp r"]
    by (simp add: same_identity_def)
next
  case (2 p p')
  then show ?case by (simp add: same_identity_def bookkeeping_def)
next
  case (3 p s)
  then show ?case by (cases s) (simp_all add: same_identity_def)
next
  case (4 p s t)
  then show ?case by (cases s) (simp_all add: same_identity_def)
next
  case (5 p s n k t)
  then show ?case by (cases s) (simp_all add: same_identity_def)
next
  case (6 p s)
  then show ?case by (simp add: same_identity_def keypair_update_def Let_def)
next
  case (7 ts p)
  then show ?case by (simp add: same_identity_def)
next
  case (8 p os b)
  obtain h k where "wireguard_start_session os p b = add_new_keypair (p\<lparr>pr_handshake := h\<rparr>) k"
    using start_session_shape [of os p b] by blast
  then show ?case by (simp add: same_identity_def add_new_keypair_def Let_def)
qed

section \<open>What an initiation message contains\<close>

text \<open>The peer and the time stamp a message authenticates to the device, or nothing.\<close>

definition opened :: "dh \<Rightarrow> wireguard_device \<Rightarrow> message_handshake_initiation \<Rightarrow> (nat \<times> bytes) option" where
  "opened X dev msg =
     (let h = wireguard_mix_hash (wireguard_mix_hash identifier_hash (dv_public_key dev)) (mi_ephemeral msg);
          es = snd (X (dv_private_key dev) (mi_ephemeral msg));
          (c, k) = wireguard_kdf2 (wireguard_kdf1 construction_hash (mi_ephemeral msg)) es
      in if crypto_equal es zero_key then None
         else case chacha20poly1305_decrypt (mi_enc_static msg) h 0 k of
           None \<Rightarrow> None
         | Some s \<Rightarrow> (case peer_lookup_by_pubkey dev s of
             None \<Rightarrow> None
           | Some i \<Rightarrow> map_option (Pair i)
               (chacha20poly1305_decrypt (mi_enc_timestamp msg) (wireguard_mix_hash h (mi_enc_static msg)) 0
                  (snd (wireguard_kdf2 c (pr_public_key_dh (peer_at dev i)))))))"

definition admissible :: "wireguard_peer \<Rightarrow> bytes \<Rightarrow> os \<Rightarrow> bool" where
  "admissible p ts os \<longleftrightarrow> memcmp ts (pr_greatest_timestamp p) > 0
     \<and> (pr_last_initiation_rx p = 0 \<or> wireguard_sys_now os - pr_last_initiation_rx p \<ge> 1000 div MAX_INITIATIONS_PER_SECOND)"

lemma process_initiation_cases:
  "case opened X dev m of
     None \<Rightarrow> wireguard_process_initiation_message X dev m os = (None, dev)
   | Some (i, ts) \<Rightarrow>
       if admissible (peer_at dev i) ts os
       then i < length (dv_peers dev) \<and> (\<exists>hs. wireguard_process_initiation_message X dev m os =
          (Some i, put_peer i ((peer_at dev i)\<lparr>pr_last_initiation_rx := wireguard_sys_now os,
             pr_greatest_timestamp := ts, pr_handshake := hs\<rparr>) dev))
       else wireguard_process_initiation_message X dev m os = (None, dev)"
proof -
  define h where "h = wireguard_mix_hash (wireguard_mix_hash identifier_hash (dv_public_key dev)) (mi_ephemeral m)"
  obtain r es where X: "X (dv_private_key dev) (mi_ephemeral m) = (r, es)" by fastforce
  obtain c k where kdf: "wireguard_kdf2 (wireguard_kdf1 construction_hash (mi_ephemeral m)) es = (c, k)" by fastforce
  note unf = wireguard_process_initiation_message_def opened_def Let_def X kdf h_def [symmetric] prod.case snd_conv
  show ?thesis
  proof (cases "crypto_equal es zero_key")
    case True
    then show ?thesis by (simp add: unf)
  next
    case ne: False
    show ?thesis
    proof (cases "chacha20poly1305_decrypt (mi_enc_static m) h 0 k")
      case None
      then show ?thesis using ne by (simp add: unf)
    next
      case (Some s)
      note s = Some
      show ?thesis
      proof (cases "peer_lookup_by_pubkey dev s")
        case None
        then show ?thesis using ne s by (simp add: unf)
      next
        case (Some i)
        obtain c2 k2 where kdf2: "wireguard_kdf2 c (pr_public_key_dh (peer_at dev i)) = (c2, k2)" by fastforce
        show ?thesis
        proof (cases "chacha20poly1305_decrypt (mi_enc_timestamp m) (wireguard_mix_hash h (mi_enc_static m)) 0 k2")
          case None
          then show ?thesis using ne s Some by (simp add: unf kdf2)
        next
          case ts: (Some ts)
          then have "opened X dev m = Some (i, ts)" using ne s Some by (simp add: unf kdf2)
          then show ?thesis
            using ne s Some ts lookup_valid(3) [OF Some]
            by (auto simp: wireguard_process_initiation_message_def Let_def X kdf h_def [symmetric] kdf2 admissible_def not_le not_less)
        qed
      qed
    qed
  qed
qed

lemma opened_stable:
  assumes "wg_identity.lift_dev dev dev'"
  shows "opened X dev' m = opened X dev m"
proof -
  have len: "length (dv_peers dev') = length (dv_peers dev)"
    and p: "\<And>i. i < length (dv_peers dev) \<Longrightarrow> same_identity (dv_peers dev ! i) (dv_peers dev' ! i)"
    using assms by (auto simp: wg_identity.lift_dev_def peer_at_def)
  have lookup: "peer_lookup_by_pubkey dev' s = peer_lookup_by_pubkey dev s" for s
    unfolding peer_lookup_by_pubkey_def
  proof (rule find_index_cong [OF len])
    show "i < length (dv_peers dev) \<Longrightarrow>
      (pr_valid (dv_peers dev' ! i) \<and> memcmp (pr_public_key (dv_peers dev' ! i)) s = 0) =
      (pr_valid (dv_peers dev ! i) \<and> memcmp (pr_public_key (dv_peers dev ! i)) s = 0)" for i
      using p [of i] by (simp add: same_identity_def)
  qed
  have dh: "peer_lookup_by_pubkey dev s = Some i \<Longrightarrow> pr_public_key_dh (peer_at dev' i) = pr_public_key_dh (peer_at dev i)" for s i
    using p [of i] lookup_valid(3) [of dev s i] by (simp add: same_identity_def peer_at_def)
  have keys: "dv_public_key dev' = dv_public_key dev" "dv_private_key dev' = dv_private_key dev"
    using assms by (simp_all add: wg_identity.lift_dev_def)
  show ?thesis unfolding opened_def Let_def split_def lookup keys
    by (auto simp: dh split: option.split)
qed

section \<open>Properties of runs\<close>

text \<open>
  C2. A handshake initiation is accepted at most once. After a device has accepted an initiation of
  a peer, it accepts neither that message nor any older or equally old one of that peer again,
  whatever datagrams, timers, transmissions and interface changes come in between; a rejected
  initiation leaves the device as it was.
\<close>

theorem initiation_accepted_once:
  assumes acc: "wireguard_process_initiation_message X dev m os = (Some i, nd_wg priv1)"
    and run: "wg_run X cfg (priv1, os1) (priv2, os2)"
    and op: "opened X dev m = Some (i, ts)" "opened X dev m' = Some (i, ts')" "memcmp ts' ts \<le> 0"
    and len: "length ts = 12" "length ts' = 12" "length (pr_greatest_timestamp (peer_at dev i)) = 12"
  shows "wireguard_process_initiation_message X (nd_wg priv2) m' os3 = (None, nd_wg priv2)"
proof -
  have i: "i < length (dv_peers dev)" using acc process_initiation_Some by blast
  obtain hs where dev1: "nd_wg priv1 = put_peer i ((peer_at dev i)\<lparr>pr_last_initiation_rx := wireguard_sys_now os,
             pr_greatest_timestamp := ts, pr_handshake := hs\<rparr>) dev" and new: "memcmp ts (pr_greatest_timestamp (peer_at dev i)) > 0"
    using process_initiation_cases [of X dev m os] acc op(1) by (auto simp: admissible_def split: if_splits)
  have "same_identity (peer_at dev i) (peer_at (nd_wg priv1) i)"
    using i len new by (simp add: dev1 same_identity_def)
  then have 1: "wg_identity.lift_dev dev (nd_wg priv1)" unfolding dev1 using i by (intro wg_identity.lift_put) simp
  have 2: "wg_identity.lift_dev (nd_wg priv1) (nd_wg priv2)" by (rule wg_identity.run_lift [OF run])
  have "pr_greatest_timestamp (peer_at (nd_wg priv1) i) = ts" using i by (simp add: dev1)
  then have "memcmp (pr_greatest_timestamp (peer_at (nd_wg priv2) i)) ts \<ge> 0" "length (pr_greatest_timestamp (peer_at (nd_wg priv2) i)) = 12"
    using 2 i len unfolding wg_identity.lift_dev_def dev1 same_identity_def by auto
  moreover have "memcmp ts ts' \<ge> 0" using op(3) len memcmp_antisym [of ts ts'] by simp
  ultimately have "memcmp (pr_greatest_timestamp (peer_at (nd_wg priv2) i)) ts' \<ge> 0"
    using len memcmp_ge_trans [of ts' 12 ts "pr_greatest_timestamp (peer_at (nd_wg priv2) i)"] by simp
  then have "\<not> admissible (peer_at (nd_wg priv2) i) ts' os3"
    using len \<open>length (pr_greatest_timestamp (peer_at (nd_wg priv2) i)) = 12\<close>
      memcmp_antisym [of ts' "pr_greatest_timestamp (peer_at (nd_wg priv2) i)"] by (simp add: admissible_def)
  moreover have "opened X (nd_wg priv2) m' = Some (i, ts')"
    using opened_stable [OF wg_identity.lift_trans [OF 1 2]] op(2) by simp
  ultimately show ?thesis using process_initiation_cases [of X "nd_wg priv2" m' os3] by simp
qed

lemma sample_initiation:
  "\<exists>m1 devI1 osI1. wireguard_create_handshake_initiation toy_dh (sample_device 1 2) 0 (sample_os 7) = Some (True, m1, devI1, osI1)
     \<and> fst (wireguard_process_initiation_message toy_dh (sample_device 2 1) m1 (sample_os 8)) = Some 0
     \<and> opened toy_dh (sample_device 2 1) m1 = Some (0, wireguard_tai64n_now (sample_os 7))"
proof -
  let ?I = "sample_device 1 2" and ?R = "sample_device 2 1"
  have pk: "pr_public_key (peer_at ?I 0) = snd (toy_dh (replicate 32 2) basepoint)"
    and zero: "pr_greatest_timestamp (peer_at ?R 0) = zeroes 12" "pr_last_initiation_rx (peer_at ?R 0) = 0"
    by (simp_all add: sample_device_def Let_def peer_at_def zero_peer_def)
  have acc: "index_accepted ?I 0x0302010A"
    by (simp add: index_accepted_def index_existing_last sample_device_def Let_def peer_uses_index_def
        zero_peer_def zero_keypair_def zero_handshake_def)
  obtain m1 devI1 osI1 where m1: "wireguard_create_handshake_initiation toy_dh ?I 0 (sample_os 7) = Some (True, m1, devI1, osI1)"
    using create_initiation_succeeds [OF sample_private_key [of 7], of toy_dh ?I 0] sample_values acc
    by (auto simp: pk sample_index toy_dh_def)
  have fresh: "memcmp (wireguard_tai64n_now (sample_os 7)) (pr_greatest_timestamp (peer_at ?R 0)) > 0"
    using sample_time_after_zero by (simp add: zero)
  note got = initiation_delivered [OF sample_paired toy_commutes toy_commutes m1 fresh, of "sample_os 8"]
  then have g: "wireguard_process_initiation_message toy_dh ?R m1 (sample_os 8) =
      (Some 0, snd (wireguard_process_initiation_message toy_dh ?R m1 (sample_os 8)))"
    by (simp add: zero)
  obtain ts where o: "opened toy_dh ?R m1 = Some (0, ts)"
    using process_initiation_cases [of toy_dh ?R m1 "sample_os 8"] g
    by (auto split: option.splits prod.splits if_splits)
  have "pr_greatest_timestamp (peer_at (snd (wireguard_process_initiation_message toy_dh ?R m1 (sample_os 8))) 0) = ts"
    using process_initiation_cases [of toy_dh ?R m1 "sample_os 8"] g o by (auto split: if_splits)
  moreover have "0 < length (dv_peers ?R)" by (simp add: sample_device_def Let_def)
  ultimately have "ts = wireguard_tai64n_now (sample_os 7)" using got zero by simp
  then show ?thesis using m1 g o by (metis fst_conv)
qed

theorem initiation_accepted_once_witness:
  "\<exists>m dev1. wireguard_process_initiation_message toy_dh (sample_device 2 1) m (sample_os 8) = (Some 0, dev1)
     \<and> wireguard_process_initiation_message toy_dh dev1 m (sample_os 9) = (None, dev1)"
proof -
  obtain m where m: "fst (wireguard_process_initiation_message toy_dh (sample_device 2 1) m (sample_os 8)) = Some 0"
    "opened toy_dh (sample_device 2 1) m = Some (0, wireguard_tai64n_now (sample_os 7))"
    using sample_initiation by blast
  then obtain dev1 where d: "wireguard_process_initiation_message toy_dh (sample_device 2 1) m (sample_os 8) = (Some 0, dev1)"
    by (cases "wireguard_process_initiation_message toy_dh (sample_device 2 1) m (sample_os 8)") auto
  let ?priv = "(sample_netdev sample_keypair)\<lparr>nd_wg := dev1\<rparr>"
  have "length (pr_greatest_timestamp (peer_at (sample_device 2 1) 0)) = 12"
    by (simp add: sample_device_def Let_def peer_at_def zero_peer_def)
  then have "wireguard_process_initiation_message toy_dh (nd_wg ?priv) m (sample_os 9) = (None, nd_wg ?priv)"
    using initiation_accepted_once [of toy_dh "sample_device 2 1" m "sample_os 8" 0 ?priv sample_config "sample_os 8" ?priv "sample_os 8",
      OF _ rtranclp.rtrancl_refl m(2) m(2)] d by simp
  then show ?thesis using d by auto
qed

text \<open>The windows and counters of every key pair stay well-formed in every run.\<close>

lemma keypairs_stay_ok:
  assumes "wg_run X cfg (priv, os) (priv', os')"
    and "0 < words" "words < 2 ^ 32" "\<forall>i < length (dv_peers (nd_wg priv)). peer_ok words (nd_peer priv i)"
  shows "\<forall>i < length (dv_peers (nd_wg priv')). \<forall>s. let k = slot_keypair (nd_peer priv' i) s in
     kp_sending_counter k \<le> REJECT_AFTER_MESSAGES \<and> length (kp_replay_bitmap k) = words \<and> (\<exists>H. replay_inv H k)"
proof (intro allI impI)
  fix i s
  assume "i < length (dv_peers (nd_wg priv'))"
  then have "peer_ok words (nd_peer priv' i)"
    using wg_windows.run_lift [OF assms(1), of words] assms(2-)
    unfolding wg_windows.lift_dev_def nd_peer_def by simp
  then show "let k = slot_keypair (nd_peer priv' i) s in
     kp_sending_counter k \<le> REJECT_AFTER_MESSAGES \<and> length (kp_replay_bitmap k) = words \<and> (\<exists>H. replay_inv H k)"
    by (simp add: peer_ok_def keypair_ok_def Let_def)
qed

end
