(* ===== verification/Shutdown.thy ===== *)
theory Shutdown
  imports System Routing
begin

text \<open>
  Taking the interface down: every session and handshake is wiped, and a peer without them gives the
  timers, the transmit path and the receive path nothing to do.
\<close>

lemma fold_route_step_in:
  "fst (fold route_step l st) = Some x \<Longrightarrow> x \<in> fst ` set l \<or> fst st = Some x"
proof (induction l arbitrary: st)
  case (Cons xm l)
  from Cons.IH [of "route_step xm st"] Cons.prems show ?case
    by (cases xm; cases st) (auto simp: route_step_def split: if_splits)
qed simp

lemma route_valid:
  assumes "wg_peer_for_dest priv dest = Some x"
  shows "x < length (dv_peers (nd_wg priv)) \<and> pr_valid (nd_peer priv x)"
proof -
  have "x \<in> fst ` set (routes priv dest)"
    using assms fold_route_step_in [of "routes priv dest" "(None, 0)" x] by (simp add: wg_peer_for_dest_routes)
  then show ?thesis by (auto simp: set_routes)
qed

section \<open>A closed interface is quiet\<close>

text \<open>A peer without sessions, handshake or reason to start one.\<close>

definition quiet_peer :: "wireguard_peer \<Rightarrow> bool" where
  "quiet_peer p \<longleftrightarrow> (\<forall>s. \<not> kp_valid (slot_keypair p s)) \<and> \<not> hs_valid (pr_handshake p)
     \<and> \<not> pr_active p \<and> \<not> pr_send_handshake p"

definition quiet :: "wg_netdev_s \<Rightarrow> bool" where
  "quiet priv \<longleftrightarrow> (\<forall>p \<in> set (dv_peers (nd_wg priv)). pr_valid p \<longrightarrow> quiet_peer p)"

lemma quiet_peer_slots:
  "quiet_peer p \<Longrightarrow> \<not> kp_valid (pr_curr_keypair p) \<and> \<not> kp_valid (pr_prev_keypair p) \<and> \<not> kp_valid (pr_next_keypair p)"
  unfolding quiet_peer_def by (metis slot_keypair.simps)

lemma quiet_after_down: "quiet (wg_ifdown priv)"
proof -
  have "quiet_peer (ifdown_peer p)" if "pr_valid p" for p
  proof -
    have "\<not> kp_valid (slot_keypair (ifdown_peer p) s)" for s
      using that by (cases s) (simp_all add: ifdown_peer_def)
    then show ?thesis using that by (simp add: quiet_peer_def ifdown_peer_def zero_handshake_def)
  qed
  then show ?thesis by (auto simp: quiet_def wg_ifdown_def Let_def ifdown_peer_def)
qed

lemma quiet_at: "quiet priv \<Longrightarrow> i < length (dv_peers (nd_wg priv)) \<Longrightarrow> pr_valid (nd_peer priv i) \<Longrightarrow> quiet_peer (nd_peer priv i)"
  by (simp add: quiet_def nd_peer_def peer_at_def)

lemma quiet_send:
  assumes "quiet_peer (nd_peer priv i)"
  shows "wg_encrypt_and_send priv i p os = (False, priv, os)"
  using assms quiet_peer_def by (auto simp: wg_encrypt_and_send_def Let_def)

lemma quiet_txpoll:
  assumes "quiet priv"
  shows "wg_txpoll priv p os = (priv, os)"
proof (cases "wg_peer_for_dest priv (ip_field 16 p)")
  case (Some i)
  then have "quiet_peer (nd_peer priv i)" using quiet_at [OF assms] route_valid [OF Some] by blast
  then show ?thesis by (simp add: wg_txpoll_def Some quiet_send)
qed (simp add: wg_txpoll_def)

lemma quiet_txavail: "quiet priv \<Longrightarrow> wg_txavail_work ps priv os = (priv, os)"
  by (induction ps) (simp_all add: quiet_txpoll)

lemma quiet_timer_peer:
  assumes "quiet priv" "x < length (dv_peers (nd_wg priv))"
  shows "timer_peer X priv x os = Some (False, priv, os)"
proof (cases "pr_valid (nd_peer priv x)")
  case False
  then show ?thesis by (simp add: timer_peer_def)
next
  case True
  then have q: "quiet_peer (nd_peer priv x)" by (rule quiet_at [OF assms])
  note s = quiet_peer_slots [OF q]
  have "timer_expiry priv x os = priv" using s by (simp add: timer_expiry_def Let_def)
  moreover have "timer_keepalive priv x os = (priv, os)" using s by (simp add: timer_keepalive_def Let_def)
  moreover have "\<not> should_initiate (nd_peer priv x) os"
    using q s by (simp add: should_initiate_def quiet_peer_def Let_def)
  ultimately show ?thesis using True s by (simp add: timer_peer_def Let_def)
qed

lemma quiet_timer_peers:
  "quiet priv \<Longrightarrow> \<forall>x \<in> set xs. x < length (dv_peers (nd_wg priv)) \<Longrightarrow> timer_peers X xs up priv os = Some (up, priv, os)"
  by (induction xs arbitrary: up) (simp_all add: quiet_timer_peer)

lemma quiet_timers: "quiet priv \<Longrightarrow> wg_run_timers X priv os = Some (priv\<lparr>nd_carrier := False\<rparr>, os)"
  by (simp add: wg_run_timers_def quiet_timer_peers)

lemma quiet_lookups:
  assumes "quiet priv"
  shows "peer_lookup_by_handshake (nd_wg priv) r = None" "peer_lookup_by_receiver (nd_wg priv) r = None"
  using assms quiet_peer_slots
  by (auto simp: peer_lookup_by_handshake_def peer_lookup_by_receiver_def find_index_None quiet_def quiet_peer_def holds_receiver_def)

text \<open>
  C12. Taking the interface down ends every session and silences it: afterwards, until something
  other than these changes its state, the timers, a transmission by the stack and every received
  datagram except a handshake initiation leave the interface as it is (the timers keep its carrier
  off), send nothing and deliver nothing.
\<close>

theorem down_is_quiet:
  "let down = wg_ifdown priv in
     quiet down
   \<and> wg_run_timers X down os = Some (down, os)
   \<and> wg_txavail_work packets down os = (down, os)
   \<and> (wireguard_get_message_type data = MESSAGE_HANDSHAKE_INITIATION \<or> wg_process_udp_packet X cfg down data addr port os = Some (down, os))"
proof -
  let ?d = "wg_ifdown priv"
  note q = quiet_after_down [of priv]
  have "nd_carrier ?d = False" by (simp add: wg_ifdown_def Let_def)
  then have "?d\<lparr>nd_carrier := False\<rparr> = ?d" by simp
  moreover have "wireguard_get_message_type data = MESSAGE_HANDSHAKE_INITIATION \<or> wg_process_udp_packet X cfg ?d data addr port os = Some (?d, os)"
    by (auto simp: wg_process_udp_packet_def udp_response_def udp_cookie_def udp_transport_def quiet_lookups [OF q] Let_def)
  ultimately show ?thesis
    using q quiet_timers [OF q, of X os] quiet_txavail [OF q, of packets os] unfolding Let_def by metis
qed

end
