(* ===== verification/Admission.thy ===== *)
theory Admission
  imports System
begin

text \<open>
  How the interface answers handshake initiations: the size and destination of the reply, and the
  protection against floods. Drawing random bytes is shown to change nothing but the entropy position.
\<close>

section \<open>Drawing random bytes has no other effect\<close>

definition only_entropy :: "os \<Rightarrow> os \<Rightarrow> bool" where
  "only_entropy os os' \<longleftrightarrow> (\<exists>p. os' = os\<lparr>urandom_pos := p\<rparr>)"

lemma only_entropy_refl [simp]: "only_entropy os os"
  unfolding only_entropy_def by (rule exI [of _ "urandom_pos os"]) simp

lemma only_entropy_trans: "only_entropy a b \<Longrightarrow> only_entropy b c \<Longrightarrow> only_entropy a c"
  by (auto simp: only_entropy_def)

lemma only_entropyD:
  "only_entropy os os' \<Longrightarrow> udp_calls os' = udp_calls os \<and> stack_input os' = stack_input os \<and> udp_ok os' = udp_ok os
     \<and> clock_monotonic os' = clock_monotonic os"
  by (auto simp: only_entropy_def)

lemma entropy_next: "only_entropy os (snd (urandom_next os))"
  by (auto simp: only_entropy_def urandom_next_def)

lemma entropy_read: "only_entropy os (snd (urandom_read sz dst os))"
proof (induction sz dst os rule: urandom_read.induct)
  case (1 sz dst os)
  have "only_entropy os (snd (urandom_next os))" by (rule entropy_next)
  then show ?case using 1
    by (subst urandom_read.simps) (auto split: prod.splits io_event.splits intro: only_entropy_trans simp: Let_def)
qed

lemma entropy_random: "only_entropy os (snd (wireguard_random_bytes sz os))"
  using entropy_next [of os] entropy_read only_entropy_trans
  by (fastforce simp: wireguard_random_bytes_def split: prod.splits io_event.splits)

lemma entropy_private_key: "only_entropy os (snd (wireguard_generate_private_key os))"
  using entropy_random [of os 32] by (simp add: wireguard_generate_private_key_def split_def Let_def)

lemma entropy_draw: "only_entropy os (snd (nth_draw n os))"
proof (induction n arbitrary: os)
  case 0
  then show ?case using entropy_random [of os 4] by (simp add: nth_draw_0 draw_def split_def Let_def)
next
  case (Suc n)
  have "only_entropy os (snd (draw os))" using entropy_random [of os 4] by (simp add: draw_def split_def Let_def)
  then show ?case using Suc [of "snd (draw os)"] by (auto simp: nth_draw_Suc intro: only_entropy_trans)
qed

lemma entropy_index: "wireguard_generate_unique_index dev os = Some (r, os') \<Longrightarrow> only_entropy os os'"
  using generated_index(2) entropy_draw by (metis snd_conv)

section \<open>The reply to an initiation\<close>

text \<open>What the size of a response depends on: the X25519 output and the sizes of two stored keys.\<close>

definition dh_sized :: "dh \<Rightarrow> bool" where
  "dh_sized X \<longleftrightarrow> (\<forall>a b. length (snd (X a b)) = 32)"

definition keys_sized :: "wireguard_peer \<Rightarrow> bool" where
  "keys_sized p \<longleftrightarrow> length (pr_label_mac1_key p) \<le> 32 \<and> length (pr_cookie p) \<le> 32"

lemma response_macs_wf:
  assumes "keys_sized p" "length (mr_reserved m) = 3" "length (mr_ephemeral m) = 32" "length (mr_enc_empty m) = 16"
  shows "response_wf (response_macs p m os)"
  using assms by (simp add: response_macs_def response_wf_def Let_def keys_sized_def length_wireguard_mac)

lemma created_response:
  assumes create: "wireguard_create_handshake_response X dev i os = Some (True, m, dev', os')" and X: "dh_sized X"
  shows "\<exists>pub k h r c e. length pub = 32 \<and> m = response_macs (peer_at dev i)
       \<lparr>mr_type = MESSAGE_HANDSHAKE_RESPONSE, mr_reserved = zeroes 3, mr_sender = r, mr_receiver = c, mr_ephemeral = pub,
        mr_enc_empty = chacha20poly1305_encrypt [] h 0 k, mr_mac1 = zeroes 16, mr_mac2 = zeroes 16\<rparr> e"
proof -
  obtain priv os1 where g: "wireguard_generate_private_key os = (priv, os1)" by fastforce
  obtain ok pub where pub: "wireguard_generate_public_key X (zeroes 32) priv = (ok, pub)" by fastforce
  have "\<exists>e k h r c. m = response_macs (peer_at dev i)
       \<lparr>mr_type = MESSAGE_HANDSHAKE_RESPONSE, mr_reserved = zeroes 3, mr_sender = r, mr_receiver = c, mr_ephemeral = pub,
        mr_enc_empty = chacha20poly1305_encrypt [] h 0 k, mr_mac1 = zeroes 16, mr_mac2 = zeroes 16\<rparr> e \<and> ok"
    using create unfolding wireguard_create_handshake_response_def Let_def g blank_response_def
    by (clarsimp simp: pub split: prod.splits if_splits option.splits; blast)
  moreover have "ok \<Longrightarrow> length pub = 32" using generate_public_key_True [OF pub] X by (simp add: dh_sized_def)
  ultimately show ?thesis by blast
qed

lemma entropy_initiation:
  assumes "wireguard_create_handshake_initiation X dev i os = Some (ok, m, dev', os')"
  shows "only_entropy os os'"
  using assms entropy_private_key [of os] unfolding wireguard_create_handshake_initiation_def Let_def
  by (auto split: prod.splits if_splits option.splits dest!: entropy_index intro: only_entropy_trans)

lemma entropy_response:
  assumes "wireguard_create_handshake_response X dev i os = Some (ok, m, dev', os')"
  shows "only_entropy os os'"
  using assms entropy_private_key [of os] unfolding wireguard_create_handshake_response_def Let_def
  by (auto split: prod.splits if_splits option.splits dest!: entropy_index intro: only_entropy_trans)

lemma entropy_now: "only_entropy os os' \<Longrightarrow> wireguard_sys_now os' = wireguard_sys_now os"
  by (rule wireguard_sys_now_cong) (simp add: only_entropyD)

lemma create_response_reply:
  assumes create: "wireguard_create_handshake_response X dev i os = Some (ok, m, dev', os')"
    and X: "dh_sized X" and p: "keys_sized (peer_at dev i)"
  shows "only_entropy os os'" "ok \<Longrightarrow> response_wf m"
proof -
  show "only_entropy os os'" by (rule entropy_response [OF create])
  assume ok
  then show "response_wf m" using created_response [OF _ X, of dev i os m] create response_macs_wf [OF p] by (fastforce simp: length_encrypt)
qed

lemma entropy_cookie: "generate_peer_cookie dev src os = (c, dev', os') \<Longrightarrow> only_entropy os os'"
  using entropy_random [of os 32]
  by (auto simp: generate_peer_cookie_def generate_cookie_secret_def Let_def split: if_splits prod.splits)

lemma admit_entropy: "admit_initiation cfg priv data mac2 addr port os = (ok, priv', os') \<Longrightarrow> only_entropy os os'"
  by (auto simp: admit_initiation_def wireguard_check_mac2_def Let_def split: prod.splits if_splits dest: entropy_cookie)

lemma under_load_frame: "wg_under_load cfg priv os = (l, priv') \<Longrightarrow> nd_wg priv' = nd_wg priv"
  by (auto simp: wg_under_load_def Let_def split: if_splits)

lemma admit_peers: "admit_initiation cfg priv data mac2 addr port os = (ok, priv', os') \<Longrightarrow> dv_peers (nd_wg priv') = dv_peers (nd_wg priv)"
  by (auto simp: admit_initiation_def wireguard_check_mac2_def Let_def split: prod.splits if_splits
      dest!: generate_peer_cookie_frame under_load_frame)

lemma length_xchacha [len_simps]: "length (xchacha20poly1305_encrypt src ad nonce key) = length src + 16"
  by (simp add: xchacha20poly1305_encrypt_def length_encrypt)

lemma generate_cookie_length:
  assumes "generate_peer_cookie dev src os = (c, dev', os')" and "length (dv_cookie_secret dev) \<le> 32"
  shows "length c = 16"
  using assms
  by (auto simp: generate_peer_cookie_def generate_cookie_secret_def Let_def length_blake2s_parts
      split: if_splits prod.splits dest!: random_bytesD)

lemma cookie_reply_effect:
  assumes "wg_send_cookie_reply priv mac1 idx addr port os = (priv', os')" and "length (dv_cookie_secret (nd_wg priv)) \<le> 32"
  shows "dv_peers (nd_wg priv') = dv_peers (nd_wg priv) \<and> stack_input os' = stack_input os
    \<and> (\<exists>d. udp_calls os' = udp_calls os @ [\<lparr>dg_data = d, dg_addr = addr, dg_port = port\<rparr>] \<and> length d = 64)"
proof -
  obtain nonce os1 where n: "wireguard_random_bytes 24 os = (nonce, os1)" by fastforce
  obtain c dev os2 where c: "generate_peer_cookie (nd_wg priv) (wg_source_addr_port addr port) os1 = (c, dev, os2)"
    by (metis prod_cases3)
  have o: "only_entropy os os2" using entropy_random [of os 24] n entropy_cookie [OF c] by (auto intro: only_entropy_trans)
  have len: "length c = 16" by (rule generate_cookie_length [OF c assms(2)])
  have "length nonce = 24" using n random_bytes_length [of 24 os] by simp
  then show ?thesis
    using assms(1) n c o len generate_peer_cookie_frame [OF c]
    by (auto simp: wg_send_cookie_reply_def wireguard_create_cookie_reply_def psock_sendto_def Let_def
        cookie_reply_length cookie_reply_wf_def length_xchacha dest: only_entropyD)
qed


lemma admit_secret:
  "admit_initiation cfg priv data mac2 addr port os = (ok, priv', os') \<Longrightarrow> length (dv_cookie_secret (nd_wg priv)) = 32 \<Longrightarrow>
     length (dv_cookie_secret (nd_wg priv')) \<le> 32"
  by (auto simp: admit_initiation_def wireguard_check_mac2_def generate_peer_cookie_def generate_cookie_secret_def Let_def
      split: prod.splits if_splits dest!: under_load_frame random_bytesD)

lemma put_handshake_frame:
  "pr_ip (peer_at (put_peer i ((peer_at dev i)\<lparr>pr_handshake := h\<rparr>) dev) i) = pr_ip (peer_at dev i)"
  "pr_port (peer_at (put_peer i ((peer_at dev i)\<lparr>pr_handshake := h\<rparr>) dev) i) = pr_port (peer_at dev i)"
  by (cases "i < length (dv_peers dev)"; simp add: put_peer_def peer_at_def list_update_beyond)+

lemma start_session_endpoint [simp]:
  "pr_ip (wireguard_start_session os p b) = pr_ip p" "pr_port (wireguard_start_session os p b) = pr_port p"
  using start_session_shape [of os p b] by (auto simp: add_new_keypair_def Let_def)

lemma send_response_effect:
  assumes run: "wg_send_handshake_response X priv i os = Some (priv', os')"
    and sized: "dh_sized X" "keys_sized (nd_peer priv i)"
  shows "stack_input os' = stack_input os \<and> (\<exists>ds. udp_calls os' = udp_calls os @ ds \<and> length ds \<le> 1
    \<and> (\<forall>d \<in> set ds. dg_addr d = pr_ip (nd_peer priv i) \<and> dg_port d = pr_port (nd_peer priv i) \<and> length (dg_data d) = 92))"
proof -
  obtain ok m dev os1 where c: "wireguard_create_handshake_response X (nd_wg priv) i os = Some (ok, m, dev, os1)"
    using run by (auto simp: wg_send_handshake_response_def split: option.splits)
  have o1: "only_entropy os os1" and m: "ok \<Longrightarrow> response_wf m"
    using create_response_reply [OF c sized(1)] sized(2) by (simp_all add: nd_peer_def)
  have ip: "pr_ip (peer_at dev i) = pr_ip (nd_peer priv i)" "pr_port (peer_at dev i) = pr_port (nd_peer priv i)"
    using create_response_shape [OF c] put_handshake_frame by (auto simp: nd_peer_def)
  show ?thesis
  proof (cases ok)
    case False
    then have "os' = os1" using run c by (simp add: wg_send_handshake_response_def Let_def)
    then show ?thesis using only_entropyD [OF o1] by (intro conjI exI [of _ "[]"]) auto
  next
    case True
    then have "os' = snd (psock_sendto (response_bytes m) (pr_ip (nd_peer priv i)) (pr_port (nd_peer priv i)) os1)"
      using run c ip by (simp add: wg_send_handshake_response_def Let_def nd_peer_def split: prod.splits)
    then show ?thesis
      using only_entropyD [OF o1] response_length [OF m [OF True]] by (simp add: psock_sendto_def)
  qed
qed

text \<open>
  C13. No amplification. A datagram that looks like a handshake initiation is answered, if at all,
  with one datagram, sent to the address and port it came from and shorter than itself (a response
  of 92 or a cookie reply of 64 bytes for 148 received); nothing reaches the stack; and without a
  valid \<open>mac1\<close> there is no answer and no change at all.
\<close>

theorem initiation_reply_bound:
  assumes run: "wg_process_udp_packet X cfg priv data addr port os = Some (priv', os')"
    and type: "wireguard_get_message_type data = MESSAGE_HANDSHAKE_INITIATION"
    and sized: "dh_sized X" "length (dv_cookie_secret (nd_wg priv)) = 32"
      "\<forall>i < length (dv_peers (nd_wg priv)). keys_sized (nd_peer priv i)"
  shows "stack_input os' = stack_input os
    \<and> (\<exists>ds. udp_calls os' = udp_calls os @ ds \<and> length ds \<le> 1
         \<and> (\<forall>d \<in> set ds. dg_addr d = addr \<and> dg_port d = port \<and> length (dg_data d) < length data))
    \<and> (wireguard_check_mac1 (nd_wg priv) (take 116 data) (mi_mac1 (initiation_of data)) \<or> priv' = priv \<and> os' = os)"
proof (cases "wireguard_check_mac1 (nd_wg priv) (take 116 data) (mi_mac1 (initiation_of data))")
  case False
  then show ?thesis
    using run type by (auto simp: wg_process_udp_packet_def udp_initiation_def Let_def split: if_splits)
next
  case mac1: True
  let ?msg = "initiation_of data"
  have len: "length data = 148"
    using type by (simp add: wireguard_get_message_type_def split: if_splits)
  obtain pass privM osM where m: "admit_initiation cfg priv data (mi_mac2 ?msg) addr port os = (pass, privM, osM)"
    by (metis prod_cases3)
  obtain found dev where p: "wireguard_process_initiation_message X (nd_wg privM) ?msg osM = (found, dev)" by fastforce
  have oM: "only_entropy os osM" by (rule admit_entropy [OF m])
  have peersM: "dv_peers (nd_wg privM) = dv_peers (nd_wg priv)" by (rule admit_peers [OF m])
  let ?P = "\<lambda>i. (nd_peer (privM\<lparr>nd_wg := dev\<rparr>) i)\<lparr>pr_ip := addr, pr_port := port\<rparr>"
  have run': "udp_initiation X cfg priv data addr port os = Some (priv', os')"
    using run type by (simp add: wg_process_udp_packet_def)
  consider "\<not> pass" "wg_send_cookie_reply privM (mi_mac1 ?msg) (mi_sender ?msg) addr port osM = (priv', os')"
    | "os' = osM"
    | i where "found = Some i" "wg_send_handshake_response X (nd_put i (?P i) (privM\<lparr>nd_wg := dev\<rparr>)) i osM = Some (priv', os')"
    using run' mac1 m p len by (cases pass; cases found) (auto simp: udp_initiation_def Let_def)
  then have "stack_input os' = stack_input os
    \<and> (\<exists>ds. udp_calls os' = udp_calls os @ ds \<and> length ds \<le> 1
         \<and> (\<forall>d \<in> set ds. dg_addr d = addr \<and> dg_port d = port \<and> length (dg_data d) < length data))"
  proof cases
    case 1
    have "length (dv_cookie_secret (nd_wg privM)) \<le> 32"
      using m sized(2) by (rule admit_secret)
    from cookie_reply_effect [OF 1(2) this] show ?thesis using only_entropyD [OF oM] len by auto
  next
    case 2
    then show ?thesis using only_entropyD [OF oM] by (intro conjI exI [of _ "[]"]) auto
  next
    case 3
    obtain ts hs where i: "i < length (dv_peers (nd_wg priv))" and dev: "dev = put_peer i ((peer_at (nd_wg privM) i)
        \<lparr>pr_last_initiation_rx := wireguard_sys_now osM, pr_greatest_timestamp := ts, pr_handshake := hs\<rparr>) (nd_wg privM)"
      using process_initiation_Some [of X "nd_wg privM" ?msg osM i dev] p 3(1) peersM by auto
    have at: "nd_peer (nd_put i (?P i) (privM\<lparr>nd_wg := dev\<rparr>)) i = ?P i"
      using i peersM by (simp add: dev)
    have "keys_sized (?P i)"
      using sized(3) i peersM by (simp add: dev nd_peer_def keys_sized_def) (simp add: peer_at_def)
    then show ?thesis
      using send_response_effect [OF 3(2) sized(1)] only_entropyD [OF oM] len by (auto simp: at)
  qed
  then show ?thesis using mac1 by blast
qed

theorem initiation_reply_bound_witness:
  "\<exists>priv' os'. wg_process_udp_packet (\<lambda>a b. (0, zeroes 32)) sample_config (sample_netdev sample_keypair) (1 # zeroes 147) 1 2 (sample_os 7) = Some (priv', os')
     \<and> stack_input os' = []"
proof -
  let ?X = "(\<lambda>a b. (0, zeroes 32)) :: dh" and ?data = "1 # zeroes 147 :: bytes"
  have t: "wireguard_get_message_type ?data = MESSAGE_HANDSHAKE_INITIATION"
    by (simp add: wireguard_get_message_type_def zeroes_def)
  have "wireguard_process_initiation_message ?X dev m os = (None, dev)" for dev m os
    by (simp add: wireguard_process_initiation_message_def zero_key_def crypto_equal_iff Let_def split_def)
  then obtain priv' os' where r: "wg_process_udp_packet ?X sample_config (sample_netdev sample_keypair) ?data 1 2 (sample_os 7) = Some (priv', os')"
    using t by (cases "wg_process_udp_packet ?X sample_config (sample_netdev sample_keypair) ?data 1 2 (sample_os 7)")
      (auto simp: wg_process_udp_packet_def udp_initiation_def Let_def split: if_splits prod.splits)
  have "stack_input os' = stack_input (sample_os 7)"
    using initiation_reply_bound [OF r t]
    by (simp add: dh_sized_def keys_sized_def sample_netdev_def sample_device_def nd_peer_def peer_at_def put_peer_def zero_peer_def Let_def)
  then show ?thesis using r by (simp add: sample_os_def)
qed



end
