(* ===== verification/Retry.thy ===== *)
theory Retry
  imports Admission
begin

text \<open>
  The timers keep trying to reach an active peer, at most once per \<open>REKEY_TIMEOUT\<close>.
\<close>

section \<open>Retrying a handshake\<close>

text \<open>
  C15. A peer that should be reachable gets a new handshake, and not too often: for a valid, active
  peer without a session whose last attempt is at least \<open>REKEY_TIMEOUT\<close> old, a turn of the timers
  sends the initiation to the peer's endpoint and notes the time, and no turn within the next
  \<open>REKEY_TIMEOUT\<close> seconds wants another one.
\<close>

theorem timer_retries_handshake:
  assumes x: "x < length (dv_peers (nd_wg priv))" "pr_valid (nd_peer priv x)" "pr_active (nd_peer priv x)"
    and no_session: "\<forall>s. \<not> kp_valid (slot_keypair (nd_peer priv x) s)"
    and due: "pr_last_initiation_tx (nd_peer priv x) = 0 \<or> wireguard_expired os (pr_last_initiation_tx (nd_peer priv x)) REKEY_TIMEOUT"
    and create: "wireguard_create_handshake_initiation X (nd_wg priv) x os = Some (True, m, dev, os1)"
  shows "\<exists>priv' os'. timer_peer X priv x os = Some (False, priv', os')
    \<and> udp_calls os' = udp_calls os @ [\<lparr>dg_data = initiation_bytes m, dg_addr = pr_ip (nd_peer priv x), dg_port = pr_port (nd_peer priv x)\<rparr>]
    \<and> (wireguard_expired os2 (wireguard_sys_now os) REKEY_TIMEOUT \<or> \<not> should_initiate (nd_peer priv' x) os2)"
proof -
  have none: "\<not> kp_valid (pr_curr_keypair (nd_peer priv x))" "\<not> kp_valid (pr_prev_keypair (nd_peer priv x))"
    using no_session by (metis slot_keypair.simps)+
  have t1: "timer_expiry priv x os = priv" "timer_keepalive priv x os = (priv, os)" "should_initiate (nd_peer priv x) os"
    using none due x by (simp_all add: timer_expiry_def timer_keepalive_def should_initiate_def Let_def)
  obtain hs where dev: "dev = put_peer x ((peer_at (nd_wg priv) x)\<lparr>pr_handshake := hs\<rparr>) (nd_wg priv)"
    using create_initiation_shape [OF create] by blast
  have at: "nd_peer (priv\<lparr>nd_wg := dev\<rparr>) x = (nd_peer priv x)\<lparr>pr_handshake := hs\<rparr>"
    using x by (simp add: dev nd_peer_def)
  have o1: "only_entropy os os1" by (rule entropy_initiation [OF create])
  have now: "wireguard_sys_now os1 = wireguard_sys_now os" by (rule entropy_now [OF o1])
  let ?d = "\<lparr>dg_data = initiation_bytes m, dg_addr = pr_ip (nd_peer priv x), dg_port = pr_port (nd_peer priv x)\<rparr>"
  define os' where "os' = os1\<lparr>udp_calls := udp_calls os1 @ [?d]\<rparr>"
  define P where "P = (nd_peer priv x)\<lparr>pr_handshake := hs, pr_send_handshake := False, pr_last_initiation_tx := wireguard_sys_now os,
          pr_handshake_mac1 := mi_mac1 m, pr_handshake_mac1_valid := True\<rparr>"
  define priv' where "priv' = nd_put x P (priv\<lparr>nd_wg := dev\<rparr>)"
  have now': "wireguard_sys_now os' = wireguard_sys_now os"
    unfolding now [symmetric] by (rule wireguard_sys_now_cong) (simp add: os'_def)
  have s: "wg_start_handshake X priv x os = Some (priv', os')"
    by (simp add: wg_start_handshake_def create at psock_sendto_def now' os'_def [symmetric] Let_def)
       (simp add: priv'_def P_def)
  have u: "udp_calls os' = udp_calls os1 @ [?d]" by (simp add: os'_def)
  have p: "nd_peer priv' x = P" using x by (simp add: priv'_def dev)
  have "timer_peer X priv x os = Some (False, priv', os')"
    using x t1 s p none by (simp add: P_def timer_peer_def Let_def)
  then show ?thesis
    using u only_entropyD [OF o1] p by (auto simp: P_def should_initiate_def Let_def)
qed

theorem timer_retries_handshake_witness:
  "\<exists>priv priv' os'. timer_peer toy_dh priv 0 (sample_os 7) = Some (False, priv', os') \<and> length (udp_calls os') = 1"
proof -
  let ?p = "(peer_at (sample_device 1 2) 0)\<lparr>pr_active := True\<rparr>"
  let ?dev = "put_peer 0 ?p (sample_device 1 2)"
  let ?priv = "(sample_netdev sample_keypair)\<lparr>nd_wg := ?dev\<rparr>"
  have len: "length (dv_peers (sample_device 1 2)) = 1" by (simp add: sample_device_def Let_def)
  have p: "nd_peer ?priv 0 = ?p" using len by (simp add: nd_peer_def)
  have z: "pr_valid ?p" "pr_last_initiation_tx ?p = 0" "\<not> kp_valid (slot_keypair ?p s)" for s
    by (cases s; simp add: sample_device_def Let_def peer_at_def zero_peer_def zero_keypair_def)+
  have pk: "pr_public_key (peer_at ?dev 0) = snd (toy_dh (replicate 32 2) basepoint)"
    using len by simp (simp add: sample_device_def Let_def peer_at_def)
  have acc: "index_accepted ?dev 0x0302010A"
    by (simp add: index_accepted_def index_existing_last sample_device_def Let_def peer_uses_index_def put_peer_def peer_at_def
        zero_peer_def zero_keypair_def zero_handshake_def)
  obtain m dev os1 where c: "wireguard_create_handshake_initiation toy_dh ?dev 0 (sample_os 7) = Some (True, m, dev, os1)"
    using create_initiation_succeeds [OF sample_private_key [of 7], of toy_dh ?dev 0] sample_values acc
    by (auto simp: pk sample_index toy_dh_def simp del: peer_at_put_peer)
  have c': "wireguard_create_handshake_initiation toy_dh (nd_wg ?priv) 0 (sample_os 7) = Some (True, m, dev, os1)"
    using c by simp
  have P: "0 < length (dv_peers (nd_wg ?priv))" "pr_valid (nd_peer ?priv 0)" "pr_active (nd_peer ?priv 0)"
    "\<forall>s. \<not> kp_valid (slot_keypair (nd_peer ?priv 0) s)"
    "pr_last_initiation_tx (nd_peer ?priv 0) = 0 \<or> wireguard_expired (sample_os 7) (pr_last_initiation_tx (nd_peer ?priv 0)) REKEY_TIMEOUT"
    using len z unfolding p by simp_all
  have "udp_calls (sample_os 7) = []" by (simp add: sample_os_def)
  then show ?thesis using timer_retries_handshake [OF P c', of "sample_os 7"] by (metis append_Nil length_Cons list.size(3) One_nat_def)
qed

end
