(* ===== verification/Tunnel.thy ===== *)
theory Tunnel
  imports Receive Send
begin

text \<open>
  The data path of both sides together: when an interface sends with a key pair that the other one can
  receive on (\<open>session_between\<close>), what goes in on one side comes out on the other.
\<close>

section \<open>One packet through the tunnel\<close>

text \<open>
  The key pair with which the interface \<open>A\<close> sends to its peer \<open>i\<close> belongs to a session that the peer
  \<open>j\<close> of \<open>B\<close> can receive on, at the times of both.
\<close>

definition session_between :: "wg_netdev_s \<Rightarrow> nat \<Rightarrow> os \<Rightarrow> wg_netdev_s \<Rightarrow> nat \<Rightarrow> os \<Rightarrow> bool" where
  "session_between A i osA B j osB \<longleftrightarrow>
     (let kA = slot_keypair (nd_peer A i) (send_slot (nd_peer A i))
      in kp_valid kA \<and> (kp_initiator kA \<or> kp_last_rx kA \<noteq> 0) \<and> \<not> wireguard_expired osA (kp_millis kA) REJECT_AFTER_TIME
       \<and> kp_sending_counter kA < REJECT_AFTER_MESSAGES
       \<and> peer_lookup_by_receiver (nd_wg B) (kp_remote_index kA) = Some j
       \<and> (\<exists>s. get_peer_keypair_for_idx (nd_peer B j) (kp_remote_index kA) = Some s
            \<and> (let kB = slot_keypair (nd_peer B j) s
               in kp_receiving_valid kB \<and> kp_receiving_key kB = kp_sending_key kA
                \<and> \<not> wireguard_expired osB (kp_millis kB) REJECT_AFTER_TIME \<and> kp_replay_counter kB < REJECT_AFTER_MESSAGES
                \<and> fst (wireguard_check_replay kB (kp_sending_counter kA)))))"

text \<open>An IPv4 packet of the length its header says, that fits when padded.\<close>

definition ipv4_packet :: "bytes \<Rightarrow> bool" where
  "ipv4_packet p \<longleftrightarrow> 20 \<le> length p \<and> (length p + 15) div 16 * 16 \<le> WG_MAX_PACKET
     \<and> drop_bit 4 (p ! 0) AND 0x0f = 4 \<and> packet_totlen p = length p"

lemma ipv4_padded:
  assumes "ipv4_packet p" and "n \<le> WG_MAX_PACKET"
  defines "q \<equiv> p @ zeroes (n - length p)"
  shows "(q @ zeroes (WG_MAX_PACKET - length q)) ! 0 = p ! 0" "packet_totlen (q @ zeroes (WG_MAX_PACKET - length q)) = length p"
    "ip_field 12 q = ip_field 12 p" "take (length p) q = p"
proof -
  have p: "20 \<le> length p" "length p \<le> WG_MAX_PACKET" "packet_totlen p = length p" using assms(1) by (auto simp: ipv4_packet_def)
  then show "(q @ zeroes (WG_MAX_PACKET - length q)) ! 0 = p ! 0" by (simp add: q_def nth_append) auto
  show "packet_totlen (q @ zeroes (WG_MAX_PACKET - length q)) = length p"
    using p by (simp add: q_def packet_totlen_def nth_append)
  have "q @ zeroes (WG_MAX_PACKET - length q) = p @ zeroes (WG_MAX_PACKET - length p)"
    using p assms(2) by (simp add: q_def zeroes_def flip: replicate_add)
  then show "ip_field 12 q = ip_field 12 p" by (simp add: ip_field_def)
  show "take (length p) q = p" by (simp add: q_def)
qed

lemma transport_process:
  assumes "transport_wf m" "mt_type m = MESSAGE_TRANSPORT_DATA" "mt_reserved m = zeroes 3" "16 \<le> length (mt_enc_packet m)"
    and "peer_lookup_by_receiver (nd_wg priv) (mt_receiver m) = Some j"
  shows "wg_process_udp_packet X cfg priv (transport_bytes m) addr port os = Some (wg_process_data_message priv j m addr port os)"
proof -
  obtain rest where t: "transport_bytes m = 4 # 0 # 0 # 0 # rest"
    using assms(2,3) by (simp add: transport_bytes_def zeroes_def numeral_eq_Suc)
  have l: "length (transport_bytes m) = 16 + length (mt_enc_packet m)" by (rule transport_length [OF assms(1)])
  have "32 \<le> length (4 # 0 # 0 # 0 # rest)" using l assms(4) unfolding t by simp
  then have "wireguard_get_message_type (transport_bytes m) = MESSAGE_TRANSPORT_DATA"
    unfolding t by (simp add: wireguard_get_message_type_def)
  then show ?thesis
    using l assms(4,5) transport_roundtrip [OF assms(1)]
    by (auto simp: wg_process_udp_packet_def udp_transport_def Let_def)
qed

lemma tunnel_packet:
  assumes session: "session_between A i osA B j osB"
    and size: "(length p + 15) div 16 * 16 \<le> WG_MAX_PACKET"
    and send: "wg_encrypt_and_send A i p osA = (ok, A', osA')"
  defines "kA \<equiv> slot_keypair (nd_peer A i) (send_slot (nd_peer A i))"
  shows "\<exists>d s. udp_calls osA' = udp_calls osA @ [d] \<and> dg_addr d = pr_ip (nd_peer A i) \<and> dg_port d = pr_port (nd_peer A i)
    \<and> get_peer_keypair_for_idx (nd_peer B j) (kp_remote_index kA) = Some s
    \<and> (\<forall>X cfg addr port. wg_process_udp_packet X cfg B (dg_data d) addr port osB =
          Some (accept_data B j s (snd (wireguard_check_replay (slot_keypair (nd_peer B j) s) (kp_sending_counter kA)))
                 (p @ zeroes ((length p + 15) div 16 * 16 - length p)) ((length p + 15) div 16 * 16 + 16) addr port osB))"
proof -
  let ?padded = "p @ zeroes ((length p + 15) div 16 * 16 - length p)"
  define m where "m = \<lparr>mt_type = MESSAGE_TRANSPORT_DATA, mt_reserved = zeroes 3, mt_receiver = kp_remote_index kA,
    mt_counter = U64TO8_LITTLE (kp_sending_counter kA),
    mt_enc_packet = chacha20poly1305_encrypt ?padded [] (kp_sending_counter kA) (kp_sending_key kA)\<rparr>"
  have len: "length ?padded = (length p + 15) div 16 * 16" by simp
  obtain s where s: "get_peer_keypair_for_idx (nd_peer B j) (kp_remote_index kA) = Some s"
    and lookup: "peer_lookup_by_receiver (nd_wg B) (kp_remote_index kA) = Some j"
    and kB: "kp_receiving_valid (slot_keypair (nd_peer B j) s)" "kp_receiving_key (slot_keypair (nd_peer B j) s) = kp_sending_key kA"
      "\<not> wireguard_expired osB (kp_millis (slot_keypair (nd_peer B j) s)) REJECT_AFTER_TIME"
      "kp_replay_counter (slot_keypair (nd_peer B j) s) < REJECT_AFTER_MESSAGES"
      "fst (wireguard_check_replay (slot_keypair (nd_peer B j) s) (kp_sending_counter kA))"
    using session by (auto simp: session_between_def Let_def kA_def)
  have "send_effect A i p osA = Some (send_slot (nd_peer A i))"
    using session size by (auto simp: send_effect_def session_between_def Let_def)
  from send_some [OF this send] have calls: "udp_calls osA' = udp_calls osA
      @ [\<lparr>dg_data = transport_bytes m, dg_addr = pr_ip (nd_peer A i), dg_port = pr_port (nd_peer A i)\<rparr>]"
    unfolding m_def kA_def by (elim conjE) simp
  have wf: "transport_wf m" by (simp add: m_def transport_wf_def U64TO8_LITTLE_def)
  have enc: "length (mt_enc_packet m) = (length p + 15) div 16 * 16 + 16" by (simp add: m_def len)
  have "data_accepted B j m osB = Some (s, ?padded)"
    using s kB size enc by (simp add: data_accepted_def m_def)
  note a = data_acceptedD(5) [OF this]
  have "wg_process_udp_packet X cfg B (transport_bytes m) addr port osB = Some (wg_process_data_message B j m addr port osB)"
    for X cfg addr port
    by (rule transport_process [OF wf]) (use lookup enc in \<open>simp_all add: m_def\<close>)
  then have "wg_process_udp_packet X cfg B (transport_bytes m) addr port osB =
      Some (accept_data B j s (snd (wireguard_check_replay (slot_keypair (nd_peer B j) s) (kp_sending_counter kA)))
        ?padded ((length p + 15) div 16 * 16 + 16) addr port osB)" for X cfg addr port
    using a by (simp add: m_def)
  then show ?thesis
    using calls s by (intro exI [of _ "\<lparr>dg_data = transport_bytes m, dg_addr = pr_ip (nd_peer A i), dg_port = pr_port (nd_peer A i)\<rparr>"]) auto
qed

text \<open>A concrete pair of interfaces, for the witness.\<close>

lemma sample_session: "session_between (sample_netdev sample_keypair) 0 (sample_os 7)
    (sample_netdev (sample_keypair\<lparr>kp_local_index := 6\<rparr>)) 0 (sample_os 7)"
proof -
  let ?kB = "sample_keypair\<lparr>kp_local_index := 6\<rparr>"
  let ?B = "sample_netdev ?kB"
  have k: "kp_valid sample_keypair" "kp_initiator sample_keypair" "kp_sending_counter sample_keypair = 0" "kp_millis sample_keypair = 1000"
    "kp_remote_index sample_keypair = 6" "kp_receiving_key sample_keypair = zeroes 32" "kp_sending_key sample_keypair = zeroes 32" "kp_replay_counter sample_keypair = 0"
    "kp_receiving_valid sample_keypair" "kp_replay_bitmap sample_keypair = replicate 32 0"
    by (simp_all add: sample_keypair_def zero_keypair_def)
  have p: "pr_curr_keypair (nd_peer (sample_netdev kk) 0) = kk" "pr_valid (nd_peer (sample_netdev kk) 0)" "length (dv_peers (nd_wg (sample_netdev kk))) = 1" for kk
    by simp_all
  have g: "get_peer_keypair_for_idx (nd_peer ?B 0) 6 = Some Curr"
    using k p by (simp add: get_peer_keypair_for_idx_def)
  obtain q where q: "dv_peers (nd_wg ?B) = [q]" using p(3) [of ?kB] by (cases "dv_peers (nd_wg ?B)") (simp_all del: sample_netdev_simps)
  then have "q = nd_peer ?B 0" by (simp add: nd_peer_def peer_at_def)
  then have l: "peer_lookup_by_receiver (nd_wg ?B) 6 = Some 0"
    using q p(2) g by (simp add: peer_lookup_by_receiver_def find_index_Some holds_receiver_iff)
  have "replay_inv {} ?kB" by (rule replay_inv_zero [of 32]) (simp_all add: k)
  then have c: "fst (wireguard_check_replay ?kB 0)"
    using check_replay_refines [of "{}" ?kB 0] by (cases "wireguard_check_replay ?kB 0") (auto simp: window_accepts_def)
  have e: "\<not> wireguard_expired (sample_os 7) 1000 REJECT_AFTER_TIME" by (simp add: wireguard_expired_def)
  show ?thesis
    using p g l c e by (simp add: session_between_def send_slot_def k sample_now REJECT_AFTER_MESSAGES_def Let_def)
qed

text \<open>
  C9. What goes into the tunnel comes out of it. When a peer's session key pair belongs to a session
  that the other interface can receive on, an IPv4 packet that is sent becomes one datagram, to the
  peer's endpoint; the other interface, given that datagram from whatever address, accepts it, hands
  exactly that packet to its stack, without the padding, if its source is among the peer's allowed
  addresses, the interface is up and buffers can be had, and moves the peer's endpoint to where it
  came from.
\<close>

theorem tunnel_delivers:
  assumes session: "session_between A i osA B j osB" and packet: "ipv4_packet p"
    and allowed: "\<exists>a \<in> set (pr_allowed_source_ips (nd_peer B j)). allowed_matches (ip_field 12 p) a"
    and up: "nd_bifup B" "iob_ok osB (iob_calls osB)" "iob_ok osB (Suc (iob_calls osB))"
    and send: "wg_encrypt_and_send A i p osA = (ok, A', osA')"
  shows "\<exists>d B' osB'. udp_calls osA' = udp_calls osA @ [d] \<and> dg_addr d = pr_ip (nd_peer A i) \<and> dg_port d = pr_port (nd_peer A i)
    \<and> wg_process_udp_packet X cfg B (dg_data d) addr port osB = Some (B', osB')
    \<and> stack_input osB' = stack_input osB @ [p] \<and> pr_ip (nd_peer B' j) = addr \<and> pr_port (nd_peer B' j) = port"
proof -
  let ?n = "(length p + 15) div 16 * 16" and ?padded = "p @ zeroes ((length p + 15) div 16 * 16 - length p)"
  have size: "?n \<le> WG_MAX_PACKET" "length p \<le> ?n" "0 < length p" using packet by (auto simp: ipv4_packet_def)
  obtain d s where d: "udp_calls osA' = udp_calls osA @ [d]" "dg_addr d = pr_ip (nd_peer A i)" "dg_port d = pr_port (nd_peer A i)"
    and run: "\<And>X cfg addr port. wg_process_udp_packet X cfg B (dg_data d) addr port osB =
       Some (accept_data B j s (snd (wireguard_check_replay (slot_keypair (nd_peer B j) s)
         (kp_sending_counter (slot_keypair (nd_peer A i) (send_slot (nd_peer A i)))))) ?padded (?n + 16) addr port osB)"
    using tunnel_packet [OF session size(1) send] by blast
  obtain B' osB' where B': "accept_data B j s (snd (wireguard_check_replay (slot_keypair (nd_peer B j) s)
         (kp_sending_counter (slot_keypair (nd_peer A i) (send_slot (nd_peer A i)))))) ?padded (?n + 16) addr port osB = (B', osB')" by fastforce
  have j: "j < length (dv_peers (nd_wg B))" using session lookup_valid(1) by (auto simp: session_between_def Let_def)
  note e = accept_data_effect [OF j B']
  have "delivered B (nd_peer B j) ?padded osB = [p]"
    using allowed up size packet ipv4_padded [OF packet size(1)]
    by (simp add: delivered_def Let_def ipv4_packet_def)
  moreover have "length ?padded \<le> WG_MAX_PACKET" using size by simp
  ultimately have "stack_input osB' = stack_input osB @ [p]" using e(2) by simp
  moreover have "pr_ip (nd_peer B' j) = addr" "pr_port (nd_peer B' j) = port" using e(1) by (auto simp: peer_rx_same_def)
  ultimately show ?thesis using d run B' by auto
qed

theorem tunnel_delivers_witness:
  "\<exists>d B' osB'. wg_process_udp_packet toy_dh sample_config (sample_netdev (sample_keypair\<lparr>kp_local_index := 6\<rparr>)) d 1 2 (sample_os 7) = Some (B', osB')
     \<and> stack_input osB' = [sample_packet] \<and> pr_ip (nd_peer B' 0) = 1 \<and> pr_port (nd_peer B' 0) = 2"
proof -
  let ?B = "sample_netdev (sample_keypair\<lparr>kp_local_index := 6\<rparr>)"
  obtain ok A' osA' where send: "wg_encrypt_and_send (sample_netdev sample_keypair) 0 sample_packet (sample_os 7) = (ok, A', osA')"
    by (metis prod_cases3)
  have packet: "ipv4_packet sample_packet"
    by (simp add: ipv4_packet_def sample_packet_def packet_totlen_def)
  have allowed: "\<exists>a \<in> set (pr_allowed_source_ips (nd_peer ?B 0)). allowed_matches (ip_field 12 sample_packet) a"
    by (simp add: allowed_matches_def)
  have up: "nd_bifup ?B" "iob_ok (sample_os 7) (iob_calls (sample_os 7))" "iob_ok (sample_os 7) (Suc (iob_calls (sample_os 7)))"
    "stack_input (sample_os 7) = []"
    by (simp_all add: sample_netdev_def sample_os_def)
  show ?thesis
    using tunnel_delivers [OF sample_session packet allowed up(1-3) send, of toy_dh sample_config 1 2] up(4) by auto
qed

end
