(* ===== verification/Tunnel_Setup.thy ===== *)
theory Tunnel_Setup
  imports Tunnel Admission
begin

text \<open>
  The handshake as datagrams: what starting and answering one sends, what the receiving handlers do
  with these datagrams, and the key pairs that both sides then hold.
\<close>

section \<open>The messages of a handshake on the wire\<close>

text \<open>A message that the other side recognises: its type, its layout and its first MAC.\<close>

definition initiation_sent :: "bytes \<Rightarrow> message_handshake_initiation \<Rightarrow> bool" where
  "initiation_sent label m \<longleftrightarrow> initiation_wf m \<and> mi_type m = MESSAGE_HANDSHAKE_INITIATION \<and> mi_reserved m = zeroes 3
     \<and> mi_mac1 m = wireguard_mac (take 116 (initiation_bytes m)) label"

definition response_sent :: "bytes \<Rightarrow> message_handshake_response \<Rightarrow> bool" where
  "response_sent label m \<longleftrightarrow> response_wf m \<and> mr_type m = MESSAGE_HANDSHAKE_RESPONSE \<and> mr_reserved m = zeroes 3
     \<and> mr_mac1 m = wireguard_mac (take 60 (response_bytes m)) label"

lemma initiation_macs_sent:
  assumes "keys_sized p" "mi_type m = 1" "mi_reserved m = zeroes 3" "length (mi_ephemeral m) = 32"
    "length (mi_enc_static m) = 48" "length (mi_enc_timestamp m) = 28"
  shows "initiation_sent (pr_label_mac1_key p) (initiation_macs p m os)"
  using assms
  by (simp add: initiation_sent_def initiation_macs_def initiation_wf_def initiation_bytes_def Let_def keys_sized_def length_wireguard_mac)

lemma response_macs_sent:
  assumes "keys_sized p" "mr_type m = 2" "mr_reserved m = zeroes 3" "length (mr_ephemeral m) = 32" "length (mr_enc_empty m) = 16"
  shows "response_sent (pr_label_mac1_key p) (response_macs p m os)"
  using assms
  by (simp add: response_sent_def response_macs_def response_wf_def response_bytes_def Let_def keys_sized_def length_wireguard_mac)

lemma create_initiation_sent:
  assumes create: "wireguard_create_handshake_initiation X dev i os = Some (True, m, dev', os')"
    and X: "dh_sized X" and p: "keys_sized (peer_at dev i)" and pub: "length (dv_public_key dev) = 32"
  shows "initiation_sent (pr_label_mac1_key (peer_at dev i)) m"
proof -
  obtain priv os1 where g: "wireguard_generate_private_key os = (priv, os1)" by fastforce
  obtain ok e where e: "wireguard_generate_public_key X (zeroes 32) priv = (ok, e)" by fastforce
  have len: "ok \<Longrightarrow> length e = 32" using generate_public_key_True [OF e] X by (simp add: dh_sized_def)
  have t: "length (wireguard_tai64n_now o1) = 12" for o1 by (simp add: wireguard_tai64n_now_def Let_def)
  have "\<exists>k1 h1 k2 h2 r t os3. m = initiation_macs (peer_at dev i)
       \<lparr>mi_type = MESSAGE_HANDSHAKE_INITIATION, mi_reserved = zeroes 3, mi_sender = r, mi_ephemeral = e,
        mi_enc_static = chacha20poly1305_encrypt (dv_public_key dev) h1 0 k1,
        mi_enc_timestamp = chacha20poly1305_encrypt (wireguard_tai64n_now t) h2 0 k2,
        mi_mac1 = zeroes 16, mi_mac2 = zeroes 16\<rparr> os3 \<and> ok"
    using create unfolding wireguard_create_handshake_initiation_def Let_def g blank_initiation_def
    by (clarsimp simp: e split: prod.splits if_splits option.splits; blast)
  then show ?thesis
    using len pub t by (auto intro!: initiation_macs_sent [OF p] simp: length_encrypt)
qed

lemma create_response_sent:
  assumes create: "wireguard_create_handshake_response X dev i os = Some (True, m, dev', os')"
    and X: "dh_sized X" and p: "keys_sized (peer_at dev i)"
  shows "response_sent (pr_label_mac1_key (peer_at dev i)) m"
  using created_response [OF create X] by (auto intro!: response_macs_sent [OF p] simp: length_encrypt)

text \<open>What starting a handshake and answering one send and keep.\<close>

lemma start_handshake_sends:
  assumes run: "wg_start_handshake X A i os = Some (A', os')" and some: "udp_calls os' \<noteq> udp_calls os"
    and i: "i < length (dv_peers (nd_wg A))"
  shows "\<exists>m dev os1 t. wireguard_create_handshake_initiation X (nd_wg A) i os = Some (True, m, dev, os1)
    \<and> udp_calls os' = udp_calls os @ [\<lparr>dg_data = initiation_bytes m, dg_addr = pr_ip (nd_peer A i), dg_port = pr_port (nd_peer A i)\<rparr>]
    \<and> nd_wg A' = put_peer i ((peer_at dev i)\<lparr>pr_send_handshake := False, pr_last_initiation_tx := t,
         pr_handshake_mac1 := mi_mac1 m, pr_handshake_mac1_valid := True\<rparr>) dev"
proof -
  obtain ok m dev os1 where c: "wireguard_create_handshake_initiation X (nd_wg A) i os = Some (ok, m, dev, os1)"
    using run by (auto simp: wg_start_handshake_def split: option.splits)
  note o = only_entropyD [OF entropy_initiation [OF c]]
  have ok: ok using run some o by (cases ok) (auto simp: wg_start_handshake_def c Let_def)
  obtain hs where dev: "dev = put_peer i ((peer_at (nd_wg A) i)\<lparr>pr_handshake := hs\<rparr>) (nd_wg A)"
    using create_initiation_shape [OF c] by blast
  have "nd_peer (A\<lparr>nd_wg := dev\<rparr>) i = (nd_peer A i)\<lparr>pr_handshake := hs\<rparr>" using i by (simp add: dev nd_peer_def)
  then show ?thesis
    using run ok c o i by (auto simp: wg_start_handshake_def psock_sendto_def Let_def nd_peer_def nd_put_def)
qed

lemma handshake_response_sends:
  assumes run: "wg_send_handshake_response X B i os = Some (B', os')" and some: "udp_calls os' \<noteq> udp_calls os"
    and i: "i < length (dv_peers (nd_wg B))"
  shows "\<exists>m dev os1. wireguard_create_handshake_response X (nd_wg B) i os = Some (True, m, dev, os1)
    \<and> wireguard_sys_now os1 = wireguard_sys_now os \<and> (\<exists>a p. udp_calls os' = udp_calls os @ [\<lparr>dg_data = response_bytes m, dg_addr = a, dg_port = p\<rparr>])
    \<and> B' = nd_put i (wireguard_start_session os1 (peer_at dev i) False) (B\<lparr>nd_wg := dev\<rparr>)"
proof -
  obtain ok m dev os1 where c: "wireguard_create_handshake_response X (nd_wg B) i os = Some (ok, m, dev, os1)"
    using run by (auto simp: wg_send_handshake_response_def split: option.splits)
  note e = entropy_response [OF c] note o = only_entropyD [OF e]
  have ok: ok using run some o by (cases ok) (auto simp: wg_send_handshake_response_def c Let_def)
  show ?thesis
    using run ok c o entropy_now [OF e] by (auto simp: wg_send_handshake_response_def psock_sendto_def Let_def nd_peer_def)
qed

lemma process_response_cong:
  assumes run: "wireguard_process_handshake_response X d1 i m = (True, e1)" and i: "i < length (dv_peers d1)" "i < length (dv_peers d2)"
    and same: "dv_private_key d1 = dv_private_key d2" "pr_handshake (peer_at d1 i) = pr_handshake (peer_at d2 i)"
      "pr_preshared_key (peer_at d1 i) = pr_preshared_key (peer_at d2 i)"
  shows "wireguard_process_handshake_response X d2 i m
      = (True, put_peer i ((peer_at d2 i)\<lparr>pr_handshake := pr_handshake (peer_at e1 i)\<rparr>) d2)"
  using run i by (auto simp: wireguard_process_handshake_response_def same Let_def split_def split: if_splits option.splits)

section \<open>What the receiver makes of them\<close>

lemma initiation_received:
  assumes m: "initiation_sent (dv_label_mac1_key (nd_wg priv)) m"
    and calm: "wg_under_load cfg priv os = (False, priv1)"
    and proc: "wireguard_process_initiation_message X (nd_wg priv) m os = (Some i, dev)"
  shows "wg_process_udp_packet X cfg priv (initiation_bytes m) addr port os =
     (let priv1 = priv1\<lparr>nd_wg := dev\<rparr>; peer = (nd_peer priv1 i)\<lparr>pr_ip := addr, pr_port := port\<rparr>
      in wg_send_handshake_response X (nd_put i peer priv1) i os)"
proof -
  obtain rest where t: "initiation_bytes m = 1 # 0 # 0 # 0 # rest"
    using m by (simp add: initiation_sent_def initiation_bytes_def zeroes_def numeral_eq_Suc)
  have l: "length (initiation_bytes m) = 148" using m by (simp add: initiation_sent_def initiation_length)
  then have "wireguard_get_message_type (initiation_bytes m) = MESSAGE_HANDSHAKE_INITIATION"
    unfolding t by (simp add: wireguard_get_message_type_def)
  moreover have "initiation_of (initiation_bytes m) = m" using m by (simp add: initiation_sent_def initiation_roundtrip)
  moreover have "wireguard_check_mac1 (nd_wg priv) (take 116 (initiation_bytes m)) (mi_mac1 m)"
    using m by (simp add: initiation_sent_def wireguard_check_mac1_def)
  moreover have "nd_wg priv1 = nd_wg priv" by (rule under_load_frame [OF calm])
  ultimately show ?thesis
    using l calm proc by (simp add: wg_process_udp_packet_def udp_initiation_def admit_initiation_def Let_def)
qed

lemma response_received:
  assumes m: "response_sent (dv_label_mac1_key (nd_wg priv)) m"
    and lookup: "peer_lookup_by_handshake (nd_wg priv) (mr_receiver m) = Some i"
    and proc: "wireguard_process_handshake_response X (nd_wg priv) i m = (True, dev)"
    and send: "wg_encrypt_and_send (nd_put i (wireguard_start_session os ((peer_at dev i)\<lparr>pr_ip := addr, pr_port := port\<rparr>) True)
       (priv\<lparr>nd_wg := dev\<rparr>)) i [] os = (sent, priv', os')"
  shows "wg_process_udp_packet X cfg priv (response_bytes m) addr port os = Some (priv'\<lparr>nd_carrier := True\<rparr>, os')"
proof -
  obtain rest where t: "response_bytes m = 2 # 0 # 0 # 0 # rest"
    using m by (simp add: response_sent_def response_bytes_def zeroes_def numeral_eq_Suc)
  have l: "length (response_bytes m) = 92" using m by (simp add: response_sent_def response_length)
  then have "wireguard_get_message_type (response_bytes m) = MESSAGE_HANDSHAKE_RESPONSE"
    unfolding t by (simp add: wireguard_get_message_type_def)
  moreover have "response_of (response_bytes m) = m" using m by (simp add: response_sent_def response_roundtrip)
  moreover have "wireguard_check_mac1 (nd_wg priv) (take 60 (response_bytes m)) (mr_mac1 m)"
    using m by (simp add: response_sent_def wireguard_check_mac1_def)
  ultimately show ?thesis
    using l lookup proc send
    by (simp add: wg_process_udp_packet_def udp_response_def wg_send_keepalive_def nd_peer_def Let_def)
qed

section \<open>The sessions both sides start\<close>

definition session_keypair :: "nat \<Rightarrow> os \<Rightarrow> wireguard_handshake \<Rightarrow> bool \<Rightarrow> wireguard_keypair \<Rightarrow> bool" where
  "session_keypair words os hs initiator k \<longleftrightarrow>
     (let (t1, t2) = wireguard_kdf2 (hs_chaining_key hs) []
      in kp_valid k \<and> kp_initiator k = initiator \<and> kp_millis k = wireguard_sys_now os \<and> kp_receiving_valid k
       \<and> kp_sending_key k = (if initiator then t1 else t2) \<and> kp_receiving_key k = (if initiator then t2 else t1)
       \<and> kp_sending_counter k = 0 \<and> kp_replay_counter k = 0 \<and> kp_replay_bitmap k = replicate words 0
       \<and> kp_local_index k = hs_local_index hs \<and> kp_remote_index k = hs_remote_index hs)"

lemma start_session_new:
  "\<exists>h k. wireguard_start_session os p b = add_new_keypair (p\<lparr>pr_handshake := h\<rparr>) k
     \<and> session_keypair (length (kp_replay_bitmap (pr_curr_keypair p))) os (pr_handshake p) b k"
  unfolding wireguard_start_session_def Let_def split_def
  by (intro exI conjI, rule refl) (simp add: session_keypair_def zero_keypair_def split_def)

lemma initiator_session:
  "\<exists>k. pr_curr_keypair (wireguard_start_session os p True) = k \<and> pr_valid (wireguard_start_session os p True) = pr_valid p
     \<and> session_keypair (length (kp_replay_bitmap (pr_curr_keypair p))) os (pr_handshake p) True k"
proof -
  obtain h k where s: "wireguard_start_session os p True = add_new_keypair (p\<lparr>pr_handshake := h\<rparr>) k"
    "session_keypair (length (kp_replay_bitmap (pr_curr_keypair p))) os (pr_handshake p) True k"
    using start_session_new by blast
  moreover from this have "kp_initiator k" by (simp add: session_keypair_def split_def Let_def)
  ultimately show ?thesis by (intro exI [of _ k]) (simp add: add_new_keypair_def Let_def)
qed

lemma responder_session:
  "\<exists>k. pr_next_keypair (wireguard_start_session os p False) = k \<and> pr_valid (wireguard_start_session os p False) = pr_valid p
     \<and> pr_curr_keypair (wireguard_start_session os p False) = pr_curr_keypair p
     \<and> session_keypair (length (kp_replay_bitmap (pr_curr_keypair p))) os (pr_handshake p) False k"
proof -
  obtain h k where s: "wireguard_start_session os p False = add_new_keypair (p\<lparr>pr_handshake := h\<rparr>) k"
    "session_keypair (length (kp_replay_bitmap (pr_curr_keypair p))) os (pr_handshake p) False k"
    using start_session_new by blast
  moreover from this have "\<not> kp_initiator k" by (simp add: session_keypair_def split_def Let_def)
  ultimately show ?thesis by (intro exI [of _ k]) (simp add: add_new_keypair_def Let_def)
qed

lemma not_expired_now: "\<not> wireguard_expired os (wireguard_sys_now os) REJECT_AFTER_TIME"
  by (simp add: wireguard_expired_def)

lemma fresh_accepts_first:
  assumes "session_keypair words os hs b k" "0 < words" "words < 2 ^ 32"
  shows "\<exists>k'. wireguard_check_replay k 0 = (True, k') \<and> replay_inv {0} k' \<and> kp_replay_counter k' < REJECT_AFTER_MESSAGES
    \<and> fst (wireguard_check_replay (k'\<lparr>kp_last_rx := t\<rparr>) 1)"
proof -
  have "replay_inv {} k"
    using assms by (intro replay_inv_zero [of words]) (simp_all add: session_keypair_def split_def Let_def)
  moreover obtain ok k' where c: "wireguard_check_replay k 0 = (ok, k')" by fastforce
  ultimately have r: "ok" "replay_inv {0} k'" using check_replay_refines [of "{}" k 0 ok k'] by (auto simp: window_accepts_def split: if_splits)
  have "unat (kp_replay_counter k') = 1" using r(2) by (simp add: replay_inv_def top_counter_def)
  then have "kp_replay_counter k' < REJECT_AFTER_MESSAGES" by (simp add: word_less_nat_alt REJECT_AFTER_MESSAGES_def)
  moreover have "replay_inv {0} (k'\<lparr>kp_last_rx := t\<rparr>)" using r(2) replay_inv_cong [of "k'\<lparr>kp_last_rx := t\<rparr>" k'] by simp
  then have "fst (wireguard_check_replay (k'\<lparr>kp_last_rx := t\<rparr>) 1)"
    using check_replay_refines [of "{0}" "k'\<lparr>kp_last_rx := t\<rparr>" 1] by (cases "wireguard_check_replay (k'\<lparr>kp_last_rx := t\<rparr>) 1") (auto simp: window_accepts_def)
  ultimately show ?thesis using c r by auto
qed

lemma fst_check_0: "session_keypair words os hs b k \<Longrightarrow> 0 < words \<Longrightarrow> words < 2 ^ 32 \<Longrightarrow>
    kp_replay_bitmap k' = kp_replay_bitmap k \<Longrightarrow> kp_replay_counter k' = kp_replay_counter k \<Longrightarrow> fst (wireguard_check_replay k' 0)"
proof -
  assume a: "session_keypair words os hs b k" "0 < words" "words < 2 ^ 32" "kp_replay_bitmap k' = kp_replay_bitmap k" "kp_replay_counter k' = kp_replay_counter k"
  then have "replay_inv {} k'" by (intro replay_inv_zero [of words]) (simp_all add: session_keypair_def split_def Let_def)
  then show "fst (wireguard_check_replay k' 0)"
    using check_replay_refines [of "{}" k' 0] by (cases "wireguard_check_replay k' 0") (auto simp: window_accepts_def)
qed

text \<open>A keepalive is accepted without touching the stack; a waiting session becomes the current one.\<close>

lemma accept_keepalive:
  assumes "i < length (dv_peers (nd_wg priv))"
  shows "\<exists>priv'. accept_data priv i Next k [] n addr port os = (priv', os) \<and> length (dv_peers (nd_wg priv')) = length (dv_peers (nd_wg priv))
    \<and> pr_valid (nd_peer priv' i) = pr_valid (nd_peer priv i) \<and> pr_curr_keypair (nd_peer priv' i) = k\<lparr>kp_last_rx := wireguard_sys_now os\<rparr>"
  using assms by (simp add: accept_data_def wg_deliver_def keypair_update_def Let_def)

lemma single_lookup:
  assumes "length (dv_peers dev) = 1" "pr_valid (peer_at dev 0)"
  shows "holds_receiver idx (peer_at dev 0) \<Longrightarrow> peer_lookup_by_receiver dev idx = Some 0"
    "hs_valid (pr_handshake (peer_at dev 0)) \<Longrightarrow> hs_initiator (pr_handshake (peer_at dev 0)) \<Longrightarrow>
       hs_local_index (pr_handshake (peer_at dev 0)) = idx \<Longrightarrow> peer_lookup_by_handshake dev idx = Some 0"
    "index_existing dev idx = peer_uses_index idx (peer_at dev 0)"
proof -
  obtain p where p: "dv_peers dev = [p]" using assms(1) by (auto simp: length_Suc_conv)
  show "holds_receiver idx (peer_at dev 0) \<Longrightarrow> peer_lookup_by_receiver dev idx = Some 0"
    "hs_valid (pr_handshake (peer_at dev 0)) \<Longrightarrow> hs_initiator (pr_handshake (peer_at dev 0)) \<Longrightarrow>
       hs_local_index (pr_handshake (peer_at dev 0)) = idx \<Longrightarrow> peer_lookup_by_handshake dev idx = Some 0"
    "index_existing dev idx = peer_uses_index idx (peer_at dev 0)"
    using assms(2) p
    by (simp_all add: peer_lookup_by_receiver_def peer_lookup_by_handshake_def peer_at_def find_index_Some index_existing_def)
qed

text \<open>The keepalive with which the initiator's session starts, received on the responder's new session.\<close>

lemma first_keepalive:
  assumes A: "length (dv_peers (nd_wg A)) = 1" "pr_curr_keypair (nd_peer A 0) = kA" "session_keypair wA osA hsA True kA"
    and B: "length (dv_peers (nd_wg B)) = 1" "pr_valid (nd_peer B 0)" "pr_next_keypair (nd_peer B 0) = kB" "session_keypair wB osR hsB False kB"
    and "hs_chaining_key hsA = hs_chaining_key hsB" "hs_remote_index hsA = hs_local_index hsB"
    and unused: "\<not> (kp_valid (pr_curr_keypair (nd_peer B 0)) \<and> kp_local_index (pr_curr_keypair (nd_peer B 0)) = hs_local_index hsB)"
    and words: "0 < wB" "wB < 2 ^ 32" and time: "\<not> wireguard_expired osB (kp_millis kB) REJECT_AFTER_TIME"
  shows "session_between A 0 osA B 0 osB" "send_slot (nd_peer A 0) = Curr"
    "get_peer_keypair_for_idx (nd_peer B 0) (kp_remote_index kA) = Some Next"
proof -
  show s: "send_slot (nd_peer A 0) = Curr"
    using A by (simp add: send_slot_def session_keypair_def split_def Let_def)
  show g: "get_peer_keypair_for_idx (nd_peer B 0) (kp_remote_index kA) = Some Next"
    using A(3) B(3,4) assms(9) unused by (auto simp: get_peer_keypair_for_idx_def session_keypair_def split_def Let_def)
  have "peer_lookup_by_receiver (nd_wg B) (kp_remote_index kA) = Some 0"
    using g B(1,2) by (intro single_lookup(1)) (simp_all add: holds_receiver_iff nd_peer_def)
  then show "session_between A 0 osA B 0 osB"
    using s g A B(3,4) assms(8) time not_expired_now [of osA] fst_check_0 [OF B(4) words refl refl]
    by (simp add: session_between_def session_keypair_def split_def Let_def REJECT_AFTER_MESSAGES_def)
qed

end
