(* ===== verification/Tunnel_Up.thy ===== *)
theory Tunnel_Up
  imports Tunnel_Setup
begin

text \<open>
  Two interfaces from the first datagram of a handshake to matching sessions in both directions.
\<close>

section \<open>Two interfaces configured for each other\<close>

definition netdevs_paired :: "dh \<Rightarrow> wg_netdev_s \<Rightarrow> wg_netdev_s \<Rightarrow> bool" where
  "netdevs_paired X A B \<longleftrightarrow>
     paired X (nd_wg A) 0 (nd_wg B) 0
     \<and> length (dv_peers (nd_wg A)) = 1 \<and> length (dv_peers (nd_wg B)) = 1
     \<and> pr_valid (nd_peer A 0) \<and> pr_valid (nd_peer B 0)
     \<and> pr_label_mac1_key (nd_peer A 0) = dv_label_mac1_key (nd_wg B)
     \<and> pr_label_mac1_key (nd_peer B 0) = dv_label_mac1_key (nd_wg A)
     \<and> keys_sized (nd_peer A 0) \<and> keys_sized (nd_peer B 0)
     \<and> length (kp_replay_bitmap (pr_curr_keypair (nd_peer A 0))) \<in> {0 <..< 2 ^ 32}
     \<and> length (kp_replay_bitmap (pr_curr_keypair (nd_peer B 0))) \<in> {0 <..< 2 ^ 32}"

lemma session_keypair_cong:
  "wireguard_sys_now os = wireguard_sys_now os' \<Longrightarrow> session_keypair w os hs b k = session_keypair w os' hs b k"
  by (simp add: session_keypair_def)

text \<open>The responder's peer once it has taken in the initiation.\<close>

definition heard :: "os \<Rightarrow> message_handshake_initiation \<Rightarrow> wireguard_handshake \<Rightarrow> os \<Rightarrow> u32 \<Rightarrow> u16 \<Rightarrow> wireguard_peer \<Rightarrow> wireguard_peer" where
  "heard osA m1 hs osB addr port p = p
       \<lparr>pr_last_initiation_rx := wireguard_sys_now osB, pr_greatest_timestamp := wireguard_tai64n_now osA,
        pr_handshake := (pr_handshake p)
          \<lparr>hs_remote_ephemeral := mi_ephemeral m1, hs_hash := hs_hash hs, hs_chaining_key := hs_chaining_key hs,
           hs_remote_index := mi_sender m1, hs_valid := True, hs_initiator := False\<rparr>, pr_ip := addr, pr_port := port\<rparr>"

lemma initiation_heard:
  assumes pair: "netdevs_paired X A B" and X: "dh_sized X"
    and dh: "dh_commutes X (dv_private_key (nd_wg A)) (dv_private_key (nd_wg B))"
      "dh_commutes X (fst (wireguard_generate_private_key osA)) (dv_private_key (nd_wg B))"
    and create: "wireguard_create_handshake_initiation X (nd_wg A) 0 osA = Some (True, m1, devA, osA1)"
    and fresh: "memcmp (wireguard_tai64n_now osA) (pr_greatest_timestamp (nd_peer B 0)) > 0"
    and rate: "pr_last_initiation_rx (nd_peer B 0) = 0
          \<or> \<not> wireguard_sys_now osB - pr_last_initiation_rx (nd_peer B 0) < 1000 div MAX_INITIATIONS_PER_SECOND"
    and calm: "\<not> fst (wg_under_load cfg B osB)"
  shows "wg_process_udp_packet X cfg B (initiation_bytes m1) addr port osB = wg_send_handshake_response X
     (nd_put 0 (heard osA m1 (pr_handshake (peer_at devA 0)) osB addr port (nd_peer B 0)) (snd (wg_under_load cfg B osB))) 0 osB"
proof -
  have P: "paired X (nd_wg A) 0 (nd_wg B) 0" "length (dv_peers (nd_wg A)) = 1" "length (dv_peers (nd_wg B)) = 1"
    "keys_sized (nd_peer A 0)" "pr_label_mac1_key (nd_peer A 0) = dv_label_mac1_key (nd_wg B)"
    using pair by (simp_all add: netdevs_paired_def)
  have "length (dv_public_key (nd_wg A)) = 32" using P(1) X by (simp add: paired_def dh_sized_def)
  then have sent: "initiation_sent (dv_label_mac1_key (nd_wg B)) m1"
    using create_initiation_sent [OF create X] P by (simp add: nd_peer_def)
  obtain Bl where calm': "wg_under_load cfg B osB = (False, Bl)" using calm by (cases "wg_under_load cfg B osB") simp
  have Bl: "nd_wg Bl = nd_wg B" by (rule under_load_frame [OF calm'])
  show ?thesis
    using initiation_received [OF sent calm' initiation_delivered [OF P(1) dh create fresh [unfolded nd_peer_def] rate [unfolded nd_peer_def]]] P(3)
    by (simp add: Let_def heard_def nd_put_def nd_peer_def Bl calm')
qed

lemma responder_answers:
  assumes pair: "netdevs_paired X A B" and X: "dh_sized X"
    and dh: "dh_commutes X (dv_private_key (nd_wg A)) (dv_private_key (nd_wg B))"
      "dh_commutes X (fst (wireguard_generate_private_key osA)) (dv_private_key (nd_wg B))"
    and create: "wireguard_create_handshake_initiation X (nd_wg A) 0 osA = Some (True, m1, devA, osA1)"
    and fresh: "memcmp (wireguard_tai64n_now osA) (pr_greatest_timestamp (nd_peer B 0)) > 0"
    and rate: "pr_last_initiation_rx (nd_peer B 0) = 0
          \<or> \<not> wireguard_sys_now osB - pr_last_initiation_rx (nd_peer B 0) < 1000 div MAX_INITIATIONS_PER_SECOND"
    and calm: "\<not> fst (wg_under_load cfg B osB)"
    and run: "wg_process_udp_packet X cfg B (initiation_bytes m1) addr port osB = Some (B1, osB1)" "udp_calls osB1 \<noteq> udp_calls osB"
  shows "\<exists>m2 hs devR devB osB2 a p. pr_handshake (peer_at devR 0) = hs\<lparr>hs_remote_ephemeral := mi_ephemeral m1,
             hs_hash := hs_hash (pr_handshake (peer_at devA 0)), hs_chaining_key := hs_chaining_key (pr_handshake (peer_at devA 0)),
             hs_remote_index := mi_sender m1, hs_valid := True, hs_initiator := False\<rparr>
    \<and> pr_public_key (peer_at devR 0) = pr_public_key (nd_peer B 0) \<and> pr_preshared_key (peer_at devR 0) = pr_preshared_key (nd_peer B 0)
    \<and> 0 < length (dv_peers devR) \<and> wireguard_create_handshake_response X devR 0 osB = Some (True, m2, devB, osB2)
    \<and> udp_calls osB1 = udp_calls osB @ [\<lparr>dg_data = response_bytes m2, dg_addr = a, dg_port = p\<rparr>]
    \<and> response_sent (dv_label_mac1_key (nd_wg A)) m2
    \<and> length (dv_peers (nd_wg B1)) = 1 \<and> pr_valid (nd_peer B1 0)
    \<and> session_keypair (length (kp_replay_bitmap (pr_curr_keypair (nd_peer B 0)))) osB (pr_handshake (peer_at devB 0)) False (pr_next_keypair (nd_peer B1 0))
    \<and> \<not> (kp_valid (pr_curr_keypair (nd_peer B1 0)) \<and> kp_local_index (pr_curr_keypair (nd_peer B1 0)) = mr_sender m2)"
proof -
  have P: "length (dv_peers (nd_wg B)) = 1" "pr_valid (nd_peer B 0)" "keys_sized (nd_peer B 0)"
    "pr_label_mac1_key (nd_peer B 0) = dv_label_mac1_key (nd_wg A)"
    using pair by (simp_all add: netdevs_paired_def)
  define Bl where "Bl = snd (wg_under_load cfg B osB)"
  have Bl: "nd_wg Bl = nd_wg B" by (rule under_load_frame [of cfg B osB "fst (wg_under_load cfg B osB)"]) (simp add: Bl_def)
  define R where "R = heard osA m1 (pr_handshake (peer_at devA 0)) osB addr port (nd_peer B 0)"
  define devR where "devR = put_peer 0 R (nd_wg B)"
  have send: "wg_send_handshake_response X (nd_put 0 R Bl) 0 osB = Some (B1, osB1)"
    using run(1) initiation_heard [OF pair X dh create fresh rate calm] by (simp add: R_def Bl_def)
  have W: "nd_wg (nd_put 0 R Bl) = devR" by (simp add: devR_def nd_put_def Bl)
  have R: "peer_at devR 0 = R" "length (dv_peers devR) = 1" using P(1) by (simp_all add: devR_def)
  obtain m2 devB osB2 a p where c: "wireguard_create_handshake_response X devR 0 osB = Some (True, m2, devB, osB2)"
    and now: "wireguard_sys_now osB2 = wireguard_sys_now osB"
    and u: "udp_calls osB1 = udp_calls osB @ [\<lparr>dg_data = response_bytes m2, dg_addr = a, dg_port = p\<rparr>]"
    and B1: "B1 = nd_put 0 (wireguard_start_session osB2 (peer_at devB 0) False) ((nd_put 0 R Bl)\<lparr>nd_wg := devB\<rparr>)"
    using handshake_response_sends [OF send run(2)] W R(2) by auto
  note r = create_response_True [OF c] 
  have D: "devB = put_peer 0 (R\<lparr>pr_handshake := pr_handshake (peer_at devB 0)\<rparr>) devR" using r(1) R by simp
  have D0: "peer_at devB 0 = R\<lparr>pr_handshake := pr_handshake (peer_at devB 0)\<rparr>" "length (dv_peers devB) = 1"
    using R(2) by (subst D; simp)+
  have n: "nd_peer B1 0 = wireguard_start_session osB2 (peer_at devB 0) False" "length (dv_peers (nd_wg B1)) = 1"
    using D0(2) by (simp_all add: B1)
  have old: "pr_curr_keypair (peer_at devB 0) = pr_curr_keypair (nd_peer B 0)" "pr_valid (peer_at devB 0)"
    by (subst D0; simp add: R_def heard_def P(2))+
  have s: "session_keypair (length (kp_replay_bitmap (pr_curr_keypair (nd_peer B 0)))) osB (pr_handshake (peer_at devB 0)) False (pr_next_keypair (nd_peer B1 0))"
    "pr_curr_keypair (nd_peer B1 0) = pr_curr_keypair (nd_peer B 0)" "pr_valid (nd_peer B1 0)"
    using responder_session [of osB2 "peer_at devB 0"] session_keypair_cong [OF now] by (auto simp: n old)
  have "index_accepted devR (mr_sender m2)" using r(9) R(2) by simp
  then have "\<not> peer_uses_index (mr_sender m2) R" using single_lookup(3) [of devR] R P(2) by (simp add: index_accepted_def R_def heard_def)
  then have unused: "\<not> (kp_valid (pr_curr_keypair (nd_peer B1 0)) \<and> kp_local_index (pr_curr_keypair (nd_peer B1 0)) = mr_sender m2)"
    by (auto simp: s peer_uses_index_def R_def heard_def)
  have "response_sent (pr_label_mac1_key (peer_at devR 0)) m2"
    by (rule create_response_sent [OF c X]) (use P(3) in \<open>simp add: R(1) R_def heard_def keys_sized_def\<close>)
  then have "response_sent (dv_label_mac1_key (nd_wg A)) m2" by (simp add: R(1)) (simp add: R_def heard_def P(4))
  then show ?thesis
    using c u n(2) s unused R by (intro exI [of _ m2] exI [of _ "pr_handshake (nd_peer B 0)"] exI [of _ devR] exI [of _ devB] exI [of _ osB2])
      (auto simp: R_def heard_def)
qed

lemma initiator_finishes:
  assumes A1: "nd_wg A1 = put_peer 0 ((peer_at devA 0)\<lparr>pr_send_handshake := False, pr_last_initiation_tx := t,
         pr_handshake_mac1 := mac, pr_handshake_mac1_valid := True\<rparr>) devA"
    and one: "length (dv_peers devA) = 1" "pr_valid (peer_at devA 0)"
    and hs: "hs_valid (pr_handshake (peer_at devA 0))" "hs_initiator (pr_handshake (peer_at devA 0))"
      "hs_local_index (pr_handshake (peer_at devA 0)) = mr_receiver m2"
    and proc: "wireguard_process_handshake_response X devA 0 m2 = (True, dev2)"
    and sent: "response_sent (dv_label_mac1_key devA) m2"
  shows "\<exists>Am ok A2' os2. length (dv_peers (nd_wg Am)) = 1 \<and> pr_valid (nd_peer Am 0)
    \<and> session_keypair (length (kp_replay_bitmap (pr_curr_keypair (peer_at devA 0)))) os (pr_handshake (peer_at dev2 0)) True (pr_curr_keypair (nd_peer Am 0))
    \<and> wg_encrypt_and_send Am 0 [] os = (ok, A2', os2)
    \<and> wg_process_udp_packet X cfg A1 (response_bytes m2) addr port os = Some (A2'\<lparr>nd_carrier := True\<rparr>, os2)"
proof -
  have p: "peer_at (nd_wg A1) 0 = (peer_at devA 0)\<lparr>pr_send_handshake := False, pr_last_initiation_tx := t,
         pr_handshake_mac1 := mac, pr_handshake_mac1_valid := True\<rparr>" "length (dv_peers (nd_wg A1)) = 1"
    using one by (simp_all add: A1)
  define P where "P = (peer_at (nd_wg A1) 0)\<lparr>pr_handshake := pr_handshake (peer_at dev2 0)\<rparr>"
  define dev where "dev = put_peer 0 P (nd_wg A1)"
  have proc': "wireguard_process_handshake_response X (nd_wg A1) 0 m2 = (True, dev)"
    using process_response_cong [OF proc, of "nd_wg A1"] one p by (simp add: dev_def P_def A1)
  have look: "peer_lookup_by_handshake (nd_wg A1) (mr_receiver m2) = Some 0"
    using p one hs by (intro single_lookup(2)) simp_all
  have d: "peer_at dev 0 = P" "length (dv_peers dev) = 1" using p(2) by (simp_all add: dev_def)
  define Am where "Am = nd_put 0 (wireguard_start_session os (P\<lparr>pr_ip := addr, pr_port := port\<rparr>) True) (A1\<lparr>nd_wg := dev\<rparr>)"
  obtain ok A2' os2' where s: "wg_encrypt_and_send Am 0 [] os = (ok, A2', os2')" by (metis prod_cases3)
  have "wg_process_udp_packet X cfg A1 (response_bytes m2) addr port os = Some (A2'\<lparr>nd_carrier := True\<rparr>, os2')"
    using response_received [OF _ look proc' s [unfolded Am_def, folded d(1)]] sent A1 by simp_all
  moreover have "nd_peer Am 0 = wireguard_start_session os (P\<lparr>pr_ip := addr, pr_port := port\<rparr>) True" "length (dv_peers (nd_wg Am)) = 1"
    using d(2) by (simp_all add: Am_def)
  ultimately show ?thesis
    using s initiator_session [of os "P\<lparr>pr_ip := addr, pr_port := port\<rparr>"] one(2)
    by (intro exI [of _ Am] exI [of _ ok] exI [of _ A2'] exI [of _ os2']) (simp add: P_def p)
qed

lemma keepalive_sent:
  assumes "length (dv_peers (nd_wg A)) = 1" "pr_valid (nd_peer A 0)" "session_keypair w os hs True (pr_curr_keypair (nd_peer A 0))"
    and send: "wg_encrypt_and_send A 0 [] os = (ok, A', os')"
  shows "length (dv_peers (nd_wg A')) = 1" "pr_valid (nd_peer A' 0)"
    "\<exists>t. pr_curr_keypair (nd_peer A' 0) = (pr_curr_keypair (nd_peer A 0))\<lparr>kp_sending_counter := 1, kp_last_tx := t\<rparr>"
proof -
  let ?k = "pr_curr_keypair (nd_peer A 0)"
  have k: "send_slot (nd_peer A 0) = Curr" "kp_valid ?k" "kp_initiator ?k" "kp_sending_counter ?k = 0" "kp_millis ?k = wireguard_sys_now os"
    using assms(3) by (simp_all add: send_slot_def session_keypair_def split_def Let_def)
  have "send_effect A 0 [] os = Some Curr"
    using k not_expired_now [of os] by (simp add: send_effect_def Let_def REJECT_AFTER_MESSAGES_def)
  from send_some [OF this send]
  obtain t b o2 p where A': "A' = nd_put 0 (mark_rekey (?k\<lparr>kp_sending_counter := 1, kp_last_tx := t\<rparr>) o2
      (set_slot Curr (?k\<lparr>kp_sending_counter := 1, kp_last_tx := t\<rparr>) ((nd_peer A 0)\<lparr>pr_last_tx := p\<rparr>))) (A\<lparr>nd_peer_tx_bytes := b\<rparr>)"
    using k by auto
  have m: "pr_valid (mark_rekey k o2 q) = pr_valid q" "pr_curr_keypair (mark_rekey k o2 q) = pr_curr_keypair q" for k q
    by (simp_all add: mark_rekey_def)
  show "length (dv_peers (nd_wg A')) = 1" "pr_valid (nd_peer A' 0)"
    "\<exists>t. pr_curr_keypair (nd_peer A' 0) = ?k\<lparr>kp_sending_counter := 1, kp_last_tx := t\<rparr>"
    using assms(1,2) by (auto simp: A' m)
qed

text \<open>The sessions of both sides once the keepalive has been sent and received.\<close>

lemma sessions_between:
  assumes A: "length (dv_peers (nd_wg A)) = 1" "pr_valid (nd_peer A 0)" "pr_curr_keypair (nd_peer A 0) = kA\<lparr>kp_sending_counter := 1, kp_last_tx := t\<rparr>"
      "session_keypair wA osA hsA True kA"
    and B: "length (dv_peers (nd_wg B)) = 1" "pr_valid (nd_peer B 0)" "session_keypair wB osR hsB False kB"
      "wireguard_check_replay kB 0 = (True, kB')" "pr_curr_keypair (nd_peer B 0) = kB'\<lparr>kp_last_rx := wireguard_sys_now osB\<rparr>"
    and hs: "hs_chaining_key hsA = hs_chaining_key hsB" "hs_remote_index hsA = hs_local_index hsB" "hs_remote_index hsB = hs_local_index hsA"
    and words: "0 < wA" "wA < 2 ^ 32" "0 < wB" "wB < 2 ^ 32"
    and time: "\<not> wireguard_expired osA' (wireguard_sys_now osA) REJECT_AFTER_TIME" "\<not> wireguard_expired osB' (wireguard_sys_now osR) REJECT_AFTER_TIME"
  shows "session_between A 0 osA' B 0 osB'" "session_between B 0 osB' A 0 osA'"
proof -
  note sk = session_keypair_def split_def Let_def
  have kB': "kp_replay_counter kB' < REJECT_AFTER_MESSAGES" "fst (wireguard_check_replay (kB'\<lparr>kp_last_rx := wireguard_sys_now osB\<rparr>) 1)"
    using fresh_accepts_first [OF B(3) words(3,4), of "wireguard_sys_now osB"] B(4) by auto
  note f = check_replay_frame [OF B(4)]
  have sA: "send_slot (nd_peer A 0) = Curr" using A by (simp add: send_slot_def sk)
  have sB: "send_slot (nd_peer B 0) = Curr" using B by (simp add: send_slot_def sk)
  have gB: "get_peer_keypair_for_idx (nd_peer B 0) (kp_remote_index kA) = Some Curr"
    using A(4) B(3,5) f hs(2) by (simp add: get_peer_keypair_for_idx_def sk)
  have gA: "get_peer_keypair_for_idx (nd_peer A 0) (kp_remote_index kB) = Some Curr"
    using A(3,4) B(3) hs(3) by (simp add: get_peer_keypair_for_idx_def sk)
  have l: "peer_lookup_by_receiver (nd_wg B) (kp_remote_index kA) = Some 0" "peer_lookup_by_receiver (nd_wg A) (kp_remote_index kB) = Some 0"
    using A(1,2) B(1,2) gA gB by (auto intro!: single_lookup(1) simp: holds_receiver_iff nd_peer_def)
  show "session_between A 0 osA' B 0 osB'"
    using sA A(3,4) B(3,5) f hs(1) time l gB kB' by (simp add: session_between_def sk REJECT_AFTER_MESSAGES_def)
  have "fst (wireguard_check_replay (pr_curr_keypair (nd_peer A 0)) 0)"
    by (rule fst_check_0 [OF A(4) words(1,2)]) (simp_all add: A(3))
  then show "session_between B 0 osB' A 0 osA'"
    using sB A(3,4) B(3,5) f hs(1) time l gA by (simp add: session_between_def sk REJECT_AFTER_MESSAGES_def)
qed

text \<open>The two handshake messages have been exchanged, and the initiator has sent its keepalive.\<close>

lemma handshake_exchanged:
  assumes pair: "netdevs_paired X A B" and X: "dh_sized X"
    and dh: "dh_commutes X (dv_private_key (nd_wg A)) (dv_private_key (nd_wg B))"
      "dh_commutes X (fst (wireguard_generate_private_key osA)) (dv_private_key (nd_wg B))"
      "dh_commutes X (dv_private_key (nd_wg A)) (fst (wireguard_generate_private_key osB))"
      "dh_commutes X (fst (wireguard_generate_private_key osA)) (fst (wireguard_generate_private_key osB))"
    and start: "wg_start_handshake X A 0 osA = Some (A1, osA1)" "udp_calls osA1 \<noteq> udp_calls osA"
    and fresh: "memcmp (wireguard_tai64n_now osA) (pr_greatest_timestamp (nd_peer B 0)) > 0"
    and rate: "pr_last_initiation_rx (nd_peer B 0) = 0
          \<or> \<not> wireguard_sys_now osB - pr_last_initiation_rx (nd_peer B 0) < 1000 div MAX_INITIATIONS_PER_SECOND"
    and calm: "\<not> fst (wg_under_load cfg B osB)"
    and answer: "wg_process_udp_packet X cfg B (dg_data (last (udp_calls osA1))) addrA portA osB = Some (B1, osB1)" "udp_calls osB1 \<noteq> udp_calls osB"
  shows "\<exists>Am ok A2' osA3 hsA hsB. length (dv_peers (nd_wg Am)) = 1 \<and> pr_valid (nd_peer Am 0)
    \<and> session_keypair (length (kp_replay_bitmap (pr_curr_keypair (nd_peer A 0)))) osA2 hsA True (pr_curr_keypair (nd_peer Am 0))
    \<and> wg_encrypt_and_send Am 0 [] osA2 = (ok, A2', osA3)
    \<and> wg_process_udp_packet X cfg' A1 (dg_data (last (udp_calls osB1))) addrB portB osA2 = Some (A2'\<lparr>nd_carrier := True\<rparr>, osA3)
    \<and> length (dv_peers (nd_wg B1)) = 1 \<and> pr_valid (nd_peer B1 0)
    \<and> session_keypair (length (kp_replay_bitmap (pr_curr_keypair (nd_peer B 0)))) osB hsB False (pr_next_keypair (nd_peer B1 0))
    \<and> hs_chaining_key hsA = hs_chaining_key hsB \<and> hs_remote_index hsA = hs_local_index hsB \<and> hs_remote_index hsB = hs_local_index hsA
    \<and> \<not> (kp_valid (pr_curr_keypair (nd_peer B1 0)) \<and> kp_local_index (pr_curr_keypair (nd_peer B1 0)) = hs_local_index hsB)"
proof -
  let ?wA = "length (kp_replay_bitmap (pr_curr_keypair (nd_peer A 0)))" and ?wB = "length (kp_replay_bitmap (pr_curr_keypair (nd_peer B 0)))"
  have P: "paired X (nd_wg A) 0 (nd_wg B) 0" "length (dv_peers (nd_wg A)) = 1" "pr_valid (nd_peer A 0)" 
    "?wA \<in> {0 <..< 2 ^ 32}" "?wB \<in> {0 <..< 2 ^ 32}" using pair by (simp_all add: netdevs_paired_def)
  obtain m1 devA os1 t where c1: "wireguard_create_handshake_initiation X (nd_wg A) 0 osA = Some (True, m1, devA, os1)"
    and d1: "dg_data (last (udp_calls osA1)) = initiation_bytes m1"
    and A1: "nd_wg A1 = put_peer 0 ((peer_at devA 0)\<lparr>pr_send_handshake := False, pr_last_initiation_tx := t,
         pr_handshake_mac1 := mi_mac1 m1, pr_handshake_mac1_valid := True\<rparr>) devA"
    using start_handshake_sends [OF start] P(2) by auto
  note i = create_initiation_True(1,2) [OF c1, unfolded P(2), OF zero_less_one]
  have devA: "length (dv_peers devA) = 1" "pr_valid (peer_at devA 0)" "dv_label_mac1_key devA = dv_label_mac1_key (nd_wg A)"
    "pr_curr_keypair (peer_at devA 0) = pr_curr_keypair (nd_peer A 0)"
    using P(2,3) by (subst i(1); simp add: nd_peer_def)+
  obtain m2 hs devR devB osB2' a p where hsR: "pr_handshake (peer_at devR 0) = hs\<lparr>hs_remote_ephemeral := mi_ephemeral m1,
       hs_hash := hs_hash (pr_handshake (peer_at devA 0)), hs_chaining_key := hs_chaining_key (pr_handshake (peer_at devA 0)),
       hs_remote_index := mi_sender m1, hs_valid := True, hs_initiator := False\<rparr>"
    and R: "pr_public_key (peer_at devR 0) = pr_public_key (nd_peer B 0)" "pr_preshared_key (peer_at devR 0) = pr_preshared_key (nd_peer B 0)"
      "0 < length (dv_peers devR)" and c2: "wireguard_create_handshake_response X devR 0 osB = Some (True, m2, devB, osB2')"
    and u2: "udp_calls osB1 = udp_calls osB @ [\<lparr>dg_data = response_bytes m2, dg_addr = a, dg_port = p\<rparr>]"
    and sent2: "response_sent (dv_label_mac1_key (nd_wg A)) m2"
    and B1: "length (dv_peers (nd_wg B1)) = 1" "pr_valid (nd_peer B1 0)"
      "session_keypair ?wB osB (pr_handshake (peer_at devB 0)) False (pr_next_keypair (nd_peer B1 0))"
      "\<not> (kp_valid (pr_curr_keypair (nd_peer B1 0)) \<and> kp_local_index (pr_curr_keypair (nd_peer B1 0)) = mr_sender m2)"
    using responder_answers [OF pair X dh(1,2) c1 fresh rate calm answer(1) [unfolded d1] answer(2)] by blast
  obtain dev2 where proc: "wireguard_process_handshake_response X devA 0 m2 = (True, dev2)"
    and hs: "hs_chaining_key (pr_handshake (peer_at dev2 0)) = hs_chaining_key (pr_handshake (peer_at devB 0))"
      "hs_local_index (pr_handshake (peer_at dev2 0)) = mi_sender m1" "hs_remote_index (pr_handshake (peer_at dev2 0)) = mr_sender m2"
      "hs_local_index (pr_handshake (peer_at devB 0)) = mr_sender m2" "hs_remote_index (pr_handshake (peer_at devB 0)) = mi_sender m1" "mr_receiver m2 = mi_sender m1"
    using response_delivered [OF P(1) c1 hsR R [unfolded nd_peer_def] c2 dh(3,4)] by blast
  obtain Am ok A2' osA3 where Am: "length (dv_peers (nd_wg Am)) = 1" "pr_valid (nd_peer Am 0)"
      "session_keypair ?wA osA2 (pr_handshake (peer_at dev2 0)) True (pr_curr_keypair (nd_peer Am 0))"
    and ka: "wg_encrypt_and_send Am 0 [] osA2 = (ok, A2', osA3)"
      "wg_process_udp_packet X cfg' A1 (response_bytes m2) addrB portB osA2 = Some (A2'\<lparr>nd_carrier := True\<rparr>, osA3)"
    using initiator_finishes [OF A1 devA(1,2) _ _ _ proc] i(2) hs(6) sent2 devA(3,4) by fastforce
  have d2: "dg_data (last (udp_calls osB1)) = response_bytes m2" using u2 by simp
  show ?thesis
    using Am ka B1(1-3) hs B1(4) [folded hs(4)] unfolding d2
    by (intro exI [of _ Am] exI [of _ ok] exI [of _ A2'] exI [of _ osA3] exI conjI) (assumption | simp)+
qed

section \<open>A concrete pair of interfaces\<close>

text \<open>A commuting stand-in with outputs of 32 bytes, and two interfaces with it.\<close>

definition pad32 :: "bytes \<Rightarrow> bytes" where
  "pad32 xs = take 32 (xs @ zeroes 32)"

definition sized_dh :: dh where
  "sized_dh a b = toy_dh (pad32 a) (pad32 b)"

definition sample_end :: "byte \<Rightarrow> byte \<Rightarrow> wg_netdev_s" where
  "sample_end me other = (sample_netdev sample_keypair)\<lparr>nd_wg := sample_device me other\<rparr>"

lemma pad32_same: "length xs = 32 \<Longrightarrow> pad32 xs = xs" and length_pad32 [simp]: "length (pad32 xs) = 32"
  by (simp_all add: pad32_def)

lemma sized_toy: "length a = 32 \<Longrightarrow> length b = 32 \<Longrightarrow> sized_dh a b = toy_dh a b"
  by (simp add: sized_dh_def pad32_same)

lemma length_toy: "length (snd (toy_dh a b)) = min (length a) (length b)"
  by (simp add: toy_dh_def)

lemma length_basepoint: "length basepoint = 32"
  by (simp add: basepoint_def)

lemma sized_dh_sized: "dh_sized sized_dh"
  by (simp add: dh_sized_def sized_dh_def length_toy)

lemma sized_commutes: "dh_commutes sized_dh a b"
proof -
  have p: "pad32 (snd (toy_dh (pad32 c) basepoint)) = snd (toy_dh (pad32 c) basepoint)" for c
    by (rule pad32_same) (simp add: length_toy length_basepoint)
  show ?thesis
    using toy_commutes [of "pad32 a" "pad32 b"] by (simp add: dh_commutes_def sized_dh_def p pad32_same [OF length_basepoint])
qed

lemma sample_ends_paired: "netdevs_paired sized_dh (sample_end 1 2) (sample_end 2 1)"
proof -
  have s: "nd_wg (sample_end me other) = sample_device me other" for me other by (simp add: sample_end_def)
  have "paired sized_dh (sample_device 1 2) 0 (sample_device 2 1) 0"
    using sample_paired
    by (simp add: paired_def sample_device_def Let_def peer_at_def peer_lookup_by_pubkey_def sized_toy length_toy length_basepoint)
  then show ?thesis
    by (simp add: netdevs_paired_def nd_peer_def s)
      (simp add: sample_device_def Let_def peer_at_def zero_peer_def keys_sized_def zero_keypair_def)
qed

lemma sample_end_starts:
  "\<exists>A1 osA1 m1 devA os1. wg_start_handshake sized_dh (sample_end 1 2) 0 (sample_os 7) = Some (A1, osA1)
    \<and> wireguard_create_handshake_initiation sized_dh (sample_device 1 2) 0 (sample_os 7) = Some (True, m1, devA, os1)
    \<and> udp_calls osA1 \<noteq> [] \<and> dg_data (last (udp_calls osA1)) = initiation_bytes m1"
proof -
  let ?I = "sample_device 1 2"
  have pk: "pr_public_key (peer_at ?I 0) = snd (toy_dh (replicate 32 2) basepoint)"
    by (simp add: sample_device_def Let_def peer_at_def)
  have acc: "index_accepted ?I 0x0302010A"
    by (simp add: index_accepted_def index_existing_last sample_device_def Let_def peer_uses_index_def
        zero_peer_def zero_keypair_def zero_handshake_def)
  have len: "length sample_ephemeral = 32" by (simp add: sample_ephemeral_def)
  have "\<exists>m dev' os'. wireguard_create_handshake_initiation sized_dh ?I 0 (sample_os 7) = Some (True, m, dev', os')"
    using sample_values acc
    by (intro create_initiation_succeeds [OF sample_private_key [of 7]])
       (simp_all add: pk sample_index sized_toy len length_toy length_basepoint, simp add: toy_dh_def)
  then obtain m1 devA os1 where c: "wireguard_create_handshake_initiation sized_dh ?I 0 (sample_os 7) = Some (True, m1, devA, os1)" by blast
  have "udp_calls os1 = []" using only_entropyD [OF entropy_initiation [OF c]] by (simp add: sample_os_def)
  then show ?thesis using c by (auto simp: wg_start_handshake_def sample_end_def psock_sendto_def Let_def)
qed

lemma sample_end_hears:
  "memcmp (wireguard_tai64n_now (sample_os 7)) (pr_greatest_timestamp (nd_peer (sample_end me other) 0)) > 0"
  "pr_last_initiation_rx (nd_peer (sample_end me other) 0) = 0" "\<not> fst (wg_under_load sample_config (sample_end me other) (sample_os 7))"
proof -
  have z: "pr_greatest_timestamp (nd_peer (sample_end me other) 0) = zeroes 12"
    by (simp add: sample_end_def nd_peer_def sample_device_def Let_def peer_at_def zero_peer_def)
  show "memcmp (wireguard_tai64n_now (sample_os 7)) (pr_greatest_timestamp (nd_peer (sample_end me other) 0)) > 0"
    unfolding z by (rule sample_time_after_zero)
  show "pr_last_initiation_rx (nd_peer (sample_end me other) 0) = 0"
    by (simp add: sample_end_def nd_peer_def sample_device_def Let_def peer_at_def zero_peer_def)
  show "\<not> fst (wg_under_load sample_config (sample_end me other) (sample_os 7))"
    by (simp add: wg_under_load_def sample_end_def sample_netdev_def sample_config_def Let_def)
qed

lemma sample_end_answers:
  assumes c: "wireguard_create_handshake_initiation sized_dh (sample_device 1 2) 0 (sample_os 7) = Some (True, m1, devA, os1)"
  shows "\<exists>B1 osB1. wg_process_udp_packet sized_dh sample_config (sample_end 2 1) (initiation_bytes m1) 1 2 (sample_os 7) = Some (B1, osB1)
    \<and> udp_calls osB1 \<noteq> []"
proof -
  let ?R = "sample_device 2 1" and ?B = "sample_end 2 1"
  have A: "nd_wg (sample_end 1 2) = sample_device 1 2" and B: "nd_wg ?B = ?R" "length (dv_peers ?R) = 1" "length (dv_peers (sample_device 1 2)) = 1"
    by (simp_all add: sample_end_def) (simp_all add: sample_device_def Let_def)
  define p where "p = heard (sample_os 7) m1 (pr_handshake (peer_at devA 0)) (sample_os 7) 1 2 (nd_peer ?B 0)"
  define BR where "BR = nd_put 0 p (snd (wg_under_load sample_config ?B (sample_os 7)))"
  have "nd_wg (snd (wg_under_load sample_config ?B (sample_os 7))) = ?R"
    using under_load_frame [of sample_config ?B "sample_os 7" _ "snd (wg_under_load sample_config ?B (sample_os 7))"] B by (metis prod.collapse)
  then have W: "nd_wg BR = put_peer 0 p ?R" by (simp add: BR_def nd_put_def)
  have at: "peer_at (nd_wg BR) 0 = p" using B by (simp add: W)
  have run: "wg_process_udp_packet sized_dh sample_config ?B (initiation_bytes m1) 1 2 (sample_os 7) = wg_send_handshake_response sized_dh BR 0 (sample_os 7)"
    using initiation_heard [OF sample_ends_paired sized_dh_sized sized_commutes sized_commutes c [folded A] sample_end_hears(1) _ sample_end_hears(3)] sample_end_hears(2)
    by (simp add: BR_def p_def)
  have eph: "mi_ephemeral m1 = snd (toy_dh sample_ephemeral basepoint)" and len: "length sample_ephemeral = 32"
    using create_initiation_True(3) [OF c] B by (simp_all add: sample_private_key sized_toy length_basepoint sample_ephemeral_def)
  have hs: "hs_valid (pr_handshake p)" "\<not> hs_initiator (pr_handshake p)" "hs_remote_ephemeral (pr_handshake p) = mi_ephemeral m1"
    "pr_public_key p = snd (toy_dh (replicate 32 1) basepoint)"
    by (simp_all add: p_def heard_def) (simp add: nd_peer_def B sample_device_def Let_def peer_at_def)
  have "index_accepted ?R 0x0302010A"
    by (simp add: index_accepted_def index_existing_last sample_device_def Let_def peer_uses_index_def
        zero_peer_def zero_keypair_def zero_handshake_def)
  moreover have "peer_uses_index ix p = peer_uses_index ix (peer_at ?R 0)" for ix
    by (simp add: peer_uses_index_def p_def heard_def nd_peer_def B)
  ultimately have acc: "index_accepted (nd_wg BR) 0x0302010A"
    using B(2) by (simp add: W index_accepted_def index_existing_put_peer)
  have "\<exists>m dev' os'. wireguard_create_handshake_response sized_dh (nd_wg BR) 0 (sample_os 7) = Some (True, m, dev', os')"
    using sample_values acc
    by (intro create_response_succeeds [OF sample_private_key [of 7]])
       (simp_all add: at hs eph sample_index sized_toy len length_toy length_basepoint, simp add: toy_dh_def)
  then obtain m2 devB os2 where c2: "wireguard_create_handshake_response sized_dh (nd_wg BR) 0 (sample_os 7) = Some (True, m2, devB, os2)" by blast
  then show ?thesis unfolding run by (auto simp: wg_send_handshake_response_def psock_sendto_def Let_def)
qed

section \<open>The tunnel comes up\<close>

text \<open>
  C8. The tunnel comes up. Take two interfaces configured for each other, whose Diffie-Hellman function
  commutes on the keys in play. If one of them sends a handshake initiation, and the other, which is
  not under load, has not seen the time stamp and is not limiting the peer's rate, answers when it is
  given that datagram, then: the first accepts the answer and sends a keepalive; the other accepts
  that; and from then on, until \<open>REJECT_AFTER_TIME\<close> has passed, the sessions of both match in either
  direction. Each datagram may come from any address.
\<close>

theorem tunnel_comes_up:
  assumes pair: "netdevs_paired X A B" and X: "dh_sized X"
    and dh: "dh_commutes X (dv_private_key (nd_wg A)) (dv_private_key (nd_wg B))"
      "dh_commutes X (fst (wireguard_generate_private_key osA)) (dv_private_key (nd_wg B))"
      "dh_commutes X (dv_private_key (nd_wg A)) (fst (wireguard_generate_private_key osB))"
      "dh_commutes X (fst (wireguard_generate_private_key osA)) (fst (wireguard_generate_private_key osB))"
    and start: "wg_start_handshake X A 0 osA = Some (A1, osA1)" "udp_calls osA1 \<noteq> udp_calls osA"
    and fresh: "memcmp (wireguard_tai64n_now osA) (pr_greatest_timestamp (nd_peer B 0)) > 0"
    and rate: "pr_last_initiation_rx (nd_peer B 0) = 0
          \<or> \<not> wireguard_sys_now osB - pr_last_initiation_rx (nd_peer B 0) < 1000 div MAX_INITIATIONS_PER_SECOND"
    and calm: "\<not> fst (wg_under_load cfg B osB)"
    and answer: "wg_process_udp_packet X cfg B (dg_data (last (udp_calls osA1))) addrA portA osB = Some (B1, osB1)" "udp_calls osB1 \<noteq> udp_calls osB"
    and confirm: "\<not> wireguard_expired osB2 (wireguard_sys_now osB) REJECT_AFTER_TIME"
    and time: "\<not> wireguard_expired osA4 (wireguard_sys_now osA2) REJECT_AFTER_TIME" "\<not> wireguard_expired osB4 (wireguard_sys_now osB) REJECT_AFTER_TIME"
  shows "\<exists>A2 osA3 B2 osB3.
      wg_process_udp_packet X cfg' A1 (dg_data (last (udp_calls osB1))) addrB portB osA2 = Some (A2, osA3)
    \<and> wg_process_udp_packet X cfg B1 (dg_data (last (udp_calls osA3))) addrA portA osB2 = Some (B2, osB3)
    \<and> session_between A2 0 osA4 B2 0 osB4 \<and> session_between B2 0 osB4 A2 0 osA4"
proof -
  let ?wA = "length (kp_replay_bitmap (pr_curr_keypair (nd_peer A 0)))" and ?wB = "length (kp_replay_bitmap (pr_curr_keypair (nd_peer B 0)))"
  have w: "?wA \<in> {0 <..< 2 ^ 32}" "?wB \<in> {0 <..< 2 ^ 32}" using pair by (simp_all add: netdevs_paired_def)
  obtain Am ok A2' osA3 hsA hsB where Am: "length (dv_peers (nd_wg Am)) = 1" "pr_valid (nd_peer Am 0)"
      "session_keypair ?wA osA2 hsA True (pr_curr_keypair (nd_peer Am 0))"
    and ka: "wg_encrypt_and_send Am 0 [] osA2 = (ok, A2', osA3)"
      and A2: "wg_process_udp_packet X cfg' A1 (dg_data (last (udp_calls osB1))) addrB portB osA2 = Some (A2'\<lparr>nd_carrier := True\<rparr>, osA3)"
    and B1: "length (dv_peers (nd_wg B1)) = 1" "pr_valid (nd_peer B1 0)" "session_keypair ?wB osB hsB False (pr_next_keypair (nd_peer B1 0))"
      "\<not> (kp_valid (pr_curr_keypair (nd_peer B1 0)) \<and> kp_local_index (pr_curr_keypair (nd_peer B1 0)) = hs_local_index hsB)"
    and hs: "hs_chaining_key hsA = hs_chaining_key hsB" "hs_remote_index hsA = hs_local_index hsB" "hs_remote_index hsB = hs_local_index hsA"
    using handshake_exchanged [OF pair X dh start fresh rate calm answer, of osA2 cfg' addrB portB] by blast
  let ?kA = "pr_curr_keypair (nd_peer Am 0)" and ?kB = "pr_next_keypair (nd_peer B1 0)"
  have kB: "kp_millis ?kB = wireguard_sys_now osB" using B1(3) by (simp add: session_keypair_def split_def Let_def)
  note k = first_keepalive [OF Am(1) refl Am(3) B1(1,2) refl B1(3) hs(1,2) B1(4)]
  have k0: "session_between Am 0 osA2 B1 0 osB2" "send_slot (nd_peer Am 0) = Curr" "get_peer_keypair_for_idx (nd_peer B1 0) (kp_remote_index ?kA) = Some Next"
    using k w(2) confirm kB by simp_all
  obtain kB' where kB': "wireguard_check_replay ?kB 0 = (True, kB')"
    using fresh_accepts_first [OF B1(3)] w(2) by auto
  have c0: "kp_sending_counter ?kA = 0" using Am(3) by (simp add: session_keypair_def split_def Let_def)
  obtain B2 where acc: "accept_data B1 0 Next kB' [] 16 addrA portA osB2 = (B2, osB2)"
    and B2: "length (dv_peers (nd_wg B2)) = 1" "pr_valid (nd_peer B2 0)" "pr_curr_keypair (nd_peer B2 0) = kB'\<lparr>kp_last_rx := wireguard_sys_now osB2\<rparr>"
    using accept_keepalive [of 0 B1 kB' 16 addrA portA osB2] B1(1,2) by auto
  have B2run: "wg_process_udp_packet X cfg B1 (dg_data (last (udp_calls osA3))) addrA portA osB2 = Some (B2, osB2)"
    using tunnel_packet [OF k0(1) _ ka] k0(2,3) acc c0 kB' by (auto simp: zeroes_def)
  obtain t' where A2k: "pr_curr_keypair (nd_peer A2' 0) = ?kA\<lparr>kp_sending_counter := 1, kp_last_tx := t'\<rparr>"
    using keepalive_sent(3) [OF Am ka] by blast
  let ?A2 = "A2'\<lparr>nd_carrier := True\<rparr>"
  have A2f: "length (dv_peers (nd_wg ?A2)) = 1" "pr_valid (nd_peer ?A2 0)" "pr_curr_keypair (nd_peer ?A2 0) = ?kA\<lparr>kp_sending_counter := 1, kp_last_tx := t'\<rparr>"
    using keepalive_sent(1,2) [OF Am ka] A2k by (simp_all add: nd_peer_def)
  show ?thesis
    using A2 B2run sessions_between [OF A2f Am(3) B2(1,2) B1(3) kB' B2(3)] hs w time by auto
qed

theorem tunnel_comes_up_witness:
  "\<exists>A1 osA1 B1 osB1 A2 osA3 B2 osB3. wg_start_handshake sized_dh (sample_end 1 2) 0 (sample_os 7) = Some (A1, osA1)
    \<and> wg_process_udp_packet sized_dh sample_config (sample_end 2 1) (dg_data (last (udp_calls osA1))) 1 2 (sample_os 7) = Some (B1, osB1)
    \<and> wg_process_udp_packet sized_dh sample_config A1 (dg_data (last (udp_calls osB1))) 3 4 (sample_os 7) = Some (A2, osA3)
    \<and> wg_process_udp_packet sized_dh sample_config B1 (dg_data (last (udp_calls osA3))) 1 2 (sample_os 7) = Some (B2, osB3)
    \<and> session_between A2 0 (sample_os 7) B2 0 (sample_os 7) \<and> session_between B2 0 (sample_os 7) A2 0 (sample_os 7)"
proof -
  have u: "udp_calls (sample_os 7) = []" by (simp add: sample_os_def)
  obtain A1 osA1 m1 devA os1 where A1: "wg_start_handshake sized_dh (sample_end 1 2) 0 (sample_os 7) = Some (A1, osA1)"
    "wireguard_create_handshake_initiation sized_dh (sample_device 1 2) 0 (sample_os 7) = Some (True, m1, devA, os1)"
    "udp_calls osA1 \<noteq> []" "dg_data (last (udp_calls osA1)) = initiation_bytes m1"
    using sample_end_starts by blast
  obtain B1 osB1 where B1: "wg_process_udp_packet sized_dh sample_config (sample_end 2 1) (dg_data (last (udp_calls osA1))) 1 2 (sample_os 7) = Some (B1, osB1)"
    "udp_calls osB1 \<noteq> []"
    using sample_end_answers [OF A1(2)] A1(4) by auto
  have n: "\<not> wireguard_expired (sample_os 7) (wireguard_sys_now (sample_os 7)) REJECT_AFTER_TIME"
    by (rule not_expired_now)
  show ?thesis
    using tunnel_comes_up [OF sample_ends_paired sized_dh_sized sized_commutes sized_commutes sized_commutes sized_commutes
        A1(1) _ sample_end_hears(1) disjI1 [OF sample_end_hears(2)] sample_end_hears(3) B1(1) _ n n n] A1(1,3) B1 u
    by metis
qed

end
