(* ===== verification/Text.thy ===== *)
theory Text
  imports Crypto_Util
begin

text \<open>
  The functions of the C library that the configuration code uses on text: copying and searching
  strings, decimal numbers and IPv4 addresses in dotted notation. A C string is the list of its
  characters without the final NUL. \<open>atoi\<close> is exact: numbers beyond the range of \<open>int\<close>, for which
  C leaves it undefined, are not reduced.
\<close>

section \<open>Copying, searching and splitting\<close>

text \<open>\<open>strlcpy\<close> into a buffer of \<open>n\<close> bytes; \<open>strchr\<close> and \<open>strrchr\<close> as the text before and after the separator.\<close>

definition strlcpy :: "nat \<Rightarrow> string \<Rightarrow> string" where
  "strlcpy n s = take (n - 1) s"

definition cut_at :: "char \<Rightarrow> string \<Rightarrow> (string \<times> string) option" where
  "cut_at c s = (if c \<in> set s then Some (takeWhile (\<lambda>x. x \<noteq> c) s, tl (dropWhile (\<lambda>x. x \<noteq> c) s)) else None)"

definition cut_at_last :: "char \<Rightarrow> string \<Rightarrow> (string \<times> string) option" where
  "cut_at_last c s = map_option (\<lambda>(a, b). (rev b, rev a)) (cut_at c (rev s))"

definition to_lower :: "char \<Rightarrow> char" where
  "to_lower c = (if 65 \<le> (of_char c :: nat) \<and> (of_char c :: nat) \<le> 90 then char_of ((of_char c :: nat) + 32) else c)"

definition strcasecmp_eq :: "string \<Rightarrow> string \<Rightarrow> bool" where
  "strcasecmp_eq a b \<longleftrightarrow> map to_lower a = map to_lower b"

section \<open>Decimal numbers\<close>

definition is_digit :: "char \<Rightarrow> bool" where
  "is_digit c \<longleftrightarrow> 48 \<le> (of_char c :: nat) \<and> (of_char c :: nat) \<le> 57"

definition digit_value :: "char \<Rightarrow> nat" where
  "digit_value c = of_char c - 48"

definition digit_char :: "nat \<Rightarrow> char" where
  "digit_char d = char_of (48 + d)"

definition digits_value :: "string \<Rightarrow> nat" where
  "digits_value s = fold (\<lambda>c v. 10 * v + digit_value c) s 0"

text \<open>\<open>%d\<close> of a number that is not negative.\<close>

fun show_nat :: "nat \<Rightarrow> string" where
  "show_nat n = (if n < 10 then [digit_char n] else show_nat (n div 10) @ [digit_char (n mod 10)])"

declare show_nat.simps [simp del]

text \<open>\<open>%d\<close> of any \<open>int\<close>, two digits of \<open>%02x\<close>, and a line of text.\<close>

definition show_int :: "int \<Rightarrow> string" where
  "show_int n = (if n < 0 then ''-'' @ show_nat (nat (- n)) else show_nat (nat n))"

definition hex_digit :: "nat \<Rightarrow> char" where
  "hex_digit d = (if d < 10 then digit_char d else char_of (87 + d))"

definition show_hex2 :: "byte \<Rightarrow> string" where
  "show_hex2 b = [hex_digit (unat b div 16), hex_digit (unat b mod 16)]"

abbreviation (input) newline :: char where "newline \<equiv> CHR 0x0A"

definition println :: "string \<Rightarrow> string" where
  "println s = s @ [newline]"

definition is_space :: "char \<Rightarrow> bool" where
  "is_space c \<longleftrightarrow> c = CHR '' '' \<or> 9 \<le> (of_char c :: nat) \<and> (of_char c :: nat) \<le> 13"

text \<open>\<open>atoi\<close>: white space, a sign, digits up to the first other character.\<close>

definition atoi :: "string \<Rightarrow> int" where
  "atoi s =
     (case dropWhile is_space s of
        [] \<Rightarrow> 0
      | c # cs \<Rightarrow> if c = CHR ''-'' then - int (digits_value (takeWhile is_digit cs))
                  else if c = CHR ''+'' then int (digits_value (takeWhile is_digit cs))
                  else int (digits_value (takeWhile is_digit (c # cs))))"

text \<open>
  \<open>strtoul(s, NULL, 10)\<close> on the 32-bit target: the value of the digits, at most \<open>ULONG_MAX\<close>, negated
  after a minus sign.
\<close>

definition strtoul :: "string \<Rightarrow> u32" where
  "strtoul s =
     (let sat = \<lambda>cs. of_nat (min (digits_value (takeWhile is_digit cs)) (2 ^ 32 - 1)) :: u32
      in case dropWhile is_space s of
           [] \<Rightarrow> 0
         | c # cs \<Rightarrow> if c = CHR ''-'' then - sat cs
                     else if c = CHR ''+'' then sat cs
                     else sat (c # cs))"

section \<open>Dotted quads\<close>

definition octet :: "string \<Rightarrow> byte option" where
  "octet s = (if s \<noteq> [] \<and> length s \<le> 3 \<and> list_all is_digit s \<and> digits_value s \<le> 255
     then Some (of_nat (digits_value s)) else None)"

text \<open>
  \<open>inet_pton(AF_INET, ...)\<close>: four decimal octets separated by dots. The address is the word that a
  little-endian target loads from the four bytes.
\<close>

definition inet_pton :: "string \<Rightarrow> u32 option" where
  "inet_pton s =
     (case cut_at (CHR ''.'') s of None \<Rightarrow> None | Some (a, s) \<Rightarrow>
     (case cut_at (CHR ''.'') s of None \<Rightarrow> None | Some (b, s) \<Rightarrow>
     (case cut_at (CHR ''.'') s of None \<Rightarrow> None | Some (c, d) \<Rightarrow>
     (case (octet a, octet b, octet c, octet d) of
        (Some a, Some b, Some c, Some d) \<Rightarrow> Some (U8TO32_LITTLE [a, b, c, d])
      | _ \<Rightarrow> None))))"

definition show_octet :: "byte \<Rightarrow> string" where
  "show_octet b = show_nat (unat b)"

definition inet_ntop :: "u32 \<Rightarrow> string" where
  "inet_ntop addr =
     (let b = U32TO8_LITTLE addr
      in show_octet (b ! 0) @ ''.'' @ show_octet (b ! 1) @ ''.'' @ show_octet (b ! 2) @ ''.'' @ show_octet (b ! 3))"

section \<open>Reading back what was written\<close>

lemma digit_char_simps [simp]:
  "d < 10 \<Longrightarrow> is_digit (digit_char d)" "d < 10 \<Longrightarrow> digit_value (digit_char d) = d"
  by (simp_all add: is_digit_def digit_value_def digit_char_def)

lemma digits_value_snoc: "digits_value (s @ [c]) = 10 * digits_value s + digit_value c"
  by (simp add: digits_value_def)

lemma show_nat_digits: "list_all is_digit (show_nat n)" "digits_value (show_nat n) = n" "show_nat n \<noteq> []"
proof -
  have "list_all is_digit (show_nat n) \<and> digits_value (show_nat n) = n \<and> show_nat n \<noteq> []"
  proof (induction n rule: show_nat.induct)
    case (1 n)
    show ?case
    proof (cases "n < 10")
      case True
      then show ?thesis by (subst (1 2 3) show_nat.simps) (simp add: digits_value_def)
    next
      case False
      then show ?thesis using 1 by (subst (1 2 3) show_nat.simps) (simp add: digits_value_snoc)
    qed
  qed
  then show "list_all is_digit (show_nat n)" "digits_value (show_nat n) = n" "show_nat n \<noteq> []" by auto
qed

lemma length_show_nat: "n < 10 ^ k \<Longrightarrow> 0 < k \<Longrightarrow> length (show_nat n) \<le> k"
proof (induction k arbitrary: n)
  case (Suc k)
  show ?case
  proof (cases "n < 10")
    case True
    then show ?thesis by (subst show_nat.simps) simp
  next
    case False
    then have "0 < k" using Suc.prems(1) by (cases k) auto
    then have "length (show_nat (n div 10)) \<le> k" using Suc by (simp add: div_less_iff_less_mult)
    then show ?thesis using False by (subst show_nat.simps) simp
  qed
qed simp

lemma is_digit_not: "is_digit c \<Longrightarrow> c \<noteq> CHR ''-'' \<and> c \<noteq> CHR ''+'' \<and> c \<noteq> CHR ''.'' \<and> c \<noteq> CHR ''/'' \<and> c \<noteq> CHR '':'' \<and> \<not> is_space c"
  by (auto simp: is_digit_def is_space_def)

lemma show_nat_Cons: "\<exists>c cs. show_nat n = c # cs \<and> is_digit c"
  using show_nat_digits(1,3) [of n] by (cases "show_nat n") auto

lemma atoi_show_nat: "rest = [] \<or> \<not> is_digit (hd rest) \<Longrightarrow> atoi (show_nat n @ rest) = int n"
proof -
  assume r: "rest = [] \<or> \<not> is_digit (hd rest)"
  obtain c cs where c: "show_nat n = c # cs" "is_digit c" using show_nat_Cons by blast
  have "takeWhile is_digit (show_nat n @ rest) = show_nat n @ takeWhile is_digit rest"
    using show_nat_digits(1) [of n] by (intro takeWhile_append2) (simp add: list_all_iff)
  moreover have "takeWhile is_digit rest = []" using r by (cases rest) auto
  ultimately have t: "takeWhile is_digit (show_nat n @ rest) = show_nat n" by simp
  have "dropWhile is_space (show_nat n @ rest) = show_nat n @ rest" using c is_digit_not by simp
  then have "atoi (show_nat n @ rest) = int (digits_value (takeWhile is_digit (show_nat n @ rest)))"
    using c(1) is_digit_not [OF c(2)] unfolding atoi_def by simp
  then show ?thesis by (simp add: t show_nat_digits)
qed

lemma cut_at_first:
  assumes "c \<notin> set a"
  shows "cut_at c (a @ c # b) = Some (a, b)"
proof -
  have "takeWhile (\<lambda>x. x \<noteq> c) (a @ c # b) = a \<and> dropWhile (\<lambda>x. x \<noteq> c) (a @ c # b) = c # b"
    using assms by (induction a) auto
  then show ?thesis by (simp add: cut_at_def)
qed

lemma cut_at_None: "c \<notin> set s \<Longrightarrow> cut_at c s = None"
  by (simp add: cut_at_def)

lemma cut_at_last_last: "c \<notin> set b \<Longrightarrow> cut_at_last c (a @ c # b) = Some (a, b)"
  by (simp add: cut_at_last_def cut_at_first)

lemma cut_at_Some: "cut_at c s = Some (a, b) \<Longrightarrow> s = a @ c # b \<and> c \<notin> set a"
proof -
  assume h: "cut_at c s = Some (a, b)"
  then have c: "c \<in> set s" and a: "a = takeWhile (\<lambda>x. x \<noteq> c) s" and b: "b = tl (dropWhile (\<lambda>x. x \<noteq> c) s)"
    by (auto simp: cut_at_def split: if_splits)
  have "dropWhile (\<lambda>x. x \<noteq> c) s \<noteq> []" using c by auto
  then have "dropWhile (\<lambda>x. x \<noteq> c) s = c # b" using hd_dropWhile [of "\<lambda>x. x \<noteq> c" s] unfolding b by (cases "dropWhile (\<lambda>x. x \<noteq> c) s") auto
  then show ?thesis unfolding a using takeWhile_dropWhile_id [of "\<lambda>x. x \<noteq> c" s] set_takeWhileD [of c "\<lambda>x. x \<noteq> c" s] by metis
qed

lemma cut_at_last_Some: "cut_at_last c s = Some (a, b) \<Longrightarrow> s = a @ c # b \<and> c \<notin> set b"
  by (auto simp: cut_at_last_def dest!: cut_at_Some) (metis append.assoc append_Cons append_Nil rev.simps(2) rev_append rev_rev_ident)

lemma show_octet: "octet (show_octet b) = Some b" "c \<in> set (show_octet b) \<Longrightarrow> is_digit c" "length (show_octet b) \<le> 3"
proof -
  have lt: "unat b < 256" using unsigned_less [of b] by simp
  show l: "length (show_octet b) \<le> 3" using lt by (auto simp: show_octet_def intro!: length_show_nat)
  show "c \<in> set (show_octet b) \<Longrightarrow> is_digit c" using show_nat_digits(1) by (auto simp: show_octet_def list_all_iff)
  show "octet (show_octet b) = Some b"
    using l lt show_nat_digits [of "unat b"] by (simp add: octet_def show_octet_def)
qed

lemma inet_pton_ntop: "inet_pton (inet_ntop addr) = Some addr"
proof -
  have no: "CHR ''.'' \<notin> set (show_octet b)" for b using show_octet(2) is_digit_not by blast
  obtain a b c d where q: "U32TO8_LITTLE addr = [a, b, c, d]"
    by (metis U32TO8_LITTLE_def)
  have "inet_pton (inet_ntop addr) = Some (U8TO32_LITTLE (U32TO8_LITTLE addr))"
    by (simp add: inet_pton_def inet_ntop_def q cut_at_first no show_octet(1))
  then show ?thesis by simp
qed

text \<open>What parses as an address is short and made of digits and dots.\<close>

lemma octet_Some: "octet s = Some b \<Longrightarrow> length s \<le> 3 \<and> list_all is_digit s \<and> s \<noteq> []"
  by (auto simp: octet_def split: if_splits)

lemma inet_pton_Some:
  assumes "inet_pton s = Some addr"
  shows "length s \<le> 15" "\<forall>c \<in> set s. is_digit c \<or> c = CHR ''.''" "s \<noteq> []"
proof -
  obtain a s1 b s2 c d where cuts: "cut_at (CHR ''.'') s = Some (a, s1)" "cut_at (CHR ''.'') s1 = Some (b, s2)"
      "cut_at (CHR ''.'') s2 = Some (c, d)" and o: "octet a \<noteq> None" "octet b \<noteq> None" "octet c \<noteq> None" "octet d \<noteq> None"
    using assms by (auto simp: inet_pton_def split: option.splits)
  then have s: "s = a @ CHR ''.'' # b @ CHR ''.'' # c @ CHR ''.'' # d"
    using cut_at_Some by metis
  have p: "length x \<le> 3 \<and> list_all is_digit x" if "octet x \<noteq> None" for x using that octet_Some by blast
  show "length s \<le> 15" "\<forall>c \<in> set s. is_digit c \<or> c = CHR ''.''" "s \<noteq> []"
    using p [OF o(1)] p [OF o(2)] p [OF o(3)] p [OF o(4)] by (auto simp: s list_all_iff)
qed

end
