(* ===== verification/Config.thy ===== *)
theory Config
  imports Lifecycle Text Base64
begin

text \<open>
  The configuration side of \<open>nuttx-wireguardif.c\<close>: generating keys, staging a private key and
  peers while the interface is down, and bringing the interface up and down with what is staged.
  The array of staged peers is the list of its first \<open>npeers\<close> entries. The kernel calls of
  \<open>wg_initialize\<close> are given by what they return.
\<close>

section \<open>Data\<close>

datatype wg_status = OK | EINVAL | EBUSY | ENOSPC | ENOENT | ENODEV | EIO | ETIMEDOUT | ENODATA | Errno int

abbreviation (input) WG_KEY_STRLEN :: nat where "WG_KEY_STRLEN \<equiv> 48"
abbreviation (input) INET_ADDRSTRLEN :: nat where "INET_ADDRSTRLEN \<equiv> 16"

text \<open>The keepalive is an \<open>int\<close> in C, too; it comes from \<open>atoi\<close>, which is only defined within its range.\<close>

record wg_staged_peer_s =
  sp_public_key :: string
  sp_endpoint_ip :: string
  sp_allowed_ip :: string
  sp_allowed_mask :: string
  sp_endpoint_port :: u16
  sp_keepalive :: int

record wg_staged_s =
  st_private_key :: string
  st_peers :: "wg_staged_peer_s list"

text \<open>What the kernel calls of \<open>wg_initialize\<close> return.\<close>

record netsys =
  ns_socket :: int
  ns_bind :: int
  ns_register :: int
  ns_task :: int

section \<open>Keys\<close>

definition wg_cfg_str :: "string \<Rightarrow> string \<Rightarrow> string" where
  "wg_cfg_str staged kconfig = (if staged \<noteq> [] then staged else kconfig)"

definition wg_decode_key :: "string option \<Rightarrow> nat \<Rightarrow> bytes option" where
  "wg_decode_key b64 outlen =
     (let (ok, out) = wireguard_base64_decode b64 outlen
      in if b64 = None \<or> \<not> ok \<or> length out \<noteq> outlen then None else Some out)"

definition wg_clamp_private_key :: "bytes \<Rightarrow> bytes" where
  "wg_clamp_private_key key = (let key = key[0 := key ! 0 AND 248] in key[31 := key ! 31 AND 127 OR 64])"

definition wg_derive_public_key :: "dh \<Rightarrow> bytes \<Rightarrow> bool \<times> bytes" where
  "wg_derive_public_key X private_key = (let (ret, public_key) = X private_key basepoint in (ret = 0, public_key))"

definition wg_genkey :: "nat \<Rightarrow> os \<Rightarrow> (wg_status + string) \<times> os" where
  "wg_genkey outlen os =
     (if outlen < WG_KEY_STRLEN then (Inl EINVAL, os)
      else let (key, os) = wireguard_random_bytes 32 os;
               key = wg_clamp_private_key key
           in (case wireguard_base64_encode key (outlen - 1) of None \<Rightarrow> Inl EINVAL | Some out \<Rightarrow> Inr out, os))"

definition wg_pubkey :: "dh \<Rightarrow> string option \<Rightarrow> nat \<Rightarrow> wg_status + string" where
  "wg_pubkey X priv_b64 outlen =
     (if outlen < WG_KEY_STRLEN then Inl EINVAL
      else case wg_decode_key priv_b64 32 of
             None \<Rightarrow> Inl EINVAL
           | Some priv \<Rightarrow>
               let (ok, pub) = wg_derive_public_key X priv
               in if \<not> ok then Inl EINVAL
                  else case wireguard_base64_encode pub (outlen - 1) of None \<Rightarrow> Inl EINVAL | Some out \<Rightarrow> Inr out)"

section \<open>Staging\<close>

definition wg_set_private_key :: "bool \<Rightarrow> wg_staged_s \<Rightarrow> string option \<Rightarrow> wg_status \<times> wg_staged_s" where
  "wg_set_private_key registered staged b64 =
     (if registered then (EBUSY, staged)
      else case (b64, wg_decode_key b64 32) of
             (Some s, Some _) \<Rightarrow> (OK, staged\<lparr>st_private_key := strlcpy WG_KEY_STRLEN s\<rparr>)
           | _ \<Rightarrow> (EINVAL, staged))"

text \<open>The entry the call starts from: the one with this key, or a new one with the built-in defaults.\<close>

definition staged_index :: "wg_staged_s \<Rightarrow> string \<Rightarrow> nat option" where
  "staged_index staged pubkey = find_index (\<lambda>p. sp_public_key p = pubkey) (st_peers staged)"

definition new_staged_peer :: "kconfig \<Rightarrow> string \<Rightarrow> wg_staged_peer_s" where
  "new_staged_peer cfg pubkey =
     \<lparr>sp_public_key = strlcpy WG_KEY_STRLEN pubkey, sp_endpoint_ip = [],
      sp_allowed_ip = strlcpy INET_ADDRSTRLEN (cf_peer_allowed_ip cfg),
      sp_allowed_mask = strlcpy INET_ADDRSTRLEN (cf_peer_allowed_mask cfg),
      sp_endpoint_port = 0, sp_keepalive = -1\<rparr>"

text \<open>\<open>address:port\<close>\<close>

definition stage_endpoint :: "string \<Rightarrow> wg_staged_peer_s \<Rightarrow> wg_staged_peer_s option" where
  "stage_endpoint endpoint tmp =
     (let scratch = strlcpy (INET_ADDRSTRLEN + 8) endpoint
      in case cut_at_last (CHR '':'') scratch of
           None \<Rightarrow> None
         | Some (scratch, rest) \<Rightarrow>
             let port = atoi rest
             in if port \<le> 0 \<or> port > 65535 \<or> inet_pton scratch = None then None
                else Some (tmp\<lparr>sp_endpoint_ip := strlcpy INET_ADDRSTRLEN scratch, sp_endpoint_port := of_int port\<rparr>))"

text \<open>\<open>address/prefix\<close>, or an address alone for a single host\<close>

definition prefix_mask :: "int \<Rightarrow> u32" where
  "prefix_mask prefix = (if prefix = 0 then 0 else ntohl (push_bit (nat (32 - prefix)) 0xFFFFFFFF))"

definition stage_allowed :: "string \<Rightarrow> wg_staged_peer_s \<Rightarrow> wg_staged_peer_s option" where
  "stage_allowed allowed tmp =
     (let scratch = strlcpy (INET_ADDRSTRLEN + 8) allowed;
          (scratch, prefix) = (case cut_at (CHR ''/'') scratch of
             None \<Rightarrow> (scratch, 32) | Some (a, rest) \<Rightarrow> (a, atoi rest))
      in if prefix < 0 \<or> prefix > 32 \<or> inet_pton scratch = None then None
         else Some (tmp\<lparr>sp_allowed_ip := strlcpy INET_ADDRSTRLEN scratch,
                        sp_allowed_mask := inet_ntop (prefix_mask prefix)\<rparr>))"

definition wg_set_peer ::
    "kconfig \<Rightarrow> bool \<Rightarrow> wg_staged_s \<Rightarrow> string \<Rightarrow> string option \<Rightarrow> string option \<Rightarrow> int \<Rightarrow> wg_status \<times> wg_staged_s" where
  "wg_set_peer cfg registered staged pubkey endpoint allowed keepalive =
     (if registered then (EBUSY, staged)
      else if wg_decode_key (Some pubkey) 32 = None then (EINVAL, staged)
      else let index = staged_index staged pubkey
      in if index = None \<and> length (st_peers staged) \<ge> cf_max_peers cfg then (ENOSPC, staged)
      else let tmp = (case index of Some i \<Rightarrow> st_peers staged ! i | None \<Rightarrow> new_staged_peer cfg pubkey)
      in case (case endpoint of None \<Rightarrow> Some tmp | Some e \<Rightarrow> stage_endpoint e tmp) of
           None \<Rightarrow> (EINVAL, staged)
         | Some tmp \<Rightarrow>
      (case (case allowed of None \<Rightarrow> Some tmp | Some a \<Rightarrow> stage_allowed a tmp) of
           None \<Rightarrow> (EINVAL, staged)
         | Some tmp \<Rightarrow>
             let tmp = (if keepalive \<ge> 0 then tmp\<lparr>sp_keepalive := keepalive\<rparr> else tmp)
             in (OK, staged\<lparr>st_peers := (case index of Some i \<Rightarrow> (st_peers staged)[i := tmp]
                                                  | None \<Rightarrow> st_peers staged @ [tmp])\<rparr>)))"

definition wg_remove_peer :: "bool \<Rightarrow> wg_staged_s \<Rightarrow> string \<Rightarrow> wg_status \<times> wg_staged_s" where
  "wg_remove_peer registered staged pubkey =
     (if registered then (EBUSY, staged)
      else case staged_index staged pubkey of
             None \<Rightarrow> (ENOENT, staged)
           | Some i \<Rightarrow> (OK, staged\<lparr>st_peers := take i (st_peers staged) @ drop (Suc i) (st_peers staged)\<rparr>))"

section \<open>Configuring the device\<close>

text \<open>The settings of a staged peer: keepalive, the one allowed range, the endpoint.\<close>

definition staged_settings :: "kconfig \<Rightarrow> wg_staged_peer_s \<Rightarrow> wireguard_peer \<Rightarrow> wireguard_peer" where
  "staged_settings cfg sp peer =
     (let peer = peer\<lparr>pr_keepalive_interval :=
            of_int (if sp_keepalive sp \<ge> 0 then sp_keepalive sp else cf_peer_keepalive cfg)\<rparr>;
          peer = (case inet_pton (sp_allowed_ip sp) of
            None \<Rightarrow> peer
          | Some addr \<Rightarrow>
              let src = (pr_allowed_source_ips peer ! 0)\<lparr>ai_ip := addr\<rparr>;
                  src = (case inet_pton (sp_allowed_mask sp) of
                     Some m \<Rightarrow> src\<lparr>ai_mask := m, ai_valid := True\<rparr> | None \<Rightarrow> src)
              in peer\<lparr>pr_allowed_source_ips := (pr_allowed_source_ips peer)[0 := src]\<rparr>)
      in case (if length (sp_endpoint_ip sp) > 0 then inet_pton (sp_endpoint_ip sp) else None) of
           None \<Rightarrow> peer
         | Some addr \<Rightarrow>
             let port = (if sp_endpoint_port sp \<noteq> 0 then sp_endpoint_port sp else cf_peer_endpoint_port cfg)
             in peer\<lparr>pr_connect_ip := addr, pr_connect_port := port, pr_ip := addr, pr_port := port\<rparr>)"

definition wg_add_peer :: "dh \<Rightarrow> kconfig \<Rightarrow> wg_staged_peer_s \<Rightarrow> wg_netdev_s \<Rightarrow> wg_netdev_s" where
  "wg_add_peer X cfg sp priv =
     (case wg_decode_key (Some (sp_public_key sp)) 32 of
        None \<Rightarrow> priv
      | Some public_key \<Rightarrow>
     (case peer_alloc (nd_wg priv) of
        None \<Rightarrow> priv
      | Some i \<Rightarrow>
          let (ok, peer) = wireguard_peer_init X (nd_wg priv) (nd_peer priv i) public_key None
          in if \<not> ok then nd_put i peer priv else nd_put i (staged_settings cfg sp peer) priv))"

definition kconfig_peer :: "kconfig \<Rightarrow> wg_staged_peer_s" where
  "kconfig_peer cfg =
     \<lparr>sp_public_key = strlcpy WG_KEY_STRLEN (cf_peer_public_key cfg),
      sp_endpoint_ip = strlcpy INET_ADDRSTRLEN (cf_peer_endpoint_ip cfg),
      sp_allowed_ip = strlcpy INET_ADDRSTRLEN (cf_peer_allowed_ip cfg),
      sp_allowed_mask = strlcpy INET_ADDRSTRLEN (cf_peer_allowed_mask cfg),
      sp_endpoint_port = cf_peer_endpoint_port cfg, sp_keepalive = cf_peer_keepalive cfg\<rparr>"

definition wg_configure_peer :: "dh \<Rightarrow> kconfig \<Rightarrow> wg_staged_s \<Rightarrow> wg_netdev_s \<Rightarrow> wg_netdev_s" where
  "wg_configure_peer X cfg staged priv =
     (if length (st_peers staged) > 0 then fold (wg_add_peer X cfg) (st_peers staged) priv
      else if length (cf_peer_public_key cfg) = 0 then priv
      else wg_add_peer X cfg (kconfig_peer cfg) priv)"

definition wg_configure_address :: "kconfig \<Rightarrow> wg_netdev_s \<Rightarrow> wg_netdev_s" where
  "wg_configure_address cfg priv =
     (let priv = (case inet_pton (cf_local_ipaddr cfg) of Some a \<Rightarrow> priv\<lparr>nd_ipaddr := a\<rparr> | None \<Rightarrow> priv);
          priv = (case inet_pton (cf_local_netmask cfg) of Some a \<Rightarrow> priv\<lparr>nd_netmask := a\<rparr> | None \<Rightarrow> priv)
      in wg_ifup priv)"

text \<open>The zeroed structures, with the array sizes of the build.\<close>

definition zero_device :: "kconfig \<Rightarrow> wireguard_device" where
  "zero_device cfg =
     \<lparr>dv_public_key = zeroes 32, dv_private_key = zeroes 32, dv_cookie_secret = zeroes 32,
      dv_cookie_secret_millis = 0, dv_label_cookie_key = zeroes 32, dv_label_mac1_key = zeroes 32,
      dv_peers = replicate (cf_max_peers cfg) (zero_peer (cf_max_src_ips cfg) (cf_replay_words cfg)),
      dv_valid = False\<rparr>"

definition zero_netdev :: "kconfig \<Rightarrow> wg_netdev_s" where
  "zero_netdev cfg =
     \<lparr>nd_wg = zero_device cfg, nd_bifup = False, nd_running = False, nd_registered = False,
      nd_carrier = False, nd_rxtask = 0, nd_rxtask_done = False, nd_ipaddr = 0, nd_netmask = 0,
      nd_peer_rx_bytes = replicate (cf_max_peers cfg) 0, nd_peer_tx_bytes = replicate (cf_max_peers cfg) 0,
      nd_init_window_start = 0, nd_init_count = 0\<rparr>"

definition wg_initialize ::
    "dh \<Rightarrow> kconfig \<Rightarrow> netsys \<Rightarrow> wg_staged_s \<Rightarrow> wg_netdev_s \<Rightarrow> os \<Rightarrow> wg_status \<times> wg_netdev_s \<times> os" where
  "wg_initialize X cfg sys staged priv os =
     (if nd_registered priv then (OK, priv, os)
      else let keystr = wg_cfg_str (st_private_key staged) (cf_private_key cfg)
      in if length keystr = 0 then (EINVAL, priv, os)
      else case wg_decode_key (Some keystr) 32 of
        None \<Rightarrow> (EINVAL, priv, os)
      | Some private_key \<Rightarrow>
          let (probe, os) = wireguard_random_bytes 32 os;
              acc = fold (\<lambda>b acc. acc OR b) probe 0
          in if acc = 0 then (EIO, priv, os)
             else let priv = zero_netdev cfg;
                      (ok, dev, os) = wireguard_device_init X (nd_wg priv) private_key os;
                      priv = priv\<lparr>nd_wg := dev\<rparr>
             in if \<not> ok then (EINVAL, priv, os)
             else if ns_socket sys < 0 then (Errno (ns_socket sys), priv, os)
             else if ns_bind sys < 0 then (Errno (ns_bind sys), priv, os)
             else let priv = wg_configure_peer X cfg staged priv
             in if ns_register sys < 0 then (Errno (ns_register sys), priv, os)
             else let priv = priv\<lparr>nd_running := True\<rparr>
             in if ns_task sys < 0 then (Errno (ns_task sys), priv, os)
             else let priv = priv\<lparr>nd_rxtask := ns_task sys\<rparr>;
                      priv = wg_configure_address cfg priv
                  in (OK, priv\<lparr>nd_registered := True\<rparr>, os))"

text \<open>
  \<open>wg_down\<close>: \<open>stopped\<close> is whether the receive task confirms within the waiting time. \<open>netdev_ifdown\<close>
  calls the driver only when the interface is up.
\<close>

definition wg_down :: "kconfig \<Rightarrow> bool \<Rightarrow> wg_netdev_s \<Rightarrow> wg_status \<times> wg_netdev_s" where
  "wg_down cfg stopped priv =
     (if \<not> nd_registered priv then (ENODEV, priv)
      else let priv = priv\<lparr>nd_running := False\<rparr>;
               priv = priv\<lparr>nd_rxtask_done := nd_rxtask_done priv \<or> stopped\<rparr>
      in if \<not> nd_rxtask_done priv then (ETIMEDOUT, priv\<lparr>nd_running := True\<rparr>)
         else let priv = (if nd_bifup priv then wg_ifdown priv else priv);
                  priv = priv\<lparr>nd_wg := zero_device cfg\<rparr>
              in (OK, priv\<lparr>nd_registered := False\<rparr>))"

definition wg_is_up :: "wg_netdev_s \<Rightarrow> bool" where
  "wg_is_up priv = nd_registered priv"

end
