(* ===== verification/Staging.thy ===== *)
theory Staging
  imports Config System
begin

text \<open>
  The staging operations: what each call changes, and that the staged configuration stays well-formed.
\<close>

section \<open>Keys as text\<close>

lemma b64_inv_decoded:
  assumes "wireguard_base64_decode (Some s) outlen = (True, b)" "outlen mod 3 \<noteq> 0"
  shows "length s = 4 * ((length b + 2) div 3)"
  using assms b64_inv_loop [OF b64_inv_start assms(2), of s]
  by (auto simp: wireguard_base64_decode_def b64_inv_def split: prod.splits bool.splits if_splits)

lemma decode_key_length: "wg_decode_key (Some s) 32 = Some k \<Longrightarrow> length s = 44 \<and> length k = 32"
  using b64_inv_decoded [of s 32] by (auto simp: wg_decode_key_def split: prod.splits if_splits)

lemma strlcpy_short: "length s < n \<Longrightarrow> strlcpy n s = s"
  by (simp add: strlcpy_def)

lemma decode_encode_key:
  assumes "length key = 32" "wireguard_base64_encode key n = Some s"
  shows "wg_decode_key (Some s) 32 = Some key"
proof -
  have s: "s = enc_groups key"
    using assms(2) by (simp add: wireguard_base64_encode_groups split: if_splits)
  obtain bc where "b64_loop 32 (b64_group_start []) (enc_groups key) =
    (True, \<lparr>b64_accum = 0, b64_char_count = 0, b64_byte_count = bc, b64_out = [] @ key\<rparr>)"
    using b64_loop_enc_groups [of "[]" key 32] assms(1) by auto
  then show ?thesis using assms(1)
    by (simp add: wg_decode_key_def wireguard_base64_decode_def s b64_group_start_def b64_start_def)
qed

lemma encode_key: "length key = 32 \<Longrightarrow> \<exists>s. wireguard_base64_encode key 47 = Some s"
  by (simp add: wireguard_base64_encode_groups)

lemma clamp_eq: "wg_clamp_private_key key = wireguard_clamp_private_key key"
  by (simp add: wg_clamp_private_key_def wireguard_clamp_private_key_def Let_def)

lemma clamp_idem: "length key = 32 \<Longrightarrow> wireguard_clamp_private_key (wireguard_clamp_private_key key) = wireguard_clamp_private_key key"
proof -
  assume l: "length key = 32"
  have "x AND 248 AND 248 = x AND 248" "(x AND 127 OR 64) AND 127 OR 64 = x AND 127 OR 64" for x :: byte
    by (simp_all add: and.assoc bit.conj_disj_distrib2 or.assoc)
  then show ?thesis using l by (simp add: wireguard_clamp_private_key_def Let_def list_update_swap)
qed

section \<open>The staged configuration stays well-formed\<close>

definition staged_peer_ok :: "wg_staged_peer_s \<Rightarrow> bool" where
  "staged_peer_ok p \<longleftrightarrow> wg_decode_key (Some (sp_public_key p)) 32 \<noteq> None \<and> -1 \<le> sp_keepalive p
     \<and> (sp_endpoint_ip p = [] \<or> inet_pton (sp_endpoint_ip p) \<noteq> None \<and> sp_endpoint_port p \<noteq> 0)"

definition staged_ok :: "kconfig \<Rightarrow> wg_staged_s \<Rightarrow> bool" where
  "staged_ok cfg st \<longleftrightarrow> (st_private_key st = [] \<or> wg_decode_key (Some (st_private_key st)) 32 \<noteq> None)
     \<and> distinct (map sp_public_key (st_peers st)) \<and> length (st_peers st) \<le> cf_max_peers cfg
     \<and> (\<forall>p \<in> set (st_peers st). staged_peer_ok p)"

lemma pton_strlcpy: "inet_pton ip \<noteq> None \<Longrightarrow> strlcpy INET_ADDRSTRLEN ip = ip"
  using inet_pton_Some(1) [of ip] by (auto simp: strlcpy_def)

lemma port_nonzero:
  assumes "0 < p" "p \<le> 65535"
  shows "(of_int p :: u16) \<noteq> 0"
proof -
  have "uint (of_int p :: u16) = p" using assms by (simp add: uint_word_of_int_eq take_bit_eq_mod)
  then show ?thesis using assms(1) by (metis less_irrefl unsigned_0)
qed

lemma stage_endpoint_Some:
  assumes "stage_endpoint e tmp = Some tmp'"
  shows "\<exists>ip port. tmp' = tmp\<lparr>sp_endpoint_ip := ip, sp_endpoint_port := port\<rparr> \<and> port \<noteq> 0 \<and> inet_pton ip \<noteq> None"
proof -
  obtain ip rest where c: "cut_at_last (CHR '':'') (strlcpy (INET_ADDRSTRLEN + 8) e) = Some (ip, rest)"
    using assms by (cases "cut_at_last (CHR '':'') (strlcpy (INET_ADDRSTRLEN + 8) e)") (auto simp: stage_endpoint_def Let_def)
  then have p: "0 < atoi rest" "atoi rest \<le> 65535" "inet_pton ip \<noteq> None"
    and t: "tmp' = tmp\<lparr>sp_endpoint_ip := strlcpy INET_ADDRSTRLEN ip, sp_endpoint_port := of_int (atoi rest)\<rparr>"
    using assms by (simp_all add: stage_endpoint_def Let_def not_le not_less split: if_splits)
  show ?thesis using t p(3) port_nonzero [OF p(1,2)] pton_strlcpy [OF p(3)] by auto
qed

lemma stage_allowed_Some:
  assumes "stage_allowed a tmp = Some tmp'"
  shows "\<exists>ip n. tmp' = tmp\<lparr>sp_allowed_ip := ip, sp_allowed_mask := inet_ntop (prefix_mask n)\<rparr> \<and> 0 \<le> n \<and> n \<le> 32 \<and> inet_pton ip \<noteq> None"
proof -
  define x where "x = (case cut_at (CHR ''/'') (strlcpy (INET_ADDRSTRLEN + 8) a) of
             None \<Rightarrow> (strlcpy (INET_ADDRSTRLEN + 8) a, 32) | Some (a, rest) \<Rightarrow> (a, atoi rest))"
  have "0 \<le> snd x \<and> snd x \<le> 32 \<and> inet_pton (fst x) \<noteq> None
     \<and> tmp' = tmp\<lparr>sp_allowed_ip := strlcpy INET_ADDRSTRLEN (fst x), sp_allowed_mask := inet_ntop (prefix_mask (snd x))\<rparr>"
    using assms unfolding stage_allowed_def Let_def x_def [symmetric]
    by (auto simp: split_def not_le not_less split: if_splits)
  then show ?thesis using pton_strlcpy [of "fst x"] by auto
qed

lemma staged_index_Some: "staged_index st pk = Some i \<Longrightarrow> i < length (st_peers st) \<and> sp_public_key (st_peers st ! i) = pk"
  by (auto simp: staged_index_def find_index_Some)

lemma staged_index_None: "staged_index st pk = None \<Longrightarrow> pk \<notin> sp_public_key ` set (st_peers st)"
  by (auto simp: staged_index_def find_index_None)

text \<open>The entry a call starts from, and what the call makes of it.\<close>

definition base_entry :: "kconfig \<Rightarrow> wg_staged_s \<Rightarrow> string \<Rightarrow> wg_staged_peer_s" where
  "base_entry cfg st pk = (case staged_index st pk of Some i \<Rightarrow> st_peers st ! i | None \<Rightarrow> new_staged_peer cfg pk)"

definition entry_set :: "string option \<Rightarrow> string option \<Rightarrow> int \<Rightarrow> wg_staged_peer_s \<Rightarrow> wg_staged_peer_s \<Rightarrow> bool" where
  "entry_set endpoint allowed keepalive p p' \<longleftrightarrow>
     sp_public_key p' = sp_public_key p
     \<and> sp_keepalive p' = (if keepalive \<ge> 0 then keepalive else sp_keepalive p)
     \<and> (case endpoint of
          None \<Rightarrow> sp_endpoint_ip p' = sp_endpoint_ip p \<and> sp_endpoint_port p' = sp_endpoint_port p
        | Some _ \<Rightarrow> inet_pton (sp_endpoint_ip p') \<noteq> None \<and> sp_endpoint_port p' \<noteq> 0)
     \<and> (case allowed of
          None \<Rightarrow> sp_allowed_ip p' = sp_allowed_ip p \<and> sp_allowed_mask p' = sp_allowed_mask p
        | Some _ \<Rightarrow> inet_pton (sp_allowed_ip p') \<noteq> None
            \<and> (\<exists>n. 0 \<le> n \<and> n \<le> 32 \<and> sp_allowed_mask p' = inet_ntop (prefix_mask n)))"

lemma set_peer_OK:
  assumes "wg_set_peer cfg reg st pk e a k = (OK, st')"
  shows "\<not> reg \<and> wg_decode_key (Some pk) 32 \<noteq> None \<and> sp_public_key (base_entry cfg st pk) = pk
    \<and> (\<exists>p. entry_set e a k (base_entry cfg st pk) p \<and>
        (case staged_index st pk of
           Some i \<Rightarrow> st' = st\<lparr>st_peers := (st_peers st)[i := p]\<rparr>
         | None \<Rightarrow> st' = st\<lparr>st_peers := st_peers st @ [p]\<rparr> \<and> length (st_peers st) < cf_max_peers cfg))"
proof -
  let ?t0 = "base_entry cfg st pk"
  obtain t1 t2 where t1: "(case e of None \<Rightarrow> Some ?t0 | Some e \<Rightarrow> stage_endpoint e ?t0) = Some t1"
    and t2: "(case a of None \<Rightarrow> Some t1 | Some a \<Rightarrow> stage_allowed a t1) = Some t2"
    and st': "st' = st\<lparr>st_peers := (case staged_index st pk of Some i \<Rightarrow> (st_peers st)[i := if k \<ge> 0 then t2\<lparr>sp_keepalive := k\<rparr> else t2]
       | None \<Rightarrow> st_peers st @ [if k \<ge> 0 then t2\<lparr>sp_keepalive := k\<rparr> else t2])\<rparr>"
    and pre: "\<not> reg" "wg_decode_key (Some pk) 32 \<noteq> None" "staged_index st pk = None \<Longrightarrow> length (st_peers st) < cf_max_peers cfg"
    using assms unfolding wg_set_peer_def Let_def base_entry_def by (auto split: if_splits option.split_asm)
  have "length pk = 44" using pre(2) decode_key_length by blast
  then have pk: "sp_public_key ?t0 = pk"
    using staged_index_Some by (auto simp: base_entry_def new_staged_peer_def strlcpy_short split: option.split)
  have "entry_set e None (-1) ?t0 t1"
    using t1 stage_endpoint_Some by (cases e) (fastforce simp: entry_set_def)+
  moreover have "entry_set None a (-1) t1 t2"
    using t2 stage_allowed_Some by (cases a) (fastforce simp: entry_set_def)+
  ultimately have "entry_set e a k ?t0 (if k \<ge> 0 then t2\<lparr>sp_keepalive := k\<rparr> else t2)"
    by (auto simp: entry_set_def split: option.splits)
  then show ?thesis using pre pk st' by (auto split: option.splits)
qed

lemma set_peer_error: "wg_set_peer cfg reg st pk e a k = (r, st') \<Longrightarrow> r \<noteq> OK \<Longrightarrow> st' = st"
  by (auto simp: wg_set_peer_def Let_def split: if_splits option.splits)


text \<open>
  C29. Staging a peer is all or nothing. \<open>wg_set_peer\<close> either fails and leaves the staged
  configuration as it was, or succeeds while the interface is down, and then exactly one entry
  differs: the entry of that public key, or a new one at the end if there is room, starting from the
  entry's old values or the built-in defaults, with the given endpoint (an address and a port other
  than 0), allowed range (an address and the mask of a prefix) and keepalive.
\<close>

theorem set_peer_contract:
  "case wg_set_peer cfg reg st pk endpoint allowed keepalive of (r, st') \<Rightarrow>
     if r = OK
     then \<not> reg \<and> wg_decode_key (Some pk) 32 \<noteq> None \<and>
       (\<exists>p. sp_public_key p = pk \<and> entry_set endpoint allowed keepalive (base_entry cfg st pk) p \<and>
          (case staged_index st pk of
             Some i \<Rightarrow> st' = st\<lparr>st_peers := (st_peers st)[i := p]\<rparr>
           | None \<Rightarrow> st' = st\<lparr>st_peers := st_peers st @ [p]\<rparr> \<and> length (st_peers st) < cf_max_peers cfg))
     else st' = st"
proof (cases "wg_set_peer cfg reg st pk endpoint allowed keepalive")
  case (Pair r st')
  show ?thesis
  proof (cases "r = OK")
    case True
    from set_peer_OK [OF Pair [unfolded True]] show ?thesis
      unfolding Pair True by (auto simp: entry_set_def)
  next
    case False
    then show ?thesis using set_peer_error [OF Pair] Pair by simp
  qed
qed

lemma entry_set_ok:
  assumes "entry_set e a k p p'" "staged_peer_ok p"
  shows "staged_peer_ok p'"
  using assms by (auto simp: entry_set_def staged_peer_ok_def split: option.splits if_splits)

lemma staged_ok_set_peer:
  assumes ok: "staged_ok cfg st" and run: "wg_set_peer cfg reg st pk e a k = (r, st')"
  shows "staged_ok cfg st'"
proof (cases "r = OK")
  case False
  then show ?thesis using ok set_peer_error [OF run] by simp
next
  case True
  from set_peer_OK [OF run [unfolded True]] obtain p where pk: "wg_decode_key (Some pk) 32 \<noteq> None" "sp_public_key (base_entry cfg st pk) = pk"
    and p: "entry_set e a k (base_entry cfg st pk) p"
    and st': "case staged_index st pk of Some i \<Rightarrow> st' = st\<lparr>st_peers := (st_peers st)[i := p]\<rparr>
         | None \<Rightarrow> st' = st\<lparr>st_peers := st_peers st @ [p]\<rparr> \<and> length (st_peers st) < cf_max_peers cfg"
    by blast
  have key: "sp_public_key p = pk" using p pk(2) by (simp add: entry_set_def)
  show ?thesis
  proof (cases "staged_index st pk")
    case None
    have "staged_peer_ok (new_staged_peer cfg pk)"
      using pk None by (auto simp: staged_peer_ok_def base_entry_def new_staged_peer_def)
    then have "staged_peer_ok p" using entry_set_ok [OF p] None by (simp add: base_entry_def)
    then show ?thesis using ok st' None staged_index_None [OF None] key by (auto simp: staged_ok_def)
  next
    case (Some i)
    note i = staged_index_Some [OF Some]
    have "staged_peer_ok p" using ok entry_set_ok [OF p] i Some by (auto simp: base_entry_def staged_ok_def)
    moreover have "map sp_public_key ((st_peers st)[i := p]) = map sp_public_key (st_peers st)"
      using i key by (simp add: map_update list_update_same_conv)
    ultimately show ?thesis using ok st' Some i
      by (auto simp: staged_ok_def dest!: subsetD [OF set_update_subset_insert])
  qed
qed

lemma decode_key_strlcpy: "wg_decode_key (Some s) 32 = Some k \<Longrightarrow> strlcpy WG_KEY_STRLEN s = s"
  using decode_key_length by (simp add: strlcpy_short)

lemma staged_ok_set_private_key:
  "staged_ok cfg st \<Longrightarrow> wg_set_private_key reg st b64 = (r, st') \<Longrightarrow> staged_ok cfg st'"
  by (auto simp: wg_set_private_key_def staged_ok_def decode_key_strlcpy split: if_splits option.splits)

lemma distinct_remove_at: "distinct xs \<Longrightarrow> distinct (take i xs @ drop (Suc i) xs)"
  using set_take_disj_set_drop_if_distinct [of xs i "Suc i"] by simp

lemma staged_ok_remove_peer:
  assumes "staged_ok cfg st" "wg_remove_peer reg st pk = (r, st')"
  shows "staged_ok cfg st'"
proof (cases "r = OK")
  case False
  then show ?thesis using assms by (auto simp: wg_remove_peer_def split: if_splits option.splits)
next
  case True
  then obtain i where st': "st' = st\<lparr>st_peers := take i (st_peers st) @ drop (Suc i) (st_peers st)\<rparr>"
    using assms(2) by (auto simp: wg_remove_peer_def split: if_splits option.splits)
  have "set (take i (st_peers st) @ drop (Suc i) (st_peers st)) \<subseteq> set (st_peers st)"
    using set_take_subset set_drop_subset by fastforce
  moreover have "distinct (map sp_public_key (take i (st_peers st) @ drop (Suc i) (st_peers st)))"
    using assms(1) distinct_remove_at [of "map sp_public_key (st_peers st)" i]
    by (simp add: staged_ok_def take_map drop_map)
  ultimately show ?thesis using assms(1) unfolding st' staged_ok_def by auto
qed

text \<open>
  The staged configuration is always well-formed: starting from an empty one, every sequence of
  the staging operations, accepted or refused, keeps at most \<open>cf_max_peers\<close> peers with pairwise
  different, decodable 32-byte public keys, endpoints that are an address with a port, and a
  private key that is absent or decodes.
\<close>

lemma staging_invariant:
  assumes "staged_ok cfg st"
  shows "staged_ok cfg (snd (wg_set_private_key reg st b64))
    \<and> staged_ok cfg (snd (wg_set_peer cfg reg st pk endpoint allowed keepalive))
    \<and> staged_ok cfg (snd (wg_remove_peer reg st pk))"
  using staged_ok_set_private_key [OF assms, of reg b64] staged_ok_set_peer [OF assms, of reg pk endpoint allowed keepalive]
    staged_ok_remove_peer [OF assms, of reg pk]
  by (metis prod.collapse)

definition sample_key :: string where
  "sample_key = ''AAAAAAAAAAAAAAAAAAAAAAAAAAAAAAAAAAAAAAAAAAA=''"

lemmas text_eval = octet_def is_digit_def digits_value_def digit_value_def cut_at_def cut_at_last_def atoi_def is_space_def strlcpy_def

lemma sample_parse:
  "inet_pton ''192.0.2.1'' \<noteq> None" "inet_pton ''0.0.0.0'' = Some 0" "atoi ''51820'' = 51820" "atoi ''0'' = 0"
  "wg_decode_key (Some sample_key) 32 \<noteq> None"
proof -
  have o: "octet ''192'' = Some 192" "octet ''0'' = Some 0" "octet ''2'' = Some 2" "octet ''1'' = Some 1"
    by (simp_all add: text_eval)
  then show "inet_pton ''192.0.2.1'' \<noteq> None" "inet_pton ''0.0.0.0'' = Some 0"
    by (simp_all add: inet_pton_def cut_at_def U8TO32_LITTLE_def)
  show "atoi ''51820'' = 51820" "atoi ''0'' = 0" by (simp_all add: text_eval)
  show "wg_decode_key (Some sample_key) 32 \<noteq> None" by code_simp
qed

lemma sample_set_peer:
  "fst (wg_set_peer sample_config False \<lparr>st_private_key = [], st_peers = []\<rparr>
      sample_key (Some ''192.0.2.1:51820'') (Some ''0.0.0.0/0'') 25) = OK"
proof -
  obtain t1 where t1: "stage_endpoint ''192.0.2.1:51820'' (new_staged_peer sample_config sample_key) = Some t1"
    using sample_parse by (simp add: stage_endpoint_def strlcpy_def cut_at_last_def cut_at_def)
  obtain t2 where t2: "stage_allowed ''0.0.0.0/0'' t1 = Some t2"
    using sample_parse by (simp add: stage_allowed_def strlcpy_def cut_at_def)
  have "cf_max_peers sample_config = 1" by (simp add: sample_config_def)
  then show ?thesis
    using sample_parse(5) t1 t2 by (simp add: wg_set_peer_def staged_index_def)
qed

lemma staging_invariant_witness:
  "\<exists>st. wg_set_peer sample_config False \<lparr>st_private_key = [], st_peers = []\<rparr>
      sample_key (Some ''192.0.2.1:51820'') (Some ''0.0.0.0/0'') 25 = (OK, st) \<and> staged_ok sample_config st"
proof -
  have "staged_ok sample_config \<lparr>st_private_key = [], st_peers = []\<rparr>" by (simp add: staged_ok_def)
  from staging_invariant [OF this, of False None sample_key "Some ''192.0.2.1:51820''" "Some ''0.0.0.0/0''" 25]
  show ?thesis using sample_set_peer by (metis prod.collapse)
qed

end
