(* ===== verification/Startup.thy ===== *)
theory Startup
  imports Staging Admission
begin

text \<open>
  Bringing the interface up: the device that \<open>wg_initialize\<close> hands to the network stack, what it is
  built from, and what holds of every run that starts there. The last section follows a key from
  \<open>wg_genkey\<close> through the staged configuration into the running device.
\<close>

section \<open>The device after wg_initialize\<close>

text \<open>A peer that has never had a session.\<close>

definition fresh_peer :: "nat \<Rightarrow> wireguard_peer \<Rightarrow> bool" where
  "fresh_peer words p \<longleftrightarrow> (\<forall>s. slot_keypair p s = zero_keypair words) \<and> \<not> hs_valid (pr_handshake p)
     \<and> length (pr_greatest_timestamp p) = 12 \<and> keys_sized p"

definition fresh_peers :: "nat \<Rightarrow> wg_netdev_s \<Rightarrow> bool" where
  "fresh_peers words priv \<longleftrightarrow> (\<forall>p \<in> set (dv_peers (nd_wg priv)). fresh_peer words p)"

lemma fresh_zero_peer: "fresh_peer words (zero_peer n words)"
proof -
  have "slot_keypair (zero_peer n words) s = zero_keypair words" for s
    by (cases s) (simp_all add: zero_peer_def)
  then show ?thesis by (simp add: fresh_peer_def zero_peer_def zero_handshake_def keys_sized_def)
qed

lemma peer_init_fresh:
  assumes "wireguard_peer_init X dev p pk psk = (ok, p')" and "fresh_peer words p"
  shows "fresh_peer words p'"
proof -
  have "length (kp_replay_bitmap (pr_curr_keypair p)) = words"
    using assms(2) unfolding fresh_peer_def by (metis slot_keypair.simps(1) zero_keypair_def wireguard_keypair.select_convs(11) length_replicate)
  then have "pr_curr_keypair p' = zero_keypair words \<and> pr_prev_keypair p' = zero_keypair words \<and> pr_next_keypair p' = zero_keypair words
      \<and> \<not> hs_valid (pr_handshake p') \<and> length (pr_greatest_timestamp p') = 12 \<and> length (pr_label_mac1_key p') \<le> 32 \<and> length (pr_cookie p') \<le> 32"
    using assms(1) unfolding wireguard_peer_init_def Let_def
    by (auto simp: zero_peer_def zero_handshake_def split: if_splits option.splits prod.splits)
  moreover from this have "slot_keypair p' s = zero_keypair words" for s by (cases s) simp_all
  ultimately show ?thesis by (simp add: fresh_peer_def keys_sized_def)
qed

lemma fresh_peer_cong:
  "fresh_peer words p \<Longrightarrow> (\<And>s. slot_keypair p' s = slot_keypair p s) \<Longrightarrow> pr_handshake p' = pr_handshake p \<Longrightarrow>
   pr_greatest_timestamp p' = pr_greatest_timestamp p \<Longrightarrow> pr_label_mac1_key p' = pr_label_mac1_key p \<Longrightarrow> pr_cookie p' = pr_cookie p \<Longrightarrow>
   fresh_peer words p'"
  by (simp add: fresh_peer_def keys_sized_def)

lemma fresh_put: "fresh_peers words priv \<Longrightarrow> fresh_peer words p \<Longrightarrow> fresh_peers words (nd_put i p priv)"
  by (auto simp: fresh_peers_def dest!: subsetD [OF set_update_subset_insert])

definition same_device :: "wg_netdev_s \<Rightarrow> wg_netdev_s \<Rightarrow> bool" where
  "same_device priv priv' \<longleftrightarrow> (\<exists>ps. length ps = length (dv_peers (nd_wg priv)) \<and> priv' = priv\<lparr>nd_wg := (nd_wg priv)\<lparr>dv_peers := ps\<rparr>\<rparr>)"

lemma same_device_refl [simp]: "same_device priv priv"
  unfolding same_device_def by (rule exI [of _ "dv_peers (nd_wg priv)"]) simp

lemma same_device_trans: "same_device a b \<Longrightarrow> same_device b c \<Longrightarrow> same_device a c"
  by (auto simp: same_device_def)

lemma same_device_put: "same_device priv (nd_put i p priv)"
  unfolding same_device_def nd_put_def put_peer_def by (rule exI [of _ "(dv_peers (nd_wg priv))[i := p]"]) simp

lemma staged_settings_frame [simp]:
  "slot_keypair (staged_settings cfg sp p) s = slot_keypair p s" "pr_handshake (staged_settings cfg sp p) = pr_handshake p"
  "pr_greatest_timestamp (staged_settings cfg sp p) = pr_greatest_timestamp p"
  "pr_label_mac1_key (staged_settings cfg sp p) = pr_label_mac1_key p" "pr_cookie (staged_settings cfg sp p) = pr_cookie p"
  "pr_valid (staged_settings cfg sp p) = pr_valid p" "pr_public_key (staged_settings cfg sp p) = pr_public_key p"
  by (cases s; simp add: staged_settings_def Let_def split: option.split)
     (simp_all add: staged_settings_def Let_def split: option.split)

lemma add_peer_fresh:
  assumes f: "fresh_peers words priv"
  shows "fresh_peers words (wg_add_peer X cfg sp priv)" "same_device priv (wg_add_peer X cfg sp priv)"
proof -
  have "fresh_peers words (wg_add_peer X cfg sp priv) \<and> same_device priv (wg_add_peer X cfg sp priv)"
  proof (cases "wg_decode_key (Some (sp_public_key sp)) 32")
    case None
    then show ?thesis using f by (simp add: wg_add_peer_def)
  next
    case k: (Some pk)
    show ?thesis
    proof (cases "peer_alloc (nd_wg priv)")
      case None
      then show ?thesis using f k by (simp add: wg_add_peer_def)
    next
      case (Some i)
      obtain ok p where p: "wireguard_peer_init X (nd_wg priv) (nd_peer priv i) pk None = (ok, p)" by fastforce
      have "i < length (dv_peers (nd_wg priv))" using Some by (simp add: peer_alloc_def find_index_Some)
      then have "fresh_peer words (nd_peer priv i)" using f by (simp add: fresh_peers_def nd_peer_def peer_at_def)
      from peer_init_fresh [OF p this] have "fresh_peer words p" .
      moreover from this have "fresh_peer words (staged_settings cfg sp p)" by (rule fresh_peer_cong) simp_all
      ultimately show ?thesis using f k Some p by (simp add: wg_add_peer_def fresh_put same_device_put)
    qed
  qed
  then show "fresh_peers words (wg_add_peer X cfg sp priv)" "same_device priv (wg_add_peer X cfg sp priv)" by simp_all
qed

lemma configure_peer_fresh:
  assumes "fresh_peers words priv"
  shows "fresh_peers words (wg_configure_peer X cfg st priv) \<and> same_device priv (wg_configure_peer X cfg st priv)"
proof -
  have "fresh_peers words (fold (wg_add_peer X cfg) sps priv) \<and> same_device priv (fold (wg_add_peer X cfg) sps priv)" for sps
    using assms by (induction sps arbitrary: priv) (auto dest: add_peer_fresh intro: same_device_trans)
  then show ?thesis using assms add_peer_fresh [OF assms] by (simp add: wg_configure_peer_def)
qed

lemma device_init_True:
  assumes "wireguard_device_init X dev key os = (True, dev', os')"
  shows "dv_private_key dev' = wireguard_clamp_private_key key" "dv_public_key dev' = snd (X key basepoint)" "dv_valid dev'"
    "dv_peers dev' = dv_peers dev" "length (dv_cookie_secret dev') = 32" "fst (X key basepoint) = 0"
  using assms
  by (auto simp: wireguard_device_init_def generate_cookie_secret_def wireguard_generate_public_key_def Let_def
      split: prod.splits if_splits dest!: random_bytesD)


lemma ifup_fresh: "fresh_peers words priv \<Longrightarrow> fresh_peers words (wg_ifup priv)"
proof -
  assume f: "fresh_peers words priv"
  have "fresh_peer words (ifup_peer p)" if "fresh_peer words p" for p
  proof (rule fresh_peer_cong [OF that])
    show "slot_keypair (ifup_peer p) s = slot_keypair p s" for s by (cases s) (simp_all add: ifup_peer_def)
  qed (simp_all add: ifup_peer_def)
  then show ?thesis using f by (auto simp: fresh_peers_def wg_ifup_def Let_def)
qed

lemma configure_address_facts:
  "fresh_peers words priv \<Longrightarrow> fresh_peers words (wg_configure_address cfg priv)"
  "nd_bifup (wg_configure_address cfg priv)" "nd_running (wg_configure_address cfg priv) = nd_running priv"
  "dv_private_key (nd_wg (wg_configure_address cfg priv)) = dv_private_key (nd_wg priv)"
  "dv_public_key (nd_wg (wg_configure_address cfg priv)) = dv_public_key (nd_wg priv)"
  "dv_cookie_secret (nd_wg (wg_configure_address cfg priv)) = dv_cookie_secret (nd_wg priv)"
  "length (dv_peers (nd_wg (wg_configure_address cfg priv))) = length (dv_peers (nd_wg priv))"
proof -
  have 1: "fresh_peers words (p\<lparr>nd_ipaddr := a\<rparr>) = fresh_peers words p" "fresh_peers words (p\<lparr>nd_netmask := a\<rparr>) = fresh_peers words p"
    for p a by (simp_all add: fresh_peers_def)
  show "fresh_peers words priv \<Longrightarrow> fresh_peers words (wg_configure_address cfg priv)"
    unfolding wg_configure_address_def Let_def by (rule ifup_fresh) (simp add: 1 split: option.split)
  show "nd_bifup (wg_configure_address cfg priv)" "nd_running (wg_configure_address cfg priv) = nd_running priv"
    "dv_private_key (nd_wg (wg_configure_address cfg priv)) = dv_private_key (nd_wg priv)"
    "dv_public_key (nd_wg (wg_configure_address cfg priv)) = dv_public_key (nd_wg priv)"
    "dv_cookie_secret (nd_wg (wg_configure_address cfg priv)) = dv_cookie_secret (nd_wg priv)"
    "length (dv_peers (nd_wg (wg_configure_address cfg priv))) = length (dv_peers (nd_wg priv))"
    by (simp_all add: wg_configure_address_def wg_ifup_def Let_def split: option.split)
qed

lemma initialize_OK:
  assumes run: "wg_initialize X cfg sys st priv os = (OK, priv', os')" and down: "\<not> nd_registered priv"
  shows "\<exists>key. wg_decode_key (Some (wg_cfg_str (st_private_key st) (cf_private_key cfg))) 32 = Some key
      \<and> dv_private_key (nd_wg priv') = wireguard_clamp_private_key key \<and> dv_public_key (nd_wg priv') = snd (X key basepoint)
      \<and> fst (X key basepoint) = 0"
    and "nd_registered priv' \<and> nd_running priv' \<and> nd_bifup priv' \<and> length (dv_peers (nd_wg priv')) = cf_max_peers cfg
      \<and> length (dv_cookie_secret (nd_wg priv')) = 32 \<and> fresh_peers (cf_replay_words cfg) priv'"
proof -
  obtain key os1 dev os2 where key: "wg_decode_key (Some (wg_cfg_str (st_private_key st) (cf_private_key cfg))) 32 = Some key"
    and init: "wireguard_device_init X (zero_device cfg) key os1 = (True, dev, os2)"
    and priv': "priv' = (wg_configure_address cfg ((wg_configure_peer X cfg st ((zero_netdev cfg)\<lparr>nd_wg := dev\<rparr>))\<lparr>nd_running := True, nd_rxtask := ns_task sys\<rparr>))\<lparr>nd_registered := True\<rparr>"
    using run down by (auto simp: wg_initialize_def Let_def zero_netdev_def split: if_splits option.splits prod.splits)
  note d = device_init_True [OF init]
  let ?P = "(zero_netdev cfg)\<lparr>nd_wg := dev\<rparr>"
  have "fresh_peers (cf_replay_words cfg) ?P" by (simp add: fresh_peers_def d(4) zero_device_def fresh_zero_peer)
  from configure_peer_fresh [OF this, of X cfg st] obtain ps where f: "fresh_peers (cf_replay_words cfg) (wg_configure_peer X cfg st ?P)"
    and ps: "length ps = cf_max_peers cfg" "wg_configure_peer X cfg st ?P = ?P\<lparr>nd_wg := dev\<lparr>dv_peers := ps\<rparr>\<rparr>"
    by (auto simp: same_device_def d(4) zero_device_def)
  have fresh_upd: "fresh_peers w (p\<lparr>nd_running := b\<rparr>) = fresh_peers w p" "fresh_peers w (p\<lparr>nd_rxtask := t\<rparr>) = fresh_peers w p"
    "fresh_peers w (p\<lparr>nd_registered := b\<rparr>) = fresh_peers w p" for w p b t by (simp_all add: fresh_peers_def)
  show "\<exists>key. wg_decode_key (Some (wg_cfg_str (st_private_key st) (cf_private_key cfg))) 32 = Some key
      \<and> dv_private_key (nd_wg priv') = wireguard_clamp_private_key key \<and> dv_public_key (nd_wg priv') = snd (X key basepoint)
      \<and> fst (X key basepoint) = 0"
    using key d ps by (simp add: priv' configure_address_facts)
  show "nd_registered priv' \<and> nd_running priv' \<and> nd_bifup priv' \<and> length (dv_peers (nd_wg priv')) = cf_max_peers cfg
      \<and> length (dv_cookie_secret (nd_wg priv')) = 32 \<and> fresh_peers (cf_replay_words cfg) priv'"
    using f ps d by (simp add: priv' configure_address_facts fresh_upd)
qed

lemma configure_registered: "nd_registered (wg_configure_peer X cfg st priv) = nd_registered priv"
proof -
  have one: "nd_registered (wg_add_peer X cfg sp priv) = nd_registered priv" for sp priv
    by (simp add: wg_add_peer_def nd_put_def Let_def split: option.split prod.split)
  have "nd_registered (fold (wg_add_peer X cfg) sps priv) = nd_registered priv" for sps
    by (induction sps arbitrary: priv) (simp_all add: one)
  then show ?thesis by (simp add: wg_configure_peer_def one)
qed

lemma initialize_error: "wg_initialize X cfg sys st priv os = (r, priv', os') \<Longrightarrow> r \<noteq> OK \<Longrightarrow> \<not> nd_registered priv'"
  by (auto simp: wg_initialize_def Let_def zero_netdev_def configure_registered split: if_splits option.splits prod.splits)

text \<open>The key and the peers an interface comes up with: the staged ones, or those of the build.\<close>

definition effective_peers :: "kconfig \<Rightarrow> wg_staged_s \<Rightarrow> wg_staged_peer_s list" where
  "effective_peers cfg st =
     (if st_peers st \<noteq> [] then st_peers st else if cf_peer_public_key cfg = [] then [] else [kconfig_peer cfg])"

definition effective_key :: "kconfig \<Rightarrow> wg_staged_s \<Rightarrow> string" where
  "effective_key cfg st = wg_cfg_str (st_private_key st) (cf_private_key cfg)"

lemma configure_effective: "wg_configure_peer X cfg st priv = fold (wg_add_peer X cfg) (effective_peers cfg st) priv"
  by (simp add: wg_configure_peer_def effective_peers_def)

section \<open>The peer table\<close>

text \<open>
  A staged peer is usable when its key decodes and has a shared secret with the device's key; what the
  peer built from it has to hold.
\<close>

definition usable_peer :: "dh \<Rightarrow> bytes \<Rightarrow> wg_staged_peer_s \<Rightarrow> bool" where
  "usable_peer X key sp \<longleftrightarrow> (case wg_decode_key (Some (sp_public_key sp)) 32 of None \<Rightarrow> False | Some pk \<Rightarrow> fst (X key pk) = 0)"

definition allowed_of :: "nat \<Rightarrow> wg_staged_peer_s \<Rightarrow> wireguard_allowed_ip list" where
  "allowed_of n sp = (replicate n \<lparr>ai_valid = False, ai_ip = 0, ai_mask = 0\<rparr>)
     [0 := (case (inet_pton (sp_allowed_ip sp), inet_pton (sp_allowed_mask sp)) of
        (Some a, Some m) \<Rightarrow> \<lparr>ai_valid = True, ai_ip = a, ai_mask = m\<rparr>
      | (Some a, None) \<Rightarrow> \<lparr>ai_valid = False, ai_ip = a, ai_mask = 0\<rparr>
      | (None, _) \<Rightarrow> \<lparr>ai_valid = False, ai_ip = 0, ai_mask = 0\<rparr>)]"

definition endpoint_of :: "kconfig \<Rightarrow> wg_staged_peer_s \<Rightarrow> u32 \<times> u16" where
  "endpoint_of cfg sp = (case inet_pton (sp_endpoint_ip sp) of None \<Rightarrow> (0, 0)
     | Some a \<Rightarrow> (a, if sp_endpoint_port sp \<noteq> 0 then sp_endpoint_port sp else cf_peer_endpoint_port cfg))"

definition configured_as :: "dh \<Rightarrow> kconfig \<Rightarrow> bytes \<Rightarrow> wg_staged_peer_s \<Rightarrow> wireguard_peer \<Rightarrow> bool" where
  "configured_as X cfg key sp p \<longleftrightarrow> pr_valid p
     \<and> wg_decode_key (Some (sp_public_key sp)) 32 = Some (pr_public_key p)
     \<and> X key (pr_public_key p) = (0, pr_public_key_dh p) \<and> pr_preshared_key p = zeroes 32
     \<and> pr_label_mac1_key p = wireguard_mac_key (pr_public_key p) LABEL_MAC1
     \<and> pr_label_cookie_key p = wireguard_mac_key (pr_public_key p) LABEL_COOKIE
     \<and> pr_keepalive_interval p = of_int (if sp_keepalive sp \<ge> 0 then sp_keepalive sp else cf_peer_keepalive cfg)
     \<and> pr_allowed_source_ips p = allowed_of (cf_max_src_ips cfg) sp
     \<and> (pr_connect_ip p, pr_connect_port p) = endpoint_of cfg sp \<and> (pr_ip p, pr_port p) = endpoint_of cfg sp"

definition blank_slot :: "kconfig \<Rightarrow> wireguard_peer \<Rightarrow> bool" where
  "blank_slot cfg p \<longleftrightarrow> \<not> pr_valid p \<and> length (pr_allowed_source_ips p) = cf_max_src_ips cfg"

definition table_for :: "dh \<Rightarrow> kconfig \<Rightarrow> bytes \<Rightarrow> wg_staged_peer_s list \<Rightarrow> wireguard_peer list \<Rightarrow> bool" where
  "table_for X cfg key sps ps \<longleftrightarrow> (let us = take (cf_max_peers cfg) (filter (usable_peer X key) sps) in
     length ps = cf_max_peers cfg \<and> list_all2 (configured_as X cfg key) us (take (length us) ps)
     \<and> list_all (blank_slot cfg) (drop (length us) ps))"

lemma pton_Nil [simp]: "inet_pton [] = None"
  by (simp add: inet_pton_def cut_at_def)

lemma settings_frame:
  "pr_public_key_dh (staged_settings cfg sp p) = pr_public_key_dh p" "pr_preshared_key (staged_settings cfg sp p) = pr_preshared_key p"
  "pr_label_cookie_key (staged_settings cfg sp p) = pr_label_cookie_key p"
  "pr_keepalive_interval (staged_settings cfg sp p) = of_int (if sp_keepalive sp \<ge> 0 then sp_keepalive sp else cf_peer_keepalive cfg)"
  by (simp_all add: staged_settings_def Let_def split: option.split)

lemma settings_allowed:
  "pr_allowed_source_ips p = replicate n \<lparr>ai_valid = False, ai_ip = 0, ai_mask = 0\<rparr> \<Longrightarrow>
     pr_allowed_source_ips (staged_settings cfg sp p) = allowed_of n sp"
  by (cases n) (auto simp: staged_settings_def allowed_of_def Let_def split: option.split)

lemma settings_endpoint:
  "pr_connect_ip p = 0 \<Longrightarrow> pr_connect_port p = 0 \<Longrightarrow>
     (pr_connect_ip (staged_settings cfg sp p), pr_connect_port (staged_settings cfg sp p)) = endpoint_of cfg sp"
  "pr_ip p = 0 \<Longrightarrow> pr_port p = 0 \<Longrightarrow>
     (pr_ip (staged_settings cfg sp p), pr_port (staged_settings cfg sp p)) = endpoint_of cfg sp"
  by (auto simp: staged_settings_def endpoint_of_def Let_def split: option.split)

lemma peer_init_result:
  assumes "wireguard_peer_init X dev p0 pk None = (ok, p)" "dv_valid dev" "X (dv_private_key dev) pk = (r, d)"
  shows "ok = (r = 0)" "pr_valid p = (r = 0)" "pr_public_key p = pk" "pr_preshared_key p = zeroes 32"
    "r = 0 \<Longrightarrow> pr_public_key_dh p = d" "r = 0 \<Longrightarrow> pr_label_mac1_key p = wireguard_mac_key pk LABEL_MAC1"
    "r = 0 \<Longrightarrow> pr_label_cookie_key p = wireguard_mac_key pk LABEL_COOKIE"
    "pr_allowed_source_ips p = replicate (length (pr_allowed_source_ips p0)) \<lparr>ai_valid = False, ai_ip = 0, ai_mask = 0\<rparr>"
    "pr_connect_ip p = 0" "pr_connect_port p = 0" "pr_ip p = 0" "pr_port p = 0"
  using assms unfolding wireguard_peer_init_def Let_def
  by (auto simp: zero_peer_def zeroes_def split: if_splits)

lemma peer_init_configured:
  assumes init: "wireguard_peer_init X dev p0 pk None = (ok, p)" and v: "dv_valid dev" and p0: "blank_slot cfg p0"
    and pk: "wg_decode_key (Some (sp_public_key sp)) 32 = Some pk"
  shows "ok = usable_peer X (dv_private_key dev) sp"
    and "ok \<Longrightarrow> configured_as X cfg (dv_private_key dev) sp (staged_settings cfg sp p)"
    and "\<not> ok \<Longrightarrow> blank_slot cfg p"
proof -
  obtain r d where X: "X (dv_private_key dev) pk = (r, d)" by fastforce
  note f = peer_init_result[OF init v X]
  show "ok = usable_peer X (dv_private_key dev) sp" by (simp add: usable_peer_def pk X f(1))
  show "\<not> ok \<Longrightarrow> blank_slot cfg p" using f p0 by (simp add: blank_slot_def)
  show "ok \<Longrightarrow> configured_as X cfg (dv_private_key dev) sp (staged_settings cfg sp p)"
    using f X pk p0 settings_allowed[OF f(8)] settings_endpoint(1)[OF f(9,10)] settings_endpoint(2)[OF f(11,12)]
    unfolding configured_as_def by (simp add: settings_frame blank_slot_def)
qed

lemma add_peer_table:
  assumes t: "table_for X cfg (dv_private_key (nd_wg priv)) sps (dv_peers (nd_wg priv))" and v: "dv_valid (nd_wg priv)"
  shows "table_for X cfg (dv_private_key (nd_wg priv)) (sps @ [sp]) (dv_peers (nd_wg (wg_add_peer X cfg sp priv)))"
proof -
  define ps where "ps = dv_peers (nd_wg priv)"
  define key where "key = dv_private_key (nd_wg priv)"
  define fs where "fs = filter (usable_peer X key) sps"
  define us where "us = take (cf_max_peers cfg) fs"
  have len: "length ps = cf_max_peers cfg" and conf: "list_all2 (configured_as X cfg key) us (take (length us) ps)"
    and blank: "list_all (blank_slot cfg) (drop (length us) ps)"
    using t by (simp_all add: table_for_def us_def fs_def ps_def key_def Let_def)
  have unused: "table_for X cfg key (sps @ [sp]) ps" if "\<not> usable_peer X key sp \<or> cf_max_peers cfg \<le> length fs"
    using t that by (auto simp: table_for_def Let_def ps_def key_def fs_def)
  show ?thesis
  proof (cases "wg_decode_key (Some (sp_public_key sp)) 32")
    case None
    then show ?thesis using unused by (simp add: wg_add_peer_def usable_peer_def ps_def key_def)
  next
    case pk: (Some pk)
    have lu: "length us \<le> length ps" by (simp add: us_def len)
    have val: "pr_valid (ps ! j)" if "j < length us" for j
      using list_all2_nthD2[OF conf, of j] that lu by (simp add: configured_as_def)
    have inval: "\<not> pr_valid (ps ! j)" if "length us \<le> j" "j < length ps" for j
      using blank that by (auto simp: list_all_length blank_slot_def dest!: spec[of _ "j - length us"])
    show ?thesis
    proof (cases "cf_max_peers cfg \<le> length fs")
      case True
      then have "length us = length ps" by (simp add: us_def len)
      then have "peer_alloc (nd_wg priv) = None"
        using val by (auto simp: peer_alloc_def find_index_None in_set_conv_nth ps_def[symmetric])
      then show ?thesis using unused True pk by (simp add: wg_add_peer_def ps_def key_def)
    next
      case False
      then have us: "us = fs" and room: "length fs < length ps" by (simp_all add: us_def len)
      have i: "peer_alloc (nd_wg priv) = Some (length fs)"
        using val inval room us by (auto simp: peer_alloc_def find_index_Some ps_def[symmetric])
      obtain ok p where p: "wireguard_peer_init X (nd_wg priv) (nd_peer priv (length fs)) pk None = (ok, p)" by fastforce
      have b: "blank_slot cfg (nd_peer priv (length fs))"
        using blank room us by (auto simp: list_all_length nd_peer_def peer_at_def ps_def[symmetric] dest!: spec[of _ 0])
      note c = peer_init_configured[OF p v b pk]
      let ?q = "if ok then staged_settings cfg sp p else p"
      have new: "dv_peers (nd_wg (wg_add_peer X cfg sp priv)) = ps[length fs := ?q]"
        using pk i p by (simp add: wg_add_peer_def nd_put_def put_peer_def ps_def)
      have split: "ps[length fs := ?q] = take (length fs) ps @ ?q # drop (Suc (length fs)) ps"
        using room by (simp add: upd_conv_take_nth_drop)
      have rest: "list_all (blank_slot cfg) (drop (Suc (length fs)) ps)"
        using blank room unfolding us Cons_nth_drop_Suc[OF room, symmetric] by simp
      show ?thesis
      proof (cases ok)
        case True
        then have u: "filter (usable_peer X key) (sps @ [sp]) = fs @ [sp]" using c(1) by (simp add: fs_def key_def)
        have "list_all2 (configured_as X cfg key) (fs @ [sp]) (take (length fs) ps @ [staged_settings cfg sp p])"
          using conf us c(2) True by (intro list_all2_appendI) (simp_all add: key_def)
        then show ?thesis
          using True u rest room len unfolding table_for_def new key_def[symmetric] split by (simp add: Let_def)
      next
        case False
        then have u: "filter (usable_peer X key) (sps @ [sp]) = fs" using c(1) by (simp add: fs_def key_def)
        then show ?thesis
          using False rest room len us conf c(3) unfolding table_for_def new key_def[symmetric] split by (simp add: Let_def)
      qed
    qed
  qed
qed

lemma add_peer_frame:
  "dv_private_key (nd_wg (wg_add_peer X cfg sp priv)) = dv_private_key (nd_wg priv)"
  "dv_valid (nd_wg (wg_add_peer X cfg sp priv)) = dv_valid (nd_wg priv)"
  by (simp_all add: wg_add_peer_def nd_put_def put_peer_def split: option.split prod.split)

lemma configure_table:
  assumes "dv_peers (nd_wg priv) = dv_peers (zero_device cfg)" "dv_valid (nd_wg priv)"
  shows "table_for X cfg (dv_private_key (nd_wg priv)) (effective_peers cfg st) (dv_peers (nd_wg (wg_configure_peer X cfg st priv)))"
proof -
  let ?key = "dv_private_key (nd_wg priv)"
  have "table_for X cfg ?key [] (dv_peers (nd_wg priv))"
    using assms(1) by (simp add: table_for_def zero_device_def list_all_iff blank_slot_def zero_peer_def)
  then have "table_for X cfg ?key sps (dv_peers (nd_wg (fold (wg_add_peer X cfg) sps priv)))
      \<and> dv_private_key (nd_wg (fold (wg_add_peer X cfg) sps priv)) = ?key
      \<and> dv_valid (nd_wg (fold (wg_add_peer X cfg) sps priv))" for sps
    using assms(2) by (induction sps rule: rev_induct) (simp_all add: add_peer_frame, metis add_peer_table)
  then show ?thesis by (simp add: configure_effective)
qed

section \<open>What start-up reports\<close>

lemma fold_or_zero: "fold (\<lambda>b acc. acc OR b) bs (a :: byte) = 0 \<longleftrightarrow> a = 0 \<and> (\<forall>b \<in> set bs. b = 0)"
  by (induction bs arbitrary: a) (auto simp: word_or_eq_0)

lemma all_zero: "length bs = n \<Longrightarrow> (\<forall>b \<in> set bs. b = 0) \<longleftrightarrow> bs = zeroes n"
  unfolding zeroes_def by (metis in_set_replicate replicate_eqI)

lemma initialize_status_eq:
  assumes "\<not> nd_registered priv"
  shows "fst (wg_initialize X cfg sys st priv os) =
     (case wg_decode_key (Some (effective_key cfg st)) 32 of
        None \<Rightarrow> EINVAL
      | Some key \<Rightarrow>
          if fst (wireguard_random_bytes 32 os) = zeroes 32 then EIO
          else if key = zeroes 32 then EINVAL else if fst (X key basepoint) \<noteq> 0 then EINVAL
          else if ns_socket sys < 0 then Errno (ns_socket sys)
          else if ns_bind sys < 0 then Errno (ns_bind sys)
          else if ns_register sys < 0 then Errno (ns_register sys)
          else if ns_task sys < 0 then Errno (ns_task sys)
          else OK)"
proof -
  obtain probe os1 where p: "wireguard_random_bytes 32 os = (probe, os1)" by fastforce
  have lp: "length probe = 32" using random_bytes_length[of 32 os] p by simp
  show ?thesis
  proof (cases "wg_decode_key (Some (effective_key cfg st)) 32")
    case None
    then show ?thesis using assms by (simp add: wg_initialize_def effective_key_def Let_def)
  next
    case (Some key)
    then have lk: "length key = 32" "effective_key cfg st \<noteq> []" using decode_key_length by fastforce+
    obtain ok dev os2 where d: "wireguard_device_init X (zero_device cfg) key os1 = (ok, dev, os2)" by (metis prod_cases3)
    have "ok \<longleftrightarrow> memcmp key zero_key \<noteq> 0 \<and> fst (X key basepoint) = 0"
      using d by (auto simp: wireguard_device_init_def wireguard_generate_public_key_def generate_cookie_secret_def Let_def split: if_splits prod.splits)
    then have ok: "ok \<longleftrightarrow> key \<noteq> zeroes 32 \<and> fst (X key basepoint) = 0" using lk by (simp add: memcmp_eq_0 zero_key_def)
    show ?thesis
      using assms Some lk d ok
      by (simp add: wg_initialize_def effective_key_def p fold_or_zero all_zero[OF lp] zero_netdev_def Let_def)
  qed
qed

lemma ifup_table:
  "table_for X cfg key sps ps \<Longrightarrow> table_for X cfg key sps (map ifup_peer ps)"
proof -
  have "configured_as X cfg key sp p \<Longrightarrow> configured_as X cfg key sp (ifup_peer p)" for sp p
    by (auto simp: configured_as_def ifup_peer_def)
  moreover have "blank_slot cfg p \<Longrightarrow> blank_slot cfg (ifup_peer p)" for p
    by (simp add: blank_slot_def ifup_peer_def)
  ultimately show "table_for X cfg key sps ps \<Longrightarrow> table_for X cfg key sps (map ifup_peer ps)"
    by (auto simp: table_for_def Let_def list_all2_conv_all_nth list_all_length)
qed

lemma configure_address_table:
  "dv_peers (nd_wg (wg_configure_address cfg priv)) = map ifup_peer (dv_peers (nd_wg priv))"
  "nd_ipaddr (wg_configure_address cfg priv) = (case inet_pton (cf_local_ipaddr cfg) of Some a \<Rightarrow> a | None \<Rightarrow> nd_ipaddr priv)"
  "nd_netmask (wg_configure_address cfg priv) = (case inet_pton (cf_local_netmask cfg) of Some a \<Rightarrow> a | None \<Rightarrow> nd_netmask priv)"
  by (simp_all add: wg_configure_address_def wg_ifup_def Let_def split: option.split)


lemma initialize_OK_table:
  assumes run: "wg_initialize X cfg sys st priv os = (OK, priv', os')" and down: "\<not> nd_registered priv"
  shows "table_for X cfg (dv_private_key (nd_wg priv')) (effective_peers cfg st) (dv_peers (nd_wg priv'))"
    and "nd_rxtask priv' = ns_task sys"
    and "nd_ipaddr priv' = (case inet_pton (cf_local_ipaddr cfg) of Some a \<Rightarrow> a | None \<Rightarrow> 0)"
    and "nd_netmask priv' = (case inet_pton (cf_local_netmask cfg) of Some a \<Rightarrow> a | None \<Rightarrow> 0)"
proof -
  obtain key os1 dev os2 where init: "wireguard_device_init X (zero_device cfg) key os1 = (True, dev, os2)"
    and priv': "priv' = (wg_configure_address cfg ((wg_configure_peer X cfg st ((zero_netdev cfg)\<lparr>nd_wg := dev\<rparr>))\<lparr>nd_running := True, nd_rxtask := ns_task sys\<rparr>))\<lparr>nd_registered := True\<rparr>"
    using run down by (auto simp: wg_initialize_def Let_def zero_netdev_def split: if_splits option.splits prod.splits)
  note d = device_init_True [OF init]
  let ?P = "(zero_netdev cfg)\<lparr>nd_wg := dev\<rparr>"
  have t: "table_for X cfg (dv_private_key dev) (effective_peers cfg st) (dv_peers (nd_wg (wg_configure_peer X cfg st ?P)))"
    using configure_table[of ?P cfg X st] d by simp
  have fresh: "fresh_peers (cf_replay_words cfg) ?P" by (simp add: fresh_peers_def d(4) zero_device_def fresh_zero_peer)
  from configure_peer_fresh [OF this, of X cfg st] obtain ps where ps: "wg_configure_peer X cfg st ?P = ?P\<lparr>nd_wg := dev\<lparr>dv_peers := ps\<rparr>\<rparr>"
    by (auto simp: same_device_def)
  show "table_for X cfg (dv_private_key (nd_wg priv')) (effective_peers cfg st) (dv_peers (nd_wg priv'))"
    using ifup_table[OF t] ps by (simp add: priv' configure_address_table configure_address_facts)
  show "nd_rxtask priv' = ns_task sys"
    by (simp add: priv' wg_configure_address_def wg_ifup_def Let_def split: option.split)
  show "nd_ipaddr priv' = (case inet_pton (cf_local_ipaddr cfg) of Some a \<Rightarrow> a | None \<Rightarrow> 0)"
    "nd_netmask priv' = (case inet_pton (cf_local_netmask cfg) of Some a \<Rightarrow> a | None \<Rightarrow> 0)"
    using ps by (simp_all add: priv' configure_address_table zero_netdev_def split: option.split)
qed

text \<open>
  C24. Bringing the interface up. \<open>wg_initialize\<close> does nothing when it is up already. Otherwise its
  result is \<open>EINVAL\<close> when there is no valid private key, \<open>EIO\<close> when the entropy probe reads only zeroes,
  \<open>EINVAL\<close> when no public key can be derived, and then the error of the first of socket, bind,
  registration and task creation that fails; after an error the interface is not registered. On success
  the device holds the clamped private key in force and the matching public key, the interface is up with
  its addresses and its receive task running, and the peer table is built from the peers in force: those
  whose key decodes and has a shared secret, in their order and as many as fit, each with its keys,
  keepalive, allowed range and endpoint and without sessions, and all other slots empty.
\<close>

theorem wg_initialize_contract:
  "case wg_initialize X cfg sys st priv os of (r, priv', os') \<Rightarrow>
     if nd_registered priv then r = OK \<and> priv' = priv \<and> os' = os
     else
       r = (case wg_decode_key (Some (effective_key cfg st)) 32 of
              None \<Rightarrow> EINVAL
            | Some key \<Rightarrow>
                if fst (wireguard_random_bytes 32 os) = zeroes 32 then EIO
                else if key = zeroes 32 then EINVAL else if fst (X key basepoint) \<noteq> 0 then EINVAL
                else if ns_socket sys < 0 then Errno (ns_socket sys)
                else if ns_bind sys < 0 then Errno (ns_bind sys)
                else if ns_register sys < 0 then Errno (ns_register sys)
                else if ns_task sys < 0 then Errno (ns_task sys)
                else OK)
       \<and> (if r \<noteq> OK then \<not> nd_registered priv'
          else \<exists>key. wg_decode_key (Some (effective_key cfg st)) 32 = Some key
            \<and> dv_private_key (nd_wg priv') = wireguard_clamp_private_key key
            \<and> X key basepoint = (0, dv_public_key (nd_wg priv'))
            \<and> table_for X cfg (wireguard_clamp_private_key key) (effective_peers cfg st) (dv_peers (nd_wg priv'))
            \<and> fresh_peers (cf_replay_words cfg) priv'
            \<and> nd_registered priv' \<and> nd_running priv' \<and> nd_bifup priv' \<and> nd_rxtask priv' = ns_task sys
            \<and> nd_ipaddr priv' = (case inet_pton (cf_local_ipaddr cfg) of Some a \<Rightarrow> a | None \<Rightarrow> 0)
            \<and> nd_netmask priv' = (case inet_pton (cf_local_netmask cfg) of Some a \<Rightarrow> a | None \<Rightarrow> 0))"
proof (cases "wg_initialize X cfg sys st priv os")
  case (fields r priv' os')
  show ?thesis
  proof (cases "nd_registered priv")
    case True
    then show ?thesis by (simp add: wg_initialize_def)
  next
    case down: False
    note status = initialize_status_eq [OF down, of X cfg sys st os, unfolded fields fst_conv]
    show ?thesis
    proof (cases "r = OK")
      case True
      note f = fields [unfolded True]
      have "\<exists>key. wg_decode_key (Some (effective_key cfg st)) 32 = Some key
          \<and> dv_private_key (nd_wg priv') = wireguard_clamp_private_key key \<and> X key basepoint = (0, dv_public_key (nd_wg priv'))"
        using initialize_OK(1) [OF f down] unfolding effective_key_def by (metis prod.collapse)
      then show ?thesis
        using initialize_OK(2) [OF f down] initialize_OK_table [OF f down] True
        unfolding fields prod.case if_not_P [OF down] status [symmetric] by auto
    next
      case False
      then show ?thesis
        using initialize_error [OF fields] unfolding fields prod.case if_not_P [OF down] status [symmetric] by simp
    qed
  qed
qed

lemma fresh_peer_ok: "0 < words \<Longrightarrow> words < 2 ^ 32 \<Longrightarrow> fresh_peer words p \<Longrightarrow> peer_ok words p"
  by (auto simp: fresh_peer_def peer_ok_def zero_keypair_def intro!: keypair_ok_zero)

text \<open>
  From start-up on, the windows and counters of every key pair are sound: in every state the
  interface reaches after \<open>wg_initialize\<close>, each replay bitmap has its configured size and represents
  the set of counters accepted on that key pair, and no sending counter passes
  \<open>REJECT_AFTER_MESSAGES\<close>, so that no nonce wraps.
\<close>

lemma keypairs_sound_from_start:
  assumes "wg_initialize X cfg sys st priv0 os0 = (OK, priv, os)" "\<not> nd_registered priv0"
    and "wg_run X cfg (priv, os1) (priv', os')" and "0 < cf_replay_words cfg" "cf_replay_words cfg < 2 ^ 32"
    and "i < length (dv_peers (nd_wg priv'))"
  shows "let k = slot_keypair (nd_peer priv' i) s in
     kp_sending_counter k \<le> REJECT_AFTER_MESSAGES \<and> length (kp_replay_bitmap k) = cf_replay_words cfg \<and> (\<exists>H. replay_inv H k)"
proof -
  have "fresh_peers (cf_replay_words cfg) priv" using initialize_OK(2) [OF assms(1,2)] by blast
  then have "\<forall>i < length (dv_peers (nd_wg priv)). peer_ok (cf_replay_words cfg) (nd_peer priv i)"
    using fresh_peer_ok [OF assms(4,5)] by (simp add: fresh_peers_def nd_peer_def peer_at_def)
  from keypairs_stay_ok [OF assms(3,4,5) this] show ?thesis using assms(6) by blast
qed


definition sample_sys :: netsys where
  "sample_sys = \<lparr>ns_socket = 0, ns_bind = 0, ns_register = 0, ns_task = 5\<rparr>"

lemma sample_probe:
  "wireguard_random_bytes 32 (sample_os 7) = ([1, 1, 2, 3, 2, 1, 2, 3, 3, 1, 2, 3, 4, 1, 2, 3, 5, 1, 2, 3, 6, 1, 2, 3, 7, 1, 2, 3, 8, 1, 2, 3], (sample_os 7)\<lparr>urandom_pos := 9\<rparr>)"
  by (simp add: wireguard_random_bytes_def urandom_next_def sample_os_def urandom_read.simps Let_def)

lemma sample_initialize_with:
  assumes dec: "wg_decode_key (Some s) 32 = Some key" and ne: "memcmp key zero_key \<noteq> 0" and X: "\<And>a b. fst (X a b) = 0"
  shows "\<exists>priv os. wg_initialize X sample_config sample_sys \<lparr>st_private_key = s, st_peers = []\<rparr> (zero_netdev sample_config) (sample_os 7)
     = (OK, priv, os)"
proof -
  have "s \<noteq> []" using decode_key_length [OF dec] by auto
  moreover obtain dev os2 where init: "wireguard_device_init X (zero_device sample_config) key ((sample_os 7)\<lparr>urandom_pos := 9\<rparr>) = (True, dev, os2)"
    using ne X by (simp add: wireguard_device_init_def generate_cookie_secret_def wireguard_generate_public_key_def split_def Let_def)
  ultimately have "fst (wg_initialize X sample_config sample_sys \<lparr>st_private_key = s, st_peers = []\<rparr> (zero_netdev sample_config) (sample_os 7)) = OK"
    using dec by (simp add: wg_initialize_def wg_cfg_str_def sample_probe zero_netdev_def sample_sys_def Let_def)
  then show ?thesis by (metis prod.collapse)
qed

lemma zero_netdev_down [simp]: "\<not> nd_registered (zero_netdev cfg)"
  by (simp add: zero_netdev_def)

lemma sample_initialize_any:
  assumes X: "\<And>a b. fst (X a b) = 0"
  shows "\<exists>st priv os. wg_initialize X sample_config sample_sys st (zero_netdev sample_config) (sample_os 7) = (OK, priv, os)
     \<and> length (dv_peers (nd_wg priv)) = 1"
proof -
  define key :: bytes where "key = replicate 32 1"
  have len: "length key = 32" by (simp add: key_def)
  obtain s where s: "wireguard_base64_encode key 47 = Some s" using encode_key [OF len] by blast
  have "key ! 0 = 1" by (simp add: key_def)
  then have "memcmp key zero_key \<noteq> 0" using len by (auto simp: memcmp_eq_0 zero_key_def zeroes_def)
  then obtain priv os where w: "wg_initialize X sample_config sample_sys \<lparr>st_private_key = s, st_peers = []\<rparr>
      (zero_netdev sample_config) (sample_os 7) = (OK, priv, os)"
    using sample_initialize_with [where X = X, OF decode_encode_key [OF len s] _ X] by blast
  from initialize_OK(2) [OF w] w show ?thesis by (auto simp: sample_config_def)
qed

lemma sample_initialize:
  "\<exists>st priv os. wg_initialize toy_dh sample_config sample_sys st (zero_netdev sample_config) (sample_os 7) = (OK, priv, os)
     \<and> length (dv_peers (nd_wg priv)) = 1"
  by (rule sample_initialize_any [where X = toy_dh]) (simp add: toy_dh_def)

section \<open>Keys\<close>

text \<open>
  The key that is printed is the key that is used. A key \<open>wg_genkey\<close> generates is accepted by
  \<open>wg_set_private_key\<close> and staged unchanged; it decodes to a 32-byte key that is already clamped; an
  interface brought up with it uses exactly that key, and \<open>wg_pubkey\<close> of it prints the public key the
  interface then has.
\<close>

lemma generated_key_is_used:
  assumes gen: "wg_genkey WG_KEY_STRLEN os = (Inr s, os1)" and X: "dh_sized X"
    and set: "wg_set_private_key False st (Some s) = (r, st')"
    and up: "wg_initialize X cfg sys st' priv os2 = (OK, priv', os3)" "\<not> nd_registered priv"
  shows "r = OK \<and> st_private_key st' = s \<and> wg_decode_key (Some s) 32 = Some (dv_private_key (nd_wg priv'))
    \<and> (\<exists>p. wg_pubkey X (Some s) WG_KEY_STRLEN = Inr p \<and> wg_decode_key (Some p) 32 = Some (dv_public_key (nd_wg priv')))"
proof -
  obtain k0 where k0: "wireguard_random_bytes 32 os = (k0, os1)" and enc: "wireguard_base64_encode (wg_clamp_private_key k0) 47 = Some s"
    using gen by (auto simp: wg_genkey_def Let_def split: prod.splits option.splits)
  define key where "key = wireguard_clamp_private_key k0"
  have len: "length k0 = 32" using random_bytes_length [of 32 os] k0 by simp
  then have klen: "length key = 32" by (simp add: key_def)
  have dec: "wg_decode_key (Some s) 32 = Some key"
    using decode_encode_key [OF klen] enc by (simp add: key_def clamp_eq)
  have st: "r = OK" "st_private_key st' = s" using set dec decode_key_strlcpy by (auto simp: wg_set_private_key_def)
  have ne: "s \<noteq> []" using decode_key_length [OF dec] by auto
  from initialize_OK(1) [OF up] have k: "dv_private_key (nd_wg priv') = wireguard_clamp_private_key key"
    "X key basepoint = (0, dv_public_key (nd_wg priv'))"
    using st dec ne by (auto simp: wg_cfg_str_def) (metis prod.collapse)
  have "length (dv_public_key (nd_wg priv')) = 32" using X k(2) unfolding dh_sized_def by (metis snd_conv)
  then obtain p where p: "wireguard_base64_encode (dv_public_key (nd_wg priv')) 47 = Some p"
    "wg_decode_key (Some p) 32 = Some (dv_public_key (nd_wg priv'))"
    using encode_key decode_encode_key by blast
  have "wg_pubkey X (Some s) WG_KEY_STRLEN = Inr p"
    using dec k(2) p(1) by (simp add: wg_pubkey_def wg_derive_public_key_def)
  then show ?thesis using st dec k(1) p(2) clamp_idem [OF len] by (auto simp: key_def)
qed

definition cut_dh :: dh where
  "cut_dh a b = (0, take 32 (map2 (XOR) a b @ zeroes 32))"

lemma cut_dh_facts: "fst (cut_dh a b) = 0" "dh_sized cut_dh"
  by (auto simp: cut_dh_def dh_sized_def zeroes_def min_def)

lemma generated_key_is_used_witness:
  "\<exists>s os1 priv' os3. wg_genkey WG_KEY_STRLEN (sample_os 7) = (Inr s, os1)
    \<and> wg_initialize cut_dh sample_config sample_sys \<lparr>st_private_key = s, st_peers = []\<rparr> (zero_netdev sample_config) (sample_os 7) = (OK, priv', os3)
    \<and> wg_decode_key (Some s) 32 = Some (dv_private_key (nd_wg priv'))"
proof -
  define k0 where "k0 = fst (wireguard_random_bytes 32 (sample_os 7))"
  define key where "key = wireguard_clamp_private_key k0"
  have len: "length k0 = 32" "length key = 32" by (simp_all add: key_def k0_def sample_probe)
  obtain s where s: "wireguard_base64_encode key 47 = Some s" using encode_key [OF len(2)] by blast
  have g: "wg_genkey WG_KEY_STRLEN (sample_os 7) = (Inr s, (sample_os 7)\<lparr>urandom_pos := 9\<rparr>)"
    using s by (simp add: wg_genkey_def sample_probe key_def k0_def clamp_eq)
  have dec: "wg_decode_key (Some s) 32 = Some key" by (rule decode_encode_key [OF len(2) s])
  have "key ! 1 = 1" by (simp add: key_def k0_def sample_probe wireguard_clamp_private_key_def)
  then have "memcmp key zero_key \<noteq> 0" using len by (auto simp: memcmp_eq_0 zero_key_def zeroes_def)
  then obtain priv' os3 where w: "wg_initialize cut_dh sample_config sample_sys \<lparr>st_private_key = s, st_peers = []\<rparr>
      (zero_netdev sample_config) (sample_os 7) = (OK, priv', os3)"
    using sample_initialize_with [where X = cut_dh, OF dec _ cut_dh_facts(1)] by blast
  let ?st0 = "\<lparr>st_private_key = [], st_peers = []\<rparr>"
  have st: "wg_set_private_key False ?st0 (Some s) = (OK, \<lparr>st_private_key = s, st_peers = []\<rparr>)"
    using dec decode_key_strlcpy [OF dec] by (simp add: wg_set_private_key_def)
  from generated_key_is_used [OF g cut_dh_facts(2) st w] g w show ?thesis by auto
qed

end
