(* ===== verification/Tasks.thy ===== *)
theory Tasks
  imports Startup
begin

text \<open>
  The tasks of \<open>nuttx-wireguardif.c\<close>: the loop of \<open>wg_rx_task\<close> with its wait for the socket, \<open>wg_down\<close>
  waiting for that task, the transmit work the stack queues, and what may happen between any two of
  their steps. A handler runs under the network lock, so it is one step. What \<open>psock_poll\<close> and the
  work queue do is not in the source; of them the steps use what the comments there rely on.
\<close>

section \<open>Who does what\<close>

abbreviation WG_TIMER_MSECS :: nat where "WG_TIMER_MSECS \<equiv> 400"
abbreviation WG_DOWN_WAIT_MSECS :: nat where "WG_DOWN_WAIT_MSECS \<equiv> 4 * WG_TIMER_MSECS"

text \<open>Where the receive task and \<open>wg_down\<close> are; \<open>Down_wait i\<close> is the \<open>i\<close>-th round of its loop.\<close>

datatype rx_at = Rx_none | Rx_test | Rx_poll | Rx_wait | Rx_unpoll | Rx_clear | Rx_recv | Rx_timers | Rx_left

datatype down_at = Down_idle | Down_wait nat | Down_check | Down_cancel | Down_ifdown | Down_unregister | Down_close | Down_wipe

text \<open>
  The device and the operating system, the semaphore \<open>waitsem\<close>, whether \<open>wg_poll_cb\<close> is installed on
  the socket, the socket's read-ahead queue, whether \<open>txwork\<close> is queued, whether the socket is open,
  and whether the stack knows the device.
\<close>

record wg_tasks =
  ts_dev :: wg_netdev_s
  ts_os :: os
  ts_rx :: rx_at
  ts_down :: down_at
  ts_sem :: nat
  ts_poll :: bool
  ts_queue :: "datagram list"
  ts_work :: bool
  ts_open :: bool
  ts_netdev :: bool

definition boot :: "kconfig \<Rightarrow> os \<Rightarrow> wg_tasks" where
  "boot cfg os = \<lparr>ts_dev = zero_netdev cfg, ts_os = os, ts_rx = Rx_none, ts_down = Down_idle, ts_sem = 0, ts_poll = False,
     ts_queue = [], ts_work = False, ts_open = False, ts_netdev = False\<rparr>"

definition wg_poll_cb :: "wg_tasks \<Rightarrow> wg_tasks" where
  "wg_poll_cb s = s\<lparr>ts_sem := ts_sem s + 1\<rparr>"

definition wg_txavail :: "wg_tasks \<Rightarrow> wg_tasks" where
  "wg_txavail s = (if \<not> ts_work s then s\<lparr>ts_work := True\<rparr> else s)"

section \<open>The receive task\<close>

text \<open>
  One step of \<open>wg_rx_task\<close>. \<open>psock_poll\<close> calls back at least once at set-up when datagrams are queued
  (\<open>n\<close> is how often); the wait ends with a post or with its time. \<open>pass\<close> is a call of a handler.
\<close>

inductive rx_step :: "dh \<Rightarrow> kconfig \<Rightarrow> wg_tasks \<Rightarrow> wg_tasks \<Rightarrow> bool" for X cfg where
  running: "ts_rx s = Rx_test \<Longrightarrow> nd_running (ts_dev s) \<Longrightarrow> rx_step X cfg s (s\<lparr>ts_rx := Rx_poll\<rparr>)"
| leave: "ts_rx s = Rx_test \<Longrightarrow> \<not> nd_running (ts_dev s) \<Longrightarrow> rx_step X cfg s (s\<lparr>ts_rx := Rx_left\<rparr>)"
| poll: "ts_rx s = Rx_poll \<Longrightarrow> ts_queue s \<noteq> [] \<longrightarrow> n > 0 \<Longrightarrow>
    rx_step X cfg s ((wg_poll_cb ^^ n) (s\<lparr>ts_rx := Rx_wait, ts_poll := True\<rparr>))"
| poll_fails: "ts_rx s = Rx_poll \<Longrightarrow> rx_step X cfg s (s\<lparr>ts_rx := Rx_clear\<rparr>)"
| wake: "ts_rx s = Rx_wait \<Longrightarrow> ts_sem s > 0 \<Longrightarrow> rx_step X cfg s (s\<lparr>ts_rx := Rx_unpoll, ts_sem := ts_sem s - 1\<rparr>)"
| time_out: "ts_rx s = Rx_wait \<Longrightarrow> rx_step X cfg s (s\<lparr>ts_rx := Rx_unpoll\<rparr>)"
| unpoll: "ts_rx s = Rx_unpoll \<Longrightarrow> rx_step X cfg s (s\<lparr>ts_rx := Rx_clear, ts_poll := False\<rparr>)"
| drop_post: "ts_rx s = Rx_clear \<Longrightarrow> ts_sem s > 0 \<Longrightarrow> rx_step X cfg s (s\<lparr>ts_sem := ts_sem s - 1\<rparr>)"
| cleared: "ts_rx s = Rx_clear \<Longrightarrow> ts_sem s = 0 \<Longrightarrow> rx_step X cfg s (s\<lparr>ts_rx := Rx_recv\<rparr>)"
| drained: "ts_rx s = Rx_recv \<Longrightarrow> ts_queue s = [] \<Longrightarrow> rx_step X cfg s (s\<lparr>ts_rx := Rx_timers\<rparr>)"
| empty: "ts_rx s = Rx_recv \<Longrightarrow> ts_queue s = d # ds \<Longrightarrow> dg_data d = [] \<Longrightarrow>
    rx_step X cfg s (s\<lparr>ts_rx := Rx_timers, ts_queue := ds\<rparr>)"
| receive: "ts_rx s = Rx_recv \<Longrightarrow> ts_queue s = d # ds \<Longrightarrow> dg_data d \<noteq> [] \<Longrightarrow>
    wg_process_udp_packet X cfg (ts_dev s) (take WG_MAX_PACKET (dg_data d)) (dg_addr d) (dg_port d) (ts_os s) = Some (priv', os') \<Longrightarrow>
    rx_step X cfg s (s\<lparr>ts_queue := ds, ts_dev := priv', ts_os := os'\<rparr>)"
| timers: "ts_rx s = Rx_timers \<Longrightarrow> wg_run_timers X (ts_dev s) (ts_os s) = Some (priv', os') \<Longrightarrow>
    rx_step X cfg s (s\<lparr>ts_rx := Rx_test, ts_dev := priv', ts_os := os'\<rparr>)"
| gone: "ts_rx s = Rx_left \<Longrightarrow> rx_step X cfg s (s\<lparr>ts_rx := Rx_none, ts_dev := (ts_dev s)\<lparr>nd_rxtask_done := True\<rparr>\<rparr>)"

section \<open>Taking the interface down\<close>

inductive down_step :: "kconfig \<Rightarrow> wg_tasks \<Rightarrow> wg_tasks \<Rightarrow> bool" for cfg where
  stop: "ts_down s = Down_idle \<Longrightarrow> nd_registered (ts_dev s) \<Longrightarrow>
    down_step cfg s (s\<lparr>ts_down := Down_wait 0, ts_dev := (ts_dev s)\<lparr>nd_running := False\<rparr>\<rparr>)"
| again: "ts_down s = Down_wait i \<Longrightarrow> i < WG_DOWN_WAIT_MSECS div 10 \<Longrightarrow> \<not> nd_rxtask_done (ts_dev s) \<Longrightarrow>
    down_step cfg s (s\<lparr>ts_down := Down_wait (i + 1)\<rparr>)"
| confirmed: "ts_down s = Down_wait i \<Longrightarrow> i < WG_DOWN_WAIT_MSECS div 10 \<Longrightarrow> nd_rxtask_done (ts_dev s) \<Longrightarrow>
    down_step cfg s (s\<lparr>ts_down := Down_check\<rparr>)"
| waited: "ts_down s = Down_wait i \<Longrightarrow> i \<ge> WG_DOWN_WAIT_MSECS div 10 \<Longrightarrow> down_step cfg s (s\<lparr>ts_down := Down_check\<rparr>)"
| give_up: "ts_down s = Down_check \<Longrightarrow> \<not> nd_rxtask_done (ts_dev s) \<Longrightarrow>
    down_step cfg s (s\<lparr>ts_down := Down_idle, ts_dev := (ts_dev s)\<lparr>nd_running := True\<rparr>\<rparr>)"
| stopped: "ts_down s = Down_check \<Longrightarrow> nd_rxtask_done (ts_dev s) \<Longrightarrow> down_step cfg s (s\<lparr>ts_down := Down_cancel\<rparr>)"
| cancel: "ts_down s = Down_cancel \<Longrightarrow> down_step cfg s (s\<lparr>ts_down := Down_ifdown, ts_work := False\<rparr>)"
| ifdown: "ts_down s = Down_ifdown \<Longrightarrow> down_step cfg s (s\<lparr>ts_down := Down_unregister,
    ts_dev := (if nd_bifup (ts_dev s) then wg_ifdown (ts_dev s) else ts_dev s)\<rparr>)"
| unregister: "ts_down s = Down_unregister \<Longrightarrow> down_step cfg s (s\<lparr>ts_down := Down_close, ts_netdev := False\<rparr>)"
| close: "ts_down s = Down_close \<Longrightarrow> down_step cfg s (s\<lparr>ts_down := Down_wipe, ts_open := False, ts_queue := []\<rparr>)"
| wipe: "ts_down s = Down_wipe \<Longrightarrow> down_step cfg s (s\<lparr>ts_down := Down_idle,
    ts_dev := (ts_dev s)\<lparr>nd_wg := zero_device cfg, nd_registered := False\<rparr>\<rparr>)"

section \<open>All of them\<close>

text \<open>
  Everything that may happen next: the receive task, \<open>wg_down\<close>, \<open>wg_initialize\<close>, the interface set up
  or down by the stack (administrative commands do not overlap), a datagram that arrives (it calls back
  at least once when it is the first in the queue), the transmit side, and the passing of time.
\<close>

inductive task_step :: "dh \<Rightarrow> kconfig \<Rightarrow> wg_tasks \<Rightarrow> wg_tasks \<Rightarrow> bool" for X cfg where
  rx: "rx_step X cfg s s' \<Longrightarrow> task_step X cfg s s'"
| down: "down_step cfg s s' \<Longrightarrow> task_step X cfg s s'"
| start: "ts_down s = Down_idle \<Longrightarrow> \<not> nd_registered (ts_dev s) \<Longrightarrow>
    wg_initialize X cfg sys st (ts_dev s) (ts_os s) = (OK, priv', os') \<Longrightarrow>
    task_step X cfg s (s\<lparr>ts_dev := priv', ts_os := os', ts_rx := Rx_test, ts_sem := 0, ts_poll := False, ts_queue := [],
      ts_work := False, ts_open := True, ts_netdev := True\<rparr>)"
| start_fails: "ts_down s = Down_idle \<Longrightarrow> \<not> nd_registered (ts_dev s) \<Longrightarrow>
    wg_initialize X cfg sys st (ts_dev s) (ts_os s) = (e, priv', os') \<Longrightarrow> e \<noteq> OK \<Longrightarrow>
    task_step X cfg s (s\<lparr>ts_dev := priv', ts_os := os'\<rparr>)"
| ifup: "ts_down s = Down_idle \<Longrightarrow> ts_netdev s \<Longrightarrow> \<not> nd_bifup (ts_dev s) \<Longrightarrow> task_step X cfg s (s\<lparr>ts_dev := wg_ifup (ts_dev s)\<rparr>)"
| ifdown: "ts_down s = Down_idle \<Longrightarrow> ts_netdev s \<Longrightarrow> nd_bifup (ts_dev s) \<Longrightarrow> task_step X cfg s (s\<lparr>ts_dev := wg_ifdown (ts_dev s)\<rparr>)"
| arrive: "ts_open s \<Longrightarrow> ts_poll s \<and> ts_queue s = [] \<longrightarrow> n > 0 \<Longrightarrow> \<not> ts_poll s \<longrightarrow> n = 0 \<Longrightarrow>
    task_step X cfg s ((wg_poll_cb ^^ n) (s\<lparr>ts_queue := ts_queue s @ [d]\<rparr>))"
| txavail: "ts_netdev s \<Longrightarrow> nd_bifup (ts_dev s) \<Longrightarrow> task_step X cfg s (wg_txavail s)"
| transmit: "ts_work s \<Longrightarrow> wg_txavail_work packets (ts_dev s) (ts_os s) = (priv', os') \<Longrightarrow>
    task_step X cfg s (s\<lparr>ts_work := False, ts_dev := priv', ts_os := os'\<rparr>)"
| environment: "env_step (ts_os s) os' \<Longrightarrow> task_step X cfg s (s\<lparr>ts_os := os'\<rparr>)"

inductive_cases rx_stepE: "rx_step X cfg s s'"
inductive_cases down_stepE: "down_step cfg s s'"
inductive_cases task_stepE: "task_step X cfg s s'"

abbreviation task_run :: "dh \<Rightarrow> kconfig \<Rightarrow> wg_tasks \<Rightarrow> wg_tasks \<Rightarrow> bool" where
  "task_run X cfg \<equiv> (task_step X cfg)\<^sup>*\<^sup>*"

lemma poll_cb_iter [simp]: "(wg_poll_cb ^^ n) s = s\<lparr>ts_sem := ts_sem s + n\<rparr>"
  by (induction n) (simp_all add: wg_poll_cb_def)

section \<open>Taking the interface down ends\<close>

text \<open>How many steps \<open>wg_down\<close> has left at most; it is never stuck.\<close>

fun down_left :: "down_at \<Rightarrow> nat" where
  "down_left Down_idle = 0"
| "down_left (Down_wait i) = 8 + (WG_DOWN_WAIT_MSECS div 10 - i)"
| "down_left Down_check = 7"
| "down_left Down_cancel = 6"
| "down_left Down_ifdown = 5"
| "down_left Down_unregister = 4"
| "down_left Down_close = 3"
| "down_left Down_wipe = 2"

lemma down_continues: "ts_down s \<noteq> Down_idle \<Longrightarrow> \<exists>s'. down_step cfg s s'"
  by (cases "ts_down s") (meson down_step.intros not_le)+

lemma down_ends: "down_step cfg s s' \<Longrightarrow> ts_down s \<noteq> Down_idle \<Longrightarrow> down_left (ts_down s') < down_left (ts_down s)"
  by (induction rule: down_step.induct) auto

section \<open>The handlers as undisturbed runs\<close>

lemma rx_drain_steps:
  assumes "rx_drain X cfg ds (ts_dev s) (ts_os s) = Some (priv', os')" "ts_rx s = Rx_recv" "ts_queue s = ds" "\<forall>d \<in> set ds. dg_data d \<noteq> []"
  shows "(rx_step X cfg)\<^sup>*\<^sup>* s (s\<lparr>ts_queue := [], ts_dev := priv', ts_os := os'\<rparr>)"
  using assms
proof (induction ds arbitrary: s)
  case Nil
  then have "s\<lparr>ts_queue := [], ts_dev := priv', ts_os := os'\<rparr> = s" by simp
  then show ?case by simp
next
  case (Cons d ds)
  then obtain p o1 where p: "wg_process_udp_packet X cfg (ts_dev s) (take WG_MAX_PACKET (dg_data d)) (dg_addr d) (dg_port d) (ts_os s) = Some (p, o1)"
    and r: "rx_drain X cfg ds p o1 = Some (priv', os')" by (auto split: option.splits)
  have "rx_step X cfg s (s\<lparr>ts_queue := ds, ts_dev := p, ts_os := o1\<rparr>)"
    by (rule rx_step.receive [OF _ _ _ p]) (use Cons.prems in auto)
  moreover have "(rx_step X cfg)\<^sup>*\<^sup>* (s\<lparr>ts_queue := ds, ts_dev := p, ts_os := o1\<rparr>) (s\<lparr>ts_queue := [], ts_dev := priv', ts_os := os'\<rparr>)"
    using Cons.IH [of "s\<lparr>ts_queue := ds, ts_dev := p, ts_os := o1\<rparr>"] r Cons.prems by simp
  ultimately show ?case by (rule converse_rtranclp_into_rtranclp)
qed

lemma drop_posts: "ts_rx s = Rx_clear \<Longrightarrow> (rx_step X cfg)\<^sup>*\<^sup>* s (s\<lparr>ts_sem := 0\<rparr>)"
proof (induction "ts_sem s" arbitrary: s)
  case 0
  then have "s\<lparr>ts_sem := 0\<rparr> = s" by simp
  then show ?case by simp
next
  case (Suc n)
  then have "rx_step X cfg s (s\<lparr>ts_sem := ts_sem s - 1\<rparr>)" by (intro rx_step.drop_post) simp_all
  moreover have "(rx_step X cfg)\<^sup>*\<^sup>* (s\<lparr>ts_sem := ts_sem s - 1\<rparr>) (s\<lparr>ts_sem := 0\<rparr>)"
    using Suc.hyps(1) [of "s\<lparr>ts_sem := ts_sem s - 1\<rparr>"] Suc.hyps(2) Suc.prems by simp
  ultimately show ?case by (rule converse_rtranclp_into_rtranclp)
qed

text \<open>One turn of the loop without interference is \<open>wg_rx_turn\<close> on what was queued.\<close>

lemma rx_turn_steps:
  assumes turn: "wg_rx_turn X cfg (ts_queue s) (ts_dev s) (ts_os s) = Some (priv', os')" and run: "nd_running (ts_dev s)"
    and at: "ts_rx s = Rx_test" and ne: "\<forall>d \<in> set (ts_queue s). dg_data d \<noteq> []"
  shows "(rx_step X cfg)\<^sup>*\<^sup>* s (s\<lparr>ts_sem := 0, ts_poll := False, ts_queue := [], ts_dev := priv', ts_os := os'\<rparr>)"
proof -
  let ?n = "length (ts_queue s)"
  obtain p o1 where d: "rx_drain X cfg (ts_queue s) (ts_dev s) (ts_os s) = Some (p, o1)" and t: "wg_run_timers X p o1 = Some (priv', os')"
    using turn run by (auto simp: wg_rx_turn_def split: option.splits)
  define a where "a = s\<lparr>ts_rx := Rx_poll\<rparr>"
  define b where "b = (wg_poll_cb ^^ ?n) (a\<lparr>ts_rx := Rx_wait, ts_poll := True\<rparr>)"
  define c where "c = b\<lparr>ts_rx := Rx_unpoll\<rparr>"
  define e where "e = c\<lparr>ts_rx := Rx_clear, ts_poll := False\<rparr>"
  define f where "f = e\<lparr>ts_sem := 0\<rparr>"
  define g where "g = f\<lparr>ts_rx := Rx_recv\<rparr>"
  define h where "h = g\<lparr>ts_queue := [], ts_dev := p, ts_os := o1\<rparr>"
  define k where "k = h\<lparr>ts_rx := Rx_timers\<rparr>"
  define l where "l = k\<lparr>ts_rx := Rx_test, ts_dev := priv', ts_os := os'\<rparr>"
  note defs = a_def b_def c_def e_def f_def g_def h_def k_def l_def
  have "rx_step X cfg s a" unfolding a_def by (rule rx_step.running [OF at run])
  moreover have "rx_step X cfg a b" unfolding b_def by (rule rx_step.poll) (simp_all add: a_def)
  moreover have "rx_step X cfg b c" unfolding c_def by (rule rx_step.time_out) (simp add: b_def)
  moreover have "rx_step X cfg c e" unfolding e_def by (rule rx_step.unpoll) (simp add: c_def)
  moreover have "(rx_step X cfg)\<^sup>*\<^sup>* e f" unfolding f_def by (rule drop_posts) (simp add: e_def)
  moreover have "rx_step X cfg f g" unfolding g_def by (rule rx_step.cleared) (simp_all add: f_def e_def)
  moreover have "(rx_step X cfg)\<^sup>*\<^sup>* g h"
    unfolding h_def by (rule rx_drain_steps [where ds = "ts_queue s"]) (use d ne in \<open>simp_all add: defs\<close>)
  moreover have "rx_step X cfg h k" unfolding k_def by (rule rx_step.drained) (simp_all add: h_def g_def)
  moreover have "rx_step X cfg k l" unfolding l_def by (rule rx_step.timers) (simp_all add: k_def h_def t)
  ultimately have "(rx_step X cfg)\<^sup>*\<^sup>* s l" by (meson converse_rtranclp_into_rtranclp r_into_rtranclp rtranclp_trans)
  moreover have "l = s\<lparr>ts_sem := 0, ts_poll := False, ts_queue := [], ts_dev := priv', ts_os := os'\<rparr>"
    by (simp add: defs at [symmetric])
  ultimately show ?thesis by simp
qed

lemma down_waits:
  assumes "ts_down s = Down_wait i" "i \<le> 160" "\<not> nd_rxtask_done (ts_dev s)"
  shows "(down_step cfg)\<^sup>*\<^sup>* s (s\<lparr>ts_down := Down_check\<rparr>)"
  using assms
proof (induction "160 - i" arbitrary: s i)
  case 0
  then show ?case by (intro r_into_rtranclp down_step.waited [where i = i]) simp_all
next
  case (Suc n)
  then have "down_step cfg s (s\<lparr>ts_down := Down_wait (i + 1)\<rparr>)" by (intro down_step.again) simp_all
  moreover have "(down_step cfg)\<^sup>*\<^sup>* (s\<lparr>ts_down := Down_wait (i + 1)\<rparr>) (s\<lparr>ts_down := Down_check\<rparr>)"
    using Suc.hyps(1) [of "i + 1" "s\<lparr>ts_down := Down_wait (i + 1)\<rparr>"] Suc.hyps(2) Suc.prems by simp
  ultimately show ?case by (rule converse_rtranclp_into_rtranclp)
qed

text \<open>The second half of \<open>wg_down\<close>, once the receive task has confirmed.\<close>

lemma down_finishes:
  assumes "ts_down s = Down_ifdown"
  shows "\<exists>s'. (down_step cfg)\<^sup>*\<^sup>* s s' \<and> ts_down s' = Down_idle \<and> ts_work s' = ts_work s \<and> ts_rx s' = ts_rx s
    \<and> ts_dev s' = (if nd_bifup (ts_dev s) then wg_ifdown (ts_dev s) else ts_dev s)\<lparr>nd_wg := zero_device cfg, nd_registered := False\<rparr>"
proof -
  define a where "a = s\<lparr>ts_down := Down_unregister, ts_dev := (if nd_bifup (ts_dev s) then wg_ifdown (ts_dev s) else ts_dev s)\<rparr>"
  define b where "b = a\<lparr>ts_down := Down_close, ts_netdev := False\<rparr>"
  define c where "c = b\<lparr>ts_down := Down_wipe, ts_open := False, ts_queue := []\<rparr>"
  define d where "d = c\<lparr>ts_down := Down_idle, ts_dev := (ts_dev c)\<lparr>nd_wg := zero_device cfg, nd_registered := False\<rparr>\<rparr>"
  have "down_step cfg s a" unfolding a_def by (rule down_step.ifdown [OF assms])
  moreover have "down_step cfg a b" unfolding b_def by (rule down_step.unregister) (simp add: a_def)
  moreover have "down_step cfg b c" unfolding c_def by (rule down_step.close) (simp add: b_def)
  moreover have "down_step cfg c d" unfolding d_def by (rule down_step.wipe) (simp add: c_def)
  ultimately have "(down_step cfg)\<^sup>*\<^sup>* s d" by (meson converse_rtranclp_into_rtranclp r_into_rtranclp)
  then show ?thesis by (rule exI [of _ d, OF conjI]) (simp add: d_def c_def b_def a_def)
qed

text \<open>Without interference the steps of taking the interface down are \<open>wg_down\<close>.\<close>

lemma down_steps:
  assumes "ts_down s = Down_idle" "nd_registered (ts_dev s)"
  shows "\<exists>s'. (down_step cfg)\<^sup>*\<^sup>* s s' \<and> ts_down s' = Down_idle \<and> ts_dev s' = snd (wg_down cfg False (ts_dev s))"
proof -
  let ?a = "s\<lparr>ts_down := Down_wait 0, ts_dev := (ts_dev s)\<lparr>nd_running := False\<rparr>\<rparr>"
  have a: "down_step cfg s ?a" by (rule down_step.stop [OF assms])
  show ?thesis
  proof (cases "nd_rxtask_done (ts_dev s)")
    case True
    define d where "d = ?a\<lparr>ts_down := Down_check, ts_down := Down_cancel, ts_down := Down_ifdown, ts_work := False\<rparr>"
    have "down_step cfg ?a (?a\<lparr>ts_down := Down_check\<rparr>)" by (rule down_step.confirmed [where i = 0]) (simp_all add: True)
    moreover have "down_step cfg (?a\<lparr>ts_down := Down_check\<rparr>) (?a\<lparr>ts_down := Down_check, ts_down := Down_cancel\<rparr>)"
      by (rule down_step.stopped) (simp_all add: True)
    moreover have "down_step cfg (?a\<lparr>ts_down := Down_check, ts_down := Down_cancel\<rparr>) d"
      unfolding d_def by (rule down_step.cancel) simp
    ultimately have "(down_step cfg)\<^sup>*\<^sup>* s d" using a by (meson converse_rtranclp_into_rtranclp r_into_rtranclp)
    moreover have d: "ts_down d = Down_ifdown" "ts_dev d = (ts_dev s)\<lparr>nd_running := False\<rparr>" by (simp_all add: d_def)
    moreover obtain s' where s': "(down_step cfg)\<^sup>*\<^sup>* d s'" "ts_down s' = Down_idle" "ts_dev s' = (if nd_bifup (ts_dev d)
        then wg_ifdown (ts_dev d) else ts_dev d)\<lparr>nd_wg := zero_device cfg, nd_registered := False\<rparr>"
      using down_finishes [OF d(1)] by blast
    ultimately have "(down_step cfg)\<^sup>*\<^sup>* s s'" by simp
    then show ?thesis using assms True s' d(2) by (intro exI [of _ s']) (simp add: wg_down_def Let_def)
  next
    case False
    have "(down_step cfg)\<^sup>*\<^sup>* ?a (?a\<lparr>ts_down := Down_check\<rparr>)" by (rule down_waits [where i = 0]) (simp_all add: False)
    moreover have "down_step cfg (?a\<lparr>ts_down := Down_check\<rparr>)
        (?a\<lparr>ts_down := Down_check, ts_down := Down_idle, ts_dev := (ts_dev ?a)\<lparr>nd_running := True\<rparr>\<rparr>)"
      using down_step.give_up [of "?a\<lparr>ts_down := Down_check\<rparr>" cfg] False by simp
    ultimately have "(down_step cfg)\<^sup>*\<^sup>* s (?a\<lparr>ts_down := Down_check, ts_down := Down_idle, ts_dev := (ts_dev ?a)\<lparr>nd_running := True\<rparr>\<rparr>)"
      using a by (meson converse_rtranclp_into_rtranclp rtranclp.rtrancl_into_rtrancl)
    then show ?thesis
      using assms False by (intro exI conjI) (assumption, simp_all add: wg_down_def Let_def)
  qed
qed

end
