(* ===== verification/Task_Frames.thy ===== *)
theory Task_Frames
  imports Tasks Admission
begin

text \<open>
  What the handlers and \<open>wg_initialize\<close> leave alone, and the invariant of the tasks: who runs when, and
  when the socket is open.
\<close>

section \<open>The handlers leave the flags of the tasks alone\<close>

definition same_flags :: "wg_netdev_s \<Rightarrow> wg_netdev_s \<Rightarrow> bool" where
  "same_flags priv priv' \<longleftrightarrow> nd_bifup priv' = nd_bifup priv \<and> nd_running priv' = nd_running priv
     \<and> nd_registered priv' = nd_registered priv \<and> nd_rxtask_done priv' = nd_rxtask_done priv"

lemma same_flags_refl [simp]: "same_flags p p" and same_flags_trans: "same_flags p q \<Longrightarrow> same_flags q r \<Longrightarrow> same_flags p r"
  by (simp_all add: same_flags_def)

lemma same_flags_upd [simp]:
  "same_flags p (nd_put i q p') = same_flags p p'" "same_flags p (p'\<lparr>nd_wg := dev\<rparr>) = same_flags p p'"
  "same_flags p (p'\<lparr>nd_carrier := c\<rparr>) = same_flags p p'" "same_flags p (p'\<lparr>nd_peer_rx_bytes := b\<rparr>) = same_flags p p'"
  "same_flags p (p'\<lparr>nd_peer_tx_bytes := b\<rparr>) = same_flags p p'"
  by (simp_all add: same_flags_def nd_put_def)

lemma same_flags_from [simp]:
  "same_flags (nd_put i q p) p' = same_flags p p'" "same_flags (p\<lparr>nd_wg := dev\<rparr>) p' = same_flags p p'"
  "same_flags (p\<lparr>nd_carrier := c\<rparr>) p' = same_flags p p'" "same_flags (p\<lparr>nd_peer_rx_bytes := b\<rparr>) p' = same_flags p p'"
  by (simp_all add: same_flags_def nd_put_def)

lemma send_flags: "wg_encrypt_and_send priv i p os = (ok, priv', os') \<Longrightarrow> same_flags priv priv'"
  by (auto simp: wg_encrypt_and_send_def Let_def split: if_splits prod.splits)

lemma send_flags_snd: "snd (wg_encrypt_and_send priv i p os) = (priv', os') \<Longrightarrow> same_flags priv priv'"
  by (cases "wg_encrypt_and_send priv i p os") (auto dest: send_flags)

lemma start_handshake_flags: "wg_start_handshake X priv i os = Some (priv', os') \<Longrightarrow> same_flags priv priv'"
  by (auto simp: wg_start_handshake_def Let_def split: option.splits if_splits prod.splits)

lemma handshake_response_flags: "wg_send_handshake_response X priv i os = Some (priv', os') \<Longrightarrow> same_flags priv priv'"
  by (auto simp: wg_send_handshake_response_def Let_def split: option.splits if_splits prod.splits)

lemma inject_flags: "wg_inject_plaintext priv p os = (priv', os') \<Longrightarrow> same_flags priv priv'"
  by (auto simp: wg_inject_plaintext_def Let_def split: option.splits if_splits prod.splits dest: send_flags_snd)

lemma deliver_flags: "wg_deliver priv peer p os = (priv', os') \<Longrightarrow> same_flags priv priv'"
  by (auto simp: wg_deliver_def Let_def split: if_splits dest: inject_flags)

lemma data_message_flags: "wg_process_data_message priv i m a p os = (priv', os') \<Longrightarrow> same_flags priv priv'"
  unfolding wg_process_data_message_def accept_data_def Let_def
  by (auto split: option.splits if_splits prod.splits dest!: deliver_flags)

lemma admit_flags: "admit_initiation cfg priv data mac2 a p os = (ok, priv', os') \<Longrightarrow> same_flags priv priv'"
  by (auto simp: admit_initiation_def wg_under_load_def same_flags_def Let_def split: if_splits prod.splits)

lemma udp_flags:
  assumes "wg_process_udp_packet X cfg priv data addr port os = Some (priv', os')"
  shows "same_flags priv priv'"
proof -
  have "same_flags priv priv'" if "udp_initiation X cfg priv data addr port os = Some (priv', os')"
    using that by (auto simp: udp_initiation_def wg_send_cookie_reply_def Let_def split: if_splits prod.splits option.splits
        dest!: admit_flags handshake_response_flags elim: same_flags_trans)
  moreover have "same_flags priv priv'" if "udp_response X priv data addr port os = (priv', os')"
    using that by (auto simp: udp_response_def wg_send_keepalive_def Let_def split: if_splits prod.splits option.splits dest!: send_flags_snd)
  moreover have "same_flags priv priv'" if "udp_cookie X priv data os = Some (priv', os')"
    using that by (auto simp: udp_cookie_def Let_def split: if_splits prod.splits option.splits dest!: start_handshake_flags)
  moreover have "same_flags priv priv'" if "udp_transport priv data addr port os = (priv', os')"
    using that by (auto simp: udp_transport_def Let_def split: if_splits option.splits dest!: data_message_flags)
  ultimately show ?thesis using assms by (auto simp: wg_process_udp_packet_def Let_def split: if_splits)
qed

lemma expiry_flags: "same_flags priv (timer_expiry priv x os)"
  by (simp add: timer_expiry_def Let_def)

lemma keepalive_flags: "timer_keepalive priv x os = (priv', os') \<Longrightarrow> same_flags priv priv'"
  by (auto simp: timer_keepalive_def wg_send_keepalive_def Let_def split: if_splits dest: send_flags_snd)

lemma timer_peer_flags:
  assumes "timer_peer X priv x os = Some (up, priv', os')"
  shows "same_flags priv priv'"
proof (cases "pr_valid (nd_peer priv x)")
  case True
  obtain priv2 os2 where k: "timer_keepalive (timer_expiry priv x os) x os = (priv2, os2)" by fastforce
  have "priv' = priv2 \<or> wg_start_handshake X priv2 x os2 = Some (priv', os')"
    using assms True k by (auto simp: timer_peer_def Let_def split: if_splits option.splits)
  then show ?thesis
    using same_flags_trans [OF expiry_flags keepalive_flags [OF k]] by (auto dest: start_handshake_flags intro: same_flags_trans)
qed (use assms in \<open>simp add: timer_peer_def\<close>)

lemma timer_peers_flags: "timer_peers X xs up priv os = Some (up', priv', os') \<Longrightarrow> same_flags priv priv'"
proof (induction xs arbitrary: up priv os)
  case (Cons x xs)
  then show ?case by (auto split: option.splits dest!: timer_peer_flags elim: same_flags_trans)
qed simp

lemma timers_flags: "wg_run_timers X priv os = Some (priv', os') \<Longrightarrow> same_flags priv priv'"
  by (auto simp: wg_run_timers_def split: option.splits if_splits dest: timer_peers_flags)

lemma txavail_flags: "wg_txavail_work ps priv os = (priv', os') \<Longrightarrow> same_flags priv priv'"
proof (induction ps arbitrary: priv os)
  case (Cons p ps)
  then show ?case
    by (auto simp: wg_txpoll_def split: if_splits prod.splits option.splits dest!: send_flags_snd elim: same_flags_trans)
qed simp

section \<open>Bringing the interface up\<close>

lemma initialize_starts:
  assumes "wg_initialize X cfg sys st priv os = (OK, priv', os')" "\<not> nd_registered priv"
  shows "\<not> nd_rxtask_done priv'"
proof -
  have "nd_rxtask_done (wg_add_peer X cfg sp p) = nd_rxtask_done p" for sp p
    by (simp add: wg_add_peer_def nd_put_def Let_def split: option.split prod.split)
  then have "nd_rxtask_done (fold (wg_add_peer X cfg) sps p) = nd_rxtask_done p" "nd_rxtask_done (wg_add_peer X cfg sp p) = nd_rxtask_done p" for sps sp p
    by (induction sps arbitrary: p) simp_all
  then have "nd_rxtask_done (wg_configure_peer X cfg st p) = nd_rxtask_done p" for p by (simp add: wg_configure_peer_def)
  then show ?thesis
    using assms by (auto simp: wg_initialize_def wg_configure_address_def wg_ifup_def zero_netdev_def Let_def
        split: if_splits option.splits prod.splits)
qed

lemma initialize_fails:
  assumes "wg_initialize X cfg sys st priv os = (e, priv', os')" "e \<noteq> OK"
  shows "priv' = priv \<or> fresh_peers (cf_replay_words cfg) priv' \<and> \<not> nd_bifup priv' \<and> \<not> nd_registered priv' \<and> length (dv_peers (nd_wg priv')) = cf_max_peers cfg"
proof -
  let ?ok = "\<lambda>p. fresh_peers (cf_replay_words cfg) p \<and> \<not> nd_bifup p \<and> \<not> nd_registered p \<and> length (dv_peers (nd_wg p)) = cf_max_peers cfg"
  have z: "?ok ((zero_netdev cfg)\<lparr>nd_wg := dev\<rparr>)" if "wireguard_device_init X (zero_device cfg) key o1 = (ok, dev, o2)" for key o1 ok dev o2
    using that by (auto simp: wireguard_device_init_def generate_cookie_secret_def fresh_peers_def zero_netdev_def zero_device_def fresh_zero_peer Let_def
        split: if_splits prod.splits)
  have c: "?ok (wg_configure_peer X cfg st p)" if "?ok p" for p
    using configure_peer_fresh [of "cf_replay_words cfg" p X cfg st] that by (auto simp: same_device_def fresh_peers_def)
  have r: "?ok (p\<lparr>nd_running := True\<rparr>) = ?ok p" for p by (simp add: fresh_peers_def)
  have w: "nd_wg (zero_netdev cfg) = zero_device cfg" by (simp add: zero_netdev_def)
  have "priv' = priv \<or> (\<exists>key o1 ok dev o2. wireguard_device_init X (zero_device cfg) key o1 = (ok, dev, o2)
      \<and> (priv' = (zero_netdev cfg)\<lparr>nd_wg := dev\<rparr> \<or> priv' = wg_configure_peer X cfg st ((zero_netdev cfg)\<lparr>nd_wg := dev\<rparr>)
        \<or> priv' = (wg_configure_peer X cfg st ((zero_netdev cfg)\<lparr>nd_wg := dev\<rparr>))\<lparr>nd_running := True\<rparr>))"
    using assms unfolding wg_initialize_def Let_def w by (clarsimp split: if_splits option.splits prod.splits; blast)
  then show ?thesis using z c r by metis
qed

section \<open>The invariant of the tasks\<close>

definition shutting :: "down_at \<Rightarrow> bool" where
  "shutting d \<longleftrightarrow> d \<in> {Down_cancel, Down_ifdown, Down_unregister, Down_close, Down_wipe}"

definition tasks_inv :: "wg_tasks \<Rightarrow> bool" where
  "tasks_inv s \<longleftrightarrow>
     (ts_rx s \<noteq> Rx_none \<longrightarrow> nd_registered (ts_dev s) \<and> \<not> nd_rxtask_done (ts_dev s))
   \<and> (ts_down s \<noteq> Down_idle \<longrightarrow> nd_registered (ts_dev s))
   \<and> (shutting (ts_down s) \<longrightarrow> nd_rxtask_done (ts_dev s))
   \<and> (ts_open s \<longleftrightarrow> nd_registered (ts_dev s) \<and> ts_down s \<noteq> Down_wipe)
   \<and> (ts_netdev s \<longleftrightarrow> nd_registered (ts_dev s) \<and> ts_down s \<noteq> Down_wipe \<and> ts_down s \<noteq> Down_close)
   \<and> (nd_bifup (ts_dev s) \<longrightarrow> nd_registered (ts_dev s) \<and> ts_down s \<notin> {Down_unregister, Down_close, Down_wipe})
   \<and> (ts_poll s \<longleftrightarrow> ts_rx s \<in> {Rx_wait, Rx_unpoll})
   \<and> (ts_rx s = Rx_wait \<and> ts_queue s \<noteq> [] \<longrightarrow> ts_sem s > 0)"

lemma rx_step_inv: "rx_step X cfg s s' \<Longrightarrow> tasks_inv s \<Longrightarrow> tasks_inv s'"
proof (induction rule: rx_step.induct)
  case (receive s d ds priv' os')
  then show ?case using udp_flags [OF receive(4)] by (auto simp: tasks_inv_def same_flags_def)
next
  case (timers s priv' os')
  then show ?case using timers_flags [OF timers(2)] by (auto simp: tasks_inv_def same_flags_def)
qed (auto simp: tasks_inv_def shutting_def)

lemma down_step_inv: "down_step cfg s s' \<Longrightarrow> tasks_inv s \<Longrightarrow> tasks_inv s'"
proof (induction rule: down_step.induct)
  case (ifdown s)
  then show ?case by (cases "nd_bifup (ts_dev s)") (auto simp: tasks_inv_def shutting_def wg_ifdown_def Let_def)
qed (auto simp: tasks_inv_def shutting_def)

lemma task_step_inv: "task_step X cfg s s' \<Longrightarrow> tasks_inv s \<Longrightarrow> tasks_inv s'"
proof (induction rule: task_step.induct)
  case (start s sys st priv' os')
  then show ?case using initialize_OK(2) [OF start(3,2)] initialize_starts [OF start(3,2)] by (auto simp: tasks_inv_def shutting_def)
next
  case (start_fails s sys st e priv' os')
  then show ?case using initialize_fails [OF start_fails(3,4)] by (auto simp: tasks_inv_def shutting_def)
next
  case (transmit s packets priv' os')
  then show ?case using txavail_flags [OF transmit(2)] by (simp add: tasks_inv_def same_flags_def)
next
  case (rx s s')
  then show ?case by (blast intro: rx_step_inv)
next
  case (down s s')
  then show ?case by (blast intro: down_step_inv)
next
  case (ifup s)
  then show ?case by (simp add: tasks_inv_def shutting_def wg_ifup_def Let_def) 
next
  case (ifdown s)
  then show ?case by (simp add: tasks_inv_def shutting_def wg_ifdown_def Let_def)
next
  case (arrive s n d)
  then show ?case by (auto simp: tasks_inv_def)
next
  case (txavail s)
  then show ?case by (simp add: tasks_inv_def wg_txavail_def)
next
  case (environment s os')
  then show ?case by (simp add: tasks_inv_def)
qed

lemma boot_inv: "tasks_inv (boot cfg os)"
  by (simp add: tasks_inv_def boot_def zero_netdev_def shutting_def)

lemma task_run_inv: "task_run X cfg s s' \<Longrightarrow> tasks_inv s \<Longrightarrow> tasks_inv s'"
  by (induction rule: rtranclp_induct) (auto intro: task_step_inv)

end
