(* ===== verification/Sessions.thy ===== *)
theory Sessions
  imports System
begin

text \<open>
  What every handler keeps of a session as long as no handshake message is handled: a valid key pair was one
  of the peer's before, with the same keys and indices, its sending counter has not gone back, and
  its replay window refuses what it refused. The locale of \<open>Frames\<close> lifts this from the primitive updates
  to the handlers; an accepted data packet in addition leaves its counter in the window.
\<close>

section \<open>A session at two times\<close>

text \<open>
  A key pair at two times: the keys and indices are the same, the sending counter does not go back, and the
  counters the window has seen stay seen.
\<close>

definition session_kept :: "wireguard_keypair \<Rightarrow> wireguard_keypair \<Rightarrow> bool" where
  "session_kept k k' \<longleftrightarrow> kp_sending_key k' = kp_sending_key k \<and> kp_receiving_key k' = kp_receiving_key k
     \<and> kp_local_index k' = kp_local_index k \<and> kp_remote_index k' = kp_remote_index k
     \<and> kp_sending_counter k \<le> kp_sending_counter k' \<and> length (kp_replay_bitmap k') = length (kp_replay_bitmap k)
     \<and> (\<forall>H. replay_inv H k \<longrightarrow> (\<exists>H'. H \<subseteq> H' \<and> replay_inv H' k'))"

lemma session_kept_refl: "session_kept k k"
  by (auto simp: session_kept_def)

lemma session_kept_trans: "session_kept a b \<Longrightarrow> session_kept b c \<Longrightarrow> session_kept a c"
  unfolding session_kept_def by (elim conjE, intro conjI allI impI) (auto, meson subset_trans)

lemma session_kept_received:
  assumes "wireguard_check_replay k n = (True, k')"
  shows "session_kept k (k'\<lparr>kp_last_rx := t\<rparr>)" "replay_inv H k \<Longrightarrow> replay_inv (insert n H) (k'\<lparr>kp_last_rx := t\<rparr>)"
proof -
  show r: "replay_inv (insert n H) (k'\<lparr>kp_last_rx := t\<rparr>)" if "replay_inv H k" for H
    using wg_replay.seen_accept [OF that assms] replay_inv_cong [of "k'\<lparr>kp_last_rx := t\<rparr>" k'] by simp
  show "session_kept k (k'\<lparr>kp_last_rx := t\<rparr>)"
    using check_replay_frame [OF assms] r by (auto simp: session_kept_def)
qed

lemma session_kept_sent:
  "kp_sending_counter k < REJECT_AFTER_MESSAGES \<Longrightarrow> session_kept k (k\<lparr>kp_sending_counter := kp_sending_counter k + 1, kp_last_tx := t\<rparr>)"
  using reject_no_wrap [of "kp_sending_counter k"] replay_inv_cong [of "k\<lparr>kp_sending_counter := kp_sending_counter k + 1, kp_last_tx := t\<rparr>" k]
  by (auto simp: session_kept_def word_le_nat_alt)

text \<open>Every valid key pair a peer has was one of the peer's before.\<close>

definition sessions_kept :: "wireguard_peer \<Rightarrow> wireguard_peer \<Rightarrow> bool" where
  "sessions_kept p p' \<longleftrightarrow> (\<forall>t. kp_valid (slot_keypair p' t) \<longrightarrow>
     (\<exists>t0. kp_valid (slot_keypair p t0) \<and> session_kept (slot_keypair p t0) (slot_keypair p' t)))"

lemma sessions_keptI: "(\<And>t. kp_valid (slot_keypair p' t) \<Longrightarrow> \<exists>t0. slot_keypair p t0 = slot_keypair p' t) \<Longrightarrow> sessions_kept p p'"
  unfolding sessions_kept_def by (metis session_kept_refl)

lemma sessions_kept_slot: "kp_valid k = kp_valid (slot_keypair p s) \<Longrightarrow> session_kept (slot_keypair p s) k \<Longrightarrow> sessions_kept p (set_slot s k p)"
  unfolding sessions_kept_def using session_kept_refl by (auto split: if_splits)

interpretation wg_sessions: session_relation sessions_kept
proof (unfold_locales, goal_cases)
  case (1 p q r)
  then show ?case unfolding sessions_kept_def by (meson session_kept_trans)
next
  case (2 p p')
  then have "slot_keypair p' t = slot_keypair p t" for t by (cases t) (simp_all add: bookkeeping_def)
  then show ?case by (intro sessions_keptI) auto
next
  case (3 p s)
  show ?case by (rule sessions_keptI) (auto split: if_splits)
next
  case (4 p s t)
  then show ?case by (intro sessions_kept_slot session_kept_sent) simp_all
next
  case (5 p s n k t)
  then show ?case using check_replay_frame [OF 5] session_kept_received [OF 5] by (intro sessions_kept_slot) simp_all
next
  case (6 p s)
  have "\<exists>t0. slot_keypair p t0 = slot_keypair (keypair_update p s) t" if "kp_valid (slot_keypair (keypair_update p s) t)" for t
    using that by (cases t) (auto simp: keypair_update_def Let_def intro: exI [of _ Curr] exI [of _ Prev] exI [of _ Next])
  then show ?case by (rule sessions_keptI)
next
  case (7 ts p)
  have "slot_keypair (p\<lparr>pr_greatest_timestamp := ts\<rparr>) t = slot_keypair p t" for t by (cases t) simp_all
  then show ?case by (intro sessions_keptI) auto
qed

section \<open>What a window has seen stays refused\<close>

lemma window_accepts_antimono: "H \<subseteq> H' \<Longrightarrow> window_accepts words H' n \<Longrightarrow> window_accepts words H n"
  by (auto simp: window_accepts_def)

lemma check_replay_iff: "replay_inv H k \<Longrightarrow> fst (wireguard_check_replay k n) \<longleftrightarrow> window_accepts (length (kp_replay_bitmap k)) H n"
  using check_replay_refines [of H k n] by (metis prod.collapse)

lemma session_kept_refuses:
  "session_kept k k' \<Longrightarrow> replay_inv H k \<Longrightarrow> fst (wireguard_check_replay k' n) \<Longrightarrow> fst (wireguard_check_replay k n)"
  unfolding session_kept_def by (metis check_replay_iff window_accepts_antimono)

text \<open>The window of the later key pair has also seen the counter \<open>n\<close>.\<close>

definition counter_seen :: "u64 \<Rightarrow> wireguard_keypair \<Rightarrow> wireguard_keypair \<Rightarrow> bool" where
  "counter_seen n k k' \<longleftrightarrow> (\<forall>H. replay_inv H k \<longrightarrow> (\<exists>H'. n \<in> H' \<and> replay_inv H' k'))"

lemma counter_seen_kept: "counter_seen n k k' \<Longrightarrow> session_kept k' k'' \<Longrightarrow> counter_seen n k k''"
  unfolding counter_seen_def session_kept_def by (meson subsetD)

lemma counter_seen_refused: "counter_seen n k k' \<Longrightarrow> replay_inv H k \<Longrightarrow> \<not> fst (wireguard_check_replay k' n)"
  unfolding counter_seen_def by (metis check_replay_iff window_accepts_def)

lemma accepted_descends:
  assumes acc: "data_accepted priv i hdr os = Some (s, p)" and run: "wg_process_data_message priv i hdr addr port os = (priv', os')"
    and i: "i < length (dv_peers (nd_wg priv))" and j: "j < length (dv_peers (nd_wg priv))"
    and valid: "kp_valid (slot_keypair (nd_peer priv' j) t)"
  shows "\<exists>t0. kp_valid (slot_keypair (nd_peer priv j) t0) \<and> session_kept (slot_keypair (nd_peer priv j) t0) (slot_keypair (nd_peer priv' j) t)
    \<and> (j = i \<and> t0 = s \<longrightarrow> counter_seen (U8TO64_LITTLE (mt_counter hdr)) (slot_keypair (nd_peer priv j) t0) (slot_keypair (nd_peer priv' j) t))"
proof (cases "j = i")
  case False
  have "sessions_kept (nd_peer priv j) (nd_peer priv' j)"
    using wg_sessions.data_message_lift [OF run] j by (simp add: wg_sessions.lift_dev_def nd_peer_def)
  then show ?thesis using valid False by (auto simp: sessions_kept_def)
next
  case True
  let ?k = "slot_keypair (nd_peer priv i) s" and ?n = "U8TO64_LITTLE (mt_counter hdr)" and ?s = "if s = Next then Curr else s"
  note d = data_acceptedD [OF acc]
  obtain k where k: "wireguard_check_replay ?k ?n = (True, k)" using d(2) by (cases "wireguard_check_replay ?k ?n") auto
  have "accept_data priv i s k p (length p + 16) addr port os = (priv', os')" using run d(5) k by simp
  from accept_data_stored [OF this] obtain P rx u where
    del: "wg_deliver (nd_put i P (priv\<lparr>nd_peer_rx_bytes := rx, nd_carrier := True\<rparr>)) P p os = (priv', os')"
    and main: "slot_keypair P ?s = k\<lparr>kp_last_rx := u\<rparr>"
    and others: "\<And>t. t \<noteq> ?s \<Longrightarrow> kp_valid (slot_keypair P t) \<Longrightarrow> \<exists>t'. t' \<noteq> s \<and> slot_keypair P t = slot_keypair (nd_peer priv i) t'"
    by blast
  have "sessions_kept P (nd_peer priv' i)"
    using wg_sessions.deliver_lift [OF del] i unfolding wg_sessions.lift_dev_def nd_peer_def [symmetric] by auto
  then obtain t1 where t1: "kp_valid (slot_keypair P t1)" "session_kept (slot_keypair P t1) (slot_keypair (nd_peer priv' i) t)"
    using valid True by (auto simp: sessions_kept_def)
  show ?thesis
  proof (cases "t1 = ?s")
    case True
    have "session_kept ?k (slot_keypair P ?s)" "counter_seen ?n ?k (slot_keypair P ?s)" "kp_valid ?k"
      using session_kept_received [OF k] check_replay_frame [OF k] t1(1) unfolding True main by (auto simp: counter_seen_def)
    then show ?thesis using t1(2) \<open>j = i\<close> unfolding True by (metis session_kept_trans counter_seen_kept)
  next
    case False
    then show ?thesis using others [OF False t1(1)] t1 \<open>j = i\<close> by metis
  qed
qed

section \<open>A session that carries a packet\<close>

lemma deliver_no_reply: "stack_reply os = (\<lambda>_. []) \<Longrightarrow> wg_deliver priv peer p os = (priv', os') \<Longrightarrow> priv' = priv"
  by (auto simp: wg_deliver_def wg_inject_plaintext_def iob_attempt_def ipv4_input_def Let_def split: if_splits)

lemma sample_session_data:
  "\<exists>priv' os'. wg_process_data_message (sample_netdev sample_keypair) 0 sample_data 1 2 (sample_os 7) = (priv', os')
     \<and> nd_bifup priv' \<and> length (dv_peers (nd_wg priv')) = 1 \<and> kp_valid (slot_keypair (nd_peer priv' 0) Curr)"
proof -
  let ?N = "sample_netdev sample_keypair"
  obtain priv' os' where r: "wg_process_data_message ?N 0 sample_data 1 2 (sample_os 7) = (priv', os')" by fastforce
  note d = data_acceptedD [OF sample_data_accepted]
  obtain k where k: "wireguard_check_replay sample_keypair (U8TO64_LITTLE (mt_counter sample_data)) = (True, k)"
    using d(2) by (cases "wireguard_check_replay sample_keypair (U8TO64_LITTLE (mt_counter sample_data))") auto
  have "accept_data ?N 0 Curr k sample_packet (length sample_packet + 16) 1 2 (sample_os 7) = (priv', os')" using r d(5) k by simp
  from accept_data_stored [OF this] obtain P rx u where
    del: "wg_deliver (nd_put 0 P (?N\<lparr>nd_peer_rx_bytes := rx, nd_carrier := True\<rparr>)) P sample_packet (sample_os 7) = (priv', os')"
    and main: "slot_keypair P Curr = k\<lparr>kp_last_rx := u\<rparr>" by (auto split: if_splits)
  have "priv' = nd_put 0 P (?N\<lparr>nd_peer_rx_bytes := rx, nd_carrier := True\<rparr>)"
    by (rule deliver_no_reply [OF _ del]) (simp add: sample_os_def)
  then show ?thesis using r main check_replay_frame [OF k] by (auto simp: sample_keypair_def)
qed

end
