(* ===== verification/Task_Safety.thy ===== *)
theory Task_Safety
  imports Task_Frames Sessions
begin

text \<open>
  What holds in every interleaving of the tasks: the key pairs stay sound, no session rewinds, the socket is
  used only while it is open; and two races that remain.
\<close>

section \<open>Every interleaving keeps the key pairs sound\<close>

definition keypairs_sound :: "nat \<Rightarrow> wg_netdev_s \<Rightarrow> bool" where
  "keypairs_sound words priv \<longleftrightarrow> (\<forall>i < length (dv_peers (nd_wg priv)). peer_ok words (nd_peer priv i))"

lemma keypairs_sound_lift:
  "wg_windows.lift_nd words priv priv' \<Longrightarrow> 0 < words \<Longrightarrow> words < 2 ^ 32 \<Longrightarrow> keypairs_sound words priv \<Longrightarrow> keypairs_sound words priv'"
  unfolding keypairs_sound_def wg_windows.lift_dev_def nd_peer_def by simp

lemma keypairs_sound_fresh: "fresh_peers words priv \<Longrightarrow> 0 < words \<Longrightarrow> words < 2 ^ 32 \<Longrightarrow> keypairs_sound words priv"
  by (simp add: keypairs_sound_def fresh_peers_def nd_peer_def peer_at_def fresh_peer_ok)

lemma keypairs_sound_upd [simp]:
  "keypairs_sound words (priv\<lparr>nd_running := b\<rparr>) = keypairs_sound words priv"
  "keypairs_sound words (priv\<lparr>nd_rxtask_done := b\<rparr>) = keypairs_sound words priv"
  by (simp_all add: keypairs_sound_def nd_peer_def)

lemma keypairs_sound_zero: "nd_wg priv = zero_device cfg \<Longrightarrow> 0 < cf_replay_words cfg \<Longrightarrow> cf_replay_words cfg < 2 ^ 32 \<Longrightarrow>
    keypairs_sound (cf_replay_words cfg) priv"
  by (rule keypairs_sound_fresh) (simp_all add: fresh_peers_def zero_device_def fresh_zero_peer)

lemma rx_step_sound:
  assumes "rx_step X cfg s s'" "0 < words" "words < 2 ^ 32" "keypairs_sound words (ts_dev s)"
  shows "keypairs_sound words (ts_dev s')"
  using assms
proof (induction rule: rx_step.induct)
  case (receive s d ds priv' os')
  then show ?case using keypairs_sound_lift [OF wg_windows.udp_lift [OF receive(4)]] by simp
next
  case (timers s priv' os')
  then show ?case using keypairs_sound_lift [OF wg_windows.timers_lift [OF timers(2)]] by simp
qed simp_all

lemma task_step_sound:
  assumes "task_step X cfg s s'" "0 < cf_replay_words cfg" "cf_replay_words cfg < 2 ^ 32" "keypairs_sound (cf_replay_words cfg) (ts_dev s)"
  shows "keypairs_sound (cf_replay_words cfg) (ts_dev s')"
  using assms
proof (induction rule: task_step.induct)
  case (rx s s')
  then show ?case by (blast intro: rx_step_sound)
next
  case (down s s')
  then show ?case
  proof (induction rule: down_step.induct)
    case (ifdown s)
    then show ?case by (simp add: keypairs_sound_lift [OF wg_windows.ifdown_lift])
  qed (simp_all add: keypairs_sound_zero)
next
  case (start s sys st priv' os')
  then show ?case using initialize_OK(2) [OF start(3,2)] by (auto intro: keypairs_sound_fresh)
next
  case (start_fails s sys st e priv' os')
  then show ?case using initialize_fails [OF start_fails(3,4)] by (auto intro: keypairs_sound_fresh)
next
  case (ifup s)
  then show ?case by (simp add: keypairs_sound_lift [OF wg_windows.ifup_lift])
next
  case (ifdown s)
  then show ?case by (simp add: keypairs_sound_lift [OF wg_windows.ifdown_lift])
next
  case (transmit s packets priv' os')
  then show ?case using keypairs_sound_lift [OF wg_windows.txavail_lift [OF transmit(2)]] by simp
qed (simp_all add: wg_txavail_def)

section \<open>Sessions between handshakes\<close>

text \<open>The receive task is about to handle a handshake message; a run in which it handles none.\<close>

definition takes_handshake :: "wg_tasks \<Rightarrow> bool" where
  "takes_handshake s \<longleftrightarrow> ts_rx s = Rx_recv \<and> ts_queue s \<noteq> []
     \<and> wireguard_get_message_type (take WG_MAX_PACKET (dg_data (hd (ts_queue s)))) \<in> {MESSAGE_HANDSHAKE_INITIATION, MESSAGE_HANDSHAKE_RESPONSE}"

abbreviation quiet_run :: "dh \<Rightarrow> kconfig \<Rightarrow> wg_tasks \<Rightarrow> wg_tasks \<Rightarrow> bool" where
  "quiet_run X cfg \<equiv> (\<lambda>s s'. task_step X cfg s s' \<and> \<not> (rx_step X cfg s s' \<and> takes_handshake s))\<^sup>*\<^sup>*"

definition netdev_kept :: "wg_netdev_s \<Rightarrow> wg_netdev_s \<Rightarrow> bool" where
  "netdev_kept priv priv' \<longleftrightarrow> (\<forall>i t. i < length (dv_peers (nd_wg priv')) \<and> kp_valid (slot_keypair (nd_peer priv' i) t) \<longrightarrow>
     i < length (dv_peers (nd_wg priv)) \<and> (\<exists>t0. kp_valid (slot_keypair (nd_peer priv i) t0)
        \<and> session_kept (slot_keypair (nd_peer priv i) t0) (slot_keypair (nd_peer priv' i) t)))"

lemma netdev_kept_same: "nd_wg priv' = nd_wg priv \<Longrightarrow> netdev_kept priv priv'"
  using session_kept_refl by (auto simp: netdev_kept_def nd_peer_def)

lemma netdev_kept_trans: "netdev_kept a b \<Longrightarrow> netdev_kept b c \<Longrightarrow> netdev_kept a c"
  unfolding netdev_kept_def by (meson session_kept_trans)

lemma netdev_kept_lift: "wg_sessions.lift_nd priv priv' \<Longrightarrow> netdev_kept priv priv'"
  unfolding netdev_kept_def wg_sessions.lift_dev_def nd_peer_def sessions_kept_def by auto

lemma netdev_kept_fresh:
  assumes "fresh_peers words priv'"
  shows "netdev_kept priv priv'"
proof -
  have "\<not> kp_valid (slot_keypair (nd_peer priv' i) t)" if "i < length (dv_peers (nd_wg priv'))" for i t
    using assms that by (simp add: fresh_peers_def fresh_peer_def nd_peer_def peer_at_def zero_keypair_def)
  then show ?thesis unfolding netdev_kept_def by blast
qed

lemma rx_step_kept:
  assumes "rx_step X cfg s s'" "\<not> takes_handshake s"
  shows "netdev_kept (ts_dev s) (ts_dev s')"
  using assms
proof (induction rule: rx_step.induct)
  case (receive s d ds priv' os')
  then have "wireguard_get_message_type (take WG_MAX_PACKET (dg_data d)) \<notin> {MESSAGE_HANDSHAKE_INITIATION, MESSAGE_HANDSHAKE_RESPONSE}"
    by (simp add: takes_handshake_def)
  from wg_sessions.quiet_udp_lift [OF receive(4) this] show ?case by (simp add: netdev_kept_lift)
next
  case (timers s priv' os')
  then show ?case using netdev_kept_lift [OF wg_sessions.timers_lift [OF timers(2)]] by simp
qed (auto intro: netdev_kept_same)

lemma quiet_step_kept:
  assumes "task_step X cfg s s'" "\<not> (rx_step X cfg s s' \<and> takes_handshake s)"
  shows "netdev_kept (ts_dev s) (ts_dev s')"
  using assms
proof (induction rule: task_step.induct)
  case (rx s s')
  then show ?case using rx_step_kept by blast
next
  case (down s s')
  from down(1) show ?case
  proof (induction rule: down_step.induct)
    case (ifdown s)
    then show ?case by (simp add: netdev_kept_lift [OF wg_sessions.ifdown_lift] netdev_kept_same)
  next
    case (wipe s)
    have "fresh_peers (cf_replay_words cfg) ((ts_dev s)\<lparr>nd_wg := zero_device cfg, nd_registered := False\<rparr>)"
      by (simp add: fresh_peers_def zero_device_def fresh_zero_peer)
    from netdev_kept_fresh [OF this] show ?case by simp
  qed (auto intro: netdev_kept_same)
next
  case (start s sys st priv' os')
  then show ?case using initialize_OK(2) [OF start(3,2)] by (auto intro: netdev_kept_fresh)
next
  case (start_fails s sys st e priv' os')
  then show ?case using initialize_fails [OF start_fails(3,4)] by (auto intro: netdev_kept_fresh netdev_kept_same)
next
  case (ifup s)
  then show ?case by (simp add: netdev_kept_lift [OF wg_sessions.ifup_lift])
next
  case (ifdown s)
  then show ?case by (simp add: netdev_kept_lift [OF wg_sessions.ifdown_lift])
next
  case (transmit s packets priv' os')
  then show ?case using netdev_kept_lift [OF wg_sessions.txavail_lift [OF transmit(2)]] by simp
qed (auto intro: netdev_kept_same simp: wg_txavail_def)

lemma quiet_run_kept: "quiet_run X cfg s s' \<Longrightarrow> netdev_kept (ts_dev s) (ts_dev s')"
  by (induction rule: rtranclp_induct) (auto intro: netdev_kept_same netdev_kept_trans dest: quiet_step_kept)

lemma quiet_run_sound:
  "quiet_run X cfg s s' \<Longrightarrow> 0 < cf_replay_words cfg \<Longrightarrow> cf_replay_words cfg < 2 ^ 32 \<Longrightarrow> keypairs_sound (cf_replay_words cfg) (ts_dev s)
   \<Longrightarrow> keypairs_sound (cf_replay_words cfg) (ts_dev s')"
  by (induction rule: rtranclp_induct) (auto intro: task_step_sound)

lemma boot_sound:
  assumes "task_run X cfg (boot cfg os) s" "0 < cf_replay_words cfg" "cf_replay_words cfg < 2 ^ 32"
  shows "keypairs_sound (cf_replay_words cfg) (ts_dev s)"
proof -
  have "keypairs_sound (cf_replay_words cfg) (ts_dev (boot cfg os))"
    by (rule keypairs_sound_zero [OF _ assms(2,3)]) (simp add: boot_def zero_netdev_def)
  with assms(1) show ?thesis
    by (induction rule: rtranclp_induct) (auto intro: task_step_sound assms(2,3))
qed

section \<open>A closed socket is not used\<close>

lemma entropy_device_init: "wireguard_device_init X dev key os = (ok, dev', os') \<Longrightarrow> only_entropy os os'"
  using entropy_random [of os 32]
  by (auto simp: wireguard_device_init_def generate_cookie_secret_def Let_def split: if_splits prod.splits)

lemma entropy_initialize:
  assumes "wg_initialize X cfg sys st priv os = (r, priv', os')"
  shows "only_entropy os os'"
proof -
  obtain probe os1 where p: "wireguard_random_bytes 32 os = (probe, os1)" by fastforce
  have "only_entropy os os1" using entropy_random [of os 32] p by simp
  moreover have "os' = os \<or> os' = os1 \<or> (\<exists>dev key ok dev'. wireguard_device_init X dev key os1 = (ok, dev', os'))"
    using assms unfolding wg_initialize_def Let_def p by (clarsimp split: if_splits option.splits prod.splits; blast)
  ultimately show ?thesis by (auto dest: entropy_device_init intro: only_entropy_trans)
qed

lemma closed_silent:
  assumes "task_step X cfg s s'" "tasks_inv s" "\<not> ts_open s"
  shows "udp_calls (ts_os s') = udp_calls (ts_os s)"
  using assms
proof (induction rule: task_step.induct)
  case (rx s s')
  then have "ts_rx s = Rx_none \<or> ts_down s = Down_wipe" by (auto simp: tasks_inv_def)
  then have "ts_rx s = Rx_none" using rx(2) by (auto simp: tasks_inv_def shutting_def)
  then show ?case using rx(1) by (auto elim: rx_stepE)
next
  case (down s s')
  then show ?case by (induction rule: down_step.induct) simp_all
next
  case (start s sys st priv' os')
  then show ?case using only_entropyD [OF entropy_initialize [OF start(3)]] by simp
next
  case (start_fails s sys st e priv' os')
  then show ?case using only_entropyD [OF entropy_initialize [OF start_fails(3)]] by simp
next
  case (transmit s packets priv' os')
  then have "\<not> nd_bifup (ts_dev s)" by (auto simp: tasks_inv_def)
  then show ?case using transmit(2) by (cases packets) auto
qed (auto simp: wg_txavail_def env_step_def)

section \<open>From boot on\<close>

lemma sample_started:
  "\<exists>s. task_run toy_dh sample_config (boot sample_config (sample_os 7)) s \<and> ts_rx s = Rx_test \<and> ts_down s = Down_idle \<and> nd_registered (ts_dev s)
     \<and> nd_bifup (ts_dev s) \<and> ts_netdev s \<and> \<not> nd_rxtask_done (ts_dev s) \<and> length (dv_peers (nd_wg (ts_dev s))) = 1"
proof -
  obtain st priv os where w: "wg_initialize toy_dh sample_config sample_sys st (zero_netdev sample_config) (sample_os 7) = (OK, priv, os)"
    and len: "length (dv_peers (nd_wg priv)) = 1" using sample_initialize by blast
  let ?b = "boot sample_config (sample_os 7)"
  define t where "t = ?b\<lparr>ts_dev := priv, ts_os := os, ts_rx := Rx_test, ts_sem := 0, ts_poll := False, ts_queue := [],
      ts_work := False, ts_open := True, ts_netdev := True\<rparr>"
  have "task_step toy_dh sample_config ?b t"
    unfolding t_def by (rule task_step.start [where sys = sample_sys and st = st]) (simp_all add: boot_def w)
  then have "task_run toy_dh sample_config ?b t" by (rule r_into_rtranclp)
  then show ?thesis
    using initialize_OK(2) [OF w] initialize_starts [OF w] len by (intro exI [of _ t]) (simp add: t_def boot_def)
qed

lemma rx_run: "(rx_step X cfg)\<^sup>*\<^sup>* s s' \<Longrightarrow> task_run X cfg s s'" and down_run: "(down_step cfg)\<^sup>*\<^sup>* s s' \<Longrightarrow> task_run X cfg s s'"
  by (erule rtranclp_mono [THEN predicate2D, rotated]; auto intro: task_step.intros)+

text \<open>
  C10. The tasks share the socket safely, in every interleaving of the receive task, \<open>wg_down\<close>, the
  transmit work, arriving datagrams and reconfigurations from boot on: while the receive task is in its
  loop or the interface is up the socket is open; the receive task never waits without a post while a
  datagram is queued, so no wake-up is lost; it is gone before the device is torn down; and while the
  socket is closed nothing is sent.
\<close>

theorem tasks_keep_the_protocol:
  assumes "task_run X cfg (boot cfg os) s"
  shows "(ts_rx s \<notin> {Rx_none, Rx_left} \<or> nd_bifup (ts_dev s) \<longrightarrow> ts_open s)
     \<and> (ts_rx s = Rx_wait \<and> ts_queue s \<noteq> [] \<longrightarrow> ts_sem s > 0)
     \<and> (ts_rx s \<noteq> Rx_none \<longrightarrow> nd_registered (ts_dev s) \<and> \<not> shutting (ts_down s))
     \<and> (\<not> ts_open s \<longrightarrow> (\<forall>s'. task_step X cfg s s' \<longrightarrow> udp_calls (ts_os s') = udp_calls (ts_os s)))"
proof -
  have i: "tasks_inv s" by (rule task_run_inv [OF assms boot_inv])
  have "\<not> ts_open s \<longrightarrow> (\<forall>s'. task_step X cfg s s' \<longrightarrow> udp_calls (ts_os s') = udp_calls (ts_os s))"
    using closed_silent [OF _ i] by blast
  moreover have "ts_rx s \<notin> {Rx_none, Rx_left} \<or> nd_bifup (ts_dev s) \<longrightarrow> ts_open s"
    using i by (auto simp: tasks_inv_def shutting_def)
  ultimately show ?thesis using i by (auto simp: tasks_inv_def)
qed

theorem tasks_keep_the_protocol_witness:
  "\<exists>s. task_run toy_dh sample_config (boot sample_config (sample_os 7)) s \<and> ts_rx s = Rx_test \<and> ts_open s"
proof -
  obtain s where s: "task_run toy_dh sample_config (boot sample_config (sample_os 7)) s" "ts_rx s = Rx_test" using sample_started by blast
  from tasks_keep_the_protocol [OF s(1)] s(2) have "ts_open s" by simp
  then show ?thesis using s by blast
qed

lemma sample_sound: "keypairs_sound 32 (sample_netdev sample_keypair)"
proof -
  have "keypair_ok 32 (slot_keypair (nd_peer (sample_netdev sample_keypair) 0) t)" for t
    by (cases t; rule keypair_ok_zero) (simp_all add: sample_netdev_def sample_device_def nd_peer_def put_peer_def peer_at_def Let_def
        zero_peer_def zero_keypair_def sample_keypair_def)
  then show ?thesis by (simp add: keypairs_sound_def peer_ok_def)
qed

text \<open>
  C11. A session never rewinds. Take an accepted data packet, and after it any interleaving of the receive
  task, \<open>wg_down\<close>, the transmit work, arriving datagrams, the timers and reconfigurations in which the
  receive task handles no handshake message. Every valid key pair of every peer is then one the peer had before the
  packet, with the same keys and indices, in whatever slot it is now; its sending counter has not gone
  back, so no nonce is used twice, and is at most \<open>REJECT_AFTER_MESSAGES\<close>, so none wraps; the replay window has its
  configured size and accepts no counter it refused before; and on the key pair the packet came for, also when that
  confirmed and moved it, the packet's own counter is refused. The windows have to be well-formed to begin with, as
  they are in every state reached from boot (\<open>boot_sound\<close>).
\<close>

theorem sessions_never_rewind:
  assumes acc: "data_accepted priv i hdr os = Some (s, p)" "i < length (dv_peers (nd_wg priv))"
    and first: "wg_process_data_message priv i hdr addr port os = (ts_dev st, os')"
    and run: "quiet_run X cfg st st'"
    and sound: "keypairs_sound (cf_replay_words cfg) priv" "0 < cf_replay_words cfg" "cf_replay_words cfg < 2 ^ 32"
    and j: "j < length (dv_peers (nd_wg (ts_dev st')))" "kp_valid (slot_keypair (nd_peer (ts_dev st') j) t)"
  shows "\<exists>t0. let k = slot_keypair (nd_peer priv j) t0; k' = slot_keypair (nd_peer (ts_dev st') j) t
    in kp_valid k \<and> kp_sending_key k' = kp_sending_key k \<and> kp_receiving_key k' = kp_receiving_key k
     \<and> kp_local_index k' = kp_local_index k \<and> kp_remote_index k' = kp_remote_index k
     \<and> kp_sending_counter k \<le> kp_sending_counter k' \<and> kp_sending_counter k' \<le> REJECT_AFTER_MESSAGES
     \<and> length (kp_replay_bitmap k') = cf_replay_words cfg
     \<and> (\<forall>n. fst (wireguard_check_replay k' n) \<longrightarrow> fst (wireguard_check_replay k n))
     \<and> (j = i \<and> t0 = s \<longrightarrow> \<not> fst (wireguard_check_replay k' (U8TO64_LITTLE (mt_counter hdr))))"
proof -
  let ?k' = "slot_keypair (nd_peer (ts_dev st') j) t"
  obtain t1 where t1: "kp_valid (slot_keypair (nd_peer (ts_dev st) j) t1)" "session_kept (slot_keypair (nd_peer (ts_dev st) j) t1) ?k'"
    and j1: "j < length (dv_peers (nd_wg (ts_dev st)))" using quiet_run_kept [OF run] j by (auto simp: netdev_kept_def)
  have l: "length (dv_peers (nd_wg (ts_dev st))) = length (dv_peers (nd_wg priv))"
    using wg_sessions.data_message_lift [OF first] by (simp add: wg_sessions.lift_dev_def)
  then have j0: "j < length (dv_peers (nd_wg priv))" using j1 by simp
  obtain t0 where t0: "kp_valid (slot_keypair (nd_peer priv j) t0)" "session_kept (slot_keypair (nd_peer priv j) t0) (slot_keypair (nd_peer (ts_dev st) j) t1)"
    "j = i \<and> t0 = s \<Longrightarrow> counter_seen (U8TO64_LITTLE (mt_counter hdr)) (slot_keypair (nd_peer priv j) t0) (slot_keypair (nd_peer (ts_dev st) j) t1)"
    using accepted_descends [OF acc(1) first acc(2) j0 t1(1)] by blast
  obtain H where H: "replay_inv H (slot_keypair (nd_peer priv j) t0)"
    using sound(1) j0 by (auto simp: keypairs_sound_def peer_ok_def keypair_ok_def)
  have kept: "session_kept (slot_keypair (nd_peer priv j) t0) ?k'" by (rule session_kept_trans [OF t0(2) t1(2)])
  have "keypairs_sound (cf_replay_words cfg) (ts_dev st)"
    by (rule keypairs_sound_lift [OF wg_windows.data_message_lift [OF first] sound(2,3,1)])
  then have "keypairs_sound (cf_replay_words cfg) (ts_dev st')" by (rule quiet_run_sound [OF run sound(2,3)])
  then have "keypair_ok (cf_replay_words cfg) ?k'" using j(1) by (simp add: keypairs_sound_def peer_ok_def)
  moreover have "j = i \<and> t0 = s \<longrightarrow> \<not> fst (wireguard_check_replay ?k' (U8TO64_LITTLE (mt_counter hdr)))"
    using counter_seen_refused [OF counter_seen_kept [OF t0(3) t1(2)] H] by blast
  ultimately show ?thesis
    using t0(1) kept session_kept_refuses [OF kept H] unfolding session_kept_def keypair_ok_def Let_def
    by (intro exI [of _ t0]) blast
qed

theorem sessions_never_rewind_witness:
  "\<exists>st st'. quiet_run toy_dh sample_config st st' \<and> ts_work st \<noteq> ts_work st' \<and> kp_valid (slot_keypair (nd_peer (ts_dev st') 0) Curr)
     \<and> \<not> fst (wireguard_check_replay (slot_keypair (nd_peer (ts_dev st') 0) Curr) 0)"
proof -
  obtain priv os where r: "wg_process_data_message (sample_netdev sample_keypair) 0 sample_data 1 2 (sample_os 7) = (priv, os)"
    "nd_bifup priv" "length (dv_peers (nd_wg priv)) = 1" "kp_valid (slot_keypair (nd_peer priv 0) Curr)" using sample_session_data by blast
  define st where "st = (boot sample_config os)\<lparr>ts_dev := priv, ts_netdev := True\<rparr>"
  have st: "ts_dev st = priv" "\<not> ts_work st" by (simp_all add: st_def boot_def)
  have "task_step toy_dh sample_config st (wg_txavail st)" by (rule task_step.txavail) (simp_all add: st_def r)
  then have q: "quiet_run toy_dh sample_config st (wg_txavail st)"
    by (intro r_into_rtranclp conjI) (simp_all add: takes_handshake_def st_def boot_def)
  have v: "kp_valid (slot_keypair (nd_peer (ts_dev (wg_txavail st)) 0) Curr)" "ts_work (wg_txavail st)" "0 < length (dv_peers (nd_wg (ts_dev (wg_txavail st))))"
    using r st by (simp_all add: wg_txavail_def)
  have only: "t0 = Curr" if "kp_valid (slot_keypair (nd_peer (sample_netdev sample_keypair) 0) t0)" for t0
    using that by (cases t0) (simp_all add: sample_netdev_def sample_device_def nd_peer_def put_peer_def peer_at_def Let_def zero_peer_def zero_keypair_def)
  have c: "U8TO64_LITTLE (mt_counter sample_data) = 0" by (simp add: sample_data_def)
  have w: "cf_replay_words sample_config = 32" by (simp add: sample_config_def)
  from sessions_never_rewind [OF sample_data_accepted _ r(1) [folded st(1)] q, unfolded w, OF _ sample_sound _ _ v(3,1)]
  show ?thesis using q v st only unfolding c Let_def by auto
qed

text \<open>
  C34. Two races of \<open>wg_down\<close>. It can give up waiting just after the receive task has left its loop:
  the interface then stays registered and marked as running with no receive task. And between
  \<open>work_cancel\<close> and \<open>netdev_ifdown\<close> the stack can queue the transmit work again, which is then still
  queued when \<open>wg_down\<close> has returned and the next \<open>wg_initialize\<close> clears its \<open>work_s\<close>.
\<close>

theorem shutdown_races:
  "(\<exists>s. task_run toy_dh sample_config (boot sample_config (sample_os 7)) s \<and> ts_down s = Down_idle \<and> ts_rx s = Rx_none
     \<and> nd_registered (ts_dev s) \<and> nd_running (ts_dev s))
   \<and> (\<exists>s. task_run toy_dh sample_config (boot sample_config (sample_os 7)) s \<and> ts_down s = Down_idle \<and> \<not> nd_registered (ts_dev s) \<and> ts_work s)"
proof -
  obtain s where s: "task_run toy_dh sample_config (boot sample_config (sample_os 7)) s" "ts_rx s = Rx_test" "ts_down s = Down_idle"
    "nd_registered (ts_dev s)" "nd_bifup (ts_dev s)" "ts_netdev s" "\<not> nd_rxtask_done (ts_dev s)" using sample_started by blast
  let ?R = "task_run toy_dh sample_config" and ?S = "task_step toy_dh sample_config"
  define a where "a = s\<lparr>ts_down := Down_wait 0, ts_dev := (ts_dev s)\<lparr>nd_running := False\<rparr>\<rparr>"
  define b where "b = a\<lparr>ts_rx := Rx_left\<rparr>"
  have "?S s a" unfolding a_def by (rule task_step.down, rule down_step.stop) (simp_all add: s)
  moreover have "?S a b" unfolding b_def by (rule task_step.rx, rule rx_step.leave) (simp_all add: s a_def)
  ultimately have b: "?R (boot sample_config (sample_os 7)) b" using s(1) by (meson rtranclp.rtrancl_into_rtrancl)
  define c where "c = b\<lparr>ts_down := Down_check\<rparr>"
  define d where "d = c\<lparr>ts_down := Down_idle, ts_dev := (ts_dev c)\<lparr>nd_running := True\<rparr>\<rparr>"
  define e where "e = d\<lparr>ts_rx := Rx_none, ts_dev := (ts_dev d)\<lparr>nd_rxtask_done := True\<rparr>\<rparr>"
  have "?R b c" unfolding c_def by (rule down_run, rule down_waits [where i = 0]) (simp_all add: b_def a_def s)
  moreover have "?S c d" unfolding d_def by (rule task_step.down, rule down_step.give_up) (simp_all add: c_def b_def a_def s)
  moreover have "?S d e" unfolding e_def by (rule task_step.rx, rule rx_step.gone) (simp add: d_def c_def b_def)
  ultimately have "?R (boot sample_config (sample_os 7)) e" using b by (meson rtranclp_trans rtranclp.rtrancl_into_rtrancl)
  moreover have "ts_down e = Down_idle \<and> ts_rx e = Rx_none \<and> nd_registered (ts_dev e) \<and> nd_running (ts_dev e)"
    by (simp add: e_def d_def c_def b_def a_def s)
  ultimately have deaf: "\<exists>s. ?R (boot sample_config (sample_os 7)) s \<and> ts_down s = Down_idle \<and> ts_rx s = Rx_none
     \<and> nd_registered (ts_dev s) \<and> nd_running (ts_dev s)" by blast
  define f where "f = b\<lparr>ts_rx := Rx_none, ts_dev := (ts_dev b)\<lparr>nd_rxtask_done := True\<rparr>\<rparr>"
  define g where "g = f\<lparr>ts_down := Down_check\<rparr>"
  define h where "h = g\<lparr>ts_down := Down_cancel\<rparr>"
  define j where "j = h\<lparr>ts_down := Down_ifdown, ts_work := False\<rparr>"
  define k where "k = wg_txavail j"
  have "?S b f" unfolding f_def by (rule task_step.rx, rule rx_step.gone) (simp add: b_def)
  moreover have "?S f g" unfolding g_def by (rule task_step.down, rule down_step.confirmed [where i = 0]) (simp_all add: f_def b_def a_def)
  moreover have "?S g h" unfolding h_def by (rule task_step.down, rule down_step.stopped) (simp_all add: g_def f_def)
  moreover have "?S h j" unfolding j_def by (rule task_step.down, rule down_step.cancel) (simp add: h_def)
  moreover have "?S j k" unfolding k_def by (rule task_step.txavail) (simp_all add: j_def h_def g_def f_def b_def a_def s)
  ultimately have k: "?R (boot sample_config (sample_os 7)) k" using b by (meson rtranclp.rtrancl_into_rtrancl)
  have "ts_down k = Down_ifdown" "ts_work k" by (simp_all add: k_def wg_txavail_def j_def)
  from down_finishes [OF this(1), of sample_config] this(2) k
  have "\<exists>s. ?R (boot sample_config (sample_os 7)) s \<and> ts_down s = Down_idle \<and> \<not> nd_registered (ts_dev s) \<and> ts_work s"
    by (auto dest!: down_run [of _ _ _ toy_dh] intro: rtranclp_trans)
  with deaf show ?thesis by blast
qed

end
