(* ===== verification/Sizes.thy ===== *)
theory Sizes
  imports Startup
begin

text \<open>
  The sizes of the arrays: what the fixed-size fields of the C structures guarantee for free, as an
  invariant of the lists that stand for them, from \<open>wg_initialize\<close> through every handler.
\<close>

section \<open>The sizes of a peer's arrays\<close>

definition keypair_sized :: "nat \<Rightarrow> wireguard_keypair \<Rightarrow> bool" where
  "keypair_sized words k \<longleftrightarrow> length (kp_sending_key k) = 32 \<and> length (kp_receiving_key k) = 32 \<and> length (kp_replay_bitmap k) = words"

definition peer_sized :: "nat \<Rightarrow> nat \<Rightarrow> wireguard_peer \<Rightarrow> bool" where
  "peer_sized src words p \<longleftrightarrow> length (pr_public_key p) = 32 \<and> length (pr_preshared_key p) = 32 \<and> length (pr_public_key_dh p) = 32
     \<and> length (pr_greatest_timestamp p) = 12 \<and> length (pr_label_mac1_key p) = 32 \<and> length (pr_label_cookie_key p) = 32
     \<and> length (pr_allowed_source_ips p) = src \<and> (\<forall>s. keypair_sized words (slot_keypair p s))"

lemma all_slots: "(\<forall>s. P (slot_keypair p s)) \<longleftrightarrow> P (pr_curr_keypair p) \<and> P (pr_prev_keypair p) \<and> P (pr_next_keypair p)"
  by (metis slot_keypair.elims slot_keypair.simps)

lemmas peer_sized_slots = peer_sized_def [unfolded all_slots]

lemma keypair_sized_zero: "keypair_sized words (zero_keypair words)"
  by (simp add: keypair_sized_def zero_keypair_def)

lemma keypair_sized_destroy: "keypair_sized words k \<Longrightarrow> keypair_sized words (keypair_destroy k)"
  by (simp add: keypair_sized_def keypair_destroy_def zero_keypair_def)

lemma check_replay_sized:
  "wireguard_check_replay k n = (ok, k') \<Longrightarrow> keypair_sized words k \<Longrightarrow> keypair_sized words k'"
  unfolding wireguard_check_replay_def Let_def
  by (auto simp: keypair_sized_def split: if_splits)

lemma set_slot_sized: "peer_sized src words p \<Longrightarrow> keypair_sized words k \<Longrightarrow> peer_sized src words (set_slot s k p)"
  by (cases s) (simp_all add: peer_sized_slots)

lemma length_kdf2: "length (fst (wireguard_kdf2 k d)) = 32" "length (snd (wireguard_kdf2 k d)) = 32"
  by (simp_all add: wireguard_kdf2_def bytes_put_def junk_def Let_def)

lemma start_session_sized:
  assumes "peer_sized src words p"
  shows "peer_sized src words (wireguard_start_session os p b)"
proof -
  have "length (kp_replay_bitmap (pr_curr_keypair p)) = words" using assms by (simp add: peer_sized_slots keypair_sized_def)
  then show ?thesis
    using assms
    by (auto simp: wireguard_start_session_def add_new_keypair_def Let_def split_def peer_sized_slots keypair_sized_destroy)
       (simp_all add: keypair_sized_def zero_keypair_def length_kdf2)
qed

interpretation wg_sizes: peer_relation "\<lambda>p p'. peer_sized src words p \<longrightarrow> peer_sized src words p'" for src words
proof (unfold_locales, goal_cases)
  case (2 p p')
  then show ?case by (auto simp: bookkeeping_def peer_sized_slots)
next
  case (3 p s)
  then show ?case by (metis set_slot_sized keypair_sized_destroy peer_sized_def)
next
  case (4 p s t)
  then show ?case by (auto intro!: set_slot_sized) (simp add: peer_sized_def keypair_sized_def)
next
  case (5 p s n k t)
  have "keypair_sized words (slot_keypair p s) \<Longrightarrow> keypair_sized words (k\<lparr>kp_last_rx := t\<rparr>)"
    using check_replay_sized [OF 5] by (simp add: keypair_sized_def)
  then show ?case using set_slot_sized by (metis peer_sized_def)
next
  case (6 p s)
  then show ?case by (auto simp: keypair_update_def Let_def peer_sized_slots keypair_sized_destroy)
next
  case (7 ts p)
  then show ?case by (simp add: peer_sized_slots)
qed (auto intro: start_session_sized)

section \<open>The device after wg_initialize\<close>

definition peers_sized :: "kconfig \<Rightarrow> wg_netdev_s \<Rightarrow> bool" where
  "peers_sized cfg priv \<longleftrightarrow> (\<forall>p \<in> set (dv_peers (nd_wg priv)). peer_sized (cf_max_src_ips cfg) (cf_replay_words cfg) p)"

lemma zero_peer_sized: "peer_sized src words (zero_peer src words)"
  by (simp add: peer_sized_slots zero_peer_def keypair_sized_zero)

lemma peer_init_sized:
  assumes "wireguard_peer_init X dev p pk None = (ok, p')" "dh_sized X" "length pk = 32" "peer_sized src words p"
  shows "peer_sized src words p'"
proof -
  have z: "zero_peer (length (pr_allowed_source_ips p)) (length (kp_replay_bitmap (pr_curr_keypair p))) = zero_peer src words"
    using assms(4) by (simp add: peer_sized_slots keypair_sized_def)
  have X: "length r = 32" if "X a b = (i, r)" for a b i r using assms(2) that unfolding dh_sized_def by (metis snd_conv)
  show ?thesis
    using assms(1,3) zero_peer_sized [of src words] unfolding wireguard_peer_init_def z Let_def
    by (auto simp: peer_sized_slots split: if_splits prod.splits dest: X)
qed

lemma staged_settings_sized: "peer_sized src words p \<Longrightarrow> peer_sized src words (staged_settings cfg sp p)"
  by (simp add: peer_sized_def) (simp add: staged_settings_def Let_def split: option.split)

lemma peers_sized_put: "peers_sized cfg priv \<Longrightarrow> peer_sized (cf_max_src_ips cfg) (cf_replay_words cfg) p \<Longrightarrow> peers_sized cfg (nd_put i p priv)"
  by (auto simp: peers_sized_def nd_put_def put_peer_def dest!: subsetD [OF set_update_subset_insert])

lemma add_peer_sized:
  assumes "dh_sized X" "peers_sized cfg priv"
  shows "peers_sized cfg (wg_add_peer X cfg sp priv)"
proof (cases "wg_decode_key (Some (sp_public_key sp)) 32")
  case k: (Some pk)
  show ?thesis
  proof (cases "peer_alloc (nd_wg priv)")
    case (Some i)
    obtain ok p where p: "wireguard_peer_init X (nd_wg priv) (nd_peer priv i) pk None = (ok, p)" by fastforce
    have "i < length (dv_peers (nd_wg priv))" using Some by (simp add: peer_alloc_def find_index_Some)
    then have "peer_sized (cf_max_src_ips cfg) (cf_replay_words cfg) (nd_peer priv i)"
      using assms(2) by (simp add: peers_sized_def nd_peer_def peer_at_def)
    from peer_init_sized [OF p assms(1) _ this] decode_key_length [OF k]
    have "peer_sized (cf_max_src_ips cfg) (cf_replay_words cfg) p" by blast
    then show ?thesis using assms(2) k Some p by (simp add: wg_add_peer_def peers_sized_put staged_settings_sized)
  qed (use assms k in \<open>simp add: wg_add_peer_def\<close>)
qed (use assms in \<open>simp add: wg_add_peer_def\<close>)

lemma configure_peer_sized:
  assumes "dh_sized X" "peers_sized cfg priv"
  shows "peers_sized cfg (wg_configure_peer X cfg st priv)"
proof -
  have "peers_sized cfg (fold (wg_add_peer X cfg) sps priv)" for sps
    using assms by (induction sps arbitrary: priv) (simp_all add: add_peer_sized)
  then show ?thesis using assms by (simp add: wg_configure_peer_def add_peer_sized)
qed

lemma lift_peers_sized: "wg_sizes.lift_nd src words priv priv' \<Longrightarrow>
    (\<forall>p \<in> set (dv_peers (nd_wg priv)). peer_sized src words p) \<Longrightarrow> (\<forall>p \<in> set (dv_peers (nd_wg priv')). peer_sized src words p)"
  by (metis wg_sizes.lift_dev_def in_set_conv_nth peer_at_def)

lemma configure_address_sized: "peers_sized cfg priv \<Longrightarrow> peers_sized cfg (wg_configure_address cfg priv)"
  unfolding wg_configure_address_def Let_def peers_sized_def
  by (rule lift_peers_sized [OF wg_sizes.ifup_lift]) (simp split: option.split)

lemma initialize_sized:
  assumes run: "wg_initialize X cfg sys st priv os = (OK, priv', os')" and down: "\<not> nd_registered priv" and X: "dh_sized X"
  shows "peers_sized cfg priv'"
proof -
  obtain key os1 dev os2 where
    init: "wireguard_device_init X (zero_device cfg) key os1 = (True, dev, os2)"
    and priv': "priv' = (wg_configure_address cfg ((wg_configure_peer X cfg st ((zero_netdev cfg)\<lparr>nd_wg := dev\<rparr>))\<lparr>nd_running := True, nd_rxtask := ns_task sys\<rparr>))\<lparr>nd_registered := True\<rparr>"
    using run down by (auto simp: wg_initialize_def Let_def zero_netdev_def split: if_splits option.splits prod.splits)
  have "peers_sized cfg ((zero_netdev cfg)\<lparr>nd_wg := dev\<rparr>)"
    using device_init_True(4) [OF init] by (simp add: peers_sized_def zero_device_def zero_peer_sized)
  from configure_peer_sized [OF X this, of st]
  have "peers_sized cfg ((wg_configure_peer X cfg st ((zero_netdev cfg)\<lparr>nd_wg := dev\<rparr>))\<lparr>nd_running := True, nd_rxtask := ns_task sys\<rparr>)"
    by (simp add: peers_sized_def)
  from configure_address_sized [OF this] show ?thesis by (simp add: priv' peers_sized_def)
qed

text \<open>
  The side conditions on lengths that properties elsewhere carry hold in every run after
  \<open>wg_initialize\<close>: the lists that stand for the device's keys, and for the peers' keys, labels, time stamps, key pairs,
  replay windows and allowed ranges have the sizes of the arrays in the C structures.
\<close>

lemma arrays_sized:
  assumes "wg_initialize X cfg sys st priv0 os0 = (OK, priv, os)" "\<not> nd_registered priv0" "dh_sized X"
    and "wg_run X cfg (priv, os1) (priv', os')"
  shows "length (dv_peers (nd_wg priv')) = cf_max_peers cfg
    \<and> length (dv_private_key (nd_wg priv')) = 32 \<and> length (dv_public_key (nd_wg priv')) = 32
    \<and> list_all (peer_sized (cf_max_src_ips cfg) (cf_replay_words cfg)) (dv_peers (nd_wg priv'))"
proof -
  have l: "wg_sizes.lift_nd src words priv priv'" for src words by (rule wg_sizes.run_lift [OF assms(4)])
  note i = initialize_OK [OF assms(1,2)]
  obtain key where key: "wg_decode_key (Some (wg_cfg_str (st_private_key st) (cf_private_key cfg))) 32 = Some key"
    "dv_private_key (nd_wg priv) = wireguard_clamp_private_key key" "dv_public_key (nd_wg priv) = snd (X key basepoint)"
    using i(1) by blast
  have "length key = 32" using decode_key_length [OF key(1)] by blast
  then have "length (dv_private_key (nd_wg priv)) = 32" "length (dv_public_key (nd_wg priv)) = 32"
    using key assms(3) by (simp_all add: dh_sized_def)
  moreover have "peers_sized cfg priv'"
    using lift_peers_sized [OF l] initialize_sized [OF assms(1-3)] by (simp add: peers_sized_def)
  ultimately show ?thesis
    using l i(2) by (simp add: wg_sizes.lift_dev_def list_all_iff peers_sized_def)
qed

end
