(* ===== verification/Conf_File.thy ===== *)
theory Conf_File
  imports Config
begin

text \<open>
  Configuration files: writing the staged configuration in the format of \<open>wg(8)\<close> and reading such a
  file back (\<open>wg_showconf\<close>, \<open>wg_saveconf\<close>, \<open>wg_setconf\<close> of \<open>nuttx-wireguardif.c\<close>).
\<close>

section \<open>Printing\<close>

text \<open>A file is its text. The loop of \<open>wg_mask_to_prefix\<close>.\<close>

function leading_ones :: "nat \<Rightarrow> u32 \<Rightarrow> nat" where
  "leading_ones prefix m =
     (if prefix < 32 \<and> m AND 0x80000000 \<noteq> 0 then leading_ones (prefix + 1) (push_bit 1 m) else prefix)"
  by pat_completeness auto
termination
  by (relation "measure (\<lambda>(prefix, m). 32 - prefix)") auto

declare leading_ones.simps [simp del]

definition wg_mask_to_prefix :: "string \<Rightarrow> nat" where
  "wg_mask_to_prefix m = (case inet_pton m of None \<Rightarrow> 32 | Some addr \<Rightarrow> leading_ones 0 (ntohl addr))"

definition wg_showconf_peer :: "kconfig \<Rightarrow> wg_staged_peer_s \<Rightarrow> string" where
  "wg_showconf_peer cfg p =
     println [] @ println ''[Peer]''
     @ println (''PublicKey = '' @ sp_public_key p)
     @ println (''AllowedIPs = '' @ sp_allowed_ip p @ ''/'' @ show_nat (wg_mask_to_prefix (sp_allowed_mask p)))
     @ (if length (sp_endpoint_ip p) > 0
        then println (''Endpoint = '' @ sp_endpoint_ip p @ '':'' @
               show_nat (unat (if sp_endpoint_port p \<noteq> 0 then sp_endpoint_port p else cf_peer_endpoint_port cfg)))
        else [])
     @ println (''PersistentKeepalive = '' @ show_int (if sp_keepalive p \<ge> 0 then sp_keepalive p else cf_peer_keepalive cfg))"

text \<open>The result and the text written so far.\<close>

definition wg_writeconf :: "kconfig \<Rightarrow> wg_staged_s \<Rightarrow> wg_status \<times> string" where
  "wg_writeconf cfg staged =
     (let key = wg_cfg_str (st_private_key staged) (cf_private_key cfg)
      in if length key = 0 then (ENODATA, [])
         else let out = println ''[Interface]'' @ println (''PrivateKey = '' @ key)
                        @ println (''ListenPort = '' @ show_nat (unat (cf_listen_port cfg)))
              in if length (st_peers staged) > 0
                 then (OK, out @ concat (map (wg_showconf_peer cfg) (st_peers staged)))
                 else if length (cf_peer_public_key cfg) = 0 then (OK, out)
                 else (OK, out @ wg_showconf_peer cfg (kconfig_peer cfg)))"

definition wg_showconf :: "kconfig \<Rightarrow> wg_staged_s \<Rightarrow> wg_status \<times> string" where
  "wg_showconf cfg staged = wg_writeconf cfg staged"

text \<open>
  \<open>wg_saveconf\<close>: \<open>opened\<close> and \<open>closed\<close> are the values of \<open>errno\<close> with which \<open>fopen\<close> and \<open>fclose\<close>
  fail, if they do. The result is the status and what the file holds afterwards; \<open>fopen\<close> for
  writing has emptied it.
\<close>

definition wg_saveconf ::
    "kconfig \<Rightarrow> wg_staged_s \<Rightarrow> int option \<Rightarrow> int option \<Rightarrow> string \<Rightarrow> wg_status \<times> string" where
  "wg_saveconf cfg staged fopen_err fclose_err file =
     (case fopen_err of
        Some e \<Rightarrow> (Errno (- e), file)
      | None \<Rightarrow>
          let (ret, file) = wg_writeconf cfg staged
          in case fclose_err of
               Some e \<Rightarrow> (if ret = OK then Errno (- e) else ret, file)
             | None \<Rightarrow> (ret, file))"

section \<open>Parsing\<close>

text \<open>\<open>fgets\<close> with a buffer of \<open>n\<close> bytes: the line read and the rest of the file.\<close>

definition fgets :: "nat \<Rightarrow> string \<Rightarrow> (string \<times> string) option" where
  "fgets n file =
     (if file = [] then None
      else let body = takeWhile (\<lambda>c. c \<noteq> newline) (take (n - 1) file);
               len = (if length body < length (take (n - 1) file) then length body + 1 else length body)
           in Some (take len file, drop len file))"

definition is_blank :: "char \<Rightarrow> bool" where
  "is_blank c \<longleftrightarrow> c = CHR '' '' \<or> c = CHR 0x09"

definition wg_conf_trim :: "string \<Rightarrow> string" where
  "wg_conf_trim s =
     (let s = dropWhile is_blank s
      in rev (dropWhile (\<lambda>c. is_blank c \<or> c = CHR 0x0D \<or> c = newline) (rev s)))"

record wg_conf_peer_s =
  ca_pubkey :: string
  ca_endpoint :: string
  ca_allowed :: string
  ca_keepalive :: int
  ca_valid :: bool

definition empty_acc :: wg_conf_peer_s where
  "empty_acc = \<lparr>ca_pubkey = [], ca_endpoint = [], ca_allowed = [], ca_keepalive = -1, ca_valid = False\<rparr>"

definition wg_conf_flush_peer ::
    "kconfig \<Rightarrow> bool \<Rightarrow> wg_staged_s \<Rightarrow> wg_conf_peer_s \<Rightarrow> wg_status \<times> wg_staged_s \<times> wg_conf_peer_s" where
  "wg_conf_flush_peer cfg registered staged acc =
     (let (ret, staged) =
            (if ca_valid acc
             then wg_set_peer cfg registered staged (ca_pubkey acc)
                    (if ca_endpoint acc \<noteq> [] then Some (ca_endpoint acc) else None)
                    (if ca_allowed acc \<noteq> [] then Some (ca_allowed acc) else None) (ca_keepalive acc)
             else (OK, staged))
      in (ret, staged, empty_acc))"

text \<open>One \<open>key = value\<close> line.\<close>

definition wg_conf_directive ::
    "string \<Rightarrow> string \<Rightarrow> bool \<Rightarrow> wg_staged_s \<Rightarrow> wg_conf_peer_s \<Rightarrow> wg_status \<times> wg_staged_s \<times> wg_conf_peer_s" where
  "wg_conf_directive k v registered staged acc =
     (if strcasecmp_eq k ''PrivateKey''
      then let (ret, staged) = wg_set_private_key registered staged (Some v) in (ret, staged, acc)
      else if strcasecmp_eq k ''PublicKey''
      then (OK, staged, acc\<lparr>ca_pubkey := strlcpy WG_KEY_STRLEN v, ca_valid := True\<rparr>)
      else if strcasecmp_eq k ''Endpoint''
      then (OK, staged, acc\<lparr>ca_endpoint := strlcpy (INET_ADDRSTRLEN + 8) v\<rparr>)
      else if strcasecmp_eq k ''AllowedIPs''
      then (OK, staged, acc\<lparr>ca_allowed := strlcpy (INET_ADDRSTRLEN + 8) v\<rparr>)
      else if strcasecmp_eq k ''PersistentKeepalive''
      then (OK, staged, acc\<lparr>ca_keepalive := atoi v\<rparr>)
      else (OK, staged, acc))"

text \<open>The body of the loop, entered while no error has happened.\<close>

definition wg_conf_line ::
    "kconfig \<Rightarrow> bool \<Rightarrow> string \<Rightarrow> wg_staged_s \<Rightarrow> wg_conf_peer_s \<Rightarrow> wg_status \<times> wg_staged_s \<times> wg_conf_peer_s" where
  "wg_conf_line cfg registered line staged acc =
     (let k = wg_conf_trim line
      in if k = [] \<or> hd k = CHR ''#'' \<or> hd k = CHR '';'' then (OK, staged, acc)
         else if hd k = CHR ''['' then wg_conf_flush_peer cfg registered staged acc
         else case cut_at (CHR ''='') k of
                None \<Rightarrow> (OK, staged, acc)
              | Some (k, v) \<Rightarrow> wg_conf_directive (wg_conf_trim k) (wg_conf_trim v) registered staged acc)"

lemma fgets_rest:
  assumes "fgets 128 file = Some (line, rest)"
  shows "length rest < length file"
proof -
  define body where "body = takeWhile (\<lambda>c. c \<noteq> newline) (take 127 file)"
  define len where "len = (if length body < length (take 127 file) then length body + 1 else length body)"
  have ne: "file \<noteq> []" and rest: "rest = drop len file"
    using assms by (auto simp: fgets_def Let_def body_def len_def split: if_splits)
  have "0 < length (take 127 file)" using ne by simp
  then have "0 < len" unfolding len_def by (cases "length body") simp_all
  then show ?thesis using ne rest by simp
qed

text \<open>The loop over the lines of the file, which ends with the file or with the first error.\<close>

function wg_conf_lines ::
    "kconfig \<Rightarrow> bool \<Rightarrow> string \<Rightarrow> wg_staged_s \<Rightarrow> wg_conf_peer_s \<Rightarrow> wg_status \<times> wg_staged_s \<times> wg_conf_peer_s" where
  "wg_conf_lines cfg registered file staged acc =
     (case fgets 128 file of
        None \<Rightarrow> (OK, staged, acc)
      | Some (line, file) \<Rightarrow>
          (case wg_conf_line cfg registered line staged acc of
             (ret, staged, acc) \<Rightarrow>
               if ret = OK then wg_conf_lines cfg registered file staged acc else (ret, staged, acc)))"
  by pat_completeness auto
termination
  by (relation "measure (\<lambda>(cfg, registered, file, staged, acc). length file)") (auto dest: fgets_rest)

declare wg_conf_lines.simps [simp del]

text \<open>\<open>wg_setconf(path)\<close>; the file is its text or the \<open>errno\<close> of the failing \<open>fopen\<close>.\<close>

definition wg_setconf :: "kconfig \<Rightarrow> bool \<Rightarrow> int + string \<Rightarrow> wg_staged_s \<Rightarrow> wg_status \<times> wg_staged_s" where
  "wg_setconf cfg registered path staged =
     (if registered then (EBUSY, staged)
      else case path of
        Inl e \<Rightarrow> (Errno (- e), staged)
      | Inr file \<Rightarrow>
          let (ret, staged, acc) = wg_conf_lines cfg registered file (staged\<lparr>st_peers := []\<rparr>) empty_acc;
              (ret, staged) = (if ret = OK
                then let (ret, staged, acc) = wg_conf_flush_peer cfg registered staged acc in (ret, staged)
                else (ret, staged))
          in (ret, if ret = OK then staged else staged\<lparr>st_peers := []\<rparr>))"

end
