(* ===== verification/Reload.thy ===== *)
theory Reload
  imports Conf_File Startup
begin

text \<open>
  Reading a written configuration back: the interface comes up the same. Also what \<open>wg_setconf\<close>
  promises when a file is wrong.
\<close>

section \<open>Masks and prefixes\<close>

lemma ntohl_ntohl [simp]: "ntohl (ntohl m) = m"
proof -
  obtain a b c d where q: "U32TO8_LITTLE m = [a, b, c, d]"
    by (metis U32TO8_LITTLE_def)
  then have "m = U8TO32_LITTLE [a, b, c, d]" by (metis U8TO32_U32TO8)
  then show ?thesis by (simp add: ntohl_def Let_def q U32TO8_U8TO32)
qed

lemma leading_ones_prefix:
  "n \<le> 32 \<Longrightarrow> leading_ones 0 (if n = 0 then 0 else push_bit (32 - n) 0xFFFFFFFF) = n"
proof -
  assume "n \<le> 32"
  have "\<forall>n \<in> set [0..<33]. leading_ones 0 (if n = 0 then 0 else push_bit (32 - n) 0xFFFFFFFF) = n"
    by code_simp
  then show ?thesis using \<open>n \<le> 32\<close> by (auto simp: less_Suc_eq_le)
qed

lemma mask_to_prefix:
  assumes "n \<le> 32" "inet_pton m = Some (prefix_mask (int n))"
  shows "wg_mask_to_prefix m = n"
proof -
  have "ntohl (prefix_mask (int n)) = (if n = 0 then 0 else push_bit (32 - n) 0xFFFFFFFF)"
    using assms(1) by (simp add: prefix_mask_def nat_diff_distrib) (simp add: ntohl_def U32TO8_LITTLE_def U8TO32_LITTLE_def)
  then show ?thesis using assms leading_ones_prefix by (simp add: wg_mask_to_prefix_def)
qed

section \<open>Trimming and splitting lines\<close>

definition plain :: "char \<Rightarrow> bool" where
  "plain c \<longleftrightarrow> 33 \<le> (of_char c :: nat) \<and> (of_char c :: nat) \<le> 126"

lemma plain_not: "plain c \<Longrightarrow> \<not> is_blank c \<and> c \<noteq> CHR 0x0D \<and> c \<noteq> newline \<and> \<not> is_space c"
  by (auto simp: plain_def is_blank_def is_space_def)

definition word_text :: "string \<Rightarrow> bool" where
  "word_text s \<longleftrightarrow> s \<noteq> [] \<and> plain (hd s) \<and> plain (last s)"

lemma trim_word:
  assumes "word_text s" "\<forall>c \<in> set b. is_blank c" "\<forall>c \<in> set e. is_blank c \<or> c = newline"
  shows "wg_conf_trim (b @ s @ e) = s"
proof -
  obtain c cs where c: "s = c # cs" "plain c" using assms(1) by (cases s) (auto simp: word_text_def)
  obtain l ls where l: "s = ls @ [l]" "plain l" using assms(1) by (cases s rule: rev_cases) (auto simp: word_text_def)
  have "dropWhile is_blank (b @ s @ e) = s @ e"
    using assms(2) c plain_not [OF c(2)] by (simp add: dropWhile_append)
  moreover have "dropWhile (\<lambda>c. is_blank c \<or> c = CHR 0x0D \<or> c = newline) (rev e @ l # rev ls) = l # rev ls"
    using assms(3) plain_not [OF l(2)] by (subst dropWhile_append2) auto
  ultimately show ?thesis using l(1) by (simp add: wg_conf_trim_def)
qed

lemma fgets_line:
  assumes "newline \<notin> set s" "length s < 127"
  shows "fgets 128 (println s @ rest) = Some (println s, rest)"
proof -
  have "takeWhile (\<lambda>c. c \<noteq> newline) (s @ newline # x) = s" for x
    using assms(1) by (simp add: takeWhile_append)
  moreover have "take 127 (println s @ rest) = s @ newline # take (126 - length s) rest"
    using assms(2) by (simp add: println_def take_Cons')
  ultimately show ?thesis using assms(2) by (simp add: fgets_def println_def Let_def)
qed

lemma conf_lines_step:
  assumes "newline \<notin> set s" "length s < 127" "wg_conf_line cfg reg (println s) st acc = (OK, st', acc')"
  shows "wg_conf_lines cfg reg (println s @ rest) st acc = wg_conf_lines cfg reg rest st' acc'"
  using assms by (subst wg_conf_lines.simps) (simp add: fgets_line)

lemma conf_line_directive:
  assumes "word_text n" "word_text v" "CHR ''='' \<notin> set n" "hd n \<notin> set ''#;[''"
  shows "wg_conf_line cfg reg (println (n @ '' = '' @ v)) st acc = wg_conf_directive n v reg st acc"
proof -
  have "word_text (n @ '' = '' @ v)" using assms(1,2) by (auto simp: word_text_def)
  then have k: "wg_conf_trim (println (n @ '' = '' @ v)) = n @ '' = '' @ v"
    using trim_word [of "n @ '' = '' @ v" "[]" "[newline]"] by (simp add: println_def)
  have "cut_at (CHR ''='') ((n @ '' '') @ CHR ''='' # ('' '' @ v)) = Some (n @ '' '', '' '' @ v)"
    using assms(3) by (intro cut_at_first) simp
  then have c: "cut_at (CHR ''='') (n @ '' = '' @ v) = Some (n @ '' '', '' '' @ v)" by simp
  have "wg_conf_trim (n @ '' '') = n" "wg_conf_trim ('' '' @ v) = v"
    using trim_word [OF assms(1), of "[]" "'' ''"] trim_word [OF assms(2), of "'' ''" "[]"] by (simp_all add: is_blank_def)
  moreover have "n \<noteq> []" using assms(1) by (simp add: word_text_def)
  moreover have "hd (n @ '' = '' @ v) = hd n" using \<open>n \<noteq> []\<close> by simp
  ultimately show ?thesis using assms(4) unfolding wg_conf_line_def Let_def k c by simp
qed

lemma plain_no_newline: "list_all plain s \<Longrightarrow> newline \<notin> set s"
  using plain_not by (auto simp: list_all_iff)

lemma conf_lines_directive:
  assumes "list_all plain n" "list_all plain v" "n \<noteq> []" "v \<noteq> []" "CHR ''='' \<notin> set n" "hd n \<notin> set ''#;[''"
    and "length n + length v < 124" and "wg_conf_directive n v reg st acc = (OK, st', acc')"
  shows "wg_conf_lines cfg reg (println (n @ '' = '' @ v) @ rest) st acc = wg_conf_lines cfg reg rest st' acc'"
proof (rule conf_lines_step)
  have "word_text n" "word_text v" using assms(1-4) by (auto simp: word_text_def list_all_iff)
  then show "wg_conf_line cfg reg (println (n @ '' = '' @ v)) st acc = (OK, st', acc')"
    using conf_line_directive assms(5,6,8) by metis
  show "newline \<notin> set (n @ '' = '' @ v)" using assms(1,2) plain_no_newline by auto
qed (use assms(7) in simp)

lemma conf_lines_blank: "wg_conf_lines cfg reg (println [] @ rest) st acc = wg_conf_lines cfg reg rest st acc"
  by (rule conf_lines_step) (simp_all add: wg_conf_line_def wg_conf_trim_def println_def is_blank_def)

lemma conf_lines_section:
  assumes "s = ''Interface'' \<or> s = ''Peer''" "wg_conf_flush_peer cfg reg st acc = (OK, st', acc')"
  shows "wg_conf_lines cfg reg (println (''['' @ s @ '']'') @ rest) st acc = wg_conf_lines cfg reg rest st' acc'"
proof (rule conf_lines_step)
  have "word_text (''['' @ s @ '']'')" by (simp add: word_text_def plain_def)
  then have "wg_conf_trim (println (''['' @ s @ '']'')) = ''['' @ s @ '']''"
    using trim_word [of "''['' @ s @ '']''" "[]" "[newline]"] by (simp add: println_def)
  then show "wg_conf_line cfg reg (println (''['' @ s @ '']'')) st acc = (OK, st', acc')"
    using assms(2) by (simp add: wg_conf_line_def)
  show "newline \<notin> set (''['' @ s @ '']'')" "length (''['' @ s @ '']'') < 127" using assms(1) by auto
qed

section \<open>The values that are written\<close>

lemma plain_digit: "is_digit c \<Longrightarrow> plain c"
  by (simp add: is_digit_def plain_def)

lemma plain_show_nat: "list_all plain (show_nat n)"
  using show_nat_digits(1) [of n] plain_digit by (auto simp: list_all_iff)

lemma plain_address: "inet_pton s \<noteq> None \<Longrightarrow> list_all plain s \<and> s \<noteq> [] \<and> length s \<le> 15 \<and> CHR ''/'' \<notin> set s \<and> CHR '':'' \<notin> set s"
proof -
  assume "inet_pton s \<noteq> None"
  then obtain a where a: "inet_pton s = Some a" by blast
  have "plain (CHR ''.'')" by (simp add: plain_def)
  then show ?thesis using inet_pton_Some [OF a] plain_digit is_digit_not by (fastforce simp: list_all_iff)
qed

lemma b64_loop_chars: "b64_loop n st s = (True, st') \<Longrightarrow> c \<in> set s \<Longrightarrow> c = CHR ''='' \<or> base64_index c \<noteq> None"
proof (induction n st s rule: b64_loop.induct)
  case (2 n st x xs)
  obtain b st1 where s: "b64_step n st x = (b, st1)" by fastforce
  then have "b" using 2(2) by (cases b) auto
  then have "x = CHR ''='' \<or> base64_index x \<noteq> None" using s by (auto simp: b64_step_def Let_def split: if_splits)
  then show ?case using 2 s \<open>b\<close> by auto
qed simp

lemma plain_key: "wg_decode_key (Some s) 32 \<noteq> None \<Longrightarrow> list_all plain s \<and> s \<noteq> [] \<and> length s = 44"
proof -
  assume d: "wg_decode_key (Some s) 32 \<noteq> None"
  then obtain st where "b64_loop 32 b64_start s = (True, st)"
    by (auto simp: wg_decode_key_def wireguard_base64_decode_def split: prod.splits if_splits)
  moreover have "plain c" if "base64_index c \<noteq> None" for c
  proof -
    have "c \<in> set base64_lookup" using that by (auto simp: base64_index_def find_index_Some)
    moreover have "list_all plain base64_lookup" by code_simp
    ultimately show ?thesis by (simp add: list_all_iff)
  qed
  moreover have "plain (CHR ''='')" by (simp add: plain_def)
  ultimately have "list_all plain s" using b64_loop_chars by (metis list_all_iff)
  then show ?thesis using d decode_key_length [of s] by force
qed

section \<open>One peer\<close>

text \<open>The peers that a file can carry, and what reading such a peer back yields.\<close>

definition writable_peer :: "kconfig \<Rightarrow> wg_staged_peer_s \<Rightarrow> bool" where
  "writable_peer cfg p \<longleftrightarrow> wg_decode_key (Some (sp_public_key p)) 32 \<noteq> None \<and> sp_keepalive p < 2 ^ 31
     \<and> inet_pton (sp_allowed_ip p) \<noteq> None \<and> (\<exists>n \<le> 32. inet_pton (sp_allowed_mask p) = Some (prefix_mask (int n)))
     \<and> (sp_endpoint_ip p = [] \<or> inet_pton (sp_endpoint_ip p) \<noteq> None \<and> (sp_endpoint_port p \<noteq> 0 \<or> cf_peer_endpoint_port cfg \<noteq> 0))"

definition shown_port :: "kconfig \<Rightarrow> wg_staged_peer_s \<Rightarrow> u16" where
  "shown_port cfg p = (if sp_endpoint_port p \<noteq> 0 then sp_endpoint_port p else cf_peer_endpoint_port cfg)"

definition shown_keepalive :: "kconfig \<Rightarrow> wg_staged_peer_s \<Rightarrow> int" where
  "shown_keepalive cfg p = (if sp_keepalive p \<ge> 0 then sp_keepalive p else cf_peer_keepalive cfg)"

definition reloaded_peer :: "kconfig \<Rightarrow> wg_staged_peer_s \<Rightarrow> wg_staged_peer_s" where
  "reloaded_peer cfg p =
     p\<lparr>sp_allowed_mask := inet_ntop (prefix_mask (int (wg_mask_to_prefix (sp_allowed_mask p)))),
       sp_endpoint_port := (if sp_endpoint_ip p = [] then 0 else shown_port cfg p),
       sp_keepalive := shown_keepalive cfg p\<rparr>"

definition peer_acc :: "kconfig \<Rightarrow> wg_staged_peer_s \<Rightarrow> wg_conf_peer_s" where
  "peer_acc cfg p =
     \<lparr>ca_pubkey = sp_public_key p,
      ca_endpoint = (if sp_endpoint_ip p = [] then [] else sp_endpoint_ip p @ '':'' @ show_nat (unat (shown_port cfg p))),
      ca_allowed = sp_allowed_ip p @ ''/'' @ show_nat (wg_mask_to_prefix (sp_allowed_mask p)),
      ca_keepalive = shown_keepalive cfg p, ca_valid = True\<rparr>"

lemma length_show_port: "length (show_nat (unat (w :: u16))) \<le> 5"
proof -
  have "unat w < 65536" using unsigned_less [of w] by simp
  then show ?thesis by (intro length_show_nat) auto
qed

lemma length_show_prefix: "n \<le> 32 \<Longrightarrow> length (show_nat n) \<le> 2"
  by (rule length_show_nat) auto

lemma shown_keepalive_range:
  assumes "writable_peer cfg p" "0 \<le> cf_peer_keepalive cfg" "cf_peer_keepalive cfg < 2 ^ 31"
  shows "0 \<le> shown_keepalive cfg p" "shown_keepalive cfg p < 2 ^ 31"
  using assms by (auto simp: shown_keepalive_def writable_peer_def)

lemma show_keepalive:
  assumes "0 \<le> k" "k < 2 ^ 31"
  shows "list_all plain (show_int k)" "show_int k \<noteq> []" "length (show_int k) \<le> 10" "atoi (show_int k) = k"
proof -
  have e: "show_int k = show_nat (nat k)" using assms by (simp add: show_int_def)
  show "list_all plain (show_int k)" "show_int k \<noteq> []" by (simp_all add: e plain_show_nat show_nat_digits)
  show "length (show_int k) \<le> 10" unfolding e using assms by (intro length_show_nat) auto
  show "atoi (show_int k) = k" using atoi_show_nat [of "[]" "nat k"] assms by (simp add: e)
qed

lemma mask_prefix_le: "wg_mask_to_prefix m \<le> 32"
proof -
  have "n \<le> 32 \<Longrightarrow> leading_ones n x \<le> 32" for n x
    by (induction n x rule: leading_ones.induct) (subst leading_ones.simps, simp)
  then show ?thesis by (simp add: wg_mask_to_prefix_def split: option.split)
qed

lemmas directive_eval = wg_conf_directive_def strcasecmp_eq_def to_lower_def

lemma peer_lines:
  assumes w: "writable_peer cfg p" and k: "0 \<le> cf_peer_keepalive cfg" "cf_peer_keepalive cfg < 2 ^ 31"
    and f: "wg_conf_flush_peer cfg reg st acc = (OK, st', empty_acc)"
  shows "wg_conf_lines cfg reg (wg_showconf_peer cfg p @ rest) st acc = wg_conf_lines cfg reg rest st' (peer_acc cfg p)"
proof -
  let ?pk = "sp_public_key p" and ?al = "sp_allowed_ip p @ ''/'' @ show_nat (wg_mask_to_prefix (sp_allowed_mask p))"
    and ?ep = "sp_endpoint_ip p @ '':'' @ show_nat (unat (shown_port cfg p))" and ?ka = "show_int (shown_keepalive cfg p)"
  note key = plain_key [of ?pk] and ip = plain_address [of "sp_allowed_ip p"]
  have pk: "list_all plain ?pk" "?pk \<noteq> []" "length ?pk = 44" using key w by (auto simp: writable_peer_def)
  have c: "plain (CHR ''/'')" "plain (CHR '':'')" by (simp_all add: plain_def)
  have al: "list_all plain ?al" "length ?al \<le> 18"
    using ip w c plain_show_nat length_show_prefix [OF mask_prefix_le, of "sp_allowed_mask p"] by (auto simp: writable_peer_def)
  note ka = show_keepalive [OF shown_keepalive_range [OF w k]]
  let ?a1 = "empty_acc\<lparr>ca_pubkey := ?pk, ca_valid := True\<rparr>" and ?a2 = "empty_acc\<lparr>ca_pubkey := ?pk, ca_valid := True, ca_allowed := ?al\<rparr>"
  have 1: "wg_conf_lines cfg reg (println [] @ println ''[Peer]'' @ r) st acc = wg_conf_lines cfg reg r st' empty_acc" for r
    using conf_lines_blank conf_lines_section [of "''Peer''", OF _ f] by simp
  have 2: "wg_conf_lines cfg reg (println (''PublicKey'' @ '' = '' @ ?pk) @ r) st' empty_acc = wg_conf_lines cfg reg r st' ?a1" for r
    using pk by (intro conf_lines_directive) (auto simp: plain_def directive_eval strlcpy_short)
  have 3: "wg_conf_lines cfg reg (println (''AllowedIPs'' @ '' = '' @ ?al) @ r) st' ?a1 = wg_conf_lines cfg reg r st' ?a2" for r
    using al by (intro conf_lines_directive) (auto simp: plain_def directive_eval strlcpy_short)
  have 4: "wg_conf_lines cfg reg ((if length (sp_endpoint_ip p) > 0 then println (''Endpoint'' @ '' = '' @ ?ep) else []) @ r) st' ?a2
      = wg_conf_lines cfg reg r st' (?a2\<lparr>ca_endpoint := if sp_endpoint_ip p = [] then [] else ?ep\<rparr>)" for r
  proof (cases "sp_endpoint_ip p = []")
    case True
    then show ?thesis by (simp add: empty_acc_def)
  next
    case False
    then have ep: "list_all plain ?ep" "length ?ep \<le> 21"
      using plain_address [of "sp_endpoint_ip p"] w c plain_show_nat length_show_port [of "shown_port cfg p"]
      by (auto simp: writable_peer_def)
    then have "wg_conf_lines cfg reg (println (''Endpoint'' @ '' = '' @ ?ep) @ r) st' ?a2 = wg_conf_lines cfg reg r st' (?a2\<lparr>ca_endpoint := ?ep\<rparr>)"
      by (intro conf_lines_directive) (auto simp: plain_def directive_eval strlcpy_short)
    then show ?thesis using False by simp
  qed
  have 5: "wg_conf_lines cfg reg (println (''PersistentKeepalive'' @ '' = '' @ ?ka) @ r) st' a = wg_conf_lines cfg reg r st' (a\<lparr>ca_keepalive := shown_keepalive cfg p\<rparr>)" for r a
    using ka by (intro conf_lines_directive) (auto simp: plain_def directive_eval)
  have e: "wg_showconf_peer cfg p @ rest = println [] @ println ''[Peer]'' @ println (''PublicKey'' @ '' = '' @ ?pk) @ println (''AllowedIPs'' @ '' = '' @ ?al)
      @ (if length (sp_endpoint_ip p) > 0 then println (''Endpoint'' @ '' = '' @ ?ep) else []) @ println (''PersistentKeepalive'' @ '' = '' @ ?ka) @ rest"
    by (simp add: wg_showconf_peer_def shown_port_def shown_keepalive_def)
  show ?thesis unfolding e 1 2 3 4 5 by (simp add: peer_acc_def empty_acc_def)
qed

section \<open>A whole file\<close>

lemma unat_u16: "unat (w :: u16) < 65536"
  using unsigned_less [of w] by simp

lemma peer_flush:
  assumes w: "writable_peer cfg p" and k: "0 \<le> cf_peer_keepalive cfg" "cf_peer_keepalive cfg < 2 ^ 31"
    and new: "sp_public_key p \<notin> sp_public_key ` set (st_peers st)" "length (st_peers st) < cf_max_peers cfg"
  shows "wg_conf_flush_peer cfg False st (peer_acc cfg p) = (OK, st\<lparr>st_peers := st_peers st @ [reloaded_peer cfg p]\<rparr>, empty_acc)"
proof -
  let ?n = "wg_mask_to_prefix (sp_allowed_mask p)" and ?pk = "sp_public_key p" and ?new = "new_staged_peer cfg (sp_public_key p)"
  have idx: "staged_index st ?pk = None" using new(1) by (auto simp: staged_index_def find_index_None image_iff)
  have pk: "wg_decode_key (Some ?pk) 32 \<noteq> None" "length ?pk = 44" using w plain_key by (auto simp: writable_peer_def)
  have al: "inet_pton (sp_allowed_ip p) \<noteq> None" using w by (simp add: writable_peer_def)
  define e where "e = (if sp_endpoint_ip p = [] then None else Some (sp_endpoint_ip p @ '':'' @ show_nat (unat (shown_port cfg p))))"
  define t1 where "t1 = ?new\<lparr>sp_endpoint_ip := sp_endpoint_ip p, sp_endpoint_port := (if sp_endpoint_ip p = [] then 0 else shown_port cfg p)\<rparr>"
  have 1: "(case e of None \<Rightarrow> Some ?new | Some e \<Rightarrow> stage_endpoint e ?new) = Some t1"
  proof (cases "sp_endpoint_ip p = []")
    case True
    then show ?thesis by (simp add: e_def t1_def new_staged_peer_def)
  next
    case False
    then have ep: "inet_pton (sp_endpoint_ip p) \<noteq> None" "shown_port cfg p \<noteq> 0" using w by (auto simp: writable_peer_def shown_port_def)
    have len: "length (sp_endpoint_ip p @ '':'' @ show_nat (unat (shown_port cfg p))) < 24"
      using plain_address [OF ep(1)] length_show_port [of "shown_port cfg p"] by simp
    have "CHR '':'' \<notin> set (show_nat (unat (shown_port cfg p)))"
      using show_nat_digits(1) [of "unat (shown_port cfg p)"] is_digit_not by (auto simp: list_all_iff)
    then have "cut_at_last (CHR '':'') (sp_endpoint_ip p @ CHR '':'' # show_nat (unat (shown_port cfg p))) = Some (sp_endpoint_ip p, show_nat (unat (shown_port cfg p)))"
      by (rule cut_at_last_last)
    moreover have "atoi (show_nat (unat (shown_port cfg p))) = int (unat (shown_port cfg p))"
      using atoi_show_nat [of "[]"] by simp
    moreover have "uint (shown_port cfg p) \<noteq> 0" "uint (shown_port cfg p) \<le> 65535"
      using ep(2) uint_lt2p [of "shown_port cfg p"] by (auto simp: uint_0_iff)
    ultimately show ?thesis using False ep(1) len pton_strlcpy [OF ep(1)]
      by (simp add: e_def t1_def stage_endpoint_def strlcpy_short Let_def)
  qed
  define t2 where "t2 = t1\<lparr>sp_allowed_ip := sp_allowed_ip p, sp_allowed_mask := inet_ntop (prefix_mask (int ?n))\<rparr>"
  have 2: "stage_allowed (sp_allowed_ip p @ ''/'' @ show_nat ?n) t1 = Some t2"
  proof -
    have "length (sp_allowed_ip p @ ''/'' @ show_nat ?n) < 24"
      using plain_address [OF al] length_show_prefix [OF mask_prefix_le, of "sp_allowed_mask p"] by simp
    moreover have "cut_at (CHR ''/'') (sp_allowed_ip p @ CHR ''/'' # show_nat ?n) = Some (sp_allowed_ip p, show_nat ?n)"
      using plain_address [OF al] by (intro cut_at_first) simp
    moreover have "atoi (show_nat ?n) = int ?n" using atoi_show_nat [of "[]"] by simp
    ultimately show ?thesis using al mask_prefix_le [of "sp_allowed_mask p"] pton_strlcpy [OF al]
      by (simp add: stage_allowed_def strlcpy_short t2_def)
  qed
  have "t2\<lparr>sp_keepalive := shown_keepalive cfg p\<rparr> = reloaded_peer cfg p"
    using pk(2) by (simp add: t2_def t1_def new_staged_peer_def reloaded_peer_def strlcpy_short)
  moreover have "wg_set_peer cfg False st ?pk e (Some (sp_allowed_ip p @ ''/'' @ show_nat ?n)) (shown_keepalive cfg p)
      = (OK, st\<lparr>st_peers := st_peers st @ [t2\<lparr>sp_keepalive := shown_keepalive cfg p\<rparr>]\<rparr>)"
    using idx new(2) pk(1) 1 2 shown_keepalive_range [OF w k] by (simp add: wg_set_peer_def)
  moreover have "(if ca_endpoint (peer_acc cfg p) \<noteq> [] then Some (ca_endpoint (peer_acc cfg p)) else None) = e"
    by (simp add: e_def peer_acc_def)
  moreover have "ca_valid (peer_acc cfg p)" "ca_pubkey (peer_acc cfg p) = ?pk" "ca_keepalive (peer_acc cfg p) = shown_keepalive cfg p"
    "(if ca_allowed (peer_acc cfg p) \<noteq> [] then Some (ca_allowed (peer_acc cfg p)) else None) = Some (sp_allowed_ip p @ ''/'' @ show_nat ?n)"
    by (simp_all add: peer_acc_def)
  ultimately show ?thesis by (simp only: wg_conf_flush_peer_def if_True Let_def split_conv)
qed

text \<open>The lines of the peers, followed by the flush at the end of the file.\<close>

lemma peers_lines:
  assumes k: "0 \<le> cf_peer_keepalive cfg" "cf_peer_keepalive cfg < 2 ^ 31"
  shows "\<forall>p \<in> set ps. writable_peer cfg p \<Longrightarrow> wg_conf_flush_peer cfg False st acc = (OK, st1, empty_acc) \<Longrightarrow>
    distinct (map sp_public_key (st_peers st1 @ ps)) \<Longrightarrow> length (st_peers st1) + length ps \<le> cf_max_peers cfg \<Longrightarrow>
    \<exists>st2 acc2. wg_conf_lines cfg False (concat (map (wg_showconf_peer cfg) ps)) st acc = (OK, st2, acc2)
      \<and> wg_conf_flush_peer cfg False st2 acc2 = (OK, st1\<lparr>st_peers := st_peers st1 @ map (reloaded_peer cfg) ps\<rparr>, empty_acc)"
proof (induction ps arbitrary: st acc st1)
  case Nil
  then show ?case by (subst wg_conf_lines.simps) (simp add: fgets_def)
next
  case (Cons p ps)
  let ?st2 = "st1\<lparr>st_peers := st_peers st1 @ [reloaded_peer cfg p]\<rparr>"
  have w: "writable_peer cfg p" using Cons.prems(1) by simp
  have "wg_conf_flush_peer cfg False st1 (peer_acc cfg p) = (OK, ?st2, empty_acc)"
    using Cons.prems(3,4) by (intro peer_flush [OF w k]) auto
  moreover have "sp_public_key (reloaded_peer cfg p) = sp_public_key p" by (simp add: reloaded_peer_def)
  ultimately have "\<exists>st3 acc3. wg_conf_lines cfg False (concat (map (wg_showconf_peer cfg) ps)) st1 (peer_acc cfg p) = (OK, st3, acc3)
      \<and> wg_conf_flush_peer cfg False st3 acc3 = (OK, ?st2\<lparr>st_peers := st_peers ?st2 @ map (reloaded_peer cfg) ps\<rparr>, empty_acc)"
    using Cons.prems by (intro Cons.IH) auto
  then show ?case using peer_lines [OF w k Cons.prems(2)] by simp
qed

lemma writeconf_effective:
  "effective_key cfg st \<noteq> [] \<Longrightarrow> wg_writeconf cfg st =
     (OK, println ''[Interface]'' @ println (''PrivateKey'' @ '' = '' @ effective_key cfg st)
        @ println (''ListenPort'' @ '' = '' @ show_nat (unat (cf_listen_port cfg)))
        @ concat (map (wg_showconf_peer cfg) (effective_peers cfg st)))"
  by (simp add: wg_writeconf_def effective_key_def effective_peers_def)

lemma setconf_writeconf:
  assumes key: "wg_decode_key (Some (effective_key cfg st)) 32 \<noteq> None"
    and peers: "\<forall>p \<in> set (effective_peers cfg st). writable_peer cfg p" "distinct (map sp_public_key (effective_peers cfg st))"
      "length (effective_peers cfg st) \<le> cf_max_peers cfg"
    and k: "0 \<le> cf_peer_keepalive cfg" "cf_peer_keepalive cfg < 2 ^ 31"
    and written: "wg_writeconf cfg st = (r, file)"
  shows "r = OK \<and> wg_setconf cfg False (Inr file) st0 =
    (OK, \<lparr>st_private_key = effective_key cfg st, st_peers = map (reloaded_peer cfg) (effective_peers cfg st)\<rparr>)"
proof -
  let ?key = "effective_key cfg st" and ?st0 = "st0\<lparr>st_peers := []\<rparr>" and ?st1 = "\<lparr>st_private_key = effective_key cfg st, st_peers = []\<rparr>"
  note pk = plain_key [OF key]
  have f: "wg_conf_flush_peer cfg reg s empty_acc = (OK, s, empty_acc)" for reg s
    by (simp add: wg_conf_flush_peer_def empty_acc_def)
  have 1: "wg_conf_lines cfg False (println ''[Interface]'' @ r) ?st0 empty_acc = wg_conf_lines cfg False r ?st0 empty_acc" for r
    using conf_lines_section [of "''Interface''", OF _ f] by simp
  have "wg_set_private_key False ?st0 (Some ?key) = (OK, ?st1)"
    using key pk by (auto simp: wg_set_private_key_def strlcpy_short)
  then have 2: "wg_conf_lines cfg False (println (''PrivateKey'' @ '' = '' @ ?key) @ r) ?st0 empty_acc = wg_conf_lines cfg False r ?st1 empty_acc" for r
    using pk by (intro conf_lines_directive) (auto simp: plain_def directive_eval)
  have 3: "wg_conf_lines cfg False (println (''ListenPort'' @ '' = '' @ show_nat (unat (cf_listen_port cfg))) @ r) ?st1 empty_acc
      = wg_conf_lines cfg False r ?st1 empty_acc" for r
    using plain_show_nat show_nat_digits(3) length_show_port [of "cf_listen_port cfg"]
    by (intro conf_lines_directive) (auto simp: plain_def directive_eval)
  have w: "r = OK" "file = println ''[Interface]'' @ println (''PrivateKey'' @ '' = '' @ ?key)
        @ println (''ListenPort'' @ '' = '' @ show_nat (unat (cf_listen_port cfg)))
        @ concat (map (wg_showconf_peer cfg) (effective_peers cfg st))"
    using writeconf_effective [of cfg st] written pk by simp_all
  obtain st2 acc2 where "wg_conf_lines cfg False file ?st0 empty_acc = (OK, st2, acc2)"
      "wg_conf_flush_peer cfg False st2 acc2 = (OK, ?st1\<lparr>st_peers := st_peers ?st1 @ map (reloaded_peer cfg) (effective_peers cfg st)\<rparr>, empty_acc)"
    using peers_lines [OF k peers(1) f [of False ?st1]] peers(2,3) unfolding w(2) 1 2 3 by auto
  then show ?thesis using w(1) by (simp add: wg_setconf_def)
qed

lemma reloaded_prefix:
  "writable_peer cfg p \<Longrightarrow> wg_mask_to_prefix (sp_allowed_mask (reloaded_peer cfg p)) = wg_mask_to_prefix (sp_allowed_mask p)
     \<and> inet_pton (sp_allowed_mask (reloaded_peer cfg p)) = inet_pton (sp_allowed_mask p)"
  using mask_to_prefix [OF mask_prefix_le, of "inet_ntop (prefix_mask (int (wg_mask_to_prefix (sp_allowed_mask p))))" "sp_allowed_mask p"]
    mask_to_prefix [of _ "sp_allowed_mask p"]
  by (auto simp: writable_peer_def reloaded_peer_def inet_pton_ntop)

lemma reloaded_same_settings:
  assumes "writable_peer cfg p" "0 \<le> cf_peer_keepalive cfg"
  shows "wg_add_peer X cfg (reloaded_peer cfg p) priv = wg_add_peer X cfg p priv"
proof -
  let ?q = "reloaded_peer cfg p"
  have ka: "(if sp_keepalive ?q \<ge> 0 then sp_keepalive ?q else cf_peer_keepalive cfg)
      = (if sp_keepalive p \<ge> 0 then sp_keepalive p else cf_peer_keepalive cfg)"
    using assms(2) by (simp add: reloaded_peer_def shown_keepalive_def)
  have ip: "sp_allowed_ip ?q = sp_allowed_ip p" "sp_endpoint_ip ?q = sp_endpoint_ip p" by (simp_all add: reloaded_peer_def)
  have mask_eq: "inet_pton (sp_allowed_mask ?q) = inet_pton (sp_allowed_mask p)" using reloaded_prefix [OF assms(1)] by blast
  have "staged_settings cfg ?q peer = staged_settings cfg p peer" for peer
  proof (cases "sp_endpoint_ip p = []")
    case True
    then show ?thesis unfolding staged_settings_def ka ip mask_eq by simp
  next
    case False
    then have port: "(if sp_endpoint_port ?q \<noteq> 0 then sp_endpoint_port ?q else cf_peer_endpoint_port cfg)
        = (if sp_endpoint_port p \<noteq> 0 then sp_endpoint_port p else cf_peer_endpoint_port cfg)"
      by (simp add: reloaded_peer_def shown_port_def)
    show ?thesis unfolding staged_settings_def ka ip mask_eq port by (rule refl)
  qed
  moreover have "sp_public_key ?q = sp_public_key p" by (simp add: reloaded_peer_def)
  ultimately show ?thesis unfolding wg_add_peer_def by presburger
qed

lemma reloaded_same_text:
  assumes "writable_peer cfg p" "0 \<le> cf_peer_keepalive cfg"
  shows "wg_showconf_peer cfg (reloaded_peer cfg p) = wg_showconf_peer cfg p"
proof -
  have "wg_mask_to_prefix (sp_allowed_mask (reloaded_peer cfg p)) = wg_mask_to_prefix (sp_allowed_mask p)"
    using reloaded_prefix [OF assms(1)] by blast
  then show ?thesis unfolding wg_showconf_peer_def using assms
    by (simp add: reloaded_peer_def shown_keepalive_def shown_port_def writable_peer_def)
qed

text \<open>
  C23. Saving and loading a configuration brings the interface up the same. When the key in force
  decodes and the peers in force (the staged ones, or the built-in one) are different from each
  other, fit the peer table and can be written, then \<open>wg_saveconf\<close> succeeds, \<open>wg_setconf\<close> of the file
  succeeds whatever was staged before, saving again gives the same file, and \<open>wg_initialize\<close> then
  does exactly what it would have done before, with the same devices and the same errors.
\<close>

theorem save_load_same_interface:
  assumes "wg_decode_key (Some (effective_key cfg st)) 32 \<noteq> None"
    and "\<forall>p \<in> set (effective_peers cfg st). writable_peer cfg p" "distinct (map sp_public_key (effective_peers cfg st))"
    and "length (effective_peers cfg st) \<le> cf_max_peers cfg"
    and "0 \<le> cf_peer_keepalive cfg" "cf_peer_keepalive cfg < 2 ^ 31"
    and "wg_saveconf cfg st None None old = (r, file)"
  shows "r = OK \<and> (\<exists>st'. wg_setconf cfg False (Inr file) st0 = (OK, st') \<and> wg_saveconf cfg st' None None old = (OK, file)
    \<and> (\<forall>X sys priv os. wg_initialize X cfg sys st' priv os = wg_initialize X cfg sys st priv os))"
proof -
  let ?st' = "\<lparr>st_private_key = effective_key cfg st, st_peers = map (reloaded_peer cfg) (effective_peers cfg st)\<rparr>"
  have w: "wg_writeconf cfg st = (r, file)" using assms(7) by (simp add: wg_saveconf_def split: prod.splits)
  note loaded = setconf_writeconf [OF assms(1-6) w, of st0]
  have ne: "effective_key cfg st \<noteq> []" using plain_key [OF assms(1)] by blast
  then have key: "effective_key cfg ?st' = effective_key cfg st" by (simp add: effective_key_def wg_cfg_str_def)
  then have key': "wg_cfg_str (st_private_key ?st') (cf_private_key cfg) = wg_cfg_str (st_private_key st) (cf_private_key cfg)"
    by (simp only: effective_key_def)
  have peers: "effective_peers cfg ?st' = map (reloaded_peer cfg) (effective_peers cfg st)"
    by (simp add: effective_peers_def)
  have "map (wg_showconf_peer cfg) (effective_peers cfg ?st') = map (wg_showconf_peer cfg) (effective_peers cfg st)"
    unfolding peers using assms(2,5) reloaded_same_text by simp
  then have "wg_writeconf cfg ?st' = (OK, file)"
    using writeconf_effective [of cfg st] writeconf_effective [of cfg ?st'] ne key w by simp
  moreover have "wg_configure_peer X cfg ?st' priv = wg_configure_peer X cfg st priv" for X priv
    unfolding configure_effective peers fold_map comp_def
    using assms(2,5) reloaded_same_settings by (intro fold_cong) auto
  then have conf: "wg_configure_peer X cfg ?st' = wg_configure_peer X cfg st" for X by (rule ext)
  have "wg_initialize X cfg sys ?st' priv os = wg_initialize X cfg sys st priv os" for X sys priv os
    by (simp only: wg_initialize_def key' conf)
  ultimately show ?thesis using loaded by (simp add: wg_saveconf_def)
qed

definition sample_peer :: wg_staged_peer_s where
  "sample_peer = \<lparr>sp_public_key = sample_key, sp_endpoint_ip = ''192.0.2.1'', sp_allowed_ip = ''0.0.0.0'',
     sp_allowed_mask = inet_ntop (prefix_mask 24), sp_endpoint_port = 0, sp_keepalive = -1\<rparr>"

theorem save_load_same_interface_witness:
  "\<exists>file st'. wg_saveconf sample_config \<lparr>st_private_key = sample_key, st_peers = [sample_peer]\<rparr> None None [] = (OK, file)
     \<and> wg_setconf sample_config False (Inr file) \<lparr>st_private_key = [], st_peers = []\<rparr> = (OK, st')
     \<and> wg_saveconf sample_config st' None None [] = (OK, file)"
proof -
  let ?st = "\<lparr>st_private_key = sample_key, st_peers = [sample_peer]\<rparr>"
  have "sample_key \<noteq> []" by (simp add: sample_key_def)
  then have e: "effective_key sample_config ?st = sample_key" "effective_peers sample_config ?st = [sample_peer]"
    by (simp_all add: effective_key_def effective_peers_def wg_cfg_str_def)
  have c: "cf_max_peers sample_config = 1" "cf_peer_keepalive sample_config = 25" "cf_peer_endpoint_port sample_config = 51820"
    by (simp_all add: sample_config_def)
  have "\<exists>n \<le> 32. inet_pton (sp_allowed_mask sample_peer) = Some (prefix_mask (int n))"
    by (rule exI [of _ 24]) (simp add: sample_peer_def inet_pton_ntop)
  then have w: "writable_peer sample_config sample_peer"
    using sample_parse by (simp add: writable_peer_def c) (simp add: sample_peer_def)
  obtain r "file" where s: "wg_saveconf sample_config ?st None None [] = (r, file)" by fastforce
  show ?thesis
    using save_load_same_interface [OF _ _ _ _ _ _ s, of "\<lparr>st_private_key = [], st_peers = []\<rparr>"] sample_parse(5) w s
    by (auto simp: e c)
qed

section \<open>Files that are wrong\<close>

lemma conf_directive_staged_ok:
  "wg_conf_directive k v reg st acc = (r, st', acc') \<Longrightarrow> staged_ok cfg st \<Longrightarrow> staged_ok cfg st'"
  unfolding wg_conf_directive_def Let_def
  by (auto split: if_splits prod.splits dest: staged_ok_set_private_key)

lemma conf_flush_staged_ok:
  "wg_conf_flush_peer cfg reg st acc = (r, st', acc') \<Longrightarrow> staged_ok cfg st \<Longrightarrow> staged_ok cfg st'"
  unfolding wg_conf_flush_peer_def Let_def
  by (auto split: if_splits prod.splits dest: staged_ok_set_peer)

lemma conf_line_staged_ok:
  "wg_conf_line cfg reg line st acc = (r, st', acc') \<Longrightarrow> staged_ok cfg st \<Longrightarrow> staged_ok cfg st'"
  unfolding wg_conf_line_def Let_def
  by (auto split: if_splits option.splits dest: conf_directive_staged_ok conf_flush_staged_ok)

lemma conf_lines_staged_ok:
  "wg_conf_lines cfg reg file st acc = (r, st', acc') \<Longrightarrow> staged_ok cfg st \<Longrightarrow> staged_ok cfg st'"
proof (induction cfg reg "file" st acc rule: wg_conf_lines.induct)
  case (1 cfg reg "file" st acc)
  show ?case
  proof (cases "fgets 128 file")
    case None
    then show ?thesis using 1 by (subst (asm) (2) wg_conf_lines.simps) simp
  next
    case (Some lr)
    obtain line rest r1 st1 acc1 where f: "fgets 128 file = Some (line, rest)"
        and l: "wg_conf_line cfg reg line st acc = (r1, st1, acc1)"
      using Some by (metis prod_cases3 surj_pair)
    have ok: "staged_ok cfg st1" using conf_line_staged_ok [OF l 1(3)] .
    show ?thesis
    proof (cases "r1 = OK")
      case True
      then have "wg_conf_lines cfg reg rest st1 acc1 = (r, st', acc')" using 1(2) f l by (subst (asm) wg_conf_lines.simps) simp
      then show ?thesis using 1(1) [OF f] l True ok by simp
    next
      case False
      then show ?thesis using 1(2) f l ok by (subst (asm) wg_conf_lines.simps) simp
    qed
  qed
qed

text \<open>
  C30. Loading a file replaces the staged peers or leaves none. \<open>wg_setconf\<close> is refused while the
  interface is up, and changes nothing then or when the file cannot be opened. Otherwise its result
  does not depend on the peers that were staged; after an error no peer is staged, so that bringing
  the interface up configures the built-in peer if the build has one, and no peer if not. The staged
  configuration stays well-formed in all cases.
\<close>

theorem setconf_contract:
  assumes "staged_ok cfg st" "wg_setconf cfg reg path st = (r, st')"
  shows "staged_ok cfg st'
    \<and> (if reg then r = EBUSY \<and> st' = st
       else case path of
         Inl e \<Rightarrow> r = Errno (- e) \<and> st' = st
       | Inr file \<Rightarrow> (\<forall>ps. wg_setconf cfg reg path (st\<lparr>st_peers := ps\<rparr>) = (r, st'))
           \<and> (r = OK \<or> st_peers st' = [] \<and>
               (\<forall>X priv. wg_configure_peer X cfg st' priv
                  = (if cf_peer_public_key cfg = [] then priv else wg_add_peer X cfg (kconfig_peer cfg) priv))))"
proof (cases "reg \<or> (\<exists>e. path = Inl e)")
  case True
  then show ?thesis using assms by (auto simp: wg_setconf_def)
next
  case False
  then obtain "file" where reg: "\<not> reg" and path: "path = Inr file" by (cases path) auto
  have ok0: "staged_ok cfg (st\<lparr>st_peers := []\<rparr>)" using assms(1) by (simp add: staged_ok_def)
  obtain r1 st1 acc1 where l: "wg_conf_lines cfg False file (st\<lparr>st_peers := []\<rparr>) empty_acc = (r1, st1, acc1)" by (metis prod_cases3)
  obtain r2 st2 acc2 where f: "wg_conf_flush_peer cfg False st1 acc1 = (r2, st2, acc2)" by (metis prod_cases3)
  have ok: "staged_ok cfg st1" "staged_ok cfg st2"
    using conf_lines_staged_ok [OF l ok0] conf_flush_staged_ok [OF f] by blast+
  have drop_ok: "staged_ok cfg s \<Longrightarrow> staged_ok cfg (s\<lparr>st_peers := []\<rparr>)" for s by (simp add: staged_ok_def)
  have res: "(r, st') = (if r1 = OK then (r2, if r2 = OK then st2 else st2\<lparr>st_peers := []\<rparr>) else (r1, st1\<lparr>st_peers := []\<rparr>))"
    using assms(2) l f reg path by (auto simp: wg_setconf_def split: if_splits)
  then have "staged_ok cfg st'" "r = OK \<or> st_peers st' = []" using ok drop_ok by (auto split: if_splits)
  then show ?thesis using assms(2) reg path configure_effective effective_peers_def by (auto simp: wg_setconf_def)
qed

theorem setconf_contract_witness:
  "\<exists>st'. wg_setconf sample_config False (Inr (println ''PublicKey = A'')) \<lparr>st_private_key = [], st_peers = [sample_peer]\<rparr> = (EINVAL, st')
    \<and> st_peers st' = []"
proof -
  let ?st = "\<lparr>st_private_key = [], st_peers = [sample_peer]\<rparr>" and ?st0 = "\<lparr>st_private_key = [], st_peers = []\<rparr>"
    and ?acc = "empty_acc\<lparr>ca_pubkey := ''A'', ca_valid := True\<rparr>"
  have "wg_conf_lines sample_config False (println (''PublicKey'' @ '' = '' @ ''A'') @ []) ?st0 empty_acc = wg_conf_lines sample_config False [] ?st0 ?acc"
    by (rule conf_lines_directive) (auto simp: plain_def directive_eval strlcpy_def)
  then have l: "wg_conf_lines sample_config False (println ''PublicKey = A'') ?st0 empty_acc = (OK, ?st0, ?acc)"
    by (simp add: wg_conf_lines.simps [of _ _ "[]"] fgets_def)
  have "wg_decode_key (Some ''A'') 32 = None" by code_simp
  then have "wg_conf_flush_peer sample_config False ?st0 ?acc = (EINVAL, ?st0, empty_acc)"
    by (simp add: wg_conf_flush_peer_def wg_set_peer_def)
  then have run: "wg_setconf sample_config False (Inr (println ''PublicKey = A'')) ?st = (EINVAL, ?st0)"
    using l by (simp add: wg_setconf_def)
  have "staged_ok sample_config ?st"
    using sample_parse by (simp add: staged_ok_def staged_peer_ok_def sample_config_def sample_peer_def)
  from setconf_contract [OF this run] show ?thesis using run by simp
qed

text \<open>
  Lines longer than the buffer come in pieces, and each piece is read as a line: what follows the
  127th character of a comment is a directive.
\<close>

lemma long_comment_is_split:
  assumes "length s = 127" "newline \<notin> set s" "wg_conf_trim s \<noteq> []" "hd (wg_conf_trim s) = CHR ''#''"
  shows "wg_conf_lines cfg reg (s @ rest) st acc = wg_conf_lines cfg reg rest st acc"
proof -
  have tw: "takeWhile (\<lambda>c. c \<noteq> newline) s = s" unfolding takeWhile_eq_all_conv using assms(2) by blast
  have t: "take (128 - 1) (s @ rest) = s" using assms(1) by simp
  have "s \<noteq> []" using assms(1) by fastforce
  then have f: "fgets 128 (s @ rest) = Some (s, rest)" unfolding fgets_def Let_def t tw by simp
  have "wg_conf_line cfg reg s st acc = (OK, st, acc)" using assms(4) by (simp add: wg_conf_line_def)
  then show ?thesis using f by (subst wg_conf_lines.simps) simp
qed

end
