(* ===== verification/Cli.thy ===== *)
theory Cli
  imports Reload
begin

text \<open>
  The command line tool \<open>wg_main.c\<close> and the status output \<open>wg_show\<close> of \<open>nuttx-wireguardif.c\<close>: each
  subcommand is a function of the argument vector, the staged configuration, the device, the
  operating system and the files, and yields the exit status, both output streams and the new state.
  The texts are the ones printed; numbers of \<open>errno.h\<close> are written out.
\<close>


section \<open>Printing\<close>

text \<open>The numbers of \<open>errno.h\<close>, negated as the functions return them.\<close>

fun status_code :: "wg_status \<Rightarrow> int" where
  "status_code OK = 0"
| "status_code ENOENT = -2"
| "status_code EIO = -5"
| "status_code EBUSY = -16"
| "status_code ENODEV = -19"
| "status_code EINVAL = -22"
| "status_code ENOSPC = -28"
| "status_code ENODATA = -61"
| "status_code ETIMEDOUT = -110"
| "status_code (Errno n) = n"

definition quoted :: "string \<Rightarrow> string" where
  "quoted s = CHR 0x27 # s @ [CHR 0x27]"

definition wg_usage :: string where
  "wg_usage = concat (map println
     [''usage: wg [up|down|show|genkey|pubkey|set ...]'',
      [],
      ''  up                      bring wg0 up (default if no argument)'',
      ''  down                    take wg0 down'',
      ''  show                    print interface and peer status'',
      ''  showconf                print the configuration in wg(8) format'',
      ''  saveconf [file]         write it to a file so it survives a reboot'',
      ''  setconf <file>          load a wg(8) format configuration file'',
      ''  genkey                  print a new private key'',
      ''  pubkey                  read a private key from stdin and print'',
      ''                          the matching public key'',
      [],
      ''  set private-key <key>'',
      ''  set peer <public-key> [endpoint <addr:port>]'',
      ''                         [allowed-ips <addr>/<prefix>]'',
      ''                         [persistent-keepalive <seconds>]'',
      ''  set peer <public-key> remove'',
      [],
      ''Naming an existing peer updates it; a new key adds one, up to'',
      ''CONFIG_NET_WIREGUARD_MAX_PEERS.'',
      [],
      ''\"set\" and \"setconf\" only work while wg0 is down, and override the'',
      ''matching CONFIG_NET_WIREGUARD_* build-time settings.'',
      [],
      ''To make a configuration survive a reboot, save it where the start-up'',
      ''script looks for it:'',
      ''  wg saveconf''])"

definition is_up_first :: string where
  "is_up_first = println ''wg: wg0 is up; run \"wg down\" first''"

text \<open>\<open>wg_show\<close>: the status of the interface and of its peers.\<close>

definition show_key :: "bytes \<Rightarrow> string" where
  "show_key key = (case wireguard_base64_encode key 63 of Some s \<Rightarrow> s | None \<Rightarrow> ''(unknown)'')"

definition wg_show_peer :: "wg_netdev_s \<Rightarrow> os \<Rightarrow> nat \<Rightarrow> string" where
  "wg_show_peer priv os x =
     (let peer = nd_peer priv x
      in if \<not> pr_valid peer then []
         else println (''peer: '' @ show_key (pr_public_key peer))
           @ (if pr_port peer > 0
              then println (''  endpoint: '' @ inet_ntop (pr_ip peer) @ '':'' @ show_nat (unat (pr_port peer))) else [])
           @ (let active_keypair = (if kp_valid (pr_curr_keypair peer) then Some (pr_curr_keypair peer)
                                    else if kp_valid (pr_prev_keypair peer) then Some (pr_prev_keypair peer) else None);
                  now = wireguard_sys_now os
              in case active_keypair of
                   Some k \<Rightarrow> println (''  latest handshake: '' @ show_nat (unat ((now - kp_millis k) div 1000)) @ '' seconds ago'')
                 | None \<Rightarrow> println ''  latest handshake: (never)'')
           @ println (''  transfer: '' @ show_nat (unat (nd_peer_rx_bytes priv ! x)) @ '' B received, ''
               @ show_nat (unat (nd_peer_tx_bytes priv ! x)) @ '' B sent''))"

definition wg_show :: "kconfig \<Rightarrow> wg_netdev_s \<Rightarrow> os \<Rightarrow> string" where
  "wg_show cfg priv os =
     (if \<not> nd_registered priv then println ''wg0 is not up (run \"wg\" first)''
      else println ''interface: wg0''
        @ println (''  public key: '' @ show_key (dv_public_key (nd_wg priv)))
        @ println (''  listening port: '' @ show_nat (unat (cf_listen_port cfg)))
        @ concat (map (wg_show_peer priv os) [0..<cf_max_peers cfg]))"

section \<open>The state a command works on\<close>

text \<open>
  The staged configuration and the device, which outlive a command, the operating system and the
  files. What the system calls of a command return is the environment: the kernel calls of
  \<open>wg_initialize\<close>, whether the receive task stops in time, standard input, and the values of
  \<open>errno\<close> with which a file cannot be read, written or closed.
\<close>

record wg_world =
  wd_staged :: wg_staged_s
  wd_priv :: wg_netdev_s
  wd_os :: os
  wd_files :: "string \<rightharpoonup> string"

record cli_env =
  ev_sys :: netsys
  ev_stopped :: bool
  ev_stdin :: string
  ev_read_err :: "string \<Rightarrow> int option"
  ev_write_err :: "string \<Rightarrow> int option"
  ev_close_err :: "string \<Rightarrow> int option"

text \<open>The exit status, standard output, standard error and the new state.\<close>

type_synonym cli_result = "int \<times> string \<times> string \<times> wg_world"

abbreviation failed :: "string \<Rightarrow> wg_world \<Rightarrow> cli_result" where
  "failed msg w \<equiv> (1, [], msg, w)"

abbreviation succeeded :: "string \<Rightarrow> wg_world \<Rightarrow> cli_result" where
  "succeeded out w \<equiv> (0, out, [], w)"

section \<open>wg set\<close>

text \<open>The loop over the settings of a peer.\<close>

fun peer_options :: "string list \<Rightarrow> string option \<Rightarrow> string option \<Rightarrow> int \<Rightarrow> string + string option \<times> string option \<times> int" where
  "peer_options (k # v # args) endpoint allowed keepalive =
     (if k = ''endpoint'' then peer_options args (Some v) allowed keepalive
      else if k = ''allowed-ips'' then peer_options args endpoint (Some v) keepalive
      else if k = ''persistent-keepalive'' then peer_options args endpoint allowed (atoi v)
      else Inl (println (''wg: unknown peer setting '' @ quoted k)))"
| "peer_options [k] endpoint allowed keepalive = Inl (println (''wg: '' @ quoted k @ '' is missing a value''))"
| "peer_options [] endpoint allowed keepalive = Inr (endpoint, allowed, keepalive)"

definition wg_do_set :: "kconfig \<Rightarrow> string list \<Rightarrow> wg_world \<Rightarrow> cli_result" where
  "wg_do_set cfg argv w =
     (let registered = nd_registered (wd_priv w)
      in if length argv < 4 then failed wg_usage w
      else if argv ! 2 = ''private-key''
      then let (r, staged) = wg_set_private_key registered (wd_staged w) (Some (argv ! 3));
               ret = status_code r; w = w\<lparr>wd_staged := staged\<rparr>
           in if ret = status_code EBUSY then failed is_up_first w
              else if ret < 0 then failed (println ''wg: not a valid base64 key'') w
              else succeeded [] w
      else if argv ! 2 \<noteq> ''peer''
      then failed (println (''wg: unknown setting '' @ quoted (argv ! 2)) @ wg_usage) w
      else if length argv = 5 \<and> argv ! 4 = ''remove''
      then let (r, staged) = wg_remove_peer registered (wd_staged w) (argv ! 3);
               ret = status_code r; w = w\<lparr>wd_staged := staged\<rparr>
           in if ret = status_code EBUSY then failed is_up_first w
              else if ret = status_code ENOENT then failed (println ''wg: no such peer'') w
              else succeeded [] w
      else case peer_options (drop 4 argv) None None (-1) of
             Inl msg \<Rightarrow> failed msg w
           | Inr (endpoint, allowed, keepalive) \<Rightarrow>
               let (r, staged) = wg_set_peer cfg registered (wd_staged w) (argv ! 3) endpoint allowed keepalive;
                   ret = status_code r; w = w\<lparr>wd_staged := staged\<rparr>
               in if ret = status_code EBUSY then failed is_up_first w
                  else if ret < 0 then failed (println ''wg: could not parse the peer settings'') w
                  else succeeded [] w)"

section \<open>The other commands\<close>

definition cmd_genkey :: "wg_world \<Rightarrow> cli_result" where
  "cmd_genkey w =
     (let (r, os) = wg_genkey WG_KEY_STRLEN (wd_os w); w = w\<lparr>wd_os := os\<rparr>
      in case r of Inl _ \<Rightarrow> failed (println ''wg: could not generate a key'') w
                 | Inr key \<Rightarrow> succeeded (println key) w)"

text \<open>The private key is an argument or the first line of standard input.\<close>

definition cmd_pubkey :: "dh \<Rightarrow> cli_env \<Rightarrow> string list \<Rightarrow> wg_world \<Rightarrow> cli_result" where
  "cmd_pubkey X env argv w =
     (let src = (if length argv \<ge> 3 then Some (argv ! 2)
                 else case fgets (WG_KEY_STRLEN + 2) (ev_stdin env) of
                        Some (priv, _) \<Rightarrow> Some (takeWhile (\<lambda>c. c \<noteq> CHR 0x0D \<and> c \<noteq> newline) priv)
                      | None \<Rightarrow> None)
      in if src = None \<or> src = Some [] then failed (println ''wg: pubkey needs a private key on stdin'') w
         else case wg_pubkey X src WG_KEY_STRLEN of
                Inl _ \<Rightarrow> failed (println ''wg: not a valid base64 key'') w
              | Inr key \<Rightarrow> succeeded (println key) w)"

definition cmd_showconf :: "kconfig \<Rightarrow> wg_world \<Rightarrow> cli_result" where
  "cmd_showconf cfg w =
     (let (r, out) = wg_showconf cfg (wd_staged w)
      in if status_code r < 0 then (1, out, println ''wg: no private key configured'', w) else succeeded out w)"

definition config_path :: "kconfig \<Rightarrow> string list \<Rightarrow> string" where
  "config_path cfg argv = (if length argv \<ge> 3 then argv ! 2 else cf_config_path cfg)"

definition cmd_saveconf :: "kconfig \<Rightarrow> cli_env \<Rightarrow> string list \<Rightarrow> wg_world \<Rightarrow> cli_result" where
  "cmd_saveconf cfg env argv w =
     (let path = config_path cfg argv;
          old = (case wd_files w path of None \<Rightarrow> [] | Some t \<Rightarrow> t);
          (r, new) = wg_saveconf cfg (wd_staged w) (ev_write_err env path) (ev_close_err env path) old;
          ret = status_code r;
          w = (if ev_write_err env path = None then w\<lparr>wd_files := (wd_files w)(path \<mapsto> new)\<rparr> else w)
      in if ret = status_code ENODATA then failed (println ''wg: no private key configured'') w
         else if ret < 0 then failed (println (''wg: could not write '' @ quoted path @ '': '' @ show_int ret)) w
         else succeeded (println (''saved to '' @ path)) w)"

definition read_file :: "cli_env \<Rightarrow> wg_world \<Rightarrow> string \<Rightarrow> int + string" where
  "read_file env w path =
     (case ev_read_err env path of
        Some e \<Rightarrow> Inl e
      | None \<Rightarrow> (case wd_files w path of None \<Rightarrow> Inl (- status_code ENOENT) | Some t \<Rightarrow> Inr t))"

definition cmd_setconf :: "kconfig \<Rightarrow> cli_env \<Rightarrow> string list \<Rightarrow> wg_world \<Rightarrow> cli_result" where
  "cmd_setconf cfg env argv w =
     (let path = config_path cfg argv;
          (r, staged) = wg_setconf cfg (nd_registered (wd_priv w)) (read_file env w path) (wd_staged w);
          ret = status_code r; w = w\<lparr>wd_staged := staged\<rparr>
      in if ret = status_code EBUSY then failed is_up_first w
         else if ret < 0 then failed (println (''wg: could not load '' @ quoted path @ '': '' @ show_int ret)) w
         else succeeded [] w)"

definition cmd_down :: "kconfig \<Rightarrow> cli_env \<Rightarrow> wg_world \<Rightarrow> cli_result" where
  "cmd_down cfg env w =
     (let (r, priv) = wg_down cfg (ev_stopped env) (wd_priv w);
          ret = status_code r; w = w\<lparr>wd_priv := priv\<rparr>
      in if ret = status_code ENODEV then failed (println ''wg: wg0 is not up'') w
         else if ret < 0 then failed (println (''wg: failed to take wg0 down: '' @ show_int ret)) w
         else succeeded (println ''wg0 is down'') w)"

definition cmd_up :: "dh \<Rightarrow> kconfig \<Rightarrow> cli_env \<Rightarrow> wg_world \<Rightarrow> cli_result" where
  "cmd_up X cfg env w =
     (if wg_is_up (wd_priv w) then succeeded (println ''wg0 is already up'') w
      else let (r, priv, os) = wg_initialize X cfg (ev_sys env) (wd_staged w) (wd_priv w) (wd_os w);
               ret = status_code r; w = w\<lparr>wd_priv := priv, wd_os := os\<rparr>
           in if ret < 0 then failed (println (''wg: failed to bring up wg0: '' @ show_int ret)) w
              else succeeded (println (''wg0 is up (listen port '' @ show_nat (unat (cf_listen_port cfg)) @ '')'')) w)"

definition main :: "dh \<Rightarrow> kconfig \<Rightarrow> cli_env \<Rightarrow> string list \<Rightarrow> wg_world \<Rightarrow> cli_result" where
  "main X cfg env argv w =
     (let sub = (if length argv \<ge> 2 then argv ! 1 else ''up'')
      in if sub = ''show'' then succeeded (wg_show cfg (wd_priv w) (wd_os w)) w
      else if sub = ''genkey'' then cmd_genkey w
      else if sub = ''pubkey'' then cmd_pubkey X env argv w
      else if sub = ''showconf'' then cmd_showconf cfg w
      else if sub = ''saveconf'' then cmd_saveconf cfg env argv w
      else if sub = ''setconf'' then cmd_setconf cfg env argv w
      else if sub = ''set'' then wg_do_set cfg argv w
      else if sub = ''down'' then cmd_down cfg env w
      else if sub \<noteq> ''up'' then failed (println (''wg: unknown subcommand '' @ quoted sub) @ wg_usage) w
      else cmd_up X cfg env w)"

section \<open>What a command may change\<close>

definition subcommand :: "string list \<Rightarrow> string" where
  "subcommand argv = (if length argv \<ge> 2 then argv ! 1 else ''up'')"

lemma println_ne [simp]: "println s \<noteq> []"
  by (simp add: println_def)

lemma usage_ne [simp]: "wg_usage \<noteq> []"
  by (simp add: wg_usage_def)

lemma is_up_first_ne [simp]: "is_up_first \<noteq> []"
  by (simp add: is_up_first_def)

text \<open>Exit status and output, and a condition on the state before and after.\<close>

definition outcome :: "cli_result \<Rightarrow> (bool \<Rightarrow> wg_world \<Rightarrow> bool) \<Rightarrow> bool" where
  "outcome res P \<longleftrightarrow> (case res of (status, out, err, w) \<Rightarrow> (status = 0 \<and> err = [] \<or> status = 1 \<and> err \<noteq> []) \<and> P (status = 0) w)"

lemma outcome_simps [simp]:
  "outcome (succeeded out w) P \<longleftrightarrow> P True w"
  "outcome (1, out, msg, w) P \<longleftrightarrow> msg \<noteq> [] \<and> P False w"
  by (auto simp: outcome_def)

lemma outcome_if: "outcome (if b then x else y) P \<longleftrightarrow> (if b then outcome x P else outcome y P)"
  by simp

lemma outcome_ifI: "(b \<Longrightarrow> outcome x P) \<Longrightarrow> (\<not> b \<Longrightarrow> outcome y P) \<Longrightarrow> outcome (if b then x else y) P"
  by simp

lemma set_private_key_refused: "wg_set_private_key True st b64 = (EBUSY, st)"
  by (simp add: wg_set_private_key_def)

lemma set_peer_refused: "wg_set_peer cfg True st pk e a k = (EBUSY, st)"
  by (simp add: wg_set_peer_def)

lemma remove_peer_refused: "wg_remove_peer True st pk = (EBUSY, st)"
  by (simp add: wg_remove_peer_def)

lemma peer_options_error: "peer_options args e a k = Inl msg \<Longrightarrow> msg \<noteq> []"
  by (induction args e a k rule: peer_options.induct) (auto split: if_splits)

lemma staging_error:
  "wg_set_private_key reg st b64 = (r, st') \<Longrightarrow> r \<noteq> OK \<Longrightarrow> st' = st"
  "wg_remove_peer reg st pk = (r, st') \<Longrightarrow> r \<noteq> OK \<Longrightarrow> st' = st"
  by (auto simp: wg_set_private_key_def wg_remove_peer_def split: if_splits option.splits)

text \<open>What a staging command does to the staged configuration, given the result of its operation.\<close>

definition staged_by :: "kconfig \<Rightarrow> wg_world \<Rightarrow> bool \<Rightarrow> wg_world \<Rightarrow> bool" where
  "staged_by cfg w ok w' \<longleftrightarrow> (\<exists>st. w' = w\<lparr>wd_staged := st\<rparr> \<and> (staged_ok cfg (wd_staged w) \<longrightarrow> staged_ok cfg st)
     \<and> (nd_registered (wd_priv w) \<or> \<not> ok \<longrightarrow> st = wd_staged w))"

lemma staged_by_refl [simp]: "staged_by cfg w ok w"
  unfolding staged_by_def by (rule exI [of _ "wd_staged w"]) simp

lemma staged_byI:
  "(staged_ok cfg (wd_staged w) \<Longrightarrow> staged_ok cfg st) \<Longrightarrow> (nd_registered (wd_priv w) \<or> \<not> ok \<Longrightarrow> st = wd_staged w) \<Longrightarrow>
   staged_by cfg w ok (w\<lparr>wd_staged := st\<rparr>)"
  by (auto simp: staged_by_def)

text \<open>The two ways in which the branches after an operation come about.\<close>

definition branch :: "bool \<Rightarrow> wg_status \<Rightarrow> bool" where
  "branch ok r \<longleftrightarrow> (if ok then status_code r \<noteq> status_code EBUSY else status_code r \<noteq> 0)"

lemma branch_status: "branch ok r \<Longrightarrow> (ok \<longrightarrow> r \<noteq> EBUSY) \<and> (\<not> ok \<longrightarrow> r \<noteq> OK)"
  by (auto simp: branch_def)

lemma do_set_outcome: "outcome (wg_do_set cfg argv w) (staged_by cfg w)"
proof -
  let ?reg = "nd_registered (wd_priv w)" and ?st = "wd_staged w"
  obtain r1 st1 where 1: "wg_set_private_key ?reg ?st (Some (argv ! 3)) = (r1, st1)" by fastforce
  obtain r2 st2 where 2: "wg_remove_peer ?reg ?st (argv ! 3) = (r2, st2)" by fastforce
  have s1: "branch ok r1 \<Longrightarrow> staged_by cfg w ok (w\<lparr>wd_staged := st1\<rparr>)" for ok
    using 1 branch_status [of ok r1] staging_error(1) [OF 1] staged_ok_set_private_key [OF _ 1] set_private_key_refused
    by (intro staged_byI) (auto split: if_splits)
  have s2: "branch ok r2 \<Longrightarrow> staged_by cfg w ok (w\<lparr>wd_staged := st2\<rparr>)" for ok
    using 2 branch_status [of ok r2] staging_error(2) [OF 2] staged_ok_remove_peer [OF _ 2] remove_peer_refused
    by (intro staged_byI) (auto split: if_splits)
  have key: "outcome (if status_code r1 = status_code EBUSY then failed is_up_first (w\<lparr>wd_staged := st1\<rparr>)
              else if status_code r1 < 0 then failed (println ''wg: not a valid base64 key'') (w\<lparr>wd_staged := st1\<rparr>)
              else succeeded [] (w\<lparr>wd_staged := st1\<rparr>)) (staged_by cfg w)"
    by (auto simp: outcome_if branch_def intro!: s1)
  have remove: "outcome (if status_code r2 = status_code EBUSY then failed is_up_first (w\<lparr>wd_staged := st2\<rparr>)
              else if status_code r2 = status_code ENOENT then failed (println ''wg: no such peer'') (w\<lparr>wd_staged := st2\<rparr>)
              else succeeded [] (w\<lparr>wd_staged := st2\<rparr>)) (staged_by cfg w)"
    by (auto simp: outcome_if branch_def intro!: s2)
  have peer: "outcome (case peer_options (drop 4 argv) None None (-1) of
             Inl msg \<Rightarrow> failed msg w
           | Inr (endpoint, allowed, keepalive) \<Rightarrow>
               let (r, staged) = wg_set_peer cfg ?reg ?st (argv ! 3) endpoint allowed keepalive;
                   ret = status_code r; w = w\<lparr>wd_staged := staged\<rparr>
               in if ret = status_code EBUSY then failed is_up_first w
                  else if ret < 0 then failed (println ''wg: could not parse the peer settings'') w
                  else succeeded [] w) (staged_by cfg w)"
  proof (cases "peer_options (drop 4 argv) None None (-1)")
    case (Inl msg)
    then show ?thesis using peer_options_error [OF Inl] by simp
  next
    case (Inr opts)
    obtain e a k where opts: "opts = (e, a, k)" by (metis prod_cases3)
    obtain r3 st3 where 3: "wg_set_peer cfg ?reg ?st (argv ! 3) e a k = (r3, st3)" by fastforce
    have s3: "branch ok r3 \<Longrightarrow> staged_by cfg w ok (w\<lparr>wd_staged := st3\<rparr>)" for ok
      using 3 branch_status [of ok r3] set_peer_error [OF 3] staged_ok_set_peer [OF _ 3] set_peer_refused
      by (intro staged_byI) (auto split: if_splits)
    show ?thesis
      unfolding Inr opts by (auto simp: 3 Let_def outcome_if branch_def intro!: s3)
  qed
  show ?thesis
    unfolding wg_do_set_def Let_def 1 2 prod.case
    by (rule outcome_ifI, simp, rule outcome_ifI, rule key, rule outcome_ifI, simp, rule outcome_ifI, rule remove, rule peer [unfolded Let_def])
qed

lemma setconf_staged_ok:
  assumes "staged_ok cfg st" "wg_setconf cfg reg path st = (r, st')"
  shows "staged_ok cfg st'"
proof -
  have drop_ok: "staged_ok cfg s \<Longrightarrow> staged_ok cfg (s\<lparr>st_peers := []\<rparr>)" for s by (simp add: staged_ok_def)
  show ?thesis
    using assms by (auto simp: wg_setconf_def drop_ok Let_def split: if_splits sum.splits prod.splits
      dest!: conf_lines_staged_ok [where cfg = cfg, OF _ drop_ok] conf_flush_staged_ok [where cfg = cfg])
qed

lemma setconf_refused: "wg_setconf cfg True path st = (EBUSY, st)"
  by (simp add: wg_setconf_def)

lemma initialize_status: "wg_initialize X cfg sys st priv os = (r, priv', os') \<Longrightarrow> r = OK \<or> status_code r < 0"
  by (auto simp: wg_initialize_def Let_def split: if_splits option.splits prod.splits)

text \<open>Everything a command may change, by its name.\<close>

definition command_effect :: "kconfig \<Rightarrow> string list \<Rightarrow> wg_world \<Rightarrow> bool \<Rightarrow> wg_world \<Rightarrow> bool" where
  "command_effect cfg argv w ok w' \<longleftrightarrow> (let sub = subcommand argv in
     (staged_ok cfg (wd_staged w) \<longrightarrow> staged_ok cfg (wd_staged w'))
     \<and> (nd_registered (wd_priv w) \<or> sub \<noteq> ''set'' \<and> sub \<noteq> ''setconf'' \<or> sub = ''set'' \<and> \<not> ok \<longrightarrow> wd_staged w' = wd_staged w)
     \<and> (sub \<noteq> ''up'' \<and> sub \<noteq> ''down'' \<longrightarrow> wd_priv w' = wd_priv w)
     \<and> nd_registered (wd_priv w') = (if ok \<and> sub = ''up'' then True else if ok \<and> sub = ''down'' then False else nd_registered (wd_priv w))
     \<and> (\<forall>p. sub = ''saveconf'' \<and> p = config_path cfg argv \<or> wd_files w' p = wd_files w p)
     \<and> (sub \<noteq> ''up'' \<and> sub \<noteq> ''genkey'' \<longrightarrow> wd_os w' = wd_os w))"

lemma command_effect_same: "subcommand argv \<noteq> ''up'' \<Longrightarrow> subcommand argv \<noteq> ''down'' \<Longrightarrow> command_effect cfg argv w ok w"
  by (simp add: command_effect_def Let_def)

lemma set_effect: "subcommand argv = ''set'' \<Longrightarrow> staged_by cfg w ok w' \<Longrightarrow> command_effect cfg argv w ok w'"
  by (auto simp: command_effect_def staged_by_def Let_def)

lemma outcome_mono: "outcome res P \<Longrightarrow> (\<And>ok w'. P ok w' \<Longrightarrow> Q ok w') \<Longrightarrow> outcome res Q"
  by (auto simp: outcome_def)

lemma genkey_outcome: "subcommand argv = ''genkey'' \<Longrightarrow> outcome (cmd_genkey w) (command_effect cfg argv w)"
  by (auto simp: cmd_genkey_def Let_def command_effect_def split: prod.split sum.split)

lemma pubkey_outcome: "subcommand argv = ''pubkey'' \<Longrightarrow> outcome (cmd_pubkey X env argv w) (command_effect cfg argv w)"
  by (auto simp: cmd_pubkey_def Let_def command_effect_same outcome_if split: sum.split)

lemma showconf_outcome: "subcommand argv = ''showconf'' \<Longrightarrow> outcome (cmd_showconf cfg w) (command_effect cfg argv w)"
  by (auto simp: cmd_showconf_def Let_def command_effect_same split: prod.split)

lemma saveconf_outcome:
  assumes "subcommand argv = ''saveconf''"
  shows "outcome (cmd_saveconf cfg env argv w) (command_effect cfg argv w)"
proof -
  have "command_effect cfg argv w ok (w\<lparr>wd_files := (wd_files w)(config_path cfg argv \<mapsto> t)\<rparr>)" for ok t
    using assms by (simp add: command_effect_def Let_def)
  then show ?thesis
    using assms by (auto simp: cmd_saveconf_def Let_def command_effect_same outcome_if split: prod.split)
qed

lemma setconf_outcome:
  assumes "subcommand argv = ''setconf''"
  shows "outcome (cmd_setconf cfg env argv w) (command_effect cfg argv w)"
proof -
  obtain r st where run: "wg_setconf cfg (nd_registered (wd_priv w)) (read_file env w (config_path cfg argv)) (wd_staged w) = (r, st)"
    by fastforce
  have "command_effect cfg argv w ok (w\<lparr>wd_staged := st\<rparr>)" for ok
    using assms setconf_staged_ok [OF _ run] run setconf_refused by (auto simp: command_effect_def Let_def)
  then show ?thesis by (simp add: cmd_setconf_def run Let_def outcome_if)
qed

lemma down_outcome:
  assumes "subcommand argv = ''down''"
  shows "outcome (cmd_down cfg env w) (command_effect cfg argv w)"
proof -
  obtain r priv where run: "wg_down cfg (ev_stopped env) (wd_priv w) = (r, priv)" by fastforce
  have "command_effect cfg argv w (r = OK) (w\<lparr>wd_priv := priv\<rparr>) \<and> (r = OK \<or> r = ENODEV \<or> r = ETIMEDOUT)"
    using run assms by (auto simp: wg_down_def command_effect_def Let_def split: if_splits)
  then show ?thesis by (auto simp: cmd_down_def run Let_def)
qed

lemma up_outcome:
  assumes "subcommand argv = ''up''"
  shows "outcome (cmd_up X cfg env w) (command_effect cfg argv w)"
proof (cases "nd_registered (wd_priv w)")
  case True
  then show ?thesis using assms by (simp add: cmd_up_def wg_is_up_def command_effect_def)
next
  case False
  obtain r priv os where run: "wg_initialize X cfg (ev_sys env) (wd_staged w) (wd_priv w) (wd_os w) = (r, priv, os)" by (metis prod_cases3)
  have "command_effect cfg argv w (r = OK) (w\<lparr>wd_priv := priv, wd_os := os\<rparr>)"
    using assms initialize_OK(2) [of X cfg "ev_sys env" "wd_staged w" "wd_priv w" "wd_os w" priv os] initialize_error [OF run] run False
    by (auto simp: command_effect_def Let_def)
  then show ?thesis using initialize_status [OF run] False by (cases "r = OK") (auto simp: cmd_up_def wg_is_up_def run Let_def)
qed

lemma set_outcome: "subcommand argv = ''set'' \<Longrightarrow> outcome (wg_do_set cfg argv w) (command_effect cfg argv w)"
  by (rule outcome_mono [OF do_set_outcome set_effect])

lemma main_outcome: "outcome (main X cfg env argv w) (command_effect cfg argv w)"
  by (simp add: main_def Let_def subcommand_def [symmetric] outcome_if set_outcome genkey_outcome pubkey_outcome showconf_outcome
      saveconf_outcome setconf_outcome down_outcome up_outcome command_effect_same)

section \<open>What a command reports\<close>

text \<open>
  A failing call of the system sets \<open>errno\<close> to a positive number. The staging call that a \<open>set\<close> command
  makes, if its arguments have the form of one; and what each command reports and does.
\<close>

definition errno_positive :: "cli_env \<Rightarrow> bool" where
  "errno_positive env \<longleftrightarrow> (\<forall>p e. (ev_read_err env p = Some e \<longrightarrow> 0 < e) \<and> (ev_write_err env p = Some e \<longrightarrow> 0 < e)
     \<and> (ev_close_err env p = Some e \<longrightarrow> 0 < e))"

definition set_call :: "kconfig \<Rightarrow> string list \<Rightarrow> bool \<Rightarrow> wg_staged_s \<Rightarrow> (wg_status \<times> wg_staged_s) option" where
  "set_call cfg argv up st =
     (if length argv < 4 then None
      else if argv ! 2 = ''private-key'' then Some (wg_set_private_key up st (Some (argv ! 3)))
      else if argv ! 2 \<noteq> ''peer'' then None
      else if drop 4 argv = [''remove''] then Some (wg_remove_peer up st (argv ! 3))
      else case peer_options (drop 4 argv) None None (-1) of
             Inl _ \<Rightarrow> None
           | Inr (e, a, k) \<Rightarrow> Some (wg_set_peer cfg up st (argv ! 3) e a k))"

definition pubkey_source :: "cli_env \<Rightarrow> string list \<Rightarrow> string option" where
  "pubkey_source env argv =
     (if length argv \<ge> 3 then Some (argv ! 2)
      else map_option (\<lambda>(line, _). takeWhile (\<lambda>c. c \<noteq> CHR 0x0D \<and> c \<noteq> newline) line) (fgets 50 (ev_stdin env)))"

definition command_report ::
    "dh \<Rightarrow> kconfig \<Rightarrow> cli_env \<Rightarrow> string list \<Rightarrow> wg_world \<Rightarrow> bool \<Rightarrow> string \<Rightarrow> string \<Rightarrow> wg_world \<Rightarrow> bool" where
  "command_report X cfg env argv w ok out err w' \<longleftrightarrow>
     (let sub = subcommand argv; up = nd_registered (wd_priv w); st = wd_staged w; path = config_path cfg argv
      in if sub = ''show'' then ok \<and> out = wg_show cfg (wd_priv w) (wd_os w)
      else if sub = ''genkey''
      then ok \<and> (\<exists>s. out = println s \<and> wg_decode_key (Some s) 32
                   = Some (wireguard_clamp_private_key (fst (wireguard_random_bytes 32 (wd_os w)))))
      else if sub = ''pubkey''
      then (case wg_pubkey X (pubkey_source env argv) 48 of Inl _ \<Rightarrow> \<not> ok \<and> out = [] | Inr key \<Rightarrow> ok \<and> out = println key)
      else if sub = ''showconf''
      then (ok \<longleftrightarrow> effective_key cfg st \<noteq> []) \<and> out = snd (wg_writeconf cfg st)
      else if sub = ''saveconf''
      then (ok \<longleftrightarrow> effective_key cfg st \<noteq> [] \<and> ev_write_err env path = None \<and> ev_close_err env path = None)
        \<and> (if ok then wd_files w' path = Some (snd (wg_writeconf cfg st)) \<and> out = println (''saved to '' @ path) else out = [])
        \<and> (effective_key cfg st = [] \<and> ev_write_err env path = None \<longrightarrow> err = println ''wg: no private key configured'')
      else if sub = ''setconf''
      then (case wg_setconf cfg up (read_file env w path) st of (r, st') \<Rightarrow>
             (ok \<longleftrightarrow> r = OK) \<and> wd_staged w' = st' \<and> out = [] \<and> (up \<longrightarrow> err = is_up_first))
      else if sub = ''set''
      then out = [] \<and> (case set_call cfg argv up st of
             None \<Rightarrow> \<not> ok \<and> wd_staged w' = st
           | Some (r, st') \<Rightarrow> (ok \<longleftrightarrow> r = OK) \<and> wd_staged w' = st' \<and> (up \<longrightarrow> err = is_up_first))
      else if sub = ''down''
      then (ok \<longleftrightarrow> up \<and> (ev_stopped env \<or> nd_rxtask_done (wd_priv w)))
        \<and> wd_priv w' = snd (wg_down cfg (ev_stopped env) (wd_priv w))
        \<and> out = (if ok then println ''wg0 is down'' else [])
        \<and> (\<not> up \<longrightarrow> err = println ''wg: wg0 is not up'')
      else if sub = ''up''
      then (case wg_initialize X cfg (ev_sys env) st (wd_priv w) (wd_os w) of (r, priv, os) \<Rightarrow>
             (ok \<longleftrightarrow> r = OK) \<and> wd_priv w' = priv \<and> wd_os w' = os
             \<and> out = (if \<not> ok then [] else if up then println ''wg0 is already up''
                      else println (''wg0 is up (listen port '' @ show_nat (unat (cf_listen_port cfg)) @ '')''))
             \<and> (\<not> ok \<longrightarrow> err = println (''wg: failed to bring up wg0: '' @ show_int (status_code r))))
      else \<not> ok \<and> out = [])"

abbreviation reported :: "dh \<Rightarrow> kconfig \<Rightarrow> cli_env \<Rightarrow> string list \<Rightarrow> wg_world \<Rightarrow> cli_result \<Rightarrow> bool" where
  "reported X cfg env argv w res \<equiv> (case res of (status, out, err, w') \<Rightarrow> command_report X cfg env argv w (status = 0) out err w')"

lemma genkey_reported: "subcommand argv = ''genkey'' \<Longrightarrow> reported X cfg env argv w (cmd_genkey w)"
proof -
  assume sub: "subcommand argv = ''genkey''"
  obtain key os' where k: "wireguard_random_bytes 32 (wd_os w) = (key, os')" by fastforce
  have len: "length (wireguard_clamp_private_key key) = 32" using random_bytes_length [of 32 "wd_os w"] k by simp
  obtain s where s: "wireguard_base64_encode (wireguard_clamp_private_key key) 47 = Some s" using encode_key [OF len] by blast
  show ?thesis using decode_encode_key [OF len s] s
    by (auto simp: cmd_genkey_def wg_genkey_def k clamp_eq command_report_def sub Let_def)
qed

lemma pubkey_None: "wg_pubkey X None n = Inl EINVAL" "wg_pubkey X (Some []) n = Inl EINVAL"
proof -
  have "wg_decode_key (Some []) 32 = None" by (cases "wg_decode_key (Some []) 32") (auto dest: decode_key_length)
  then show "wg_pubkey X None n = Inl EINVAL" "wg_pubkey X (Some []) n = Inl EINVAL"
    by (simp_all add: wg_pubkey_def) (simp add: wg_decode_key_def)
qed

lemma pubkey_reported: "subcommand argv = ''pubkey'' \<Longrightarrow> reported X cfg env argv w (cmd_pubkey X env argv w)"
proof -
  assume sub: "subcommand argv = ''pubkey''"
  have src: "(if length argv \<ge> 3 then Some (argv ! 2)
      else case fgets (WG_KEY_STRLEN + 2) (ev_stdin env) of
        Some (priv, _) \<Rightarrow> Some (takeWhile (\<lambda>c. c \<noteq> CHR 0x0D \<and> c \<noteq> newline) priv) | None \<Rightarrow> None) = pubkey_source env argv"
    by (simp add: pubkey_source_def split: option.split)
  show ?thesis
    unfolding cmd_pubkey_def Let_def src command_report_def sub
    by (auto simp: pubkey_None split: sum.split)
qed

lemma showconf_reported: "subcommand argv = ''showconf'' \<Longrightarrow> reported X cfg env argv w (cmd_showconf cfg w)"
  by (auto simp: cmd_showconf_def wg_showconf_def wg_writeconf_def command_report_def effective_key_def Let_def)

lemma saveconf_reported:
  assumes sub: "subcommand argv = ''saveconf''" and e: "errno_positive env"
  shows "reported X cfg env argv w (cmd_saveconf cfg env argv w)"
proof -
  let ?p = "config_path cfg argv"
  have "0 < x" if "ev_write_err env ?p = Some x \<or> ev_close_err env ?p = Some x" for x
    using e that by (auto simp: errno_positive_def)
  moreover have "fst (wg_writeconf cfg (wd_staged w)) = (if effective_key cfg (wd_staged w) = [] then ENODATA else OK)"
    by (simp add: wg_writeconf_def effective_key_def Let_def)
  ultimately show ?thesis
    by (cases "wg_writeconf cfg (wd_staged w)")
      (auto simp: cmd_saveconf_def wg_saveconf_def command_report_def sub Let_def split: option.split)
qed

definition staging_status :: "wg_status \<Rightarrow> bool" where
  "staging_status r \<longleftrightarrow> r \<in> {OK, EINVAL, EBUSY, ENOSPC, ENOENT}"

lemma staging_status_simps [simp]:
  "staging_status OK" "staging_status EINVAL" "staging_status EBUSY" "staging_status ENOSPC" "staging_status ENOENT"
  by (simp_all add: staging_status_def)

lemma staging_statusD: "staging_status r \<Longrightarrow> r = OK \<or> status_code r < 0"
  by (auto simp: staging_status_def)

lemma staging_statuses:
  "staging_status (fst (wg_set_private_key reg st b64))" "staging_status (fst (wg_remove_peer reg st pk))"
  "staging_status (fst (wg_set_peer cfg reg st pk e a k))"
  by (auto simp: wg_set_private_key_def wg_remove_peer_def wg_set_peer_def Let_def split: option.split)

lemma conf_line_status: "staging_status (fst (wg_conf_line cfg reg line st acc))" "staging_status (fst (wg_conf_flush_peer cfg reg st acc))"
proof -
  have f: "staging_status (fst (wg_conf_flush_peer cfg reg st acc))" for st acc
    using staging_statuses(3) by (auto simp: wg_conf_flush_peer_def Let_def split_def)
  have d: "staging_status (fst (wg_conf_directive k v reg st acc))" for k v
    using staging_statuses(1) by (auto simp: wg_conf_directive_def Let_def split_def)
  show "staging_status (fst (wg_conf_line cfg reg line st acc))" "staging_status (fst (wg_conf_flush_peer cfg reg st acc))"
    using f d by (auto simp: wg_conf_line_def Let_def split: option.split)
qed

lemma conf_lines_status: "staging_status (fst (wg_conf_lines cfg reg t st acc))"
proof (induction cfg reg t st acc rule: wg_conf_lines.induct)
  case (1 cfg reg t st acc)
  then show ?case
    using conf_line_status(1)[of cfg reg "fst (the (fgets 128 t))" st acc]
    by (subst wg_conf_lines.simps) (auto split: option.split prod.split)
qed

lemma setconf_status:
  assumes "\<And>e. path = Inl e \<Longrightarrow> 0 < e"
  shows "fst (wg_setconf cfg reg path st) = OK \<or> status_code (fst (wg_setconf cfg reg path st)) < 0"
proof (cases path)
  case (Inl e)
  then show ?thesis using assms[OF Inl] by (simp add: wg_setconf_def)
next
  case (Inr t)
  obtain r st1 acc where l: "wg_conf_lines cfg False t (st\<lparr>st_peers := []\<rparr>) empty_acc = (r, st1, acc)" by (metis prod_cases3)
  have "fst (wg_setconf cfg reg path st) =
      (if reg then EBUSY else if r = OK then fst (wg_conf_flush_peer cfg False st1 acc) else r)"
    by (simp add: wg_setconf_def Inr l Let_def split: prod.split)
  moreover have "staging_status r" using conf_lines_status[of cfg False t "st\<lparr>st_peers := []\<rparr>" empty_acc] l by simp
  ultimately have "staging_status (fst (wg_setconf cfg reg path st))" using conf_line_status(2)[of cfg False st1 acc] by simp
  then show ?thesis by (rule staging_statusD)
qed

lemma read_file_errno: "errno_positive env \<Longrightarrow> read_file env w path = Inl e \<Longrightarrow> 0 < e"
  by (auto simp: read_file_def errno_positive_def split: option.splits)

lemma setconf_reported:
  assumes sub: "subcommand argv = ''setconf''" and e: "errno_positive env"
  shows "reported X cfg env argv w (cmd_setconf cfg env argv w)"
proof -
  obtain r st where run: "wg_setconf cfg (nd_registered (wd_priv w)) (read_file env w (config_path cfg argv)) (wd_staged w) = (r, st)"
    by (metis prod.collapse)
  then have st: "r = OK \<or> status_code r < 0" 
    using setconf_status[where path = "read_file env w (config_path cfg argv)" and cfg = cfg and reg = "nd_registered (wd_priv w)" and st = "wd_staged w"]
      read_file_errno[OF e] run by auto
  have up: "nd_registered (wd_priv w) \<longrightarrow> r = EBUSY" using run by (auto simp: wg_setconf_def)
  show ?thesis using st up by (auto simp: cmd_setconf_def run command_report_def sub Let_def)
qed

lemma down_reported:
  assumes sub: "subcommand argv = ''down''"
  shows "reported X cfg env argv w (cmd_down cfg env w)"
proof (cases "nd_registered (wd_priv w)")
  case True
  then show ?thesis
    by (cases "nd_rxtask_done (wd_priv w) \<or> ev_stopped env") (auto simp add: cmd_down_def wg_down_def command_report_def sub Let_def)
next
  case False
  then show ?thesis by (simp add: cmd_down_def wg_down_def command_report_def sub)
qed

lemma up_reported:
  assumes sub: "subcommand argv = ''up''"
  shows "reported X cfg env argv w (cmd_up X cfg env w)"
proof (cases "nd_registered (wd_priv w)")
  case True
  then show ?thesis by (simp add: cmd_up_def wg_is_up_def wg_initialize_def command_report_def sub)
next
  case False
  obtain r priv os where run: "wg_initialize X cfg (ev_sys env) (wd_staged w) (wd_priv w) (wd_os w) = (r, priv, os)" by (metis prod_cases3)
  from initialize_status[OF run] False run show ?thesis
    by (auto simp: cmd_up_def wg_is_up_def command_report_def sub Let_def)
qed

lemma remove_last: "length argv \<ge> 4 \<Longrightarrow> length argv = 5 \<and> argv ! 4 = s \<longleftrightarrow> drop 4 argv = [s]"
  by (auto simp: list_eq_iff_nth_eq)

lemma set_reported:
  assumes sub: "subcommand argv = ''set''"
  shows "reported X cfg env argv w (wg_do_set cfg argv w)"
proof -
  let ?up = "nd_registered (wd_priv w)" and ?st = "wd_staged w"
  have up: "?up \<Longrightarrow> set_call cfg argv ?up ?st = Some (r, st) \<Longrightarrow> r = EBUSY" for r st
    by (auto simp: set_call_def set_private_key_refused remove_peer_refused set_peer_refused split: if_splits sum.splits)
  have same: "w\<lparr>wd_staged := ?st\<rparr> = w" by simp
  show ?thesis
  proof (cases "set_call cfg argv ?up ?st")
    case None
    then show ?thesis
      by (auto simp: set_call_def wg_do_set_def remove_last command_report_def sub Let_def split: if_splits sum.splits prod.splits)
  next
    case (Some rs)
    obtain r st where rs: "rs = (r, st)" by fastforce
    have r: "r = OK \<or> status_code r < 0"
      using Some rs staging_statuses by (intro staging_statusD) (auto simp: set_call_def split: if_splits sum.splits; metis fst_conv)
    have rem: "wg_remove_peer ?up ?st (argv ! 3) = (r, st) \<Longrightarrow> r \<in> {OK, EBUSY, ENOENT}"
      by (auto simp: wg_remove_peer_def split: if_splits option.splits)
    show ?thesis
      using Some rs up r rem
      by (auto simp: set_call_def wg_do_set_def remove_last command_report_def sub Let_def split: if_splits sum.splits prod.splits)
  qed
qed

lemma main_reported:
  assumes "errno_positive env"
  shows "reported X cfg env argv w (main X cfg env argv w)"
proof -
  consider "subcommand argv = ''show''" | "subcommand argv \<in> {''genkey'', ''pubkey'', ''showconf'', ''saveconf'', ''setconf'', ''set'', ''down'', ''up''}"
    | "subcommand argv \<notin> {''show'', ''genkey'', ''pubkey'', ''showconf'', ''saveconf'', ''setconf'', ''set'', ''down'', ''up''}"
    by blast
  then show ?thesis
  proof cases
    case 2
    then show ?thesis
      unfolding main_def Let_def subcommand_def [symmetric]
      by (elim insertE emptyE)
        (simp_all add: genkey_reported pubkey_reported showconf_reported saveconf_reported setconf_reported set_reported
          down_reported up_reported assms)
  qed (simp_all add: main_def subcommand_def [symmetric] command_report_def)
qed

text \<open>
  C31. What a command reports is what happened. The command line tool exits with 0 and an empty
  standard error or with 1 and a message. The status and the output are those of the call the command makes: \<open>set\<close>
  and \<open>setconf\<close> succeed exactly when the staging call does, and what they staged is its result; \<open>genkey\<close>
  prints the clamped key it drew; \<open>pubkey\<close> the public key, or nothing; \<open>showconf\<close> fails exactly when no key is in force;
  \<open>saveconf\<close> succeeds exactly when a key is in force and the file could be written and closed, says that it was
  saved only then, and then the file holds the configuration; \<open>down\<close> succeeds exactly when the interface
  was up and the receive task stopped; \<open>up\<close> exactly when the initialization did, and shows its error otherwise.
  Only \<open>set\<close> and \<open>setconf\<close> change the staged
  configuration, never while the interface is up, \<open>set\<close> only when it succeeds, and they keep it
  well-formed; only \<open>up\<close> and \<open>down\<close> touch the device, and the interface is up after a command if
  and only if that was a successful \<open>up\<close>, or it was up before and the command was no successful
  \<open>down\<close>; only \<open>saveconf\<close> changes a file, the one it names; only \<open>genkey\<close> and \<open>up\<close> use the
  operating system's random numbers. The hypothesis is that a failing call of the system sets \<open>errno\<close> to a positive number.
\<close>

theorem command_contract:
  assumes "errno_positive env"
  shows "case main X cfg env argv w of (status, out, err, w') \<Rightarrow>
     let ok = (status = 0); sub = subcommand argv
     in (if ok then err = [] else status = 1 \<and> err \<noteq> [])
      \<and> command_report X cfg env argv w ok out err w'
      \<and> (staged_ok cfg (wd_staged w) \<longrightarrow> staged_ok cfg (wd_staged w'))
      \<and> (nd_registered (wd_priv w) \<or> sub \<noteq> ''set'' \<and> sub \<noteq> ''setconf'' \<or> sub = ''set'' \<and> \<not> ok \<longrightarrow> wd_staged w' = wd_staged w)
      \<and> (sub \<noteq> ''up'' \<and> sub \<noteq> ''down'' \<longrightarrow> wd_priv w' = wd_priv w)
      \<and> nd_registered (wd_priv w') = (if ok \<and> sub = ''up'' then True else if ok \<and> sub = ''down'' then False else nd_registered (wd_priv w))
      \<and> (\<forall>p. sub = ''saveconf'' \<and> p = config_path cfg argv \<or> wd_files w' p = wd_files w p)
      \<and> (sub \<noteq> ''up'' \<and> sub \<noteq> ''genkey'' \<longrightarrow> wd_os w' = wd_os w)"
proof (cases "main X cfg env argv w")
  case (fields status out err w')
  have o: "status = 0 \<and> err = [] \<or> status = 1 \<and> err \<noteq> []" and e: "command_effect cfg argv w (status = 0) w'"
    using main_outcome [of X cfg env argv w] unfolding fields outcome_def by simp_all
  have "if status = 0 then err = [] else status = 1 \<and> err \<noteq> []" using o by auto
  moreover have "command_report X cfg env argv w (status = 0) out err w'"
    using main_reported [OF assms, where X = X and cfg = cfg and argv = argv and w = w] unfolding fields by simp
  ultimately show ?thesis
    unfolding fields prod.case Let_def by (intro conjI) (use e [unfolded command_effect_def Let_def] in blast)+
qed

definition sample_world :: wg_world where
  "sample_world = \<lparr>wd_staged = \<lparr>st_private_key = [], st_peers = []\<rparr>, wd_priv = zero_netdev sample_config,
     wd_os = sample_os 7, wd_files = (\<lambda>_. None)\<rparr>"

definition sample_env :: cli_env where
  "sample_env = \<lparr>ev_sys = sample_sys, ev_stopped = True, ev_stdin = [], ev_read_err = (\<lambda>_. None),
     ev_write_err = (\<lambda>_. None), ev_close_err = (\<lambda>_. None)\<rparr>"

definition sample_argv :: "string list" where
  "sample_argv = [''wg'', ''set'', ''peer'', sample_key, ''endpoint'', ''192.0.2.1:51820'', ''allowed-ips'', ''0.0.0.0/0'',
     ''persistent-keepalive'', ''25'']"

theorem command_contract_witness:
  "\<exists>w'. main toy_dh sample_config sample_env sample_argv sample_world = (0, [], [], w')
     \<and> staged_ok sample_config (wd_staged w') \<and> \<not> nd_registered (wd_priv w')"
proof -
  have k: "atoi ''25'' = 25" by (simp add: text_eval)
  obtain st where "wg_set_peer sample_config False \<lparr>st_private_key = [], st_peers = []\<rparr>
      sample_key (Some ''192.0.2.1:51820'') (Some ''0.0.0.0/0'') 25 = (OK, st)" using sample_set_peer by (metis prod.collapse)
  then have run: "main toy_dh sample_config sample_env sample_argv sample_world = (0, [], [], sample_world\<lparr>wd_staged := st\<rparr>)"
    by (simp add: main_def wg_do_set_def sample_argv_def sample_world_def k)
  moreover have "errno_positive sample_env" by (simp add: errno_positive_def sample_env_def)
  moreover have "staged_ok sample_config (wd_staged sample_world)" by (simp add: sample_world_def staged_ok_def)
  ultimately show ?thesis
    using command_contract [where X = toy_dh and cfg = sample_config and env = sample_env and argv = sample_argv and w = sample_world]
    by (simp add: Let_def subcommand_def sample_argv_def) (simp add: sample_world_def)
qed

section \<open>Keys without entropy\<close>

lemma random_bytes_fail: "urandom os (urandom_pos os) = IO_fail \<Longrightarrow> fst (wireguard_random_bytes n os) = zeroes n"
  by (simp add: wireguard_random_bytes_def urandom_next_def)

text \<open>
  C36. Without an entropy source \<open>wg genkey\<close> still succeeds: when \<open>/dev/urandom\<close> cannot be opened it
  exits with 0 and prints the same private key on every device, the clamped key of 32 zero bytes.
\<close>

theorem genkey_without_entropy:
  assumes "urandom (wd_os w) (urandom_pos (wd_os w)) = IO_fail" "subcommand argv = ''genkey''"
  shows "\<exists>s w'. main X cfg env argv w = (0, println s, [], w')
    \<and> wg_decode_key (Some s) 32 = Some (wireguard_clamp_private_key (zeroes 32))"
proof -
  let ?key = "wireguard_clamp_private_key (zeroes 32)"
  have len: "length ?key = 32" by simp
  obtain s where s: "wireguard_base64_encode ?key 47 = Some s" using encode_key [OF len] by blast
  obtain os' where r: "wireguard_random_bytes 32 (wd_os w) = (zeroes 32, os')"
    using random_bytes_fail [OF assms(1), of 32] by (metis prod.collapse)
  have "cmd_genkey w = (0, println s, [], w\<lparr>wd_os := os'\<rparr>)"
    by (simp add: cmd_genkey_def wg_genkey_def r clamp_eq s)
  moreover have "main X cfg env argv w = cmd_genkey w"
    using assms(2) by (simp add: main_def subcommand_def [symmetric])
  ultimately show ?thesis using decode_encode_key [OF len s] by auto
qed

theorem genkey_without_entropy_witness:
  "\<exists>s w'. main toy_dh sample_config sample_env [''wg'', ''genkey''] (sample_world\<lparr>wd_os := (sample_os 7)\<lparr>urandom := (\<lambda>_. IO_fail)\<rparr>\<rparr>)
     = (0, println s, [], w') \<and> wg_decode_key (Some s) 32 = Some (wireguard_clamp_private_key (zeroes 32))"
  by (rule genkey_without_entropy) (simp_all add: subcommand_def)

end
