(* ===== verification/X25519.thy ===== *)
theory X25519
  imports Crypto_Util
begin

text \<open>
  The X25519 function \<open>crypto/refc/x25519.c\<close>, as it is built: 32-bit limbs, no signatures, copied
  parameters, the inversion by a chain of powers. A field element is the list of its eight limbs,
  least significant first. In-place operations return the new value.
\<close>

section \<open>Limbs\<close>

type_synonym fe = "u32 list"

definition umaal :: "u32 \<Rightarrow> u32 \<Rightarrow> u32 \<Rightarrow> u32 \<Rightarrow> u32 \<times> u32" where
  "umaal carry acc mand mier =
     (let tmp = (ucast mand :: u64) * ucast mier + ucast acc + ucast carry in (ucast tmp, ucast (drop_bit 32 tmp)))"

definition adc :: "u32 \<Rightarrow> u32 \<Rightarrow> u32 \<Rightarrow> u32 \<times> u32" where
  "adc carry acc mand =
     (let total = (ucast carry :: u64) + ucast acc + ucast mand in (ucast total, ucast (drop_bit 32 total)))"

definition adc0 :: "u32 \<Rightarrow> u32 \<Rightarrow> u32 \<times> u32" where
  "adc0 carry acc = (let total = (ucast carry :: u64) + ucast acc in (ucast total, ucast (drop_bit 32 total)))"

text \<open>The loops over the limbs, with the carry that is left at the end.\<close>

fun adc0_loop :: "u32 \<Rightarrow> fe \<Rightarrow> fe \<times> u32" where
  "adc0_loop carry [] = ([], carry)"
| "adc0_loop carry (x # xs) =
     (let (y, carry) = adc0 carry x; (ys, carry) = adc0_loop carry xs in (y # ys, carry))"

fun adc_loop :: "u32 \<Rightarrow> fe \<Rightarrow> fe \<Rightarrow> fe \<times> u32" where
  "adc_loop carry (x # xs) (y # ys) =
     (let (z, carry) = adc carry x y; (zs, carry) = adc_loop carry xs ys in (z # zs, carry))"
| "adc_loop carry _ _ = ([], carry)"

text \<open>
  A \<open>sdlimb_t\<close> is an \<open>int\<close>: the values stay within 34 bits of the 64. Its shift rounds down, and
  storing it in a limb keeps the low 32 bits.
\<close>

fun sub_loop :: "int \<Rightarrow> fe \<Rightarrow> fe \<Rightarrow> fe \<times> int" where
  "sub_loop carry (x # xs) (y # ys) =
     (let carry = carry + uint x - uint y; (zs, c) = sub_loop (carry div 2 ^ 32) xs ys in (word_of_int carry # zs, c))"
| "sub_loop carry _ _ = ([], carry)"

fun umaal_loop :: "u32 \<Rightarrow> u32 \<Rightarrow> fe \<Rightarrow> fe \<Rightarrow> fe \<times> u32" where
  "umaal_loop carry mand (x # xs) (y # ys) =
     (let (z, carry) = umaal carry x mand y; (zs, carry) = umaal_loop carry mand xs ys in (z # zs, carry))"
| "umaal_loop carry mand _ _ = ([], carry)"

section \<open>Field elements\<close>

definition propagate :: "fe \<Rightarrow> u32 \<Rightarrow> fe" where
  "propagate x over =
     (let over = drop_bit 31 (x ! 7) OR push_bit 1 over;
          x = x[7 := x ! 7 AND NOT (push_bit 31 1)]
      in fst (adc0_loop (over * 19) x))"

definition fe_add :: "fe \<Rightarrow> fe \<Rightarrow> fe" where
  "fe_add a b = (let (out, carry) = adc_loop 0 a b in propagate out carry)"

definition fe_sub :: "fe \<Rightarrow> fe \<Rightarrow> fe" where
  "fe_sub a b = (let (out, carry) = sub_loop (- 38) a b in propagate out (word_of_int (1 + carry)))"

text \<open>Row \<open>i\<close> of the product: limbs \<open>i\<close> to \<open>i + 7\<close> are updated, limb \<open>i + 8\<close> is the carry.\<close>

definition mul_row :: "fe \<Rightarrow> fe \<Rightarrow> nat \<Rightarrow> u32 list \<Rightarrow> u32 list" where
  "mul_row a b i accum =
     (let (row, carry2) = umaal_loop 0 (b ! i) (take 8 (drop i accum)) a
      in take i accum @ row @ [carry2] @ drop (i + 9) accum)"

definition fe_mul :: "fe \<Rightarrow> fe \<Rightarrow> nat \<Rightarrow> fe" where
  "fe_mul a b nb =
     (let accum = fold (mul_row a b) [0..<nb] (replicate 16 0);
          (out, carry2) = umaal_loop 0 38 (take 8 accum) (drop 8 accum)
      in propagate out carry2)"

definition fe_sqr :: "fe \<Rightarrow> fe" where
  "fe_sqr a = fe_mul a a 8"

text \<open>\<open>mul1(out, a)\<close>: the new value of \<open>out\<close>.\<close>

definition mul1 :: "fe \<Rightarrow> fe \<Rightarrow> fe" where
  "mul1 out a = fe_mul a out 8"

definition sqr1 :: "fe \<Rightarrow> fe" where
  "sqr1 a = mul1 a a"

definition condswap :: "u32 list \<Rightarrow> u32 list \<Rightarrow> u32 \<Rightarrow> u32 list \<times> u32 list" where
  "condswap a b doswap =
     (map2 (\<lambda>x y. x XOR ((x XOR y) AND doswap)) a b, map2 (\<lambda>x y. y XOR ((x XOR y) AND doswap)) a b)"

fun canon_loop :: "int \<Rightarrow> u32 \<Rightarrow> fe \<Rightarrow> fe \<times> u32" where
  "canon_loop carry res [] = ([], res)"
| "canon_loop carry res (x # xs) =
     (let carry = carry + uint x; y = word_of_int carry; (ys, res) = canon_loop (carry div 2 ^ 32) (res OR y) xs
      in (y # ys, res))"

definition canon :: "fe \<Rightarrow> u32 \<times> fe" where
  "canon x =
     (let (x, carry0) = adc0_loop 19 x;
          x = propagate x carry0;
          (x, res) = canon_loop (- 19) 0 x
      in (ucast (drop_bit 32 ((ucast res :: u64) - 1)), x))"

section \<open>The Montgomery ladder\<close>

text \<open>The five field elements \<open>x2, z2, x3, z3, t1\<close> are a list, as \<open>xs\<close> is an array.\<close>

definition ladder_part1 :: "fe list \<Rightarrow> fe list" where
  "ladder_part1 xs =
     (let xs = xs[4 := fe_add (xs ! 0) (xs ! 1)];
          xs = xs[1 := fe_sub (xs ! 0) (xs ! 1)];
          xs = xs[0 := fe_add (xs ! 2) (xs ! 3)];
          xs = xs[3 := fe_sub (xs ! 2) (xs ! 3)];
          xs = xs[3 := mul1 (xs ! 3) (xs ! 4)];
          xs = xs[0 := mul1 (xs ! 0) (xs ! 1)];
          xs = xs[2 := fe_add (xs ! 3) (xs ! 0)];
          xs = xs[3 := fe_sub (xs ! 3) (xs ! 0)];
          xs = xs[4 := sqr1 (xs ! 4)];
          xs = xs[1 := sqr1 (xs ! 1)];
          xs = xs[0 := fe_sub (xs ! 4) (xs ! 1)];
          xs = xs[1 := fe_mul (xs ! 0) [121665] 1]
      in xs[1 := fe_add (xs ! 1) (xs ! 4)])"

definition ladder_part2 :: "fe list \<Rightarrow> fe \<Rightarrow> fe list" where
  "ladder_part2 xs x1 =
     (let xs = xs[3 := sqr1 (xs ! 3)];
          xs = xs[3 := mul1 (xs ! 3) x1];
          xs = xs[2 := sqr1 (xs ! 2)];
          xs = xs[1 := mul1 (xs ! 1) (xs ! 0)];
          xs = xs[0 := fe_sub (xs ! 4) (xs ! 0)]
      in xs[0 := mul1 (xs ! 0) (xs ! 4)])"

text \<open>\<open>condswap\<close> of \<open>x2, z2\<close> with \<open>x3, z3\<close>, which lie next to each other in \<open>xs\<close>.\<close>

definition swap_points :: "fe list \<Rightarrow> u32 \<Rightarrow> fe list" where
  "swap_points xs doswap =
     (let (a, b) = condswap (xs ! 0 @ xs ! 1) (xs ! 2 @ xs ! 3) doswap
      in [take 8 a, drop 8 a, take 8 b, drop 8 b, xs ! 4])"

definition scalar_byte :: "bytes \<Rightarrow> bool \<Rightarrow> nat \<Rightarrow> byte" where
  "scalar_byte scalar clamp i =
     (let bytei = scalar ! (i div 8)
      in if clamp then
           if i div 8 = 0 then bytei AND NOT 7
           else if i div 8 = 32 - 1 then bytei AND 0x7F OR 0x40
           else bytei
         else bytei)"

definition core_step :: "bytes \<Rightarrow> fe \<Rightarrow> bool \<Rightarrow> nat \<Rightarrow> fe list \<times> u32 \<Rightarrow> fe list \<times> u32" where
  "core_step scalar x1 clamp i st =
     (let (xs, swap) = st;
          bytei = scalar_byte scalar clamp i;
          doswap = - (ucast (drop_bit (i mod 8) bytei AND 1) :: u32);
          xs = swap_points xs (swap XOR doswap);
          xs = ladder_part1 xs
      in (ladder_part2 xs x1, doswap))"

text \<open>The bytes of a field element, in the little-endian order of the host.\<close>

definition swapin :: "bytes \<Rightarrow> fe" where
  "swapin b = map (\<lambda>i. U8TO32_LITTLE (bytes_at (4 * i) 4 b)) [0..<8]"

definition swapout :: "fe \<Rightarrow> bytes" where
  "swapout x = concat (map U32TO8_LITTLE x)"

definition fe_one :: fe where
  "fe_one = 1 # replicate 7 0"

definition x25519_core :: "bytes \<Rightarrow> bytes \<Rightarrow> bool \<Rightarrow> fe list" where
  "x25519_core scalar x1 clamp =
     (let x1 = swapin x1;
          xs = [fe_one, replicate 8 0, x1, fe_one, replicate 8 0];
          (xs, swap) = fold (core_step scalar x1 clamp) (rev [0..<256]) (xs, 0)
      in swap_points xs swap)"

section \<open>The inversion chain\<close>

definition steps :: "(nat \<times> nat \<times> nat) list" where
  "steps = [(2, 1, 1), (2, 1, 1), (4, 2, 3), (2, 4, 6), (3, 1, 1), (3, 2, 12), (4, 3, 25),
     (2, 3, 25), (2, 4, 50), (3, 2, 125), (3, 1, 2), (3, 1, 2), (3, 1, 1)]"

fun sqr_times :: "nat \<Rightarrow> nat \<Rightarrow> fe list \<times> nat \<Rightarrow> fe list \<times> nat" where
  "sqr_times 0 a st = st"
| "sqr_times (Suc j) a (xs, prev) = sqr_times j a (xs[a := fe_sqr (xs ! prev)], a)"

definition chain_step :: "nat \<times> nat \<times> nat \<Rightarrow> fe list \<times> nat \<Rightarrow> fe list \<times> nat" where
  "chain_step step st =
     (let (a, c, n) = step; (xs, prev) = sqr_times n a st in (xs[a := mul1 (xs ! a) (xs ! c)], prev))"

definition x25519 :: "bytes \<Rightarrow> bytes \<Rightarrow> bool \<Rightarrow> int \<times> bytes" where
  "x25519 scalar x1 clamp =
     (let xs = x25519_core scalar x1 clamp;
          (xs, prev) = fold chain_step steps (xs, 1);
          xs = xs[0 := mul1 (xs ! 0) (xs ! 3)];
          (ret, x2) = canon (xs ! 0);
          out = swapout x2
      in (if clamp then sint ret else 0, out))"

definition X25519_BASE_POINT :: bytes where
  "X25519_BASE_POINT = 9 # replicate 31 0"

end
