(* ===== verification/X25519_Field.thy ===== *)
theory X25519_Field
  imports X25519 Limbs
begin

text \<open>
  The field operations of \<open>x25519.c\<close> against integers modulo \<open>2^255 - 19\<close>: every carry fits, the
  values stay below \<open>2^255 + 2^32\<close>, and \<open>canon\<close> returns the least residue.
\<close>

section \<open>Steps of the carry\<close>

lemma umaal:
  assumes "umaal c x m y = (z, c')"
  shows "uint z + 2 ^ 32 * uint c' = uint x + uint m * uint y + uint c"
proof -
  let ?m = "(ucast m :: u64) * ucast y"
  have b: "uint m * uint y \<le> (2 ^ 32 - 1) * (2 ^ 32 - 1)"
    using uint_32 [of m] uint_32 [of y] by (intro mult_mono) auto
  then have 1: "uint ?m = uint m * uint y"
    by (simp add: uint_word_ariths(3) mod_pos_pos_trivial)
  have 2: "uint (?m + ucast x) = uint m * uint y + uint x"
    using b uint_32 [of x] uint_plus [of ?m "ucast x"] unfolding 1 by simp
  have 3: "uint (?m + ucast x + ucast c) = uint m * uint y + uint x + uint c"
    using b uint_32 [of x] uint_32 [of c] uint_plus [of "?m + ucast x" "ucast c"] unfolding 2 by simp
  show ?thesis using assms split_64 [of "?m + ucast x + ucast c"] unfolding 3 by (auto simp: umaal_def Let_def)
qed

lemma adc0:
  assumes "adc0 c x = (z, c')"
  shows "uint z + 2 ^ 32 * uint c' = uint x + uint c"
proof -
  have 1: "uint ((ucast c :: u64) + ucast x) = uint c + uint x"
    using uint_32 [of c] uint_32 [of x] by (simp add: uint_plus)
  show ?thesis using assms split_64 [of "(ucast c :: u64) + ucast x"] unfolding 1 by (auto simp: adc0_def Let_def)
qed

lemma adc:
  assumes "adc c x y = (z, c')"
  shows "uint z + 2 ^ 32 * uint c' = uint x + uint y + uint c"
proof -
  have 1: "uint ((ucast c :: u64) + ucast x) = uint c + uint x"
    using uint_32 [of c] uint_32 [of x] by (simp add: uint_plus)
  have 2: "uint ((ucast c :: u64) + ucast x + ucast y) = uint c + uint x + uint y"
    using uint_32 [of c] uint_32 [of x] uint_32 [of y] by (simp add: uint_plus 1)
  show ?thesis using assms split_64 [of "(ucast c :: u64) + ucast x + ucast y"] unfolding 2 by (auto simp: adc_def Let_def)
qed

section \<open>The loops over the limbs\<close>

lemma adc0_loop:
  "adc0_loop c xs = (ys, c') \<Longrightarrow> length ys = length xs \<and> limbs_val ys + 2 ^ (32 * length xs) * uint c' = limbs_val xs + uint c"
proof (induction xs arbitrary: c ys)
  case (Cons x xs)
  obtain y c1 ys1 where s: "adc0 c x = (y, c1)" "adc0_loop c1 xs = (ys1, c')" "ys = y # ys1"
    using Cons.prems by (auto simp: Let_def split: prod.splits)
  show ?case using adc0 [OF s(1)] Cons.IH [OF s(2)] s(3) by (simp add: power_add algebra_simps)
qed simp

lemma adc_loop:
  "length xs = length ys \<Longrightarrow> adc_loop c xs ys = (zs, c') \<Longrightarrow>
   length zs = length xs \<and> limbs_val zs + 2 ^ (32 * length xs) * uint c' = limbs_val xs + limbs_val ys + uint c"
proof (induction xs ys arbitrary: c zs rule: list_induct2)
  case (Cons x xs y ys)
  obtain z c1 zs1 where s: "adc c x y = (z, c1)" "adc_loop c1 xs ys = (zs1, c')" "zs = z # zs1"
    using Cons.prems by (auto simp: Let_def split: prod.splits)
  show ?case using adc [OF s(1)] Cons.IH [OF s(2)] s(3) by (simp add: power_add algebra_simps)
qed simp

lemma umaal_loop:
  "length xs = length ys \<Longrightarrow> umaal_loop c m xs ys = (zs, c') \<Longrightarrow>
   length zs = length xs \<and> limbs_val zs + 2 ^ (32 * length xs) * uint c' = limbs_val xs + uint m * limbs_val ys + uint c"
proof (induction xs ys arbitrary: c zs rule: list_induct2)
  case (Cons x xs y ys)
  obtain z c1 zs1 where s: "umaal c x m y = (z, c1)" "umaal_loop c1 m xs ys = (zs1, c')" "zs = z # zs1"
    using Cons.prems by (auto simp: Let_def split: prod.splits)
  show ?case using umaal [OF s(1)] Cons.IH [OF s(2)] s(3) by (simp add: power_add algebra_simps)
qed simp

lemma uint_of_int: "uint (word_of_int k :: u32) = k mod 2 ^ 32"
  by (simp add: uint_word_of_int)

lemma sub_loop:
  "length xs = length ys \<Longrightarrow> sub_loop c xs ys = (zs, c') \<Longrightarrow>
   length zs = length xs \<and> limbs_val zs + 2 ^ (32 * length xs) * c' = limbs_val xs - limbs_val ys + c"
proof (induction xs ys arbitrary: c zs rule: list_induct2)
  case (Cons x xs y ys)
  let ?c = "c + uint x - uint y"
  obtain zs1 where s: "sub_loop (?c div 2 ^ 32) xs ys = (zs1, c')" "zs = word_of_int ?c # zs1"
    using Cons.prems by (auto simp: Let_def split: prod.splits)
  define q r where "q = ?c div 2 ^ 32" and "r = ?c mod 2 ^ 32"
  have c: "r + 2 ^ 32 * q = ?c" by (simp add: q_def r_def)
  have "length zs1 = length xs \<and> limbs_val zs1 + 2 ^ (32 * length xs) * c' = limbs_val xs - limbs_val ys + q"
    using Cons.IH [OF s(1)] by (simp add: q_def)
  then have IH: "length zs1 = length xs" "limbs_val zs1 = limbs_val xs - limbs_val ys + q - 2 ^ (32 * length xs) * c'" by simp_all
  have "limbs_val zs = r + 2 ^ 32 * limbs_val zs1" by (simp only: s(2) limbs_val.simps uint_of_int r_def)
  then show ?case using c IH(1) s(2) unfolding IH(2) by (simp add: power_add algebra_simps)
qed simp

section \<open>Arithmetic modulo the prime\<close>

definition p25519 :: int where
  "p25519 = 2 ^ 255 - 19"

definition fe_small :: "fe \<Rightarrow> bool" where
  "fe_small x \<longleftrightarrow> length x = 8 \<and> limbs_val x < 2 ^ 255 + 2 ^ 32"

text \<open>\<open>x\<close> has eight limbs and stands for the residue class of \<open>n\<close>.\<close>

definition stands_for :: "fe \<Rightarrow> int \<Rightarrow> bool" where
  "stands_for x n \<longleftrightarrow> length x = 8 \<and> limbs_val x mod p25519 = n mod p25519"

lemma top_limb:
  assumes "length x = 8"
  shows "limbs_val x = limbs_val (take 7 x) + 2 ^ 224 * uint (x ! 7)" "0 \<le> limbs_val (take 7 x)" "limbs_val (take 7 x) < 2 ^ 224"
    "limbs_val (x[7 := w]) = limbs_val (take 7 x) + 2 ^ 224 * uint w"
proof -
  have "x = take 7 x @ [x ! 7]" "x[7 := w] = take 7 x @ [w]"
    using assms take_Suc_conv_app_nth [of 7 x] by (simp_all add: upd_conv_take_nth_drop)
  then show "limbs_val x = limbs_val (take 7 x) + 2 ^ 224 * uint (x ! 7)" "limbs_val (x[7 := w]) = limbs_val (take 7 x) + 2 ^ 224 * uint w"
    using assms limbs_val_append [of "take 7 x" "[x ! 7]"] limbs_val_append [of "take 7 x" "[w]"] by simp_all
  show "0 \<le> limbs_val (take 7 x)" "limbs_val (take 7 x) < 2 ^ 224"
    using limbs_val_bounds [of "take 7 x"] assms by simp_all
qed

lemma clear_top_bit: "uint (w AND NOT (push_bit 31 1) :: u32) = uint w mod 2 ^ 31"
proof -
  have "w AND NOT (push_bit 31 1) = take_bit 31 w"
    by (rule bit_word_eqI) (simp only: bit_and_iff bit_not_iff bit_push_bit_iff bit_take_bit_iff bit_1_iff, auto)
  then show ?thesis by (simp add: unsigned_take_bit_eq) (simp add: take_bit_eq_mod)
qed

lemma propagate_over:
  assumes "uint over < 2 ^ 26"
  shows "uint ((drop_bit 31 w OR push_bit 1 over) * 19 :: u32) = 19 * (2 * uint over + uint w div 2 ^ 31)"
proof -
  have lt: "drop_bit 31 w < (2 :: u32)"
    unfolding word_less_def uint_drop using uint_32 [of w] by simp
  have "drop_bit 31 w OR push_bit 1 over = drop_bit 31 w + push_bit 1 over"
    by (rule disjunctive_add_eq_or [symmetric]) (rule bit_word_eqI, simp only: bit_and_iff bit_push_bit_iff bit_drop_bit_eq bit_0_eq, auto dest: bit_imp_le_length)
  moreover have "uint (push_bit 1 over) = 2 * uint over"
    using assms by (simp add: push_bit_eq_mult uint_word_ariths(3) mod_pos_pos_trivial)
  moreover have "uint (drop_bit 31 w) = uint w div 2 ^ 31" by (rule uint_drop)
  moreover have "0 \<le> uint w div 2 ^ 31" "uint w div 2 ^ 31 < 2" using uint_32 [of w] by (simp_all add: pos_imp_zdiv_nonneg_iff)
  ultimately show ?thesis using assms
    by (simp add: uint_word_ariths(1,3) mod_pos_pos_trivial)
qed

lemma propagate_val:
  assumes "length x = 8" "uint over < 2 ^ 26"
  shows "length (propagate x over) = 8"
    "limbs_val (propagate x over) = limbs_val x mod 2 ^ 255 + 19 * (2 * uint over + limbs_val x div 2 ^ 255)"
    "limbs_val x div 2 ^ 255 = 0 \<or> limbs_val x div 2 ^ 255 = 1"
proof -
  let ?x = "x[7 := x ! 7 AND NOT (push_bit 31 1)]" and ?o = "(drop_bit 31 (x ! 7) OR push_bit 1 over) * 19"
  obtain ys c where l: "adc0_loop ?o ?x = (ys, c)" by fastforce
  have p: "propagate x over = ys" unfolding propagate_def Let_def l by simp
  note t = top_limb [OF assms(1)]
  define L H where "L = limbs_val (take 7 x)" and "H = uint (x ! 7)"
  have v: "limbs_val x = L + 2 ^ 224 * H" "0 \<le> L" "L < 2 ^ 224" using t(1-3) by (simp_all add: L_def H_def)
  have H: "0 \<le> H" "H < 2 ^ 32" using uint_32 [of "x ! 7"] by (simp_all add: H_def)
  define h1 h2 where "h1 = H div 2 ^ 31" and "h2 = H mod 2 ^ 31"
  have h: "H = 2 ^ 31 * h1 + h2" "0 \<le> h2" "h2 < 2 ^ 31" "h1 = 0 \<or> h1 = 1"
    using H by (auto simp: h1_def h2_def)
  have d: "limbs_val x = 2 ^ 255 * h1 + (L + 2 ^ 224 * h2)" using v(1) h(1) by simp
  have r: "0 \<le> L + 2 ^ 224 * h2" "L + 2 ^ 224 * h2 < 2 ^ 255" using v(2,3) h(2,3) by simp_all
  have dm: "limbs_val x div 2 ^ 255 = h1" "limbs_val x mod 2 ^ 255 = L + 2 ^ 224 * h2"
    using r unfolding d by (simp_all add: div_pos_pos_trivial mod_pos_pos_trivial)
  have x: "limbs_val ?x = L + 2 ^ 224 * h2"
    unfolding t(4) clear_top_bit by (simp add: L_def h2_def H_def)
  have o: "uint ?o = 19 * (2 * uint over + h1)" unfolding propagate_over [OF assms(2)] by (simp add: h1_def H_def)
  have loop: "length ys = 8" "limbs_val ys + 2 ^ 256 * uint c = L + 2 ^ 224 * h2 + 19 * (2 * uint over + h1)"
    using adc0_loop [OF l] assms(1) unfolding x o by simp_all
  have "L + 2 ^ 224 * h2 + 19 * (2 * uint over + h1) < 2 ^ 256" using r(2) assms(2) h(4) by auto
  then have "2 ^ 256 * uint c < 2 ^ 256" using loop limbs_val_bounds(1) [of ys] by linarith
  then have "uint c < 1" by simp
  then have "uint c = 0" using uint_32(1) [of c] by linarith
  then show "length (propagate x over) = 8" "limbs_val (propagate x over) = limbs_val x mod 2 ^ 255 + 19 * (2 * uint over + limbs_val x div 2 ^ 255)"
    "limbs_val x div 2 ^ 255 = 0 \<or> limbs_val x div 2 ^ 255 = 1"
    using loop h(4) unfolding p dm by simp_all
qed

lemma propagate_field:
  assumes "length x = 8" "uint over < 2 ^ 26"
  shows "fe_small (propagate x over)" "stands_for (propagate x over) (limbs_val x + 2 ^ 256 * uint over)"
proof -
  note p = propagate_val [OF assms]
  have "0 \<le> limbs_val x mod 2 ^ 255" "limbs_val x mod 2 ^ 255 < 2 ^ 255" by simp_all
  then show "fe_small (propagate x over)" unfolding fe_small_def p(2) using p(1,3) assms(2) by auto
  define q where "q = limbs_val x div 2 ^ 255"
  have "limbs_val x = 2 ^ 255 * q + limbs_val x mod 2 ^ 255" by (simp add: q_def)
  then have "limbs_val (propagate x over) = limbs_val x + 2 ^ 256 * uint over + p25519 * (- q - 2 * uint over)"
    unfolding p(2) q_def [symmetric] by (simp add: p25519_def algebra_simps)
  then show "stands_for (propagate x over) (limbs_val x + 2 ^ 256 * uint over)"
    using p(1) by (simp only: stands_for_def mod_mult_self2)
qed

section \<open>The operations of the field\<close>

lemma stands_for_mod [simp]: "stands_for x (n mod p25519) = stands_for x n"
  by (simp add: stands_for_def)

lemma stands_for_self: "length x = 8 \<Longrightarrow> stands_for x (limbs_val x)"
  by (simp add: stands_for_def)

lemma stands_for_cong: "stands_for x m \<Longrightarrow> m mod p25519 = n mod p25519 \<Longrightarrow> stands_for x n"
  by (simp add: stands_for_def)

lemma fe_small_length: "fe_small x \<Longrightarrow> length x = 8"
  by (simp add: fe_small_def)

lemma stands_for_length: "stands_for x n \<Longrightarrow> length x = 8"
  by (simp add: stands_for_def)

lemma fe_add:
  assumes "stands_for a m" "stands_for b n"
  shows "fe_small (fe_add a b)" "stands_for (fe_add a b) (m + n)"
proof -
  obtain out c where l: "adc_loop 0 a b = (out, c)" by fastforce
  have len: "length a = 8" "length b = 8" using assms stands_for_length by blast+
  then have v: "length out = 8" "limbs_val out + 2 ^ 256 * uint c = limbs_val a + limbs_val b"
    using adc_loop [OF _ l] by simp_all
  have "2 ^ 256 * uint c < 2 * 2 ^ 256"
    using v(2) limbs_val_bounds(1) [of out] limbs_val_bounds(2) [of a] limbs_val_bounds(2) [of b] unfolding len by simp
  then have c: "uint c < 2 ^ 26" by simp
  have e: "fe_add a b = propagate out c" by (simp add: fe_add_def l)
  show "fe_small (fe_add a b)" unfolding e by (rule propagate_field(1) [OF v(1) c])
  have "(limbs_val a + limbs_val b) mod p25519 = (m + n) mod p25519"
    using assms by (simp add: stands_for_def) (metis mod_add_cong)
  then show "stands_for (fe_add a b) (m + n)"
    using propagate_field(2) [OF v(1) c] unfolding e v(2) by (rule stands_for_cong [rotated])
qed

lemma fe_sub:
  assumes "stands_for a m" "stands_for b n" "fe_small b"
  shows "fe_small (fe_sub a b)" "stands_for (fe_sub a b) (m - n)"
proof -
  obtain out c where l: "sub_loop (- 38) a b = (out, c)" by fastforce
  have len: "length a = 8" "length b = 8" using assms stands_for_length by blast+
  then have v: "length out = 8" "limbs_val out + 2 ^ 256 * c = limbs_val a - limbs_val b - 38"
    using sub_loop [OF _ l] by simp_all
  have a: "0 \<le> limbs_val a" "limbs_val a < 2 ^ 256" "0 \<le> limbs_val b" "limbs_val b < 2 ^ 255 + 2 ^ 32" "0 \<le> limbs_val out" "limbs_val out < 2 ^ 256"
    using limbs_val_bounds [of a] limbs_val_bounds(1) [of b] limbs_val_bounds [of out] assms(3) len v(1) by (simp_all add: fe_small_def)
  then have "- (2 * 2 ^ 256) < 2 ^ 256 * c" "2 ^ 256 * c < 2 ^ 256" using v(2) by simp_all
  then have c: "c = 0 \<or> c = - 1" by auto
  then have o: "uint (word_of_int (1 + c) :: u32) = 1 + c" by auto
  then have o26: "uint (word_of_int (1 + c) :: u32) < 2 ^ 26" using c by auto
  have e: "fe_sub a b = propagate out (word_of_int (1 + c))" by (simp add: fe_sub_def l)
  show "fe_small (fe_sub a b)" unfolding e by (rule propagate_field(1) [OF v(1) o26])
  have "limbs_val out + 2 ^ 256 * (1 + c) = limbs_val a - limbs_val b + p25519 * 2"
    using v(2) by (simp add: p25519_def algebra_simps)
  moreover have "(limbs_val a - limbs_val b) mod p25519 = (m - n) mod p25519"
    using assms(1,2) by (simp add: stands_for_def) (metis mod_diff_cong)
  ultimately have "(limbs_val out + 2 ^ 256 * (1 + c)) mod p25519 = (m - n) mod p25519" by (simp only: mod_mult_self2)
  then show "stands_for (fe_sub a b) (m - n)"
    using propagate_field(2) [OF v(1) o26] unfolding e o by (rule stands_for_cong [rotated])
qed

lemma mul_rows:
  assumes "length a = 8" "nb \<le> 8" "nb \<le> length b"
  shows "length (fold (mul_row a b) [0..<nb] (replicate 16 0)) = 16
    \<and> drop (nb + 8) (fold (mul_row a b) [0..<nb] (replicate 16 0)) = replicate (8 - nb) 0
    \<and> limbs_val (fold (mul_row a b) [0..<nb] (replicate 16 0)) = limbs_val a * limbs_val (take nb b)"
  using assms(2,3)
proof (induction nb)
  case (Suc n)
  define acc where "acc = fold (mul_row a b) [0..<n] (replicate 16 0)"
  have IH: "length acc = 16" "drop (n + 8) acc = replicate (8 - n) 0" "limbs_val acc = limbs_val a * limbs_val (take n b)"
    using Suc by (simp_all add: acc_def)
  obtain row c where r: "umaal_loop 0 (b ! n) (take 8 (drop n acc)) a = (row, c)" by fastforce
  have M: "length (take 8 (drop n acc)) = 8" using IH(1) Suc.prems by simp
  have row: "length row = 8" "limbs_val row + 2 ^ 256 * uint c = limbs_val (take 8 (drop n acc)) + uint (b ! n) * limbs_val a"
    using umaal_loop [OF _ r] M assms(1) by simp_all
  have d: "drop (n + 9) acc = replicate (8 - Suc n) 0"
  proof -
    have "drop 1 (drop (n + 8) acc) = replicate (8 - Suc n) 0" unfolding IH(2) by simp
    then show ?thesis by (simp add: add.commute)
  qed
  have step: "fold (mul_row a b) [0..<Suc n] (replicate 16 0) = take n acc @ row @ [c] @ replicate (8 - Suc n) 0"
    by (simp add: acc_def [symmetric] mul_row_def r d)
  have split: "acc = take n acc @ take 8 (drop n acc) @ replicate (8 - n) 0"
    using IH(2) by (metis append_take_drop_id drop_drop add.commute)
  have tl: "length (take n acc) = n" using IH(1) Suc.prems by simp
  have old: "limbs_val acc = limbs_val (take n acc) + 2 ^ (32 * n) * limbs_val (take 8 (drop n acc))"
    by (subst split) (simp only: limbs_val_append limbs_val_zeros tl mult_zero_right add_0_right)
  have "limbs_val (take n acc @ row @ [c] @ replicate (8 - Suc n) 0) = limbs_val (take n acc) + 2 ^ (32 * n) * (limbs_val row + 2 ^ 256 * uint c)"
    using row(1) IH(1) Suc.prems by (simp add: limbs_val_append)
  also have "\<dots> = limbs_val acc + 2 ^ (32 * n) * uint (b ! n) * limbs_val a" unfolding row(2) old by (simp add: algebra_simps)
  also have "\<dots> = limbs_val a * limbs_val (take (Suc n) b)"
    using Suc.prems unfolding IH(3) by (simp add: take_Suc_conv_app_nth limbs_val_append algebra_simps)
  finally show ?case unfolding step using tl row(1) Suc.prems by simp
qed simp

lemma fe_mul:
  assumes "stands_for a m" "nb \<le> 8" "nb \<le> length b"
  shows "fe_small (fe_mul a b nb)" "stands_for (fe_mul a b nb) (m * limbs_val (take nb b))"
proof -
  define acc where "acc = fold (mul_row a b) [0..<nb] (replicate 16 0)"
  have la: "length a = 8" using assms(1) by (rule stands_for_length)
  have acc: "length acc = 16" "limbs_val acc = limbs_val a * limbs_val (take nb b)"
    using mul_rows [OF la assms(2,3)] by (simp_all add: acc_def)
  obtain out c where l: "umaal_loop 0 38 (take 8 acc) (drop 8 acc) = (out, c)" by fastforce
  have v: "length out = 8" "limbs_val out + 2 ^ 256 * uint c = limbs_val (take 8 acc) + 38 * limbs_val (drop 8 acc)"
    using umaal_loop [OF _ l] acc(1) by simp_all
  have b: "0 \<le> limbs_val out" "limbs_val (take 8 acc) < 2 ^ 256" "limbs_val (drop 8 acc) < 2 ^ 256"
    using limbs_val_bounds(1) [of out] limbs_val_bounds(2) [of "take 8 acc"] limbs_val_bounds(2) [of "drop 8 acc"] acc(1) by simp_all
  then have "2 ^ 256 * uint c < 39 * 2 ^ 256" using v(2) by simp
  then have c: "uint c < 2 ^ 26" by simp
  have e: "fe_mul a b nb = propagate out c" by (simp add: fe_mul_def acc_def [symmetric] l)
  show "fe_small (fe_mul a b nb)" unfolding e by (rule propagate_field(1) [OF v(1) c])
  have "limbs_val acc = limbs_val (take 8 acc) + 2 ^ 256 * limbs_val (drop 8 acc)"
    using limbs_val_append [of "take 8 acc" "drop 8 acc"] acc(1) by simp
  then have "limbs_val out + 2 ^ 256 * uint c = limbs_val a * limbs_val (take nb b) + p25519 * (- 2 * limbs_val (drop 8 acc))"
    unfolding v(2) acc(2) [symmetric] by (simp add: p25519_def algebra_simps)
  moreover have "(limbs_val a * limbs_val (take nb b)) mod p25519 = (m * limbs_val (take nb b)) mod p25519"
    using assms(1) by (simp add: stands_for_def) (metis mod_mult_cong)
  ultimately have "(limbs_val out + 2 ^ 256 * uint c) mod p25519 = (m * limbs_val (take nb b)) mod p25519" by (simp only: mod_mult_self2)
  then show "stands_for (fe_mul a b nb) (m * limbs_val (take nb b))"
    using propagate_field(2) [OF v(1) c] unfolding e by (rule stands_for_cong [rotated])
qed

lemma fe_mul8:
  assumes "stands_for a m" "stands_for b n"
  shows "fe_small (fe_mul a b 8)" "stands_for (fe_mul a b 8) (m * n)"
proof -
  have b: "length b = 8" "limbs_val b mod p25519 = n mod p25519" using assms(2) by (simp_all add: stands_for_def)
  show "fe_small (fe_mul a b 8)" using fe_mul(1) [OF assms(1), of 8 b] b by simp
  show "stands_for (fe_mul a b 8) (m * n)"
    using fe_mul(2) [OF assms(1), of 8 b] b mod_mult_cong [of m p25519 m] by (auto intro: stands_for_cong)
qed

lemma fe_products:
  assumes "stands_for a m" "stands_for b n"
  shows "fe_small (mul1 a b)" "stands_for (mul1 a b) (m * n)" "fe_small (sqr1 a)" "stands_for (sqr1 a) (m * m)"
    "fe_small (fe_sqr a)" "stands_for (fe_sqr a) (m * m)"
  using fe_mul8 [OF assms(2,1)] fe_mul8 [OF assms(1,1)] by (simp_all add: mul1_def sqr1_def fe_sqr_def mult.commute)

section \<open>The canonical form\<close>

lemma canon_loop:
  "canon_loop c r xs = (ys, r') \<Longrightarrow> length ys = length xs \<and> limbs_val ys = (limbs_val xs + c) mod 2 ^ (32 * length xs)
     \<and> (r' = 0 \<longleftrightarrow> r = 0 \<and> limbs_val ys = 0)"
proof (induction xs arbitrary: c r ys)
  case (Cons x xs)
  let ?c = "c + uint x"
  define y :: u32 where "y = word_of_int ?c"
  obtain ys1 where s: "canon_loop (?c div 2 ^ 32) (r OR y) xs = (ys1, r')" "ys = y # ys1"
    using Cons.prems by (auto simp: Let_def y_def split: prod.splits)
  define N where "N = (2 :: int) ^ (32 * length xs)"
  have IH: "length ys1 = length xs" "limbs_val ys1 = (limbs_val xs + ?c div 2 ^ 32) mod N" "r' = 0 \<longleftrightarrow> r OR y = 0 \<and> limbs_val ys1 = 0"
    using Cons.IH [OF s(1)] by (simp_all add: N_def)
  have y: "uint y = ?c mod 2 ^ 32" unfolding y_def by (rule uint_of_int)
  have "(2 ^ 32 * limbs_val xs + ?c) div 2 ^ 32 = limbs_val xs + ?c div 2 ^ 32" "(2 ^ 32 * limbs_val xs + ?c) mod 2 ^ 32 = ?c mod 2 ^ 32"
    by simp_all
  moreover have "(2 ^ 32 * limbs_val xs + ?c) mod (2 ^ 32 * N) = 2 ^ 32 * ((2 ^ 32 * limbs_val xs + ?c) div 2 ^ 32 mod N) + (2 ^ 32 * limbs_val xs + ?c) mod 2 ^ 32"
    by (rule zmod_zmult2_eq) (simp add: N_def)
  ultimately have "(2 ^ 32 * limbs_val xs + ?c) mod (2 ^ 32 * N) = limbs_val ys"
    by (simp only: s(2) limbs_val.simps y IH(2) add.commute)
  then have v: "limbs_val ys = (limbs_val (x # xs) + c) mod (2 ^ 32 * N)" by (simp add: ac_simps)
  have "limbs_val ys = 0 \<longleftrightarrow> y = 0 \<and> limbs_val ys1 = 0"
    using uint_32(1) [of y] limbs_val_bounds(1) [of ys1] unfolding s(2) by (simp add: add_nonneg_eq_0_iff uint_0_iff)
  moreover have "r OR y = 0 \<longleftrightarrow> r = 0 \<and> y = 0" by (simp add: or_eq_0_iff)
  ultimately show ?case using v IH(1,3) s(2) by (auto simp: N_def power_add)
qed simp

lemma canon:
  assumes "fe_small x" "canon x = (ret, y)"
  shows "length y = 8" "limbs_val y = limbs_val x mod p25519" "sint ret = (if limbs_val y = 0 then - 1 else 0)"
proof -
  obtain x1 c where l1: "adc0_loop 19 x = (x1, c)" by fastforce
  obtain res where l2: "canon_loop (- 19) 0 (propagate x1 c) = (y, res)" and ret: "ret = ucast (drop_bit 32 ((ucast res :: u64) - 1))"
    using assms(2) by (auto simp: canon_def l1 Let_def split: prod.splits)
  have x: "length x = 8" "0 \<le> limbs_val x" "limbs_val x < 2 ^ 255 + 2 ^ 32" using assms(1) limbs_val_bounds(1) by (auto simp: fe_small_def)
  have v: "length x1 = 8" "limbs_val x1 + 2 ^ 256 * uint c = limbs_val x + 19" using adc0_loop [OF l1] x(1) by simp_all
  have "2 ^ 256 * uint c < 2 ^ 256" using v(2) x(3) limbs_val_bounds(1) [of x1] by simp
  then have "uint c < 1" by simp
  then have c0: "uint c = 0" using uint_32(1) [of c] by linarith
  then have x1: "limbs_val x1 = limbs_val x + 19" using v(2) by simp
  note p = propagate_val [OF v(1), of c]
  define t where "t = (limbs_val x + 19) div 2 ^ 255"
  have t: "t = 0 \<or> t = 1" using p(3) c0 by (simp add: x1 t_def)
  have e: "limbs_val x + 19 = 2 ^ 255 * t + limbs_val (propagate x1 c) - 19 * t"
    using p(2) c0 by (simp add: x1 t_def)
  have m: "0 \<le> limbs_val (propagate x1 c) - 19 * t" "limbs_val (propagate x1 c) - 19 * t < 2 ^ 255"
    using p(2) c0 by (simp_all add: x1 t_def)
  define r where "r = limbs_val (propagate x1 c) - 19"
  have "limbs_val x = p25519 * t + r" using e by (simp add: r_def p25519_def algebra_simps)
  moreover have "0 \<le> r \<and> r < p25519"
  proof (cases "t = 0")
    case True
    then show ?thesis using e x(2) m(2) by (simp add: r_def p25519_def)
  next
    case False
    then have "t = 1" using t by simp
    then show ?thesis using e x(3) m by (simp add: r_def p25519_def)
  qed
  ultimately have r: "limbs_val x mod p25519 = r" "0 \<le> r" "r < p25519" by (simp_all add: mod_pos_pos_trivial)
  have len: "length (propagate x1 c) = 8" using p(1) c0 by simp
  have y: "length y = 8" "limbs_val y = r mod 2 ^ 256" "res = 0 \<longleftrightarrow> limbs_val y = 0"
    using canon_loop [OF l2] unfolding len by (simp_all add: r_def)
  have "r < 2 ^ 256" using r(3) by (simp add: p25519_def)
  then show "length y = 8" "limbs_val y = limbs_val x mod p25519" using y r by (simp_all add: mod_pos_pos_trivial)
  have "drop_bit 32 ((ucast res :: u64) - 1) = 0" if "res \<noteq> 0"
  proof -
    have "0 < uint res" using that by (simp add: uint_0_iff less_le)
    then have "uint ((ucast res :: u64) - 1) = uint res - 1"
      using uint_32 [of res] by (simp add: uint_word_ariths(2) mod_pos_pos_trivial)
    then have "uint (drop_bit 32 ((ucast res :: u64) - 1)) = 0"
      unfolding uint_drop using \<open>0 < uint res\<close> uint_32(2) [of res] by (simp add: div_pos_pos_trivial)
    then show ?thesis by (simp add: uint_0_iff)
  qed
  moreover have "sint (ucast (drop_bit 32 ((ucast (0 :: u32) :: u64) - 1)) :: u32) = - 1" by (simp add: drop_bit_eq_div)
  ultimately show "sint ret = (if limbs_val y = 0 then - 1 else 0)" using y(3) unfolding ret by auto
qed

end
