(* ===== verification/X25519_Ladder.thy ===== *)
theory X25519_Ladder
  imports X25519_Field Startup
begin

text \<open>
  The ladder, the inversion chain and the whole function, and X25519 as the parameter \<open>dh\<close> of the
  protocol core.
\<close>

section \<open>The function of RFC 7748\<close>

text \<open>
  Doubling and differential addition on projective \<open>x\<close>-coordinates, the ladder over 256 bits of the
  scalar, and the quotient as a power.
\<close>

definition double_add :: "int \<Rightarrow> (int \<times> int) \<times> (int \<times> int) \<Rightarrow> (int \<times> int) \<times> (int \<times> int)" where
  "double_add u ps =
     (let ((x2, z2), (x3, z3)) = ps;
          a = x2 + z2; aa = a * a; b = x2 - z2; bb = b * b; e = aa - bb;
          c = x3 + z3; d = x3 - z3; da = d * a; cb = c * b
      in ((aa * bb mod p25519, e * (aa + 121665 * e) mod p25519),
          ((da + cb) * (da + cb) mod p25519, u * ((da - cb) * (da - cb)) mod p25519)))"

definition ladder_bit :: "int \<Rightarrow> bool \<Rightarrow> (int \<times> int) \<times> (int \<times> int) \<Rightarrow> (int \<times> int) \<times> (int \<times> int)" where
  "ladder_bit u swap ps = (if swap then prod.swap (double_add u (prod.swap ps)) else double_add u ps)"

definition montgomery_ladder :: "int \<Rightarrow> int \<Rightarrow> int" where
  "montgomery_ladder k u =
     (let ((x2, z2), _) = fold (\<lambda>i. ladder_bit u (bit k i)) (rev [0..<256]) ((1, 0), (u, 1))
      in x2 * z2 ^ nat (p25519 - 2) mod p25519)"

section \<open>One step of the ladder\<close>

definition points :: "fe list \<Rightarrow> (int \<times> int) \<times> (int \<times> int) \<Rightarrow> bool" where
  "points xs ps \<longleftrightarrow>
     (case ps of ((x2, z2), (x3, z3)) \<Rightarrow> length xs = 5 \<and> stands_for (xs ! 0) x2 \<and> stands_for (xs ! 1) z2
        \<and> stands_for (xs ! 2) x3 \<and> stands_for (xs ! 3) z3 \<and> fe_small (xs ! 1) \<and> fe_small (xs ! 3) \<and> length (xs ! 4) = 8)"

lemma ladder_parts:
  "ladder_part2 (ladder_part1 [x2, z2, x3, z3, t]) x1 =
     (let A = fe_add x2 z2; B = fe_sub x2 z2; C = fe_add x3 z3; D = fe_sub x3 z3; DA = mul1 D A; CB = mul1 C B;
          AA = sqr1 A; E = fe_sub AA (sqr1 B)
      in [mul1 (fe_sub AA E) AA, mul1 (fe_add (fe_mul E [121665] 1) AA) E, sqr1 (fe_add DA CB), mul1 (sqr1 (fe_sub DA CB)) x1, AA])"
  by (simp add: ladder_part1_def ladder_part2_def Let_def)

lemma points_Cons:
  "points [x2, z2, x3, z3, t] ((m2, n2), (m3, n3)) \<longleftrightarrow> stands_for x2 m2 \<and> stands_for z2 n2 \<and> stands_for x3 m3 \<and> stands_for z3 n3
     \<and> fe_small z2 \<and> fe_small z3 \<and> length t = 8"
  by (simp add: points_def)

lemma list_5: "length xs = 5 \<Longrightarrow> \<exists>a b c d e. xs = [a, b, c, d, e]"
  by (auto simp: length_Suc_conv numeral_eq_Suc)

lemma ladder_step:
  assumes "points xs ps" "stands_for x1 u"
  shows "points (ladder_part2 (ladder_part1 xs) x1) (double_add u ps)"
proof -
  obtain m2 n2 m3 n3 where ps: "ps = ((m2, n2), (m3, n3))" by (metis prod.collapse)
  have "length xs = 5" using assms(1) by (simp add: points_def ps)
  then obtain x2 z2 x3 z3 t where xs: "xs = [x2, z2, x3, z3, t]" using list_5 by blast
  have P: "stands_for x2 m2" "stands_for z2 n2" "stands_for x3 m3" "stands_for z3 n3" "fe_small z2" "fe_small z3"
    using assms(1) unfolding xs ps points_Cons by blast+
  define a aa b bb e where d1: "a = m2 + n2" "aa = a * a" "b = m2 - n2" "bb = b * b" "e = aa - bb"
  define c d da cb where d2: "c = m3 + n3" "d = m3 - n3" "da = d * a" "cb = c * b"
  define A B C D where D1: "A = fe_add x2 z2" "B = fe_sub x2 z2" "C = fe_add x3 z3" "D = fe_sub x3 z3"
  define AA BB DA CB where D2: "AA = sqr1 A" "BB = sqr1 B" "DA = mul1 D A" "CB = mul1 C B"
  define E where "E = fe_sub AA BB"
  have A: "stands_for A a" "stands_for B b" "stands_for C c" "stands_for D d"
    unfolding D1 d1(1,3) d2(1,2) by (rule fe_add(2) fe_sub(2); use P in blast)+
  have AA: "stands_for AA aa" "stands_for BB bb" "fe_small BB" "stands_for DA da" "stands_for CB cb" "fe_small CB"
    unfolding D2 d1(2,4) d2(3,4) by (rule fe_products; use A in blast)+
  have E: "stands_for E e" "fe_small E" unfolding E_def d1(5) by (rule fe_sub, (use AA in blast)+)+
  have "stands_for (fe_mul E [121665] 1) (e * 121665)"
    using fe_mul(2) [OF E(1), of 1 "[121665]"] by simp
  then have F: "stands_for (fe_add (fe_mul E [121665] 1) AA) (e * 121665 + aa)" by (rule fe_add(2) [OF _ AA(1)])
  have S: "stands_for (fe_add DA CB) (da + cb)" by (rule fe_add(2) [OF AA(4,5)])
  have T: "stands_for (fe_sub DA CB) (da - cb)" by (rule fe_sub(2) [OF AA(4,5,6)])
  have G: "stands_for (fe_sub AA E) (aa - e)" by (rule fe_sub(2) [OF AA(1) E])
  have X2: "stands_for (mul1 (fe_sub AA E) AA) ((aa - e) * aa)" by (rule fe_products(2) [OF G AA(1)])
  have Z2: "stands_for (mul1 (fe_add (fe_mul E [121665] 1) AA) E) ((e * 121665 + aa) * e)" "fe_small (mul1 (fe_add (fe_mul E [121665] 1) AA) E)"
    by (rule fe_products(2) [OF F E(1)], rule fe_products(1) [OF F E(1)])
  have X3: "stands_for (sqr1 (fe_add DA CB)) ((da + cb) * (da + cb))" by (rule fe_products(4) [OF S S])
  have Q: "stands_for (sqr1 (fe_sub DA CB)) ((da - cb) * (da - cb))" by (rule fe_products(4) [OF T T])
  have Z3: "stands_for (mul1 (sqr1 (fe_sub DA CB)) x1) ((da - cb) * (da - cb) * u)" "fe_small (mul1 (sqr1 (fe_sub DA CB)) x1)"
    by (rule fe_products(2) [OF Q assms(2)], rule fe_products(1) [OF Q assms(2)])
  have code: "ladder_part2 (ladder_part1 xs) x1 = [mul1 (fe_sub AA E) AA, mul1 (fe_add (fe_mul E [121665] 1) AA) E,
      sqr1 (fe_add DA CB), mul1 (sqr1 (fe_sub DA CB)) x1, AA]"
    unfolding xs ladder_parts Let_def D1 D2 E_def by (rule refl)
  have "aa - e = bb" using d1(5) by simp
  then have "(aa - e) * aa = aa * bb" "(e * 121665 + aa) * e = e * (aa + 121665 * e)" "(da - cb) * (da - cb) * u = u * ((da - cb) * (da - cb))"
    by (simp_all only: ac_simps)
  then have spec: "double_add u ps = (((aa - e) * aa mod p25519, (e * 121665 + aa) * e mod p25519),
      ((da + cb) * (da + cb) mod p25519, (da - cb) * (da - cb) * u mod p25519))"
    unfolding ps double_add_def Let_def split_conv d1 d2 by (simp add: ac_simps)
  show ?thesis unfolding code spec points_Cons stands_for_mod using X2 Z2 X3 Z3 stands_for_length [OF AA(1)] by blast
qed

section \<open>Conditional swaps\<close>

definition swap_mask :: "bool \<Rightarrow> u32" where
  "swap_mask b = (if b then - 1 else 0)"

lemma condswap_mask: "length a = length b \<Longrightarrow> condswap a b (swap_mask s) = (if s then (b, a) else (a, b))"
proof (induction a b rule: list_induct2)
  case Nil
  then show ?case by (simp add: condswap_def)
next
  case (Cons x xs y ys)
  have "x XOR (x XOR y) = y" "y XOR (x XOR y) = x" by (simp_all add: xor.assoc [symmetric], simp add: xor.commute xor.left_commute)
  then show ?case using Cons by (auto simp: condswap_def swap_mask_def split: if_splits)
qed

lemma swap_points:
  assumes "points xs ps"
  shows "points (swap_points xs (swap_mask s)) (if s then prod.swap ps else ps)"
proof -
  obtain m2 n2 m3 n3 where ps: "ps = ((m2, n2), (m3, n3))" by (metis prod.collapse)
  have "length xs = 5" using assms(1) by (simp add: points_def ps)
  then obtain x2 z2 x3 z3 t where xs: "xs = [x2, z2, x3, z3, t]" using list_5 by blast
  have P: "stands_for x2 m2" "stands_for z2 n2" "stands_for x3 m3" "stands_for z3 n3" "fe_small z2" "fe_small z3" "length t = 8"
    using assms(1) unfolding xs ps points_Cons by blast+
  then have l: "length x2 = 8" "length z2 = 8" "length x3 = 8" "length z3 = 8" using stands_for_length by blast+
  then have "swap_points xs (swap_mask s) = (if s then [x3, z3, x2, z2, t] else xs)"
    using condswap_mask [of "x2 @ z2" "x3 @ z3" s] by (simp add: swap_points_def xs)
  then show ?thesis using P by (auto simp: ps xs points_Cons)
qed

lemma swap_mask_xor: "swap_mask a XOR swap_mask b = swap_mask (a \<noteq> b)"
  by (cases a; cases b) (simp_all add: swap_mask_def)

section \<open>Loading and storing\<close>

lemma swapin: "length b = 32 \<Longrightarrow> length (swapin b) = 8 \<and> limbs_val (swapin b) = bytes_val b"
  using limbs_of_bytes [of b 8] by (simp add: swapin_def del: upt_rec_numeral)

lemma swapout: "length (swapout x) = 4 * length x \<and> bytes_val (swapout x) = limbs_val x"
proof (induction x)
  case (Cons w ws)
  have "bytes_val (U32TO8_LITTLE w) = uint w" using word_val [of "U32TO8_LITTLE w"] by simp
  then show ?case using Cons by (simp add: swapout_def bytes_val_append)
qed (simp add: swapout_def)

section \<open>The loop over the scalar\<close>

text \<open>The scalar whose bits the loop reads.\<close>

definition scalar_used :: "bytes \<Rightarrow> bool \<Rightarrow> bytes" where
  "scalar_used scalar clamp = (if clamp then wireguard_clamp_private_key scalar else scalar)"

lemma scalar_byte:
  assumes "length scalar = 32" "i < 256"
  shows "scalar_byte scalar clamp i = scalar_used scalar clamp ! (i div 8)"
proof -
  have "i div 8 < 32" using assms(2) by simp
  moreover have "(- 8 :: byte) = 248" by simp
  then have "x AND - 8 = x AND 248" for x :: byte by (simp only:)
  ultimately show ?thesis using assms(1)
    by (auto simp: scalar_byte_def scalar_used_def wireguard_clamp_private_key_def Let_def nth_list_update)
qed

lemma length_scalar_used [simp]: "length (scalar_used scalar clamp) = length scalar"
  by (simp add: scalar_used_def)

text \<open>Bit \<open>i\<close> as the loop reads it.\<close>

definition scalar_bit :: "bytes \<Rightarrow> bool \<Rightarrow> nat \<Rightarrow> bool" where
  "scalar_bit scalar clamp i = bit (scalar_byte scalar clamp i) (i mod 8)"

lemma scalar_bit: "length scalar = 32 \<Longrightarrow> i < 256 \<Longrightarrow> scalar_bit scalar clamp i \<longleftrightarrow> bit (bytes_val (scalar_used scalar clamp)) i"
  by (simp add: scalar_bit_def scalar_byte bit_bytes_val)

lemma core_mask: "- (ucast (drop_bit (i mod 8) (scalar_byte scalar clamp i) AND 1) :: u32) = swap_mask (scalar_bit scalar clamp i)"
proof -
  let ?b = "scalar_byte scalar clamp i"
  have "drop_bit (i mod 8) ?b AND 1 = of_bool (bit ?b (i mod 8))"
    by (rule bit_word_eqI) (auto simp: bit_simps)
  then show ?thesis by (simp add: swap_mask_def scalar_bit_def)
qed

lemma core_loop:
  assumes "stands_for x1 u" "points xs (if s then prod.swap ps else ps)"
    and "fold (core_step scalar x1 clamp) is (xs, swap_mask s) = (xs', m)"
  shows "\<exists>s'. m = swap_mask s' \<and>
    points xs' (if s' then prod.swap (fold (\<lambda>i. ladder_bit u (scalar_bit scalar clamp i)) is ps)
                else fold (\<lambda>i. ladder_bit u (scalar_bit scalar clamp i)) is ps)"
  using assms(2,3)
proof (induction "is" arbitrary: xs s ps)
  case (Cons i js)
  let ?b = "scalar_bit scalar clamp i"
  let ?ys = "swap_points xs (swap_mask (s \<noteq> ?b))"
  have step: "core_step scalar x1 clamp i (xs, swap_mask s) = (ladder_part2 (ladder_part1 ?ys) x1, swap_mask ?b)"
    unfolding core_step_def Let_def split_conv core_mask swap_mask_xor by (rule refl)
  have "points ?ys (if s \<noteq> ?b then prod.swap (if s then prod.swap ps else ps) else (if s then prod.swap ps else ps))"
    by (rule swap_points [OF Cons.prems(1)])
  then have "points ?ys (if ?b then prod.swap ps else ps)" by (cases s; cases ?b) simp_all
  from ladder_step [OF this assms(1)]
  have p: "points (ladder_part2 (ladder_part1 ?ys) x1) (if ?b then prod.swap (ladder_bit u ?b ps) else ladder_bit u ?b ps)"
    by (cases ?b) (simp_all add: ladder_bit_def)
  have f: "fold (core_step scalar x1 clamp) js (ladder_part2 (ladder_part1 ?ys) x1, swap_mask ?b) = (xs', m)"
    using Cons.prems(2) by (simp only: fold_simps step)
  from Cons.IH [OF p f] show ?case by (simp only: fold_simps)
next
  case Nil
  then have e: "xs' = xs" "m = swap_mask s" by simp_all
  show ?case unfolding e by (rule exI [of _ s]) (use Nil.prems(1) in \<open>simp only: fold_simps\<close>)
qed

lemma stands_for_fe_one: "stands_for fe_one 1" "fe_small fe_one" "stands_for (replicate 8 0) 0" "fe_small (replicate 8 0)"
  by (simp_all add: stands_for_def fe_small_def fe_one_def)

lemma core:
  "points (x25519_core scalar x1 clamp)
    (fold (\<lambda>i. ladder_bit (limbs_val (swapin x1)) (scalar_bit scalar clamp i)) (rev [0..<256]) ((1, 0), (limbs_val (swapin x1), 1)))"
proof -
  let ?u = "limbs_val (swapin x1)" and ?x = "swapin x1"
  have x: "stands_for ?x ?u" by (rule stands_for_self) (simp add: swapin_def)
  define xs where "xs = [fe_one, replicate 8 0, ?x, fe_one, replicate 8 0]"
  obtain xs' m where l: "fold (core_step scalar ?x clamp) (rev [0..<256]) (xs, 0) = (xs', m)" by fastforce
  have "points xs ((1, 0), (?u, 1))" unfolding xs_def points_Cons using x stands_for_fe_one by simp
  then have "points xs (if False then prod.swap ((1, 0), (?u, 1)) else ((1, 0), (?u, 1)))" by simp
  moreover have "fold (core_step scalar ?x clamp) (rev [0..<256]) (xs, swap_mask False) = (xs', m)" using l by (simp add: swap_mask_def)
  ultimately obtain s' where m: "m = swap_mask s'"
    and p: "points xs' (if s' then prod.swap (fold (\<lambda>i. ladder_bit ?u (scalar_bit scalar clamp i)) (rev [0..<256]) ((1, 0), (?u, 1)))
      else fold (\<lambda>i. ladder_bit ?u (scalar_bit scalar clamp i)) (rev [0..<256]) ((1, 0), (?u, 1)))"
    using core_loop [OF x] by blast
  have "x25519_core scalar x1 clamp = swap_points xs' (swap_mask s')"
    unfolding x25519_core_def Let_def xs_def [symmetric] l split_conv m by (rule refl)
  then show ?thesis using swap_points [OF p, of s'] by (cases s') simp_all
qed

section \<open>The inversion\<close>

text \<open>The powers of \<open>z\<close> that the registers hold; \<open>None\<close> where nothing is known.\<close>

definition holds_powers :: "fe list \<Rightarrow> int \<Rightarrow> nat option list \<Rightarrow> bool" where
  "holds_powers xs z es \<longleftrightarrow> length xs = 5 \<and> length es = 5 \<and>
     (\<forall>i < 5. case es ! i of None \<Rightarrow> True | Some e \<Rightarrow> stands_for (xs ! i) (z ^ e))"

lemma holds_powersD: "holds_powers xs z es \<Longrightarrow> i < 5 \<Longrightarrow> es ! i = Some e \<Longrightarrow> stands_for (xs ! i) (z ^ e)"
  unfolding holds_powers_def by (metis option.simps(5))

lemma holds_powers_update:
  "holds_powers xs z es \<Longrightarrow> a < 5 \<Longrightarrow> stands_for x (z ^ e) \<Longrightarrow> holds_powers (xs[a := x]) z (es[a := Some e])"
  by (auto simp: holds_powers_def nth_list_update split: option.split)

lemma sqr_times:
  assumes "holds_powers xs z es" "a < 5" "prev < 5" "es ! prev = Some e" "0 < n"
  shows "\<exists>xs'. sqr_times n a (xs, prev) = (xs', a) \<and> holds_powers xs' z (es[a := Some (e * 2 ^ n)]) \<and> (a \<noteq> 0 \<longrightarrow> xs' ! 0 = xs ! 0)"
  using assms(1,3-5)
proof (induction n arbitrary: xs es prev e)
  case (Suc n)
  let ?xs = "xs[a := fe_sqr (xs ! prev)]"
  have "stands_for (fe_sqr (xs ! prev)) (z ^ e * z ^ e)"
    using fe_products(6) holds_powersD [OF Suc.prems(1-3)] by blast
  then have "stands_for (fe_sqr (xs ! prev)) (z ^ (e * 2))" by (simp add: power_mult power2_eq_square)
  then have h: "holds_powers ?xs z (es[a := Some (e * 2)])" by (rule holds_powers_update [OF Suc.prems(1) assms(2)])
  show ?case
  proof (cases "n = 0")
    case True
    then show ?thesis using h by simp
  next
    case False
    have "length es = 5" using Suc.prems(1) by (simp add: holds_powers_def)
    then have "es[a := Some (e * 2)] ! a = Some (e * 2)" using assms(2) by simp
    from Suc.IH [OF h assms(2) this] False show ?thesis by (auto simp: mult.assoc)
  qed
qed simp

fun exponent_step :: "nat \<times> nat \<times> nat \<Rightarrow> nat option list \<times> nat \<Rightarrow> nat option list \<times> nat" where
  "exponent_step (a, c, n) (es, prev) = (es[a := Some (the (es ! prev) * 2 ^ n + the (es ! c))], a)"

lemma chain_step:
  assumes "holds_powers xs z es" "prev < 5" "es ! prev \<noteq> None" "es ! c \<noteq> None" "a < 5" "c < 5" "a \<noteq> c" "a \<noteq> 0" "0 < n"
  shows "\<exists>xs'. chain_step (a, c, n) (xs, prev) = (xs', a) \<and> holds_powers xs' z (fst (exponent_step (a, c, n) (es, prev))) \<and> xs' ! 0 = xs ! 0"
proof -
  obtain e f where e: "es ! prev = Some e" "es ! c = Some f" using assms(3,4) by blast
  obtain xs1 where s: "sqr_times n a (xs, prev) = (xs1, a)" "holds_powers xs1 z (es[a := Some (e * 2 ^ n)])" "xs1 ! 0 = xs ! 0"
    using sqr_times [OF assms(1,5,2) e(1) assms(9)] assms(8) by blast
  have len: "length es = 5" using assms(1) by (simp add: holds_powers_def)
  have "stands_for (xs1 ! a) (z ^ (e * 2 ^ n))" "stands_for (xs1 ! c) (z ^ f)"
    using holds_powersD [OF s(2) assms(5)] holds_powersD [OF s(2) assms(6)] e(2) len assms(5,7) by simp_all
  then have "stands_for (mul1 (xs1 ! a) (xs1 ! c)) (z ^ (e * 2 ^ n + f))" using fe_products(2) by (simp add: power_add)
  from holds_powers_update [OF s(2) assms(5) this]
  show ?thesis using s(1,3) e assms(8) by (simp add: chain_step_def)
qed

fun steps_fit :: "(nat \<times> nat \<times> nat) list \<Rightarrow> nat option list \<Rightarrow> nat \<Rightarrow> bool" where
  "steps_fit [] es prev \<longleftrightarrow> True"
| "steps_fit ((a, c, n) # ss) es prev \<longleftrightarrow>
     prev < 5 \<and> es ! prev \<noteq> None \<and> es ! c \<noteq> None \<and> a < 5 \<and> c < 5 \<and> a \<noteq> c \<and> a \<noteq> 0 \<and> 0 < n
     \<and> steps_fit ss (fst (exponent_step (a, c, n) (es, prev))) a"

lemma chain_steps:
  "holds_powers xs z es \<Longrightarrow> steps_fit ss es prev \<Longrightarrow> \<exists>xs'. fold chain_step ss (xs, prev) = (xs', snd (fold exponent_step ss (es, prev)))
     \<and> holds_powers xs' z (fst (fold exponent_step ss (es, prev))) \<and> xs' ! 0 = xs ! 0"
proof (induction ss es prev arbitrary: xs rule: steps_fit.induct)
  case (2 a c n ss es prev)
  obtain xs1 where s: "chain_step (a, c, n) (xs, prev) = (xs1, a)"
      "holds_powers xs1 z (fst (exponent_step (a, c, n) (es, prev)))" "xs1 ! 0 = xs ! 0"
    using chain_step [OF 2(2), of prev c a n] 2(3) by (auto simp del: exponent_step.simps)
  have "exponent_step (a, c, n) (es, prev) = (fst (exponent_step (a, c, n) (es, prev)), a)" by simp
  then show ?case using 2(1) [OF s(2)] 2(3) s(1,3) by (metis fold_simps(2) steps_fit.simps(2))
qed simp

lemma exponents:
  "steps_fit steps [None, Some 1, None, None, None] 1"
  "fst (fold exponent_step steps ([None, Some 1, None, None, None], 1)) ! 3 = Some (nat (p25519 - 2))"
  "snd (fold exponent_step steps ([None, Some 1, None, None, None], 1)) = 3"
  by (simp_all add: steps_def p25519_def)

lemma chain:
  assumes "length xs = 5" "stands_for (xs ! 1) z"
  shows "\<exists>xs'. fold chain_step steps (xs, 1) = (xs', 3) \<and> stands_for (xs' ! 3) (z ^ nat (p25519 - 2)) \<and> xs' ! 0 = xs ! 0 \<and> length xs' = 5"
proof -
  have "holds_powers xs z [None, Some 1, None, None, None]"
    using assms by (auto simp: holds_powers_def nth_Cons split: nat.split option.split)
  from chain_steps [OF this exponents(1)] obtain xs' where
    f: "fold chain_step steps (xs, 1) = (xs', 3)" and h: "holds_powers xs' z (fst (fold exponent_step steps ([None, Some 1, None, None, None], 1)))"
    and x: "xs' ! 0 = xs ! 0"
    unfolding exponents(3) by blast
  show ?thesis using f x h holds_powersD [OF h _ exponents(2)] by (simp add: holds_powers_def)
qed

section \<open>The function\<close>

lemma x25519_value:
  assumes "x25519 scalar x1 clamp = (ret, out)"
  shows "length out = 32" "ret = (if clamp \<and> bytes_val out = 0 then - 1 else 0)"
    "bytes_val out = (case fold (\<lambda>i. ladder_bit (limbs_val (swapin x1)) (scalar_bit scalar clamp i)) (rev [0..<256]) ((1, 0), (limbs_val (swapin x1), 1)) of
       ((x2, z2), _) \<Rightarrow> x2 * z2 ^ nat (p25519 - 2) mod p25519)"
proof -
  let ?xs = "x25519_core scalar x1 clamp" and ?u = "limbs_val (swapin x1)"
  obtain m2 n2 q where spec: "fold (\<lambda>i. ladder_bit ?u (scalar_bit scalar clamp i)) (rev [0..<256]) ((1, 0), (?u, 1)) = ((m2, n2), q)"
    by (metis prod.collapse)
  have p: "points ?xs ((m2, n2), q)" using core [of scalar x1 clamp] unfolding spec .
  then have xs: "length ?xs = 5" "stands_for (?xs ! 0) m2" "stands_for (?xs ! 1) n2"
    by (auto simp: points_def split: prod.splits)
  obtain xs' where c: "fold chain_step steps (?xs, 1) = (xs', 3)" "stands_for (xs' ! 3) (n2 ^ nat (p25519 - 2))" "xs' ! 0 = ?xs ! 0" "length xs' = 5"
    using chain [OF xs(1,3)] by blast
  let ?x = "mul1 (xs' ! 0) (xs' ! 3)"
  have x: "fe_small ?x" "stands_for ?x (m2 * n2 ^ nat (p25519 - 2))"
    using fe_products(1,2) [OF _ c(2)] xs(2) c(3) by simp_all
  obtain rt y where y: "canon ?x = (rt, y)" by fastforce
  note cn = canon [OF x(1) y]
  have r: "ret = (if clamp then sint rt else 0)" "out = swapout y"
    using assms c(1,4) y by (auto simp: x25519_def Let_def)
  show "length out = 32" "ret = (if clamp \<and> bytes_val out = 0 then - 1 else 0)"
    using swapout [of y] cn(1,3) unfolding r by simp_all
  show "bytes_val out = (case fold (\<lambda>i. ladder_bit ?u (scalar_bit scalar clamp i)) (rev [0..<256]) ((1, 0), (?u, 1)) of
       ((x2, z2), _) \<Rightarrow> x2 * z2 ^ nat (p25519 - 2) mod p25519)"
    using cn(2) x(2) swapout [of y] unfolding spec r by (simp add: stands_for_def)
qed

lemma x25519_ladder:
  assumes "length scalar = 32" "length x1 = 32" "x25519 scalar x1 clamp = (ret, out)"
  shows "bytes_val out = montgomery_ladder (bytes_val (scalar_used scalar clamp)) (bytes_val x1)"
proof -
  have f: "fold (\<lambda>i. ladder_bit u (scalar_bit scalar clamp i)) (rev [0..<256]) ps
      = fold (\<lambda>i. ladder_bit u (bit (bytes_val (scalar_used scalar clamp)) i)) (rev [0..<256]) ps" for u ps
    using assms(1) scalar_bit by (intro fold_cong) auto
  have u: "limbs_val (swapin x1) = bytes_val x1" using swapin [OF assms(2)] by blast
  show ?thesis using x25519_value(3) [OF assms(3)] unfolding montgomery_ladder_def Let_def f u by (auto split: prod.splits)
qed

text \<open>
  C16. X25519 is the Montgomery ladder of RFC 7748. For 32-byte arguments the limb arithmetic, with
  its lazy reductions, merged swaps and the addition chain for the inverse, returns the 32 bytes of
  the \<open>x\<close>-coordinate that the ladder over the integers modulo \<open>2^255 - 19\<close> computes from the clamped
  scalar (the scalar itself when clamping is off) and the number that all 256 bits of the point
  stand for; the status is -1 exactly when clamping is on and the result is 0.
\<close>

theorem x25519_is_montgomery_ladder:
  assumes "length scalar = 32" "length x1 = 32" "x25519 scalar x1 clamp = (ret, out)"
  shows "length out = 32
    \<and> bytes_val out = montgomery_ladder (bytes_val (scalar_used scalar clamp)) (bytes_val x1)
    \<and> ret = (if clamp \<and> bytes_val out = 0 then - 1 else 0)"
  using x25519_value(1,2) [OF assms(3)] x25519_ladder [OF assms] by blast

theorem x25519_is_montgomery_ladder_witness:
  "\<exists>ret out. x25519 (replicate 32 1) X25519_BASE_POINT True = (ret, out)
    \<and> bytes_val out = montgomery_ladder (bytes_val (scalar_used (replicate 32 1) True)) 9"
proof -
  obtain ret out where r: "x25519 (replicate 32 1) X25519_BASE_POINT True = (ret, out)" by fastforce
  have z: "bytes_val (replicate n 0) = 0" for n by (induction n) simp_all
  then have "bytes_val X25519_BASE_POINT = 9" by (simp add: X25519_BASE_POINT_def)
  moreover have "length X25519_BASE_POINT = 32" by (simp add: X25519_BASE_POINT_def)
  ultimately show ?thesis using x25519_is_montgomery_ladder [OF _ _ r] r by auto
qed

section \<open>X25519 as the parameter of the protocol core\<close>

definition wireguard_x25519 :: dh where
  "wireguard_x25519 a b = x25519 a b True"

lemma dh_sized_x25519: "dh_sized wireguard_x25519"
  unfolding dh_sized_def wireguard_x25519_def using x25519_value(1) by (metis prod.collapse)

lemma base_point: "X25519_BASE_POINT = basepoint"
  by (simp add: X25519_BASE_POINT_def basepoint_def zeroes_def)

text \<open>The public key of an interface is the \<open>x\<close>-coordinate of its private key times the base point 9.\<close>

lemma public_key_x25519:
  assumes "length key = 32" "wg_derive_public_key wireguard_x25519 key = (ok, pub)"
  shows "length pub = 32 \<and> (ok \<longleftrightarrow> bytes_val pub \<noteq> 0) \<and> bytes_val pub = montgomery_ladder (bytes_val (wireguard_clamp_private_key key)) 9"
proof -
  obtain ret where r: "x25519 key basepoint True = (ret, pub)" "ok = (ret = 0)"
    using assms(2) by (auto simp: wg_derive_public_key_def wireguard_x25519_def split: prod.splits)
  have "bytes_val (replicate n 0) = 0" for n by (induction n) simp_all
  then have "bytes_val basepoint = 9" by (simp add: basepoint_def zeroes_def)
  moreover have "bytes_val pub = montgomery_ladder (bytes_val (scalar_used key True)) (bytes_val basepoint)"
    by (rule x25519_ladder [OF assms(1) _ r(1)]) simp
  ultimately show ?thesis using x25519_value(1,2) [OF r(1)] r(2) by (auto simp: scalar_used_def)
qed

end
