(* ===== verification/Board.thy ===== *)
theory Board
  imports Platform Text "HOL-Library.Signed_Division"
begin

text \<open>
  The StackChan application \<open>src/demo/stackchan/stackchan_main.c\<close>, its lowest layer: the calls it makes
  on the operating system and the chips behind the I2C bus (power, reset and PY32 expanders, amplifier).

  Every call that leaves the program is an event, and a task has the list of its events, newest first.
  What the drivers, the clock, the audio player and the other tasks do is the environment \<open>sc_env\<close>, whose
  functions give the outcome of a call from the events up to and including it. The globals of the file
  are shared with other tasks in the flat build; \<open>en_others\<close> says what those have made of them when a call
  returns, so every call is a point where another task may run.
\<close>

section \<open>Calls\<close>

record i2c_msg_s =
  im_frequency :: nat
  im_addr :: byte
  im_read :: bool
  im_buffer :: bytes
  im_length :: nat

text \<open>The buffer of a transfer entry is the memory \<open>txbuffer\<close> points to when the transfer is made.\<close>

record spi_trans_s =
  tr_cmd :: bool
  tr_deselect :: bool
  tr_nwords :: nat
  tr_txbuffer :: bytes

datatype spi_dev = SPIDEV_DISPLAY nat
datatype spi_mode = SPIDEV_MODE0

record spi_sequence_s =
  sq_dev :: spi_dev
  sq_mode :: spi_mode
  sq_nbits :: nat
  sq_frequency :: nat
  sq_ntrans :: nat
  sq_trans :: "spi_trans_s list"

datatype open_flag = O_RDWR | O_NOCTTY | O_NONBLOCK

datatype sc_event =
  Ev_open string "open_flag list" | Ev_close int
| Ev_i2c int "i2c_msg_s list" | Ev_spi int spi_sequence_s
| Ev_read int nat | Ev_write int bytes | Ev_poll int int | Ev_tcgetattr int | Ev_tcsetattr int
| Ev_clock | Ev_usleep nat | Ev_srand nat | Ev_rand
| Ev_out string | Ev_err string
| Ev_calloc | Ev_free | Ev_task_create
| Ev_player_create | Ev_player_play string | Ev_player_state | Ev_player_release

section \<open>State\<close>

record stackchan_s =
  sc_i2c :: int
  sc_spi :: int
  sc_servo :: int
  sc_pixbuf :: bytes
  sc_trans :: "spi_trans_s list"

record sc_globals =
  g_running :: bool
  g_demo_pid :: int
  g_expr :: int
  g_redraw :: bool
  g_py32_warned :: bool
  g_talking :: bool

definition sc_globals0 :: sc_globals where
  "sc_globals0 = \<lparr>g_running = False, g_demo_pid = -1, g_expr = 0, g_redraw = False,
     g_py32_warned = False, g_talking = False\<rparr>"

text \<open>What one task works on: its \<open>stackchan_s\<close>, the shared globals and the calls it has made.\<close>

record sc_task = stackchan_s +
  tk_globals :: sc_globals
  tk_log :: "sc_event list"

text \<open>
  Outcomes: a negative number is a failure with that negated \<open>errno\<close> (for \<open>en_poll\<close> and \<open>en_read\<close>, where
  the code does not look at it, just a failure). The bytes of a read come with the outcome.
\<close>

record sc_env =
  en_open :: "sc_event list \<Rightarrow> int"
  en_i2c :: "sc_event list \<Rightarrow> int \<times> (nat \<Rightarrow> byte)"
  en_spi :: "sc_event list \<Rightarrow> int"
  en_read :: "sc_event list \<Rightarrow> int \<times> (nat \<Rightarrow> byte)"
  en_write :: "sc_event list \<Rightarrow> int"
  en_poll :: "sc_event list \<Rightarrow> int"
  en_tcgetattr :: "sc_event list \<Rightarrow> int"
  en_clock :: "sc_event list \<Rightarrow> timespec"
  en_rand :: "sc_event list \<Rightarrow> nat"
  en_calloc :: "sc_event list \<Rightarrow> bool"
  en_task_create :: "sc_event list \<Rightarrow> int"
  en_player_create :: "sc_event list \<Rightarrow> bool"
  en_player_play :: "sc_event list \<Rightarrow> int"
  en_player_state :: "sc_event list \<Rightarrow> int"
  en_others :: "sc_event list \<Rightarrow> sc_globals \<Rightarrow> sc_globals"
  en_servo_dev :: string
  en_nxplayer :: bool
  en_right_first :: bool

definition sc_call :: "sc_env \<Rightarrow> sc_event \<Rightarrow> sc_task \<Rightarrow> sc_task" where
  "sc_call V e c = c\<lparr>tk_globals := en_others V (e # tk_log c) (tk_globals c), tk_log := e # tk_log c\<rparr>"

abbreviation sc_usleep :: "sc_env \<Rightarrow> nat \<Rightarrow> sc_task \<Rightarrow> sc_task" where
  "sc_usleep V us \<equiv> sc_call V (Ev_usleep us)"

abbreviation sc_printf :: "sc_env \<Rightarrow> string \<Rightarrow> sc_task \<Rightarrow> sc_task" where
  "sc_printf V s \<equiv> sc_call V (Ev_out s)"

abbreviation sc_eprintf :: "sc_env \<Rightarrow> string \<Rightarrow> sc_task \<Rightarrow> sc_task" where
  "sc_eprintf V s \<equiv> sc_call V (Ev_err s)"

text \<open>The negated \<open>errno\<close> values of NuttX that the code returns.\<close>

abbreviation err_EIO :: int where "err_EIO \<equiv> -5"
abbreviation err_ENOMEM :: int where "err_ENOMEM \<equiv> -12"
abbreviation err_ENODEV :: int where "err_ENODEV \<equiv> -19"
abbreviation err_EINVAL :: int where "err_EINVAL \<equiv> -22"
abbreviation err_EPROTO :: int where "err_EPROTO \<equiv> -71"
abbreviation err_ETIMEDOUT :: int where "err_ETIMEDOUT \<equiv> -110"

text \<open>\<open>if (ret >= 0) { ret = f(...); }\<close> after a statement that has set \<open>ret\<close>.\<close>

definition if_ok :: "int \<times> sc_task \<Rightarrow> (sc_task \<Rightarrow> int \<times> sc_task) \<Rightarrow> int \<times> sc_task" where
  "if_ok p f = (case p of (ret, c) \<Rightarrow> if ret \<ge> 0 then f c else (ret, c))"

section \<open>Opening and closing devices\<close>

definition open_once :: "sc_env \<Rightarrow> int \<Rightarrow> string \<Rightarrow> open_flag list \<Rightarrow> sc_task \<Rightarrow> int \<times> int \<times> sc_task" where
  "open_once V fd path flags c =
     (if fd < 0
      then let c = sc_call V (Ev_open path flags) c;
               r = en_open V (tk_log c)
           in if r < 0
              then (r, -1, sc_eprintf V (println (''stackchan: open '' @ path @ '': '' @ show_int (- r))) c)
              else (0, r, c)
      else (0, fd, c))"

definition open_i2c :: "sc_env \<Rightarrow> sc_task \<Rightarrow> int \<times> sc_task" where
  "open_i2c V c = (case open_once V (sc_i2c c) ''/dev/i2c0'' [O_RDWR] c of (ret, fd, c) \<Rightarrow> (ret, c\<lparr>sc_i2c := fd\<rparr>))"

definition open_spi :: "sc_env \<Rightarrow> sc_task \<Rightarrow> int \<times> sc_task" where
  "open_spi V c = (case open_once V (sc_spi c) ''/dev/spi3'' [O_RDWR] c of (ret, fd, c) \<Rightarrow> (ret, c\<lparr>sc_spi := fd\<rparr>))"

definition spi_trans0 :: spi_trans_s where
  "spi_trans0 = \<lparr>tr_cmd = False, tr_deselect = False, tr_nwords = 0, tr_txbuffer = []\<rparr>"

definition LCD_W :: int where "LCD_W = 320"
definition LCD_H :: int where "LCD_H = 240"
definition LCD_CHUNK :: nat where "LCD_CHUNK = 2048"

text \<open>The number of entries of the array \<open>trans\<close>.\<close>

definition n_trans :: nat where
  "n_trans = 2 + nat (LCD_W * LCD_H * 2) div LCD_CHUNK"

text \<open>\<open>None\<close> for a null pointer.\<close>

definition sc_alloc :: "sc_env \<Rightarrow> sc_task \<Rightarrow> bool \<times> sc_task" where
  "sc_alloc V c =
     (let c = sc_call V Ev_calloc c
      in if en_calloc V (tk_log c)
         then (True, c\<lparr>sc_i2c := -1, sc_spi := -1, sc_servo := -1,
                 sc_pixbuf := zeroes LCD_CHUNK, sc_trans := replicate n_trans spi_trans0\<rparr>)
         else (False, c))"

definition sc_free :: "sc_env \<Rightarrow> sc_task \<Rightarrow> sc_task" where
  "sc_free V c =
     (let c = if sc_i2c c \<ge> 0 then sc_call V (Ev_close (sc_i2c c)) c else c;
          c = if sc_spi c \<ge> 0 then sc_call V (Ev_close (sc_spi c)) c else c;
          c = if sc_servo c \<ge> 0 then sc_call V (Ev_close (sc_servo c)) c else c
      in sc_call V Ev_free c)"

section \<open>I2C\<close>

definition ADDR_AXP2101 :: byte where "ADDR_AXP2101 = 0x34"
definition ADDR_AW9523 :: byte where "ADDR_AW9523 = 0x58"
definition ADDR_PY32 :: byte where "ADDR_PY32 = 0x6f"
definition ADDR_AW88298 :: byte where "ADDR_AW88298 = 0x36"
definition NLEDS :: nat where "NLEDS = 12"

definition FREQ_PY32 :: nat where "FREQ_PY32 = 100000"
definition FREQ_DEFAULT :: nat where "FREQ_DEFAULT = 100000"

definition sc_i2c_freq :: "byte \<Rightarrow> nat" where
  "sc_i2c_freq addr = (if addr = ADDR_PY32 then FREQ_PY32 else FREQ_DEFAULT)"

definition I2C_RETRIES :: nat where "I2C_RETRIES = 5"

text \<open>The loop of \<open>sc_i2c_transfer\<close> with \<open>n\<close> attempts left.\<close>

fun i2c_attempts :: "sc_env \<Rightarrow> nat \<Rightarrow> i2c_msg_s list \<Rightarrow> int \<Rightarrow> sc_task \<Rightarrow> int \<times> (nat \<Rightarrow> byte) \<times> sc_task" where
  "i2c_attempts V 0 msgs ret c = (ret, \<lambda>_. 0, c)"
| "i2c_attempts V (Suc n) msgs ret c =
     (let c = sc_call V (Ev_i2c (sc_i2c c) msgs) c
      in case en_i2c V (tk_log c) of (r, d) \<Rightarrow>
         if r \<ge> 0 then (0, d, c) else i2c_attempts V n msgs r (sc_usleep V 10000 c))"

definition sc_i2c_transfer :: "sc_env \<Rightarrow> i2c_msg_s list \<Rightarrow> sc_task \<Rightarrow> int \<times> (nat \<Rightarrow> byte) \<times> sc_task" where
  "sc_i2c_transfer V msgs c = i2c_attempts V I2C_RETRIES msgs err_EIO c"

definition sc_i2c_write :: "sc_env \<Rightarrow> byte \<Rightarrow> byte \<Rightarrow> bytes \<Rightarrow> sc_task \<Rightarrow> int \<times> sc_task" where
  "sc_i2c_write V addr reg data c =
     (if length data + 1 > 1 + 2 * NLEDS then (err_EINVAL, c)
      else case open_i2c V c of (r, c) \<Rightarrow>
        if r < 0 then (err_EINVAL, c)
        else case sc_i2c_transfer V [\<lparr>im_frequency = sc_i2c_freq addr, im_addr = addr, im_read = False,
                    im_buffer = reg # data, im_length = length data + 1\<rparr>] c
             of (ret, _, c) \<Rightarrow> (ret, c))"

text \<open>The bytes read come back as a list; when the result is negative no caller looks at them.\<close>

definition sc_i2c_read :: "sc_env \<Rightarrow> byte \<Rightarrow> byte \<Rightarrow> nat \<Rightarrow> sc_task \<Rightarrow> int \<times> bytes \<times> sc_task" where
  "sc_i2c_read V addr reg len c =
     (case open_i2c V c of (r, c) \<Rightarrow>
        if r < 0 then (err_ENODEV, [], c)
        else case sc_i2c_transfer V
               [\<lparr>im_frequency = sc_i2c_freq addr, im_addr = addr, im_read = False, im_buffer = [reg], im_length = 1\<rparr>,
                \<lparr>im_frequency = sc_i2c_freq addr, im_addr = addr, im_read = True, im_buffer = [], im_length = len\<rparr>] c
             of (ret, d, c) \<Rightarrow> (ret, map d [0..<len], c))"

definition sc_i2c_w8 :: "sc_env \<Rightarrow> byte \<Rightarrow> byte \<Rightarrow> byte \<Rightarrow> sc_task \<Rightarrow> int \<times> sc_task" where
  "sc_i2c_w8 V addr reg val c = sc_i2c_write V addr reg [val] c"

definition sc_i2c_setbits :: "sc_env \<Rightarrow> byte \<Rightarrow> byte \<Rightarrow> byte \<Rightarrow> bool \<Rightarrow> sc_task \<Rightarrow> int \<times> sc_task" where
  "sc_i2c_setbits V addr reg bits on c =
     (case sc_i2c_read V addr reg 1 c of (ret, d, c) \<Rightarrow>
        if ret < 0 then (ret, c)
        else sc_i2c_w8 V addr reg (if on then hd d OR bits else hd d AND NOT bits) c)"

section \<open>The PY32: servo power and LEDs\<close>

text \<open>The loop of \<open>py32_wait\<close> with \<open>n\<close> rounds left.\<close>

fun py32_polls :: "sc_env \<Rightarrow> nat \<Rightarrow> sc_task \<Rightarrow> int \<times> sc_task" where
  "py32_polls V 0 c = (err_ETIMEDOUT, c)"
| "py32_polls V (Suc n) c =
     (case sc_i2c_read V ADDR_PY32 0x02 1 c of (ret, d, c) \<Rightarrow>
        if ret \<ge> 0 \<and> hd d \<noteq> 0 \<and> hd d \<noteq> 0xff then (0, c)
        else py32_polls V n (sc_usleep V 200000 c))"

definition py32_wait :: "sc_env \<Rightarrow> sc_task \<Rightarrow> int \<times> sc_task" where
  "py32_wait V c = py32_polls V 10 c"

definition set_py32_warned :: "bool \<Rightarrow> sc_task \<Rightarrow> sc_task" where
  "set_py32_warned b c = c\<lparr>tk_globals := (tk_globals c)\<lparr>g_py32_warned := b\<rparr>\<rparr>"

definition servo_power :: "sc_env \<Rightarrow> bool \<Rightarrow> sc_task \<Rightarrow> int \<times> sc_task" where
  "servo_power V on c =
     (case if_ok (if_ok (sc_i2c_setbits V ADDR_PY32 0x03 1 True c)
             (sc_i2c_setbits V ADDR_PY32 0x09 1 True))
             (sc_i2c_setbits V ADDR_PY32 0x05 1 on)
      of (ret, c) \<Rightarrow>
        if ret < 0
        then (ret, if \<not> g_py32_warned (tk_globals c)
                   then set_py32_warned True (sc_eprintf V (println (''stackchan: PY32 (0x'' @ show_hex2 ADDR_PY32
                          @ '') not answering: '' @ show_int ret @ '' (reported once)'')) c)
                   else c)
        else let c = set_py32_warned False c in (0, if on then sc_usleep V 500000 c else c))"

text \<open>The 16-bit colour that \<open>led_set\<close> sends to each LED.\<close>

definition rgb565 :: "byte \<Rightarrow> byte \<Rightarrow> byte \<Rightarrow> u16" where
  "rgb565 r g b = push_bit 8 (ucast (r AND 0xf8)) OR push_bit 3 (ucast (g AND 0xfc)) OR ucast (drop_bit 3 b)"

definition led_set :: "sc_env \<Rightarrow> byte \<Rightarrow> byte \<Rightarrow> byte \<Rightarrow> sc_task \<Rightarrow> int \<times> sc_task" where
  "led_set V r g b c =
     (case if_ok (if_ok (if_ok (sc_i2c_setbits V ADDR_PY32 0x04 (push_bit 5 1) True c)
             (sc_i2c_setbits V ADDR_PY32 0x0a (push_bit 5 1) True))
             (sc_i2c_setbits V ADDR_PY32 0x14 (push_bit 5 1) False))
             (sc_i2c_w8 V ADDR_PY32 0x24 (of_nat NLEDS))
      of (ret, c) \<Rightarrow>
        if ret < 0 then (ret, c)
        else let col = rgb565 r g b;
                 ram = concat (replicate NLEDS [ucast (col AND 0xff), ucast (drop_bit 8 col)])
             in case sc_i2c_write V ADDR_PY32 0x30 ram c of (ret, c) \<Rightarrow>
                  if ret \<ge> 0
                  then case sc_i2c_setbits V ADDR_PY32 0x24 0x40 True c of (ret, c) \<Rightarrow> (ret, sc_usleep V 50000 c)
                  else (ret, c))"

section \<open>The speaker amplifier\<close>

definition amp_write :: "sc_env \<Rightarrow> byte \<Rightarrow> u16 \<Rightarrow> sc_task \<Rightarrow> int \<times> sc_task" where
  "amp_write V reg val c = sc_i2c_write V ADDR_AW88298 reg [ucast (drop_bit 8 val), ucast (val AND 0xff)] c"

definition rate_tbl :: "nat list" where
  "rate_tbl = [4, 5, 6, 8, 10, 11, 15, 20, 22, 44]"

text \<open>The \<open>while\<close> loop that searches the table, from \<open>reg06\<close> on.\<close>

function rate_index :: "nat \<Rightarrow> nat \<Rightarrow> nat" where
  "rate_index r reg06 = (if reg06 < length rate_tbl - 1 \<and> r > rate_tbl ! reg06 then rate_index r (reg06 + 1) else reg06)"
  by pat_completeness auto
termination
  by (relation "measure (\<lambda>(r, reg06). length rate_tbl - reg06)") auto

declare rate_index.simps [simp del]

definition amp_rate :: "u32 \<Rightarrow> u16" where
  "amp_rate rate = of_nat (rate_index (unat ((rate + 1102) div 2205)) 0)"

definition amp_on :: "sc_env \<Rightarrow> u32 \<Rightarrow> sc_task \<Rightarrow> int \<times> sc_task" where
  "amp_on V rate c =
     (case if_ok (if_ok (sc_i2c_setbits V ADDR_AW9523 0x11 0x10 True c)
             (sc_i2c_setbits V ADDR_AW9523 0x04 0x04 False))
             (sc_i2c_setbits V ADDR_AW9523 0x02 0x04 True)
      of (ret, c) \<Rightarrow>
        if ret < 0 then (ret, c)
        else if_ok (if_ok (if_ok (if_ok (amp_write V 0x61 0x0673 (sc_usleep V 10000 c))
               (amp_write V 0x04 0x4040))
               (amp_write V 0x05 0x0008))
               (amp_write V 0x06 (amp_rate rate OR 0x14c0)))
               (amp_write V 0x0c 0x0064))"

definition amp_off :: "sc_env \<Rightarrow> sc_task \<Rightarrow> sc_task" where
  "amp_off V c =
     (let c = snd (amp_write V 0x04 0x4000 c)
      in snd (sc_i2c_setbits V ADDR_AW9523 0x02 0x04 False c))"

section \<open>A board\<close>

text \<open>
  A board for examples: every call succeeds, nothing comes in on the serial line, each call takes a second,
  the player is idle, and the other tasks do nothing.
\<close>

definition board_env :: sc_env where
  "board_env = \<lparr>en_open = (\<lambda>_. 3), en_i2c = (\<lambda>_. (0, \<lambda>_. 1)), en_spi = (\<lambda>_. 0), en_read = (\<lambda>_. (0, \<lambda>_. 0)),
     en_write = (\<lambda>l. case l of Ev_write fd b # _ \<Rightarrow> int (length b) | _ \<Rightarrow> -1), en_poll = (\<lambda>_. 0),
     en_tcgetattr = (\<lambda>_. 0), en_clock = (\<lambda>l. \<lparr>tv_sec = length l, tv_nsec = 0\<rparr>), en_rand = (\<lambda>_. 7),
     en_calloc = (\<lambda>_. True), en_task_create = (\<lambda>_. 12), en_player_create = (\<lambda>_. True),
     en_player_play = (\<lambda>_. 0), en_player_state = (\<lambda>_. 0), en_others = (\<lambda>_ g. g),
     en_servo_dev = ''/dev/ttyS0'', en_nxplayer = True, en_right_first = False\<rparr>"

lemma board_env_simps [simp]:
  "en_open board_env l = 3" "en_i2c board_env l = (0, \<lambda>_. 1)" "en_spi board_env l = 0"
  "en_read board_env l = (0, \<lambda>_. 0)" "en_poll board_env l = 0" "en_tcgetattr board_env l = 0"
  "en_write board_env (Ev_write fd b # l) = int (length b)"
  "en_clock board_env l = \<lparr>tv_sec = length l, tv_nsec = 0\<rparr>" "en_rand board_env l = 7" "en_calloc board_env l"
  "en_task_create board_env l = 12" "en_player_create board_env l" "en_player_play board_env l = 0"
  "en_player_state board_env l = 0" "en_others board_env l g = g" "en_nxplayer board_env" "\<not> en_right_first board_env"
  by (simp_all add: board_env_def)

definition task0 :: sc_task where
  "task0 = \<lparr>sc_i2c = -1, sc_spi = -1, sc_servo = -1, sc_pixbuf = [], sc_trans = [], tk_globals = sc_globals0, tk_log = []\<rparr>"

end
