(* ===== verification/Display.thy ===== *)
theory Display
  imports Board
begin

text \<open>
  The LCD of the StackChan (an ILI9342 on \<open>/dev/spi3\<close>) and the face drawn on it: \<open>lcd_xfer\<close> to
  \<open>expr_parse\<close> of \<open>stackchan_main.c\<close>. Coordinates are the \<open>int\<close>s of the code.
\<close>

abbreviation (input) COLOR_BLACK :: u16 where "COLOR_BLACK \<equiv> 0x0000"
abbreviation (input) COLOR_WHITE :: u16 where "COLOR_WHITE \<equiv> 0xffff"

section \<open>Commands and rectangles\<close>

definition lcd_xfer :: "sc_env \<Rightarrow> spi_trans_s list \<Rightarrow> nat \<Rightarrow> sc_task \<Rightarrow> int \<times> sc_task" where
  "lcd_xfer V ts ntrans c =
     (let c = sc_call V (Ev_spi (sc_spi c)
                \<lparr>sq_dev = SPIDEV_DISPLAY 0, sq_mode = SPIDEV_MODE0, sq_nbits = 8, sq_frequency = 20000000, sq_ntrans = ntrans, sq_trans = ts\<rparr>) c;
          r = en_spi V (tk_log c)
      in if r < 0 then (r, c) else (0, c))"

definition lcd_cmd :: "sc_env \<Rightarrow> byte \<Rightarrow> bytes \<Rightarrow> sc_task \<Rightarrow> int \<times> sc_task" where
  "lcd_cmd V cmd data c =
     lcd_xfer V [\<lparr>tr_cmd = True, tr_deselect = (length data = 0), tr_nwords = 1, tr_txbuffer = [cmd]\<rparr>,
                 \<lparr>tr_cmd = False, tr_deselect = True, tr_nwords = length data, tr_txbuffer = data\<rparr>]
       (if length data > 0 then 2 else 1) c"

text \<open>The four bytes of a window command: first and last column or row.\<close>

definition lcd_window :: "int \<Rightarrow> int \<Rightarrow> bytes" where
  "lcd_window a n = [word_of_int (drop_bit 8 a), word_of_int (a AND 0xff),
     word_of_int (drop_bit 8 (a + n - 1)), word_of_int ((a + n - 1) AND 0xff)]"

text \<open>The loop over \<open>trans\<close> from entry \<open>n\<close> on, with \<open>todo\<close> bytes (\<open>total\<close>) left to send from \<open>buf\<close>.\<close>

function fill_chunks :: "bytes \<Rightarrow> nat \<Rightarrow> nat \<Rightarrow> spi_trans_s list \<Rightarrow> nat \<times> spi_trans_s list" where
  "fill_chunks buf n todo ts =
     (if todo > 0
      then let len = if todo > LCD_CHUNK then LCD_CHUNK else todo
           in fill_chunks buf (n + 1) (todo - len)
                (ts[n := (ts ! n)\<lparr>tr_nwords := len, tr_txbuffer := buf\<rparr>])
      else (n, ts))"
  by pat_completeness auto
termination
  by (relation "measure (\<lambda>(buf, n, todo, ts). todo)") (auto simp: LCD_CHUNK_def)

declare fill_chunks.simps [simp del]

definition lcd_fill :: "sc_env \<Rightarrow> int \<Rightarrow> int \<Rightarrow> int \<Rightarrow> int \<Rightarrow> u16 \<Rightarrow> sc_task \<Rightarrow> int \<times> sc_task" where
  "lcd_fill V x y w h color c =
     (if w \<le> 0 \<or> h \<le> 0 then (0, c)
      else case if_ok (lcd_cmd V 0x2a (lcd_window x w) c) (lcd_cmd V 0x2b (lcd_window y h)) of (ret, c) \<Rightarrow>
        if ret < 0 then (ret, c)
        else let c = c\<lparr>sc_pixbuf := concat (replicate (LCD_CHUNK div 2) [ucast (drop_bit 8 color), ucast (color AND 0xff)])\<rparr>;
                 ts = (replicate n_trans spi_trans0)[0 := spi_trans0\<lparr>tr_cmd := True, tr_nwords := 1, tr_txbuffer := [0x2c]\<rparr>];
                 (n, ts) = fill_chunks (sc_pixbuf c) 1 (nat (w * h * 2) mod 2 ^ 32) ts;
                 ts = ts[n - 1 := (ts ! (n - 1))\<lparr>tr_deselect := True\<rparr>]
             in lcd_xfer V ts n (c\<lparr>sc_trans := ts\<rparr>))"

text \<open>
  The empty loop of \<open>lcd_circle\<close> from \<open>dx\<close> down. It is only entered with \<open>- r \<le> dy \<le> r\<close>, where its test
  fails at \<open>0\<close> at the latest.
\<close>

fun circle_dx :: "int \<Rightarrow> int \<Rightarrow> nat \<Rightarrow> nat" where
  "circle_dx r dy 0 = 0"
| "circle_dx r dy (Suc n) = (if int (Suc n) * int (Suc n) + dy * dy > r * r then circle_dx r dy n else Suc n)"

definition circle_row :: "sc_env \<Rightarrow> int \<Rightarrow> int \<Rightarrow> int \<Rightarrow> u16 \<Rightarrow> int \<Rightarrow> sc_task \<Rightarrow> sc_task" where
  "circle_row V cx cy r color dy c =
     (let dx = int (circle_dx r dy (nat r)) in snd (lcd_fill V (cx - dx) (cy + dy) (2 * dx + 1) 1 color c))"

definition lcd_circle :: "sc_env \<Rightarrow> int \<Rightarrow> int \<Rightarrow> int \<Rightarrow> u16 \<Rightarrow> sc_task \<Rightarrow> sc_task" where
  "lcd_circle V cx cy r color c = fold (circle_row V cx cy r color) [- r..r] c"

definition lcd_init :: "sc_env \<Rightarrow> sc_task \<Rightarrow> int \<times> sc_task" where
  "lcd_init V c =
     (case open_spi V c of (r, c) \<Rightarrow>
        if r < 0 then (err_ENODEV, c)
        else case if_ok (if_ok (if_ok (sc_i2c_setbits V ADDR_AXP2101 0x90 0x80 True c)
                    (sc_i2c_write V ADDR_AXP2101 0x99 [24]))
                    (sc_i2c_setbits V ADDR_AW9523 0x03 0x02 True))
                    (sc_i2c_setbits V ADDR_AW9523 0x05 0x02 False)
             of (ret, c) \<Rightarrow>
               if ret < 0 then (ret, sc_eprintf V (println (''stackchan: LCD power setup failed: '' @ show_int ret)) c)
               else case lcd_cmd V 0x11 [] c of (ret, c) \<Rightarrow>
                    case if_ok (if_ok (if_ok (if_ok (ret, sc_usleep V 120000 c)
                           (lcd_cmd V 0x3a [0x55]))
                           (lcd_cmd V 0x36 [0x08]))
                           (lcd_cmd V 0x21 []))
                           (lcd_cmd V 0x29 [])
                    of (ret, c) \<Rightarrow>
                      (ret, if ret < 0 then sc_eprintf V (println (''stackchan: LCD init failed: '' @ show_int ret)) c else c))"

section \<open>The face\<close>

abbreviation (input) EXPR_NEUTRAL :: int where "EXPR_NEUTRAL \<equiv> 0"
abbreviation (input) EXPR_HAPPY :: int where "EXPR_HAPPY \<equiv> 1"
abbreviation (input) EXPR_SAD :: int where "EXPR_SAD \<equiv> 2"
abbreviation (input) EXPR_ANGRY :: int where "EXPR_ANGRY \<equiv> 3"
abbreviation (input) EXPR_SLEEPY :: int where "EXPR_SLEEPY \<equiv> 4"
abbreviation (input) EXPR_SURPRISED :: int where "EXPR_SURPRISED \<equiv> 5"

abbreviation (input) EYE_R :: int where "EYE_R \<equiv> 16"
abbreviation (input) EYE_LX :: int where "EYE_LX \<equiv> 96"
abbreviation (input) EYE_RX :: int where "EYE_RX \<equiv> 224"
abbreviation (input) EYE_Y :: int where "EYE_Y \<equiv> 100"
abbreviation (input) EYE_BOX :: int where "EYE_BOX \<equiv> 28"
abbreviation (input) MOUTH_W :: int where "MOUTH_W \<equiv> 90"
abbreviation (input) MOUTH_H :: int where "MOUTH_H \<equiv> 8"
abbreviation (input) MOUTH_Y :: int where "MOUTH_Y \<equiv> 168"
abbreviation (input) MOUTH_X0 :: int where "MOUTH_X0 \<equiv> 100"
abbreviation (input) MOUTH_Y0 :: int where "MOUTH_Y0 \<equiv> 130"
abbreviation (input) MOUTH_X1 :: int where "MOUTH_X1 \<equiv> 220"
abbreviation (input) MOUTH_Y1 :: int where "MOUTH_Y1 \<equiv> 230"

text \<open>One row of the brow that cuts an angry eye.\<close>

definition angry_row :: "sc_env \<Rightarrow> int \<Rightarrow> bool \<Rightarrow> int \<Rightarrow> sc_task \<Rightarrow> sc_task" where
  "angry_row V cx left y c =
     (let cut = 2 * (y - (EYE_Y - EYE_R - 2))
      in if left then snd (lcd_fill V (cx - EYE_R + cut) y (2 * EYE_R + 1 - cut) 1 COLOR_BLACK c)
         else snd (lcd_fill V (cx - EYE_R) y (2 * EYE_R + 1 - cut) 1 COLOR_BLACK c))"

definition face_eye :: "sc_env \<Rightarrow> int \<Rightarrow> bool \<Rightarrow> int \<Rightarrow> bool \<Rightarrow> sc_task \<Rightarrow> sc_task" where
  "face_eye V cx left expr opened c =
     (let c = snd (lcd_fill V (cx - EYE_BOX) (EYE_Y - EYE_BOX) (2 * EYE_BOX + 1) (2 * EYE_BOX + 1) COLOR_BLACK c)
      in if \<not> opened \<or> expr = EXPR_SLEEPY
         then snd (lcd_fill V (cx - EYE_R) (EYE_Y - 3) (2 * EYE_R + 1) 6 COLOR_WHITE c)
         else if expr = EXPR_HAPPY
         then lcd_circle V cx (EYE_Y + 8) EYE_R COLOR_BLACK (lcd_circle V cx EYE_Y EYE_R COLOR_WHITE c)
         else if expr = EXPR_SAD
         then lcd_circle V cx (EYE_Y + 4) (EYE_R - 4) COLOR_WHITE c
         else if expr = EXPR_ANGRY
         then fold (angry_row V cx left) [EYE_Y - EYE_R..EYE_Y] (lcd_circle V cx EYE_Y EYE_R COLOR_WHITE c)
         else if expr = EXPR_SURPRISED
         then lcd_circle V cx EYE_Y (EYE_R + 6) COLOR_WHITE c
         else lcd_circle V cx EYE_Y EYE_R COLOR_WHITE c)"

definition face_eyes :: "sc_env \<Rightarrow> int \<Rightarrow> bool \<Rightarrow> sc_task \<Rightarrow> sc_task" where
  "face_eyes V expr opened c = face_eye V EYE_RX False expr opened (face_eye V EYE_LX True expr opened c)"

definition face_mouth :: "sc_env \<Rightarrow> int \<Rightarrow> sc_task \<Rightarrow> sc_task" where
  "face_mouth V expr c =
     (let cx = LCD_W div 2;
          c = snd (lcd_fill V MOUTH_X0 MOUTH_Y0 (MOUTH_X1 - MOUTH_X0) (MOUTH_Y1 - MOUTH_Y0) COLOR_BLACK c)
      in if expr = EXPR_HAPPY
         then lcd_circle V cx 148 30 COLOR_BLACK (lcd_circle V cx 160 30 COLOR_WHITE c)
         else if expr = EXPR_SAD
         then lcd_circle V cx 208 30 COLOR_BLACK (lcd_circle V cx 196 30 COLOR_WHITE c)
         else if expr = EXPR_ANGRY then snd (lcd_fill V (cx - 30) 172 60 6 COLOR_WHITE c)
         else if expr = EXPR_SLEEPY then snd (lcd_fill V (cx - 15) 170 30 6 COLOR_WHITE c)
         else if expr = EXPR_SURPRISED
         then lcd_circle V cx 175 8 COLOR_BLACK (lcd_circle V cx 175 14 COLOR_WHITE c)
         else snd (lcd_fill V (cx - MOUTH_W div 2) MOUTH_Y MOUTH_W MOUTH_H COLOR_WHITE c))"

definition face_expr :: "sc_env \<Rightarrow> int \<Rightarrow> sc_task \<Rightarrow> sc_task" where
  "face_expr V expr c = face_mouth V expr (face_eyes V expr True c)"

definition face_draw :: "sc_env \<Rightarrow> int \<Rightarrow> sc_task \<Rightarrow> int \<times> sc_task" where
  "face_draw V expr c =
     (case lcd_init V c of (ret, c) \<Rightarrow>
        if ret < 0 then (ret, c)
        else case lcd_fill V 0 0 LCD_W LCD_H COLOR_BLACK c of (ret, c) \<Rightarrow> (ret, face_expr V expr c))"

definition face_blink :: "sc_env \<Rightarrow> int \<Rightarrow> sc_task \<Rightarrow> sc_task" where
  "face_blink V expr c = face_eyes V expr True (sc_usleep V 120000 (face_eyes V expr False c))"

definition g_expr_names :: "string list" where
  "g_expr_names = [''neutral'', ''happy'', ''sad'', ''angry'', ''sleepy'', ''surprised'']"

definition expr_parse :: "string \<Rightarrow> int" where
  "expr_parse name =
     (case find (\<lambda>i. name = g_expr_names ! i) [0..<length g_expr_names] of Some i \<Rightarrow> int i | None \<Rightarrow> -1)"

end
