(* ===== verification/Servo.thy ===== *)
theory Servo
  imports Board
begin

text \<open>
  The servos of the StackChan (Feetech SCS protocol on a serial line): \<open>servo_open\<close> to
  \<open>servo_torque\<close> of \<open>stackchan_main.c\<close>. The loops of \<open>servo_xfer\<close> end when the line or the clock let
  them, so what may not return is an option, \<open>None\<close> for a call that does not return.
\<close>

section \<open>The serial line\<close>

text \<open>\<open>read\<close> of at most \<open>n\<close> bytes: the result, and the bytes when it is positive.\<close>

definition sc_read :: "sc_env \<Rightarrow> nat \<Rightarrow> sc_task \<Rightarrow> int \<times> bytes \<times> sc_task" where
  "sc_read V n c =
     (let c = sc_call V (Ev_read (sc_servo c) n) c
      in case en_read V (tk_log c) of (r, d) \<Rightarrow>
         let ret = min r (int n) in (ret, map d [0..<nat ret], c))"

definition sc_clock :: "sc_env \<Rightarrow> sc_task \<Rightarrow> timespec \<times> sc_task" where
  "sc_clock V c = (let c = sc_call V Ev_clock c in (en_clock V (tk_log c), c))"

definition servo_open :: "sc_env \<Rightarrow> sc_task \<Rightarrow> int \<times> sc_task" where
  "servo_open V c =
     (if sc_servo c \<ge> 0 then (0, c)
      else case open_once V (sc_servo c) (en_servo_dev V) [O_RDWR, O_NOCTTY, O_NONBLOCK] c of (r, fd, c) \<Rightarrow>
        let c = c\<lparr>sc_servo := fd\<rparr>
        in if r < 0 then (err_ENODEV, c)
           else let c = sc_call V (Ev_tcgetattr fd) c
                in (0, if en_tcgetattr V (tk_log c) = 0 then sc_call V (Ev_tcsetattr fd) c else c))"

section \<open>servo_xfer\<close>

text \<open>Reading until nothing is left.\<close>

partial_function (option) servo_drain :: "sc_env \<Rightarrow> sc_task \<Rightarrow> sc_task option" where
  "servo_drain V c =
     (case sc_read V 16 c of (r, _, c) \<Rightarrow> if r > 0 then servo_drain V c else Some c)"

definition servo_packet :: "byte \<Rightarrow> byte \<Rightarrow> bytes \<Rightarrow> bytes" where
  "servo_packet sid inst args =
     (let body = [sid, of_nat (length args + 2), inst] @ args
      in [0xff, 0xff] @ body @ [NOT (fold (\<lambda>b sum. sum + b) body 0)])"

text \<open>The milliseconds between two clock readings; C division truncates. The \<open>long\<close> of the code is taken as exact.\<close>

definition elapsed_ms :: "timespec \<Rightarrow> timespec \<Rightarrow> int" where
  "elapsed_ms start now =
     (int (tv_sec now) - int (tv_sec start)) * 1000 + (int (tv_nsec now) - int (tv_nsec start)) sdiv 1000000"

definition SERVO_REPLY_MS :: int where "SERVO_REPLY_MS = 25"

text \<open>The loop that collects \<open>want\<close> bytes; \<open>rx\<close> holds those that have come.\<close>

partial_function (option) servo_collect ::
  "sc_env \<Rightarrow> timespec \<Rightarrow> nat \<Rightarrow> bytes \<Rightarrow> sc_task \<Rightarrow> (int \<times> bytes \<times> sc_task) option" where
  "servo_collect V start want rx c =
     (if length rx < want
      then case sc_clock V c of (now, c) \<Rightarrow>
           if elapsed_ms start now \<ge> SERVO_REPLY_MS then Some (err_ETIMEDOUT, rx, c)
           else let c = sc_call V (Ev_poll (sc_servo c) (SERVO_REPLY_MS - elapsed_ms start now)) c
                in if en_poll V (tk_log c) \<le> 0 then servo_collect V start want rx c
                   else case sc_read V (want - length rx) c of (ret, d, c) \<Rightarrow>
                        servo_collect V start want (if ret > 0 then rx @ d else rx) c
      else Some (0, rx, c))"

text \<open>What \<open>servo_xfer\<close> makes of a status packet: the result and the parameters.\<close>

definition servo_reply :: "sc_env \<Rightarrow> byte \<Rightarrow> nat \<Rightarrow> bytes \<Rightarrow> sc_task \<Rightarrow> int \<times> bytes \<times> sc_task" where
  "servo_reply V sid nparams rx c =
     (if rx ! 0 \<noteq> 0xff \<or> rx ! 1 \<noteq> 0xff \<or> rx ! 2 \<noteq> sid then (err_EPROTO, [], c)
      else let c = if rx ! 4 \<noteq> 0
                   then sc_eprintf V (println (''stackchan: servo '' @ show_nat (unat sid) @ '' status 0x'' @ show_hex2 (rx ! 4))) c
                   else c
           in (int nparams, bytes_at 5 nparams rx, c))"

definition servo_xfer :: "sc_env \<Rightarrow> byte \<Rightarrow> byte \<Rightarrow> bytes \<Rightarrow> nat \<Rightarrow> sc_task \<Rightarrow> (int \<times> bytes \<times> sc_task) option" where
  "servo_xfer V sid inst args nparams c =
     (if length args + 6 > 16 \<or> 6 + nparams > 16 then Some (err_EINVAL, [], c)
      else case servo_open V c of (r, c) \<Rightarrow>
        if r < 0 then Some (err_EINVAL, [], c)
        else case servo_drain V c of None \<Rightarrow> None | Some c \<Rightarrow>
          let pkt = servo_packet sid inst args;
              c = sc_call V (Ev_write (sc_servo c) pkt) c
          in if en_write V (tk_log c) \<noteq> int (6 + length args) then Some (err_EIO, [], c)
             else case sc_clock V c of (start, c) \<Rightarrow>
               (case servo_collect V start (6 + nparams) [] c of None \<Rightarrow> None | Some (ret, rx, c) \<Rightarrow>
                  Some (if ret < 0 then (ret, [], c) else servo_reply V sid nparams rx c)))"

section \<open>Commands\<close>

definition servo_ping :: "sc_env \<Rightarrow> byte \<Rightarrow> sc_task \<Rightarrow> (int \<times> sc_task) option" where
  "servo_ping V sid c = map_option (\<lambda>(ret, _, c). (ret, c)) (servo_xfer V sid 0x01 [] 0 c)"

definition servo_pos :: "sc_env \<Rightarrow> byte \<Rightarrow> sc_task \<Rightarrow> (int \<times> sc_task) option" where
  "servo_pos V sid c =
     map_option (\<lambda>(ret, p, c). (if ret < 0 then ret else push_bit 8 (uint (p ! 0)) OR uint (p ! 1), c))
       (servo_xfer V sid 0x02 [0x38, 2] 2 c)"

definition g_limit :: "(int \<times> int) list" where
  "g_limit = [(0, 0), (51, 869), (620, 900)]"

definition servo_goal :: "byte \<Rightarrow> int \<Rightarrow> int" where
  "servo_goal sid pos =
     (if pos < fst (g_limit ! unat sid) then fst (g_limit ! unat sid)
      else if pos > snd (g_limit ! unat sid) then snd (g_limit ! unat sid)
      else pos)"

definition servo_goto :: "sc_env \<Rightarrow> byte \<Rightarrow> int \<Rightarrow> int \<Rightarrow> sc_task \<Rightarrow> (int \<times> sc_task) option" where
  "servo_goto V sid pos ms c =
     (let pos = servo_goal sid pos
      in map_option (\<lambda>(ret, _, c). (ret, c))
           (servo_xfer V sid 0x03 [0x2a, word_of_int (drop_bit 8 pos), word_of_int (pos AND 0xff),
              word_of_int (drop_bit 8 ms), word_of_int (ms AND 0xff), 0, 0] 0 c))"

definition servo_torque :: "sc_env \<Rightarrow> byte \<Rightarrow> bool \<Rightarrow> sc_task \<Rightarrow> (int \<times> sc_task) option" where
  "servo_torque V sid on c =
     map_option (\<lambda>(ret, _, c). (ret, c)) (servo_xfer V sid 0x03 [0x28, if on then 1 else 0] 0 c)"

end
