(* ===== verification/Stackchan.thy ===== *)
theory Stackchan
  imports Display Servo
begin

text \<open>
  The commands of the StackChan application and its background task: \<open>say\<close>, \<open>demo_task\<close>, \<open>cmd_servo\<close>
  and \<open>main\<close> of \<open>stackchan_main.c\<close>. A command returns its exit status and the task state, or \<open>None\<close> when
  it does not return.
\<close>

definition on_globals :: "(sc_globals \<Rightarrow> sc_globals) \<Rightarrow> sc_task \<Rightarrow> sc_task" where
  "on_globals f c = c\<lparr>tk_globals := f (tk_globals c)\<rparr>"

abbreviation g_expr_now :: "sc_task \<Rightarrow> int" where
  "g_expr_now c \<equiv> g_expr (tk_globals c)"

section \<open>Speaking\<close>

definition player_state :: "sc_env \<Rightarrow> sc_task \<Rightarrow> int \<times> sc_task" where
  "player_state V c = (let c = sc_call V Ev_player_state c in (en_player_state V (tk_log c), c))"

text \<open>At most \<open>n\<close> times 100 ms for the player to leave its idle state.\<close>

fun say_start :: "sc_env \<Rightarrow> nat \<Rightarrow> sc_task \<Rightarrow> sc_task" where
  "say_start V 0 c = c"
| "say_start V (Suc n) c =
     (case player_state V c of (st, c) \<Rightarrow> if st = 0 then say_start V n (sc_usleep V 100000 c) else c)"

text \<open>The two loops that wait for the end, without and with a mouth to move.\<close>

partial_function (option) say_wait :: "sc_env \<Rightarrow> sc_task \<Rightarrow> sc_task option" where
  "say_wait V c =
     (case player_state V c of (st, c) \<Rightarrow> if st \<noteq> 0 then say_wait V (sc_usleep V 100000 c) else Some c)"

partial_function (option) say_move :: "sc_env \<Rightarrow> bool \<Rightarrow> sc_task \<Rightarrow> sc_task option" where
  "say_move V opened c =
     (case player_state V c of (st, c) \<Rightarrow>
        if st \<noteq> 0
        then say_move V (\<not> opened)
               (sc_usleep V 150000 (face_mouth V (if \<not> opened then EXPR_SURPRISED else g_expr_now c) c))
        else Some c)"

text \<open>What is done while the stream plays.\<close>

definition say_talk :: "sc_env \<Rightarrow> sc_task \<Rightarrow> sc_task option" where
  "say_talk V c =
     (if g_demo_pid (tk_globals c) \<ge> 0
      then map_option (on_globals (\<lambda>g. g\<lparr>g_talking := False\<rparr>)) (say_wait V (on_globals (\<lambda>g. g\<lparr>g_talking := True\<rparr>) c))
      else case open_spi V c of (r, c) \<Rightarrow>
        if r \<ge> 0 then map_option (\<lambda>c. face_mouth V (g_expr_now c) c) (say_move V False c)
        else Some c)"

definition say :: "sc_env \<Rightarrow> string \<Rightarrow> u32 \<Rightarrow> sc_task \<Rightarrow> (int \<times> sc_task) option" where
  "say V src rate c =
     (case amp_on V rate c of (ret, c) \<Rightarrow>
        if ret < 0 then Some (ret, sc_eprintf V (println (''stackchan: speaker amplifier: '' @ show_int ret)) c)
        else let c = sc_call V Ev_player_create c
             in if \<not> en_player_create V (tk_log c) then Some (err_ENOMEM, amp_off V c)
                else let c = sc_call V (Ev_player_play src) c;
                         ret = en_player_play V (tk_log c);
                         (ret, c) = (if ret \<ge> 0
                                     then case player_state V (say_start V 50 c) of (st, c) \<Rightarrow>
                                          (if st = 0 then err_ETIMEDOUT else ret, c)
                                     else (ret, c))
                     in map_option
                          (\<lambda>c. (if ret < 0 then ret else 0, amp_off V (sc_call V Ev_player_release (sc_usleep V 800000 c))))
                          (if ret < 0
                           then Some (sc_eprintf V (println (''stackchan: cannot play '' @ src @ '': '' @ show_int ret)) c)
                           else say_talk V c))"

section \<open>The background task\<close>

text \<open>The local variables of the loop.\<close>

record demo_s =
  dm_tick :: int
  dm_next_blink :: int
  dm_next_look :: int
  dm_talk_open :: bool
  dm_servo_ok :: bool

definition sc_rand :: "sc_env \<Rightarrow> sc_task \<Rightarrow> nat \<times> sc_task" where
  "sc_rand V c = (let c = sc_call V Ev_rand c in (en_rand V (tk_log c), c))"

definition demo_mouth :: "sc_env \<Rightarrow> demo_s \<Rightarrow> sc_task \<Rightarrow> demo_s \<times> sc_task" where
  "demo_mouth V d c =
     (if g_talking (tk_globals c)
      then let d = d\<lparr>dm_talk_open := \<not> dm_talk_open d\<rparr>
           in (d, face_mouth V (if dm_talk_open d then EXPR_SURPRISED else g_expr_now c) c)
      else if dm_talk_open d then (d\<lparr>dm_talk_open := False\<rparr>, face_mouth V (g_expr_now c) c)
      else (d, c))"

definition demo_redraw :: "sc_env \<Rightarrow> sc_task \<Rightarrow> sc_task" where
  "demo_redraw V c =
     (if g_redraw (tk_globals c)
      then let c = on_globals (\<lambda>g. g\<lparr>g_redraw := False\<rparr>) c in face_expr V (g_expr_now c) c
      else c)"

definition demo_blink :: "sc_env \<Rightarrow> demo_s \<Rightarrow> sc_task \<Rightarrow> demo_s \<times> sc_task" where
  "demo_blink V d c =
     (if dm_tick d \<ge> dm_next_blink d
      then case sc_rand V (face_blink V (g_expr_now c) c) of (r, c) \<Rightarrow>
           (d\<lparr>dm_next_blink := dm_tick d + 30 + int (r mod 20)\<rparr>, c)
      else (d, c))"

definition demo_look :: "sc_env \<Rightarrow> demo_s \<Rightarrow> sc_task \<Rightarrow> (demo_s \<times> sc_task) option" where
  "demo_look V d c =
     (if dm_tick d \<ge> dm_next_look d
      then let (ok, c) = (if \<not> dm_servo_ok d
                          then case servo_power V True c of (ret, c) \<Rightarrow> (ret = 0, c)
                          else (True, c));
               d = d\<lparr>dm_servo_ok := ok\<rparr>
           in if ok
              then case sc_rand V c of (r, c) \<Rightarrow>
                   (case servo_goto V 1 (400 + int (r mod 121)) 600 c of None \<Rightarrow> None | Some (_, c) \<Rightarrow>
                    case sc_rand V c of (r, c) \<Rightarrow>
                   (case servo_goto V 2 (630 + int (r mod 61)) 600 c of None \<Rightarrow> None | Some (_, c) \<Rightarrow>
                    case sc_rand V c of (r, c) \<Rightarrow> Some (d\<lparr>dm_next_look := dm_tick d + 20 + int (r mod 20)\<rparr>, c)))
              else Some (d\<lparr>dm_next_look := dm_tick d + 100\<rparr>, c)
      else Some (d, c))"

text \<open>One round of the loop.\<close>

definition demo_tick :: "sc_env \<Rightarrow> demo_s \<Rightarrow> sc_task \<Rightarrow> (demo_s \<times> sc_task) option" where
  "demo_tick V d c =
     (case demo_mouth V d c of (d, c) \<Rightarrow>
      case demo_blink V d (demo_redraw V c) of (d, c) \<Rightarrow>
      case demo_look V d c of None \<Rightarrow> None
      | Some (d, c) \<Rightarrow> Some (d\<lparr>dm_tick := dm_tick d + 1\<rparr>, sc_usleep V 100000 c))"

partial_function (option) demo_loop :: "sc_env \<Rightarrow> demo_s \<Rightarrow> sc_task \<Rightarrow> sc_task option" where
  "demo_loop V d c =
     (if g_running (tk_globals c)
      then case demo_tick V d c of None \<Rightarrow> None | Some (d, c) \<Rightarrow> demo_loop V d c
      else Some c)"

text \<open>From the end of the loop to the return.\<close>

definition demo_end :: "sc_env \<Rightarrow> sc_task \<Rightarrow> (int \<times> sc_task) option" where
  "demo_end V c =
     (case servo_goto V 1 460 600 c of None \<Rightarrow> None | Some (_, c) \<Rightarrow>
     (case servo_goto V 2 650 600 c of None \<Rightarrow> None | Some (_, c) \<Rightarrow>
     (case servo_torque V 1 False (sc_usleep V 700000 c) of None \<Rightarrow> None | Some (_, c) \<Rightarrow>
     (case servo_torque V 2 False c of None \<Rightarrow> None | Some (_, c) \<Rightarrow>
        Some (0, on_globals (\<lambda>g. g\<lparr>g_demo_pid := -1\<rparr>) (sc_free V (snd (led_set V 0 0 0 c))))))))"

definition demo_start :: "sc_env \<Rightarrow> sc_task \<Rightarrow> demo_s \<times> sc_task" where
  "demo_start V c =
     (case sc_clock V c of (ts, c) \<Rightarrow>
      let c = sc_call V (Ev_srand (tv_nsec ts)) c;
          c = snd (face_draw V (g_expr_now c) c);
          c = snd (py32_wait V c);
          c = snd (led_set V 0 0 24 c)
      in case servo_power V True c of (ret, c) \<Rightarrow>
         (\<lparr>dm_tick = 0, dm_next_blink = 30, dm_next_look = 12, dm_talk_open = False, dm_servo_ok = (ret = 0)\<rparr>, c))"

definition demo_task :: "sc_env \<Rightarrow> sc_task \<Rightarrow> (int \<times> sc_task) option" where
  "demo_task V c =
     (case sc_alloc V c of (ok, c) \<Rightarrow>
        if \<not> ok then Some (1, on_globals (\<lambda>g. g\<lparr>g_demo_pid := -1\<rparr>) c)
        else case demo_start V c of (d, c) \<Rightarrow>
          (case demo_loop V d c of None \<Rightarrow> None | Some c \<Rightarrow> demo_end V c))"

section \<open>Commands\<close>

definition stackchan_usage :: "sc_env \<Rightarrow> sc_task \<Rightarrow> sc_task" where
  "stackchan_usage V c = sc_printf V (concat (map println
     [''Usage: stackchan <command>'',
      ''  start | stop | status     background face + head motion'',
      ''  py32                      read the PY32 version (body I/O)'',
      ''  face [<expression>]       neutral happy sad angry sleepy'',
      ''                            surprised'',
      ''  blink                     blink once'',
      ''  say <file|http://url> [rate]  play a WAV and move the mouth'',
      ''  led <r> <g> <b>           all 12 LEDs (0-255)'',
      ''  servo on | off            servo power (VM_EN) / torque off'',
      ''  servo ping                ping pan (1) and tilt (2)'',
      ''  servo pos                 read positions'',
      ''  servo move <pan> <tilt>   move (pan '' @ show_int (fst (g_limit ! 1)) @ ''-'' @ show_int (snd (g_limit ! 1))
        @ '', tilt '' @ show_int (fst (g_limit ! 2)) @ ''-'' @ show_int (snd (g_limit ! 2)) @ '')''])) c"

definition report :: "sc_env \<Rightarrow> string \<Rightarrow> int \<times> sc_task \<Rightarrow> sc_task" where
  "report V what p =
     (case p of (ret, c) \<Rightarrow>
        sc_printf V (println (if ret < 0 then what @ '': error '' @ show_int ret else what @ '': ok'')) c)"

definition servo_ping_line :: "sc_env \<Rightarrow> byte \<Rightarrow> sc_task \<Rightarrow> sc_task option" where
  "servo_ping_line V sid c =
     map_option (\<lambda>(ret, c). sc_printf V (println (''servo '' @ show_nat (unat sid) @ '': ''
        @ (if ret \<ge> 0 then ''ok'' else ''no reply'') @ '' ('' @ show_int ret @ '')'')) c)
       (servo_ping V sid c)"

text \<open>The two arguments of one \<open>printf\<close> are evaluated in an order that C leaves open.\<close>

definition servo_pos_line :: "sc_env \<Rightarrow> sc_task \<Rightarrow> sc_task option" where
  "servo_pos_line V c =
     (let (a, b) = (if en_right_first V then (2, 1) else (1, 2))
      in case servo_pos V a c of None \<Rightarrow> None | Some (p, c) \<Rightarrow>
         (case servo_pos V b c of None \<Rightarrow> None | Some (q, c) \<Rightarrow>
            let (pan, tilt) = (if en_right_first V then (q, p) else (p, q))
            in Some (sc_printf V (println (''pan '' @ show_int pan @ '' tilt '' @ show_int tilt)) c)))"

definition cmd_servo :: "sc_env \<Rightarrow> string list \<Rightarrow> sc_task \<Rightarrow> (int \<times> sc_task) option" where
  "cmd_servo V argv c =
     (if length argv < 3 then Some (1, stackchan_usage V c)
      else if argv ! 2 = ''on'' then Some (0, report V ''VM_EN on'' (servo_power V True c))
      else if argv ! 2 = ''off''
      then case servo_torque V 1 False c of None \<Rightarrow> None | Some p \<Rightarrow>
           map_option (\<lambda>q. (0, report V ''tilt torque off'' q)) (servo_torque V 2 False (report V ''pan torque off'' p))
      else if argv ! 2 = ''ping''
      then case servo_ping_line V 1 c of None \<Rightarrow> None | Some c \<Rightarrow> map_option (Pair 0) (servo_ping_line V 2 c)
      else if argv ! 2 = ''pos'' then map_option (Pair 0) (servo_pos_line V c)
      else if argv ! 2 = ''move'' \<and> length argv = 5
      then case servo_goto V 1 (atoi (argv ! 3)) 500 c of None \<Rightarrow> None | Some p \<Rightarrow>
           map_option (\<lambda>q. (0, report V ''tilt'' q)) (servo_goto V 2 (atoi (argv ! 4)) 500 (report V ''pan'' p))
      else Some (1, stackchan_usage V c))"

definition cmd_start :: "sc_env \<Rightarrow> sc_task \<Rightarrow> int \<times> sc_task" where
  "cmd_start V c =
     (if g_demo_pid (tk_globals c) \<ge> 0
      then (0, sc_printf V (println (''already running (pid '' @ show_int (g_demo_pid (tk_globals c)) @ '')'')) c)
      else let c = sc_call V Ev_task_create (on_globals (\<lambda>g. g\<lparr>g_running := True\<rparr>) c);
               ret = en_task_create V (tk_log c)
           in if ret < 0
              then (1, sc_printf V (println (''task_create failed: '' @ show_int (- ret))) (on_globals (\<lambda>g. g\<lparr>g_running := False\<rparr>) c))
              else (0, sc_printf V (println (''started (pid '' @ show_int ret @ '')'')) (on_globals (\<lambda>g. g\<lparr>g_demo_pid := ret\<rparr>) c)))"

definition cmd_py32 :: "sc_env \<Rightarrow> sc_task \<Rightarrow> int \<times> sc_task" where
  "cmd_py32 V c =
     (case sc_i2c_read V ADDR_PY32 0x02 1 c of (ret, ver, c) \<Rightarrow>
        (0, sc_printf V (println (if ret < 0 then ''PY32: no answer ('' @ show_int ret @ '')''
              else ''PY32: version 0x'' @ show_hex2 (hd ver)
                   @ (if hd ver = 0 \<or> hd ver = 0xff then '' (not running)'' else ''''))) c))"

definition cmd_face :: "sc_env \<Rightarrow> string list \<Rightarrow> sc_task \<Rightarrow> int \<times> sc_task" where
  "cmd_face V argv c =
     (let expr = if length argv > 2 then expr_parse (argv ! 2) else g_expr_now c
      in if expr < 0 then (1, stackchan_usage V c)
         else if g_demo_pid (tk_globals c) \<ge> 0
         then (0, sc_printf V (println (''face: '' @ g_expr_names ! nat expr))
                    (on_globals (\<lambda>g. g\<lparr>g_expr := expr, g_redraw := True\<rparr>) c))
         else (0, report V ''face'' (face_draw V expr (on_globals (\<lambda>g. g\<lparr>g_expr := expr\<rparr>) c))))"

definition cmd_blink :: "sc_env \<Rightarrow> sc_task \<Rightarrow> int \<times> sc_task" where
  "cmd_blink V c =
     (case open_spi V c of (ret, c) \<Rightarrow>
        (0, report V ''blink'' (ret, if ret \<ge> 0 then face_blink V (g_expr_now c) c else c)))"

text \<open>The commands that need the \<open>stackchan_s\<close>.\<close>

definition sc_command :: "sc_env \<Rightarrow> string list \<Rightarrow> sc_task \<Rightarrow> (int \<times> sc_task) option" where
  "sc_command V argv c =
     (if argv ! 1 = ''py32'' then Some (cmd_py32 V c)
      else if argv ! 1 = ''face'' then Some (cmd_face V argv c)
      else if en_nxplayer V \<and> argv ! 1 = ''say'' \<and> length argv \<ge> 3
      then map_option (\<lambda>p. (0, report V ''say'' p))
             (say V (argv ! 2) (if length argv \<ge> 4 then strtoul (argv ! 3) else 16000) c)
      else if argv ! 1 = ''blink'' then Some (cmd_blink V c)
      else if argv ! 1 = ''led'' \<and> length argv = 5
      then Some (0, report V ''led'' (led_set V (word_of_int (atoi (argv ! 2))) (word_of_int (atoi (argv ! 3)))
                      (word_of_int (atoi (argv ! 4))) c))
      else if argv ! 1 = ''servo'' then cmd_servo V argv c
      else Some (1, stackchan_usage V c))"

definition stackchan_main :: "sc_env \<Rightarrow> string list \<Rightarrow> sc_task \<Rightarrow> (int \<times> sc_task) option" where
  "stackchan_main V argv c =
     (if length argv < 2 then Some (1, stackchan_usage V c)
      else if argv ! 1 = ''start'' then Some (cmd_start V c)
      else if argv ! 1 = ''stop''
      then Some (0, sc_printf V (println ''stopping'') (on_globals (\<lambda>g. g\<lparr>g_running := False\<rparr>) c))
      else if argv ! 1 = ''status''
      then Some (0, sc_printf V (println (''demo '' @ (if g_demo_pid (tk_globals c) \<ge> 0 then ''running'' else ''stopped''))) c)
      else case sc_alloc V c of (ok, c) \<Rightarrow>
        if \<not> ok then Some (1, c)
        else map_option (\<lambda>(ret, c). (ret, sc_free V c)) (sc_command V argv c))"

end
