(* ===== verification/Display_Spec.thy ===== *)
theory Display_Spec
  imports Stackchan
begin

text \<open>
  What the display shows. The panel keeps the window set by the commands \<open>2A\<close> and \<open>2B\<close> and fills it row
  by row with the 16-bit pixels that follow \<open>2C\<close>; its state is a function of the transfers made so far.
  A picture is a list of coloured shapes painted one over the other. The lemmas show that \<open>lcd_fill\<close>
  paints its rectangle, \<open>lcd_circle\<close> the disc, and \<open>face_expr\<close> the picture of the expression.
\<close>

section \<open>The panel\<close>

record panel =
  pn_cols :: "int \<times> int"
  pn_rows :: "int \<times> int"
  pn_pix :: "int \<times> int \<Rightarrow> u16"

definition payload :: "spi_trans_s \<Rightarrow> bytes" where
  "payload t = take (tr_nwords t) (tr_txbuffer t)"

definition sent :: "spi_sequence_s \<Rightarrow> bytes list" where
  "sent sq = map payload (take (sq_ntrans sq) (sq_trans sq))"

definition be16 :: "byte \<Rightarrow> byte \<Rightarrow> int" where
  "be16 a b = uint a * 256 + uint b"

definition panel_window :: "bytes \<Rightarrow> int \<times> int" where
  "panel_window d = (be16 (d ! 0) (d ! 1), be16 (d ! 2) (d ! 3))"

text \<open>Pixel number \<open>k\<close> of the data goes to column \<open>k mod\<close> and row \<open>k div\<close> the width of the window.\<close>

definition panel_write :: "bytes \<Rightarrow> panel \<Rightarrow> panel" where
  "panel_write d p =
     p\<lparr>pn_pix := (\<lambda>(x, y).
        let w = snd (pn_cols p) - fst (pn_cols p) + 1;
            k = nat ((y - fst (pn_rows p)) * w + (x - fst (pn_cols p)))
        in if fst (pn_cols p) \<le> x \<and> x \<le> snd (pn_cols p) \<and> fst (pn_rows p) \<le> y \<and> y \<le> snd (pn_rows p)
              \<and> 2 * k + 1 < length d
           then push_bit 8 (ucast (d ! (2 * k))) OR ucast (d ! (2 * k + 1))
           else pn_pix p (x, y))\<rparr>"

definition panel_step :: "spi_sequence_s \<Rightarrow> panel \<Rightarrow> panel" where
  "panel_step sq p =
     (case sent sq of [] \<Rightarrow> p
      | cmd # data \<Rightarrow>
          if cmd = [0x2a] then p\<lparr>pn_cols := panel_window (concat data)\<rparr>
          else if cmd = [0x2b] then p\<lparr>pn_rows := panel_window (concat data)\<rparr>
          else if cmd = [0x2c] then panel_write (concat data) p
          else p)"

fun panel_after :: "panel \<Rightarrow> sc_event list \<Rightarrow> panel" where
  "panel_after p [] = p"
| "panel_after p (Ev_spi fd sq # l) = panel_step sq (panel_after p l)"
| "panel_after p (e # l) = panel_after p l"

abbreviation screen :: "panel \<Rightarrow> sc_task \<Rightarrow> int \<times> int \<Rightarrow> u16" where
  "screen p c \<equiv> pn_pix (panel_after p (tk_log c))"

section \<open>Shapes\<close>

type_synonym shape = "int \<times> int \<Rightarrow> bool"

definition rect :: "int \<Rightarrow> int \<Rightarrow> int \<Rightarrow> int \<Rightarrow> shape" where
  "rect x y w h = (\<lambda>(px, py). x \<le> px \<and> px < x + w \<and> y \<le> py \<and> py < y + h)"

definition disc :: "int \<Rightarrow> int \<Rightarrow> int \<Rightarrow> shape" where
  "disc cx cy r = (\<lambda>(px, py). (px - cx) * (px - cx) + (py - cy) * (py - cy) \<le> r * r)"

definition paint :: "shape \<times> u16 \<Rightarrow> (int \<times> int \<Rightarrow> u16) \<Rightarrow> int \<times> int \<Rightarrow> u16" where
  "paint s pix = (\<lambda>q. if fst s q then snd s else pix q)"

definition spi_works :: "sc_env \<Rightarrow> bool" where
  "spi_works V \<longleftrightarrow> (\<forall>l. en_spi V l \<ge> 0)"

section \<open>Rectangles\<close>

lemma sc_call_fields [simp]:
  "tk_log (sc_call V e c) = e # tk_log c"
  "sc_i2c (sc_call V e c) = sc_i2c c" "sc_spi (sc_call V e c) = sc_spi c"
  "sc_servo (sc_call V e c) = sc_servo c"
  by (simp_all add: sc_call_def)

definition pairs :: "u16 \<Rightarrow> nat \<Rightarrow> bytes" where
  "pairs color n = concat (replicate n [ucast (drop_bit 8 color), ucast (color AND 0xff)])"

lemma pairs_simps [simp]: "pairs color 0 = []"
  "pairs color (Suc n) = ucast (drop_bit 8 color) # ucast (color AND 0xff) # pairs color n"
  by (simp_all add: pairs_def)

lemma length_pairs [simp]: "length (pairs color n) = 2 * n"
  by (induction n) auto

lemma pairs_nth: "k < n \<Longrightarrow> pairs color n ! (2 * k) = ucast (drop_bit 8 color) \<and> pairs color n ! (2 * k + 1) = ucast (color AND 0xff)"
proof (induction n arbitrary: k)
  case (Suc n)
  then show ?case by (cases k) auto
qed simp

lemma take_pairs: "m \<le> n \<Longrightarrow> take (2 * m) (pairs color n) = pairs color m"
proof (induction m arbitrary: n)
  case (Suc m)
  then show ?case by (cases n) auto
qed simp

lemma pairs_add: "pairs color m @ pairs color n = pairs color (m + n)"
  by (simp add: pairs_def replicate_add)

lemma colour_bytes: "push_bit 8 (ucast (ucast (drop_bit 8 color) :: byte)) OR ucast (ucast (color AND 0xff) :: byte) = (color :: u16)"
proof -
  have "(0xff :: u16) = mask 8" by (simp add: mask_eq_exp_minus_1)
  then show ?thesis unfolding \<open>0xff = mask 8\<close> by (intro bit_word_eqI) (auto simp: bit_simps)
qed

definition fill_entry :: "bytes \<Rightarrow> spi_trans_s \<Rightarrow> bool" where
  "fill_entry buf t \<longleftrightarrow> tr_nwords t \<le> LCD_CHUNK \<and> tr_txbuffer t = buf"

lemma fill_chunks_spec:
  assumes "fill_chunks (pairs color 1024) n todo ts = (n', ts')"
    and "even todo" "n + (todo + 2047) div 2048 \<le> length ts"
  shows "n \<le> n' \<and> n' \<le> length ts \<and> (todo > 0 \<longrightarrow> n < n') \<and> length ts' = length ts \<and> take n ts' = take n ts
    \<and> concat (map payload (drop n (take n' ts'))) = pairs color (todo div 2)
    \<and> list_all (fill_entry (pairs color 1024)) (drop n (take n' ts'))"
  using assms
proof (induction "pairs color 1024" n todo ts arbitrary: n' ts' rule: fill_chunks.induct)
  case (1 n todo ts)
  show ?case
  proof (cases "todo > 0")
    case False
    with "1.prems" show ?thesis by (subst (asm) fill_chunks.simps) auto
  next
    case True
    define len where "len = (if todo > LCD_CHUNK then LCD_CHUNK else todo)"
    define t where "t = (ts ! n)\<lparr>tr_nwords := len, tr_txbuffer := pairs color 1024\<rparr>"
    have n: "n < length ts" using "1.prems"(3) True by simp
    have len: "even len" "len \<le> 2048" "len \<le> todo" "len > 0"
      using "1.prems"(2) True by (auto simp: len_def LCD_CHUNK_def)
    have rec: "fill_chunks (pairs color 1024) (n + 1) (todo - len) (ts[n := t]) = (n', ts')"
      using "1.prems"(1) True by (subst (asm) fill_chunks.simps) (simp add: len_def t_def Let_def)
    have IH: "n + 1 \<le> n' \<and> n' \<le> length ts \<and> length ts' = length ts \<and> take (n + 1) ts' = take (n + 1) (ts[n := t])
      \<and> concat (map payload (drop (n + 1) (take n' ts'))) = pairs color ((todo - len) div 2)
      \<and> list_all (fill_entry (pairs color 1024)) (drop (n + 1) (take n' ts'))"
    proof -
      have 1: "n + 1 + (todo - len + 2047) div 2048 \<le> length (ts[n := t])"
        using "1.prems"(3) True by (auto simp: len_def LCD_CHUNK_def split: if_splits)
      have 2: "even (todo - len)" using len "1.prems"(2) by simp
      show ?thesis
        using "1.hyps"[OF True len_def rec[unfolded t_def] 2 1[unfolded t_def]]
        unfolding t_def[symmetric] length_list_update by fast
    qed
    have nth: "ts' ! n = t"
    proof -
      have "ts' ! n = take (n + 1) ts' ! n" by simp
      also have "\<dots> = t" using IH n by simp
      finally show ?thesis .
    qed
    have "take n (take (n + 1) ts') = take n (take (n + 1) (ts[n := t]))" using IH by simp
    then have tn: "take n ts' = take n ts" by (simp add: min_def del: take_Suc)
    have "n < length (take n' ts')" using IH by simp
    from Cons_nth_drop_Suc[OF this]
    have split: "drop n (take n' ts') = t # drop (n + 1) (take n' ts')"
      using nth IH by simp
    have pay: "payload t = pairs color (len div 2)"
      using len take_pairs[of "len div 2" 1024 color] by (simp add: payload_def t_def)
    have "fill_entry (pairs color 1024) t" using len by (simp add: fill_entry_def t_def LCD_CHUNK_def)
    moreover have "len div 2 + (todo - len) div 2 = todo div 2"
      using len "1.prems"(2) by (auto elim!: evenE)
    ultimately show ?thesis
      using IH tn by (simp add: split pay pairs_add)
  qed
qed

definition fill_transfer :: "int \<Rightarrow> int \<Rightarrow> u16 \<Rightarrow> nat \<times> spi_trans_s list" where
  "fill_transfer w h color =
     (let (n, ts) = fill_chunks (pairs color 1024) 1 (nat (w * h * 2) mod 2 ^ 32)
        ((replicate n_trans spi_trans0)[0 := spi_trans0\<lparr>tr_cmd := True, tr_nwords := 1, tr_txbuffer := [0x2c]\<rparr>])
      in (n, ts[n - 1 := (ts ! (n - 1))\<lparr>tr_deselect := True\<rparr>]))"

lemma lcd_fill_eq:
  "lcd_fill V x y w h color c =
     (if w \<le> 0 \<or> h \<le> 0 then (0, c)
      else case if_ok (lcd_cmd V 0x2a (lcd_window x w) c) (lcd_cmd V 0x2b (lcd_window y h)) of (ret, c) \<Rightarrow>
        if ret < 0 then (ret, c)
        else lcd_xfer V (snd (fill_transfer w h color)) (fst (fill_transfer w h color))
               (c\<lparr>sc_pixbuf := pairs color 1024, sc_trans := snd (fill_transfer w h color)\<rparr>))"
  by (simp add: lcd_fill_def fill_transfer_def pairs_def LCD_CHUNK_def Let_def split: prod.split)

lemma n_trans_eq [simp]: "n_trans = 77"
  by (simp add: n_trans_def LCD_W_def LCD_H_def LCD_CHUNK_def)

lemma map_payload_deselect: "map payload (xs[i := (xs ! i)\<lparr>tr_deselect := d\<rparr>]) = map payload xs"
proof (cases "i < length xs")
  case True
  then show ?thesis by (simp add: map_update payload_def list_update_same_conv)
qed (simp add: list_update_beyond)

lemma fill_entry_deselect:
  "list_all (fill_entry buf) xs \<Longrightarrow> list_all (fill_entry buf) (xs[i := (xs ! i)\<lparr>tr_deselect := d\<rparr>])"
  by (cases "i < length xs") (auto simp: list_all_length nth_list_update fill_entry_def)

lemma fill_transfer_spec:
  assumes "0 < w" "0 < h" "w * h \<le> LCD_W * LCD_H"
  obtains e es where "fst (fill_transfer w h color) \<le> n_trans" "length (snd (fill_transfer w h color)) = n_trans"
    "take (fst (fill_transfer w h color)) (snd (fill_transfer w h color)) = e # es"
    "payload e = [0x2c]" "tr_nwords e = 1" "tr_txbuffer e = [0x2c]" "tr_cmd e"
    "list_all (fill_entry (pairs color 1024)) es"
    "concat (map payload es) = pairs color (nat (w * h))"
proof -
  define e where "e = spi_trans0\<lparr>tr_cmd := True, tr_nwords := 1, tr_txbuffer := [0x2c]\<rparr>"
  define ts0 where "ts0 = (replicate n_trans spi_trans0)[0 := e]"
  define todo where "todo = nat (w * h * 2)"
  obtain n ts where nt: "fill_chunks (pairs color 1024) 1 todo ts0 = (n, ts)" by fastforce
  have todo: "even todo" "0 < todo" "todo \<le> 153600" "todo div 2 = nat (w * h)"
  proof -
    have k: "0 < w * h" "w * h \<le> 76800" using assms by (simp_all add: LCD_W_def LCD_H_def)
    have "todo = 2 * nat (w * h)" using k nat_mult_distrib[of "w * h" 2] by (simp add: todo_def)
    then show "even todo" "0 < todo" "todo \<le> 153600" "todo div 2 = nat (w * h)" using k by simp_all
  qed
  then have mod: "nat (w * h * 2) mod 2 ^ 32 = todo" by (simp add: todo_def)
  have "1 + (todo + 2047) div 2048 \<le> length ts0" using todo by (simp add: ts0_def)
  from fill_chunks_spec[OF nt todo(1) this]
  have n: "1 < n" "n \<le> 77" "length ts = 77" "take 1 ts = take 1 ts0"
    "concat (map payload (drop 1 (take n ts))) = pairs color (nat (w * h))"
    "list_all (fill_entry (pairs color 1024)) (drop 1 (take n ts))"
    using todo by (auto simp: ts0_def)
  define es where "es = drop 1 (take n ts)"
  have "take 1 ts = [e]" using n(4) by (simp add: ts0_def numeral_eq_Suc)
  then obtain r where r: "ts = e # r" by (cases ts) auto
  have es: "es = take (n - 1) r" using n(1) by (cases n) (auto simp: es_def r)
  define i where "i = n - 2"
  have i: "n - 1 = Suc i" "i < length r" "i < n - 1" using n by (auto simp: i_def r)
  have ft: "fill_transfer w h color = (n, ts[n - 1 := (ts ! (n - 1))\<lparr>tr_deselect := True\<rparr>])"
    unfolding fill_transfer_def mod e_def[symmetric] ts0_def[symmetric] nt by simp
  have tk: "take n (ts[n - 1 := (ts ! (n - 1))\<lparr>tr_deselect := True\<rparr>]) = e # es[i := (es ! i)\<lparr>tr_deselect := True\<rparr>]"
  proof -
    have "n = Suc (Suc i)" using i(1) n(1) by linarith
    then show ?thesis unfolding r es by (simp add: take_update_swap)
  qed
  show thesis
  proof (rule that[of e "es[i := (es ! i)\<lparr>tr_deselect := True\<rparr>]"])
    show "list_all (fill_entry (pairs color 1024)) (es[i := (es ! i)\<lparr>tr_deselect := True\<rparr>])"
      using n(6) by (intro fill_entry_deselect) (simp add: es_def)
    show "concat (map payload (es[i := (es ! i)\<lparr>tr_deselect := True\<rparr>])) = pairs color (nat (w * h))"
      using n(5) by (simp add: map_payload_deselect es_def)
    show "take (fst (fill_transfer w h color)) (snd (fill_transfer w h color)) = e # es[i := (es ! i)\<lparr>tr_deselect := True\<rparr>]"
      unfolding ft fst_conv snd_conv tk ..
  qed (use n in \<open>simp_all add: ft e_def payload_def\<close>)
qed

section \<open>lcd_fill paints its rectangle\<close>

lemma lcd_xfer_works:
  "spi_works V \<Longrightarrow> lcd_xfer V ts n c = (0, sc_call V (Ev_spi (sc_spi c)
      \<lparr>sq_dev = SPIDEV_DISPLAY 0, sq_mode = SPIDEV_MODE0, sq_nbits = 8, sq_frequency = 20000000, sq_ntrans = n, sq_trans = ts\<rparr>) c)"
  by (simp add: lcd_xfer_def spi_works_def Let_def not_less)

lemma word_of_low: "0 \<le> a \<Longrightarrow> a < 65536 \<Longrightarrow>
    be16 (word_of_int (drop_bit 8 a)) (word_of_int (a AND 0xff)) = a"
proof -
  assume a: "0 \<le> a" "a < 65536"
  have "a AND 0xff = a mod 256" using and_exp_eq_0_iff_not_bit[of a 0] take_bit_eq_mask[of 8 a]
    by (simp add: take_bit_eq_mod mask_eq_exp_minus_1)
  then show ?thesis
    using a by (simp add: be16_def uint_word_of_int drop_bit_eq_div)
qed

lemma panel_window_lcd:
  assumes "0 \<le> a" "0 < n" "a + n \<le> 65536"
  shows "panel_window (lcd_window a n) = (a, a + n - 1)"
  using word_of_low[of a] word_of_low[of "a + n - 1"] assms by (simp add: panel_window_def lcd_window_def)

lemma lcd_cmd_works:
  assumes "spi_works V"
  obtains sq where "lcd_cmd V cmd data c = (0, sc_call V (Ev_spi (sc_spi c) sq) c)"
    "sent sq = [cmd] # (if data = [] then [] else [data])"
  using lcd_xfer_works[OF assms] by (fastforce simp: lcd_cmd_def sent_def payload_def numeral_2_eq_2)

lemma panel_write_pairs:
  assumes "pn_cols p = (x, x + w - 1)" "pn_rows p = (y, y + h - 1)" "0 < w" "0 < h"
  shows "panel_write (pairs color (nat (w * h))) p = p\<lparr>pn_pix := paint (rect x y w h, color) (pn_pix p)\<rparr>"
proof -
  have "pn_pix (panel_write (pairs color (nat (w * h))) p) (px, py) = paint (rect x y w h, color) (pn_pix p) (px, py)"
    for px py
  proof (cases "rect x y w h (px, py)")
    case True
    then have b: "x \<le> px" "px \<le> x + w - 1" "y \<le> py" "py \<le> y + h - 1" by (auto simp: rect_def)
    have "(py - y) * w + (px - x) < w * h"
    proof -
      have "(py - y) * w \<le> (h - 1) * w" using b assms(3) by (intro mult_right_mono) auto
      then show ?thesis using b by (simp add: algebra_simps)
    qed
    moreover have "0 \<le> (py - y) * w + (px - x)" using b assms(3) by simp
    ultimately have k: "nat ((py - y) * w + (px - x)) < nat (w * h)" by simp
    define k where "k = nat ((py - y) * w + (px - x))"
    define N where "N = nat (w * h)"
    have kN: "k < N" "Suc (2 * k) < 2 * N" using k unfolding k_def N_def by linarith+
    show ?thesis
      using b pairs_nth[OF kN(1), of color] kN(2) colour_bytes[of color] True assms(1,2)
      unfolding N_def[symmetric] by (auto simp: panel_write_def paint_def Let_def simp flip: k_def)
  next
    case False
    then show ?thesis using assms(1,2)
      by (auto simp: panel_write_def paint_def rect_def Let_def)
  qed
  then have "pn_pix (panel_write (pairs color (nat (w * h))) p) = paint (rect x y w h, color) (pn_pix p)" by auto
  moreover have "panel_write d p = p\<lparr>pn_pix := pn_pix (panel_write d p)\<rparr>" for d by (simp add: panel_write_def)
  ultimately show ?thesis by metis
qed

lemma lcd_fill_paints:
  assumes "spi_works V" "w \<le> 0 \<or> h \<le> 0 \<or> 0 \<le> x \<and> 0 \<le> y \<and> x + w \<le> LCD_W \<and> y + h \<le> LCD_H"
  shows "fst (lcd_fill V x y w h color c) = 0"
    "screen p (snd (lcd_fill V x y w h color c)) = paint (rect x y w h, color) (screen p c)"
proof -
  have "fst (lcd_fill V x y w h color c) = 0 \<and>
    screen p (snd (lcd_fill V x y w h color c)) = paint (rect x y w h, color) (screen p c)"
  proof (cases "w \<le> 0 \<or> h \<le> 0")
    case True
    then show ?thesis by (auto simp: lcd_fill_def paint_def rect_def intro!: ext)
  next
    case False
    then have b: "0 < w" "0 < h" "0 \<le> x" "0 \<le> y" "x + w \<le> 320" "y + h \<le> 240"
      using assms(2) by (auto simp: LCD_W_def LCD_H_def)
    have "w * h \<le> LCD_W * LCD_H" unfolding LCD_W_def LCD_H_def using b by (intro mult_mono) auto
    from fill_transfer_spec[OF b(1,2) this, of color] obtain e es where
      ft: "take (fst (fill_transfer w h color)) (snd (fill_transfer w h color)) = e # es"
        "payload e = [0x2c]" "concat (map payload es) = pairs color (nat (w * h))" by metis
    obtain sq1 where 1: "lcd_cmd V 0x2a (lcd_window x w) c = (0, sc_call V (Ev_spi (sc_spi c) sq1) c)"
      "sent sq1 = [[0x2a], lcd_window x w]"
      using lcd_cmd_works[OF assms(1), of "0x2a" "lcd_window x w" c] by (auto simp: lcd_window_def)
    define c1 where "c1 = sc_call V (Ev_spi (sc_spi c) sq1) c"
    obtain sq2 where 2: "lcd_cmd V 0x2b (lcd_window y h) c1 = (0, sc_call V (Ev_spi (sc_spi c1) sq2) c1)"
      "sent sq2 = [[0x2b], lcd_window y h]"
      using lcd_cmd_works[OF assms(1), of "0x2b" "lcd_window y h" c1] by (auto simp: lcd_window_def)
    let ?p = "panel_after p (tk_log c)"
    have p1: "panel_step sq1 ?p = ?p\<lparr>pn_cols := (x, x + w - 1)\<rparr>"
      using panel_window_lcd[of x w] b by (simp add: panel_step_def 1(2))
    have p2: "panel_step sq2 (?p\<lparr>pn_cols := (x, x + w - 1)\<rparr>) = ?p\<lparr>pn_cols := (x, x + w - 1), pn_rows := (y, y + h - 1)\<rparr>"
      using panel_window_lcd[of y h] b by (simp add: panel_step_def 2(2))
    define sq3 where "sq3 = \<lparr>sq_dev = SPIDEV_DISPLAY 0, sq_mode = SPIDEV_MODE0, sq_nbits = 8, sq_frequency = 20000000, sq_ntrans = fst (fill_transfer w h color),
      sq_trans = snd (fill_transfer w h color)\<rparr>"
    have "sent sq3 = [0x2c] # map payload es" by (simp add: sq3_def sent_def ft)
    then have p3: "panel_step sq3 q = panel_write (pairs color (nat (w * h))) q" for q
      by (simp add: panel_step_def ft)
    have log: "lcd_fill V x y w h color c = (0, c3) \<Longrightarrow>
        tk_log c3 = Ev_spi (sc_spi c) sq3 # Ev_spi (sc_spi c) sq2 # Ev_spi (sc_spi c) sq1 # tk_log c" for c3
      using b by (simp add: lcd_fill_eq 1(1) 2(1) c1_def[symmetric] if_ok_def lcd_xfer_works[OF assms(1)] sq3_def)
        (auto simp: c1_def)
    have "fst (lcd_fill V x y w h color c) = 0"
      using b by (simp add: lcd_fill_eq 1(1) 2(1) c1_def[symmetric] if_ok_def lcd_xfer_works[OF assms(1)])
    with log[of "snd (lcd_fill V x y w h color c)"] show ?thesis
      using b by (cases "lcd_fill V x y w h color c") (simp add: p1 p2 p3 panel_write_pairs)
  qed
  then show "fst (lcd_fill V x y w h color c) = 0"
    "screen p (snd (lcd_fill V x y w h color c)) = paint (rect x y w h, color) (screen p c)" by auto
qed

end
