(* ===== verification/Face_Spec.thy ===== *)
theory Face_Spec
  imports Display_Spec
begin

text \<open>
  Circles and the face as pictures. The picture of an expression is a list of rectangles and discs with
  their colours; the code paints exactly it, and painting another expression over it leaves no trace.
\<close>

section \<open>lcd_circle paints the disc\<close>

lemma circle_dx_spec:
  assumes "dy * dy \<le> r * r" "k \<le> n"
  shows "int k * int k + dy * dy \<le> r * r \<longleftrightarrow> k \<le> circle_dx r dy n"
  using assms(2)
proof (induction n)
  case 0
  then show ?case using assms(1) by simp
next
  case (Suc n)
  have le: "circle_dx r dy n \<le> n" for n by (induction n) auto
  show ?case
  proof (cases "int (Suc n) * int (Suc n) + dy * dy > r * r")
    case True
    then show ?thesis
      using Suc le[of n] by (cases "k = Suc n") (auto simp del: of_nat_Suc)
  next
    case False
    have "int k * int k \<le> int (Suc n) * int (Suc n)" using Suc.prems by (intro mult_mono) auto
    then show ?thesis using False Suc.prems by (auto simp del: of_nat_Suc)
  qed
qed

lemma circle_dx_le: "circle_dx r dy n \<le> n"
  by (induction n) auto

lemma disc_row:
  assumes "0 \<le> r" "\<bar>dy\<bar> \<le> r"
  defines "dx \<equiv> int (circle_dx r dy (nat r))"
  shows "rect (cx - dx) (cy + dy) (2 * dx + 1) 1 (px, py) \<longleftrightarrow> py = cy + dy \<and> disc cx cy r (px, py)"
proof -
  have dy: "dy * dy \<le> r * r" using assms(1,2) by (metis abs_mult_self_eq abs_ge_zero mult_mono)
  define k where "k = nat \<bar>px - cx\<bar>"
  have k: "int k * int k = (px - cx) * (px - cx)" by (simp add: k_def)
  have "disc cx cy r (px, cy + dy) \<longleftrightarrow> int k \<le> dx"
  proof (cases "k \<le> nat r")
    case True
    then show ?thesis using circle_dx_spec[OF dy True] by (simp add: disc_def k dx_def)
  next
    case False
    then have "r * r < int k * int k" using assms(1) by (intro mult_strict_mono) auto
    moreover have "\<not> int k \<le> dx" using False circle_dx_le[of r dy "nat r"] by (simp add: dx_def)
    moreover have "0 \<le> dy * dy" by simp
    ultimately have "r * r < (px - cx) * (px - cx) + dy * dy" "\<not> int k \<le> dx" unfolding k by linarith+
    then show ?thesis by (simp add: disc_def)
  qed
  moreover have "rect (cx - dx) (cy + dy) (2 * dx + 1) 1 (px, py) \<longleftrightarrow> py = cy + dy \<and> int k \<le> dx"
    by (auto simp: rect_def k_def)
  ultimately show ?thesis by auto
qed

lemma circle_rows_paint:
  assumes "spi_works V" "r \<le> cx" "cx + r < LCD_W" "r \<le> cy" "cy + r < LCD_H" "\<forall>dy\<in>set ds. \<bar>dy\<bar> \<le> r"
  shows "screen p (fold (circle_row V cx cy r color) ds c)
    = paint (\<lambda>(px, py). py - cy \<in> set ds \<and> disc cx cy r (px, py), color) (screen p c)"
  using assms(6)
proof (induction ds arbitrary: c)
  case Nil
  then show ?case by (auto simp: paint_def)
next
  case (Cons dy ds)
  then have dy: "\<bar>dy\<bar> \<le> r" "0 \<le> r" by auto
  have "int (circle_dx r dy (nat r)) \<le> r" using circle_dx_le[of r dy "nat r"] dy(2) by simp
  then have "screen p (circle_row V cx cy r color dy c)
      = paint (\<lambda>(px, py). py = cy + dy \<and> disc cx cy r (px, py), color) (screen p c)"
    unfolding circle_row_def Let_def
    by (subst lcd_fill_paints(2)[OF assms(1)])
      (use assms(2-5) dy disc_row[OF dy(2,1)] in \<open>auto simp: paint_def intro!: ext\<close>)
  moreover have "py - cy \<in> set (dy # ds) \<longleftrightarrow> py = cy + dy \<or> py - cy \<in> set ds" for py by auto
  ultimately show ?case
    using Cons.IH[of "circle_row V cx cy r color dy c"] Cons.prems by (auto simp: paint_def intro!: ext)
qed

lemma lcd_circle_paints_disc:
  assumes "spi_works V" "0 \<le> r" "r \<le> cx" "cx + r < LCD_W" "r \<le> cy" "cy + r < LCD_H"
  shows "screen p (lcd_circle V cx cy r color c) = paint (disc cx cy r, color) (screen p c)"
proof -
  have "py - cy \<in> set [- r..r]" if "disc cx cy r (px, py)" for px py
  proof -
    have "(px - cx) * (px - cx) + (py - cy) * (py - cy) \<le> r * r" using that by (simp add: disc_def)
    moreover have "0 \<le> (px - cx) * (px - cx)" by simp
    ultimately have "(py - cy) * (py - cy) \<le> r * r" by linarith
    then have "\<bar>py - cy\<bar> \<le> r" using assms(2) by (metis abs_le_square_iff abs_of_nonneg power2_eq_square)
    then show ?thesis by auto
  qed
  then have "(\<lambda>(px, py). py - cy \<in> set [- r..r] \<and> disc cx cy r (px, py)) = disc cx cy r" by auto
  then show ?thesis
    using circle_rows_paint[OF assms(1,3-6), of "[- r..r]" p color c] by (simp add: lcd_circle_def abs_le_iff)
qed

section \<open>Pictures\<close>

type_synonym picture = "(shape \<times> u16) list"

abbreviation paint_all :: "picture \<Rightarrow> (int \<times> int \<Rightarrow> u16) \<Rightarrow> int \<times> int \<Rightarrow> u16" where
  "paint_all s \<equiv> fold paint s"

text \<open>The eye around column \<open>cx\<close>, the mouth, and the face.\<close>

definition eye_shapes :: "int \<Rightarrow> bool \<Rightarrow> int \<Rightarrow> bool \<Rightarrow> picture" where
  "eye_shapes cx left expr opened =
     (rect (cx - 28) 72 57 57, COLOR_BLACK) #
     (if \<not> opened \<or> expr = EXPR_SLEEPY then [(rect (cx - 16) 97 33 6, COLOR_WHITE)]
      else if expr = EXPR_HAPPY then [(disc cx 100 16, COLOR_WHITE), (disc cx 108 16, COLOR_BLACK)]
      else if expr = EXPR_SAD then [(disc cx 104 12, COLOR_WHITE)]
      else if expr = EXPR_ANGRY
      then (disc cx 100 16, COLOR_WHITE)
           # map (\<lambda>y. (rect (if left then cx - 16 + 2 * (y - 82) else cx - 16) y (33 - 2 * (y - 82)) 1, COLOR_BLACK)) [84..100]
      else if expr = EXPR_SURPRISED then [(disc cx 100 22, COLOR_WHITE)]
      else [(disc cx 100 16, COLOR_WHITE)])"

definition mouth_shapes :: "int \<Rightarrow> picture" where
  "mouth_shapes expr =
     (rect 100 130 120 100, COLOR_BLACK) #
     (if expr = EXPR_HAPPY then [(disc 160 160 30, COLOR_WHITE), (disc 160 148 30, COLOR_BLACK)]
      else if expr = EXPR_SAD then [(disc 160 196 30, COLOR_WHITE), (disc 160 208 30, COLOR_BLACK)]
      else if expr = EXPR_ANGRY then [(rect 130 172 60 6, COLOR_WHITE)]
      else if expr = EXPR_SLEEPY then [(rect 145 170 30 6, COLOR_WHITE)]
      else if expr = EXPR_SURPRISED then [(disc 160 175 14, COLOR_WHITE), (disc 160 175 8, COLOR_BLACK)]
      else [(rect 115 168 90 8, COLOR_WHITE)])"

definition eyes_shapes :: "int \<Rightarrow> bool \<Rightarrow> picture" where
  "eyes_shapes expr opened = eye_shapes 96 True expr opened @ eye_shapes 224 False expr opened"

definition face_shapes :: "int \<Rightarrow> picture" where
  "face_shapes expr = eyes_shapes expr True @ mouth_shapes expr"

lemma angry_rows_paint:
  assumes "spi_works V" "28 \<le> cx" "cx \<le> 280" "\<forall>y\<in>set ys. 84 \<le> y \<and> y \<le> 100"
  shows "screen p (fold (angry_row V cx left) ys c)
    = paint_all (map (\<lambda>y. (rect (if left then cx - 16 + 2 * (y - 82) else cx - 16) y (33 - 2 * (y - 82)) 1, COLOR_BLACK)) ys) (screen p c)"
  using assms(4)
proof (induction ys arbitrary: c)
  case (Cons y ys)
  have "screen p (angry_row V cx left y c)
      = paint (rect (if left then cx - 16 + 2 * (y - 82) else cx - 16) y (33 - 2 * (y - 82)) 1, COLOR_BLACK) (screen p c)"
    using Cons.prems assms(2,3)
    by (simp add: angry_row_def Let_def lcd_fill_paints[OF assms(1)] LCD_W_def LCD_H_def)
  then show ?case using Cons by simp
qed simp

lemma face_eye_paints:
  assumes "spi_works V" "28 \<le> cx" "cx \<le> 280"
  shows "screen p (face_eye V cx left expr opened c) = paint_all (eye_shapes cx left expr opened) (screen p c)"
  using assms(2,3)
  by (simp add: face_eye_def eye_shapes_def Let_def lcd_fill_paints[OF assms(1)] lcd_circle_paints_disc[OF assms(1)]
      angry_rows_paint[OF assms(1)] LCD_W_def LCD_H_def del: upto_rec_numeral)

lemma face_eyes_paints:
  "spi_works V \<Longrightarrow> screen p (face_eyes V expr opened c) = paint_all (eyes_shapes expr opened) (screen p c)"
  by (simp add: face_eyes_def eyes_shapes_def face_eye_paints)

lemma face_mouth_paints:
  "spi_works V \<Longrightarrow> screen p (face_mouth V expr c) = paint_all (mouth_shapes expr) (screen p c)"
  by (simp add: face_mouth_def mouth_shapes_def Let_def lcd_fill_paints lcd_circle_paints_disc LCD_W_def LCD_H_def)

lemma face_expr_paints:
  "spi_works V \<Longrightarrow> screen p (face_expr V expr c) = paint_all (face_shapes expr) (screen p c)"
  by (simp add: face_expr_def face_shapes_def face_eyes_paints face_mouth_paints)

lemma face_blink_paints:
  "spi_works V \<Longrightarrow> screen p (face_blink V expr c)
     = paint_all (eyes_shapes expr False @ eyes_shapes expr True) (screen p c)"
  by (simp add: face_blink_def face_eyes_paints)

section \<open>Every drawing replaces the one before\<close>

text \<open>What is drawn after the first picture, by the commands and the background task.\<close>

datatype drawing = Draw_face int | Draw_blink int | Draw_mouth int

fun draw_step :: "sc_env \<Rightarrow> drawing \<Rightarrow> sc_task \<Rightarrow> sc_task" where
  "draw_step V (Draw_face e) c = face_expr V e c"
| "draw_step V (Draw_blink e) c = face_blink V e c"
| "draw_step V (Draw_mouth e) c = face_mouth V e c"

definition on_screen :: shape where
  "on_screen = rect 0 0 LCD_W LCD_H"

text \<open>The areas the code clears.\<close>

definition face_area :: shape where
  "face_area q \<longleftrightarrow> rect 68 72 57 57 q \<or> rect 196 72 57 57 q \<or> rect 100 130 120 100 q"

definition black_outside :: "(int \<times> int \<Rightarrow> u16) \<Rightarrow> bool" where
  "black_outside pix \<longleftrightarrow> (\<forall>q. on_screen q \<and> \<not> face_area q \<longrightarrow> pix q = COLOR_BLACK)"

text \<open>The picture of an expression on a black screen.\<close>

definition face_picture :: "int \<Rightarrow> int \<times> int \<Rightarrow> u16" where
  "face_picture expr = paint_all (face_shapes expr) (\<lambda>_. COLOR_BLACK)"

definition within_area :: "shape \<times> u16 \<Rightarrow> bool" where
  "within_area s \<longleftrightarrow> snd s = COLOR_BLACK \<or> (\<forall>q. fst s q \<longrightarrow> face_area q)"

lemma paint_within: "within_area s \<Longrightarrow> black_outside pix \<Longrightarrow> black_outside (paint s pix)"
  by (auto simp: black_outside_def within_area_def paint_def)

lemma paint_all_within: "list_all within_area ss \<Longrightarrow> black_outside pix \<Longrightarrow> black_outside (paint_all ss pix)"
  by (induction ss arbitrary: pix) (auto intro: paint_within)

lemma paint_all_agree:
  "pix q = pix' q \<or> (\<exists>s\<in>set ss. fst s q) \<Longrightarrow> paint_all ss pix q = paint_all ss pix' q"
proof (induction ss arbitrary: pix pix')
  case (Cons s ss)
  then show ?case by (cases "fst s q") (auto simp: paint_def intro!: Cons.IH)
qed simp

lemma disc_within_rect:
  assumes "disc cx cy r q" "0 \<le> r" "x \<le> cx - r" "cx + r < x + w" "y \<le> cy - r" "cy + r < y + h"
  shows "rect x y w h q"
proof -
  obtain px py where q: "q = (px, py)" by fastforce
  have "(px - cx) * (px - cx) + (py - cy) * (py - cy) \<le> r * r" using assms(1) by (simp add: disc_def q)
  moreover have "0 \<le> (px - cx) * (px - cx)" "0 \<le> (py - cy) * (py - cy)" by simp_all
  ultimately have "(px - cx) * (px - cx) \<le> r * r" "(py - cy) * (py - cy) \<le> r * r" by linarith+
  then have "\<bar>px - cx\<bar> \<le> r" "\<bar>py - cy\<bar> \<le> r"
    using assms(2) by (metis abs_le_square_iff abs_of_nonneg power2_eq_square)+
  then show ?thesis using assms(3-6) by (auto simp: rect_def q)
qed

lemma within_disc:
  assumes "0 \<le> r" "68 \<le> cx - r \<and> cx + r < 125 \<and> 72 \<le> cy - r \<and> cy + r < 129
     \<or> 196 \<le> cx - r \<and> cx + r < 253 \<and> 72 \<le> cy - r \<and> cy + r < 129
     \<or> 100 \<le> cx - r \<and> cx + r < 220 \<and> 130 \<le> cy - r \<and> cy + r < 230"
  shows "within_area (disc cx cy r, color)"
proof -
  have "face_area q" if d: "disc cx cy r q" for q
    using assms(2)
  proof (elim disjE)
    assume "68 \<le> cx - r \<and> cx + r < 125 \<and> 72 \<le> cy - r \<and> cy + r < 129"
    then have "rect 68 72 57 57 q" by (intro disc_within_rect[OF d assms(1)]) simp_all
    then show ?thesis by (simp add: face_area_def)
  next
    assume "196 \<le> cx - r \<and> cx + r < 253 \<and> 72 \<le> cy - r \<and> cy + r < 129"
    then have "rect 196 72 57 57 q" by (intro disc_within_rect[OF d assms(1)]) simp_all
    then show ?thesis by (simp add: face_area_def)
  next
    assume "100 \<le> cx - r \<and> cx + r < 220 \<and> 130 \<le> cy - r \<and> cy + r < 230"
    then have "rect 100 130 120 100 q" by (intro disc_within_rect[OF d assms(1)]) simp_all
    then show ?thesis by (simp add: face_area_def)
  qed
  then show ?thesis by (simp add: within_area_def)
qed

lemma within_rect:
  "68 \<le> x \<and> x + w \<le> 125 \<and> 72 \<le> y \<and> y + h \<le> 129
     \<or> 196 \<le> x \<and> x + w \<le> 253 \<and> 72 \<le> y \<and> y + h \<le> 129
     \<or> 100 \<le> x \<and> x + w \<le> 220 \<and> 130 \<le> y \<and> y + h \<le> 230
   \<Longrightarrow> within_area (rect x y w h, color)"
  unfolding within_area_def face_area_def by (elim disjE) (auto simp: rect_def)

lemma within_black [simp]: "within_area (s, 0)"
  by (simp add: within_area_def)

lemma eyes_within: "list_all within_area (eyes_shapes expr opened)"
  by (simp add: eyes_shapes_def eye_shapes_def within_disc within_rect list_all_iff ball_Un del: upto_rec_numeral)

lemma mouth_within: "list_all within_area (mouth_shapes expr)"
  by (simp add: mouth_shapes_def within_disc within_rect)

lemma draw_black_outside:
  assumes "spi_works V" "black_outside (screen p c)"
  shows "black_outside (screen p (draw_step V d c))"
  using assms
  by (cases d) (simp_all add: face_expr_paints face_blink_paints face_mouth_paints face_shapes_def
      paint_all_within eyes_within mouth_within)

lemma draws_black_outside:
  "spi_works V \<Longrightarrow> black_outside (screen p c) \<Longrightarrow> black_outside (screen p (fold (draw_step V) ds c))"
  by (induction ds arbitrary: c) (auto intro: draw_black_outside)

lemma face_area_covered: "face_area q \<Longrightarrow> \<exists>s\<in>set (face_shapes expr). fst s q"
  unfolding face_area_def face_shapes_def eyes_shapes_def eye_shapes_def mouth_shapes_def
  by (auto simp del: upto_rec_numeral)

lemma face_over_anything:
  assumes "spi_works V" "black_outside (screen p c)" "on_screen q"
  shows "screen p (face_expr V expr c) q = face_picture expr q"
  unfolding face_expr_paints[OF assms(1)] face_picture_def
  using assms(2,3) face_area_covered[of q expr] by (cases q, intro paint_all_agree) (auto simp: black_outside_def)

text \<open>
  C21. The face on the screen is the picture of the last expression drawn, whatever was drawn before it: after
  \<open>face_draw\<close> has succeeded, any number of redraws, blinks and mouth movements leaves nothing behind.
\<close>

theorem face_shows_last_expression:
  assumes "spi_works V" "face_draw V e0 c = (0, c0)" "on_screen q"
  shows "screen p c0 q = face_picture e0 q
    \<and> screen p (face_expr V e (fold (draw_step V) ds c0)) q = face_picture e q"
proof -
  obtain r1 c1 where 1: "lcd_init V c = (r1, c1)" by fastforce
  define c2 where "c2 = snd (lcd_fill V 0 0 LCD_W LCD_H COLOR_BLACK c1)"
  have c0: "c0 = face_expr V e0 c2"
    using assms(2) by (auto simp: face_draw_def 1 c2_def split: if_splits prod.splits)
  have "screen p c2 = paint (rect 0 0 LCD_W LCD_H, COLOR_BLACK) (screen p c1)"
    unfolding c2_def by (rule lcd_fill_paints(2)[OF assms(1)]) (simp add: LCD_W_def LCD_H_def)
  then have b: "black_outside (screen p c2)" by (auto simp: black_outside_def paint_def on_screen_def)
  then have first: "screen p c0 q = face_picture e0 q" unfolding c0 by (rule face_over_anything[OF assms(1) _ assms(3)])
  have "black_outside (screen p (fold (draw_step V) ds c0))"
    unfolding c0 using draw_black_outside[OF assms(1) b, of "Draw_face e0"] by (simp add: draws_black_outside[OF assms(1)])
  then show ?thesis using first face_over_anything[OF assms(1) _ assms(3)] by simp
qed

text \<open>The mouth of a happy face after an angry one: white at the bottom of the smile, black inside it.\<close>

lemma i2c_board [simp]:
  "fst (sc_i2c_setbits board_env addr reg bits on c) = 0" "length data \<le> 2 * NLEDS \<Longrightarrow> fst (sc_i2c_write board_env addr reg data c) = 0"
proof -
  have t: "fst (sc_i2c_transfer board_env msgs c) = 0" for msgs c
    by (simp add: sc_i2c_transfer_def I2C_RETRIES_def numeral_eq_Suc Let_def)
  have o: "fst (open_i2c board_env c) = 0" for c
    by (simp add: open_i2c_def open_once_def Let_def case_prod_beta)
  show w: "fst (sc_i2c_write board_env addr reg data c) = 0" if "length data \<le> 2 * NLEDS" for addr reg data c
    using that by (simp add: sc_i2c_write_def case_prod_beta t o)
  show "fst (sc_i2c_setbits board_env addr reg bits on c) = 0"
    by (simp add: sc_i2c_setbits_def sc_i2c_w8_def sc_i2c_read_def case_prod_beta t o w NLEDS_def)
qed

lemma spi_board: "spi_works board_env"
  by (simp add: spi_works_def)

lemma face_draw_board: "fst (face_draw board_env e c) = 0"
proof -
  have "fst (open_spi board_env c) = 0" for c by (simp add: open_spi_def open_once_def Let_def case_prod_beta)
  moreover have "fst (lcd_cmd board_env cmd data c) = 0" for cmd data c
    by (simp add: lcd_cmd_def lcd_xfer_works[OF spi_board])
  moreover have "fst (lcd_fill board_env 0 0 LCD_W LCD_H color c) = 0" for color c
    by (rule lcd_fill_paints(1)[OF spi_board]) simp
  ultimately show ?thesis
    by (simp add: face_draw_def lcd_init_def case_prod_beta Let_def if_ok_def NLEDS_def)
qed

definition panel0 :: panel where
  "panel0 = \<lparr>pn_cols = (0, 0), pn_rows = (0, 0), pn_pix = (\<lambda>_. 0x1234)\<rparr>"

lemma face_shows_last_expression_witness:
  "screen panel0 (face_expr board_env 1 (face_blink board_env 3 (snd (face_draw board_env 3 task0)))) (160, 185) = 0xffff
   \<and> screen panel0 (face_expr board_env 1 (face_blink board_env 3 (snd (face_draw board_env 3 task0)))) (160, 140) = 0"
proof -
  have d: "face_draw board_env 3 task0 = (0, snd (face_draw board_env 3 task0))"
    using face_draw_board by (metis prod.collapse)
  have "face_picture 1 (160, 185) = 0xffff" "face_picture 1 (160, 140) = 0"
    by (simp_all add: face_picture_def face_shapes_def eyes_shapes_def eye_shapes_def mouth_shapes_def paint_def rect_def disc_def)
  then show ?thesis
    using face_shows_last_expression[OF spi_board d, of "(160, 185)" panel0 1 "[Draw_blink 3]"]
      face_shows_last_expression[OF spi_board d, of "(160, 140)" panel0 1 "[Draw_blink 3]"]
    by (simp add: on_screen_def rect_def LCD_W_def LCD_H_def)
qed

end
