(* ===== verification/Board_Safety.thy ===== *)
theory Board_Safety
  imports Face_Spec
begin

text \<open>
  What the StackChan program asks of its hardware. An event is proper when the buffers behind it are as
  long as it says, the bus runs at the speed the PY32 needs, a transfer goes to the display and its window lies on
  the screen, a servo packet is well formed and moves no servo beyond its limits, and the descriptor of
  the I2C bus and of the serial line is open (of the display's descriptor nothing is claimed). A read asks for at most
  the size of the reply buffer; where in the buffer the bytes go is not part of the event. Every command and every round
  of the background task makes proper calls only, whatever the devices and the other tasks do.
\<close>

definition i2c_ok :: "i2c_msg_s \<Rightarrow> bool" where
  "i2c_ok m \<longleftrightarrow> im_frequency m = FREQ_PY32 \<and> 1 \<le> im_length m \<and> im_length m \<le> 1 + 2 * NLEDS
     \<and> (\<not> im_read m \<longrightarrow> length (im_buffer m) = im_length m)"

definition window_ok :: "int \<Rightarrow> bytes \<Rightarrow> bool" where
  "window_ok limit d \<longleftrightarrow> length d = 4 \<and> fst (panel_window d) \<le> snd (panel_window d) \<and> snd (panel_window d) < limit"

definition spi_ok :: "spi_sequence_s \<Rightarrow> bool" where
  "spi_ok sq \<longleftrightarrow> sq_dev sq = SPIDEV_DISPLAY 0 \<and> sq_nbits sq = 8 \<and> sq_ntrans sq \<le> length (sq_trans sq) \<and> sq_ntrans sq \<le> n_trans
     \<and> list_all (\<lambda>t. tr_nwords t \<le> length (tr_txbuffer t) \<and> tr_nwords t \<le> LCD_CHUNK) (take (sq_ntrans sq) (sq_trans sq))
     \<and> (sent sq \<noteq> [] \<longrightarrow> hd (sent sq) = [0x2a] \<longrightarrow> window_ok LCD_W (concat (tl (sent sq))))
     \<and> (sent sq \<noteq> [] \<longrightarrow> hd (sent sq) = [0x2b] \<longrightarrow> window_ok LCD_H (concat (tl (sent sq))))"

text \<open>
  A packet to a servo: two bytes \<open>FF\<close>, the servo, the length, the instruction, the parameters, and a check
  sum that makes all from the third byte on add up to \<open>FF\<close>. A goal position is parameter block \<open>2A\<close> of
  instruction 3.
\<close>

definition within_limits :: "bytes \<Rightarrow> bool" where
  "within_limits b \<longleftrightarrow> (b ! 2 = 1 \<or> b ! 2 = 2) \<and> length b = 13
     \<and> fst (g_limit ! unat (b ! 2)) \<le> be16 (b ! 6) (b ! 7) \<and> be16 (b ! 6) (b ! 7) \<le> snd (g_limit ! unat (b ! 2))"

definition servo_frame_ok :: "bytes \<Rightarrow> bool" where
  "servo_frame_ok b \<longleftrightarrow> 6 \<le> length b \<and> length b \<le> 16 \<and> b ! 0 = 0xff \<and> b ! 1 = 0xff
     \<and> unat (b ! 3) + 4 = length b \<and> sum_list (drop 2 b) = 0xff
     \<and> (b ! 4 = 3 \<and> 6 < length b \<and> b ! 5 = 0x2a \<longrightarrow> within_limits b)"

fun event_ok :: "sc_event \<Rightarrow> bool" where
  "event_ok (Ev_i2c fd msgs) \<longleftrightarrow> 0 \<le> fd \<and> list_all i2c_ok msgs"
| "event_ok (Ev_spi fd sq) \<longleftrightarrow> spi_ok sq"
| "event_ok (Ev_read fd n) \<longleftrightarrow> 0 \<le> fd \<and> n \<le> 16"
| "event_ok (Ev_write fd b) \<longleftrightarrow> 0 \<le> fd \<and> servo_frame_ok b"
| "event_ok (Ev_poll fd ms) \<longleftrightarrow> 0 \<le> fd \<and> 0 < ms"
| "event_ok (Ev_close fd) \<longleftrightarrow> 0 \<le> fd"
| "event_ok e \<longleftrightarrow> True"

fun is_spi :: "sc_event \<Rightarrow> bool" where
  "is_spi (Ev_spi fd sq) \<longleftrightarrow> True"
| "is_spi e \<longleftrightarrow> False"

lemma packet_sum: "fold (\<lambda>b sum. sum + b) bs (s :: byte) = s + sum_list bs"
  by (induction bs arbitrary: s) (auto simp: algebra_simps)

lemma servo_packet_ok:
  assumes "length args \<le> 10" "inst = 3 \<Longrightarrow> args \<noteq> [] \<Longrightarrow> hd args = 0x2a \<Longrightarrow> within_limits (servo_packet sid inst args)"
  shows "servo_frame_ok (servo_packet sid inst args)"
proof -
  define pkt where "pkt = servo_packet sid inst args"
  define body where "body = [sid, of_nat (length args + 2), inst] @ args"
  have p: "pkt = [0xff, 0xff] @ body @ [NOT (sum_list body)]"
    unfolding pkt_def body_def by (simp add: servo_packet_def packet_sum)
  have "unat (of_nat (length args + 2) :: byte) = length args + 2"
    unfolding unat_of_nat using assms(1) by simp
  then have len: "length pkt = length args + 6" "unat (pkt ! 3) + 4 = length pkt"
    by (simp_all only: p) (simp_all add: body_def)
  have "x + NOT x = 0xff" for x :: byte by (simp add: not_eq_complement)
  then have "sum_list (drop 2 pkt) = 0xff" by (simp add: p)
  moreover have "within_limits pkt" if "pkt ! 4 = 3" "6 < length pkt" "pkt ! 5 = 0x2a"
  proof -
    have "args \<noteq> []" "inst = 3" "hd args = 0x2a"
      using that len by (cases args; simp add: p body_def)+
    then show ?thesis using assms(2) by (simp add: pkt_def)
  qed
  moreover have "pkt ! 0 = 0xff" "pkt ! 1 = 0xff" by (simp_all add: p)
  ultimately show ?thesis
    using assms(1) len unfolding pkt_def[symmetric] servo_frame_ok_def by simp
qed

lemma servo_goal_limits:
  "sid = 1 \<or> sid = 2 \<Longrightarrow> fst (g_limit ! unat sid) \<le> servo_goal sid pos \<and> servo_goal sid pos \<le> snd (g_limit ! unat sid)"
  by (auto simp: servo_goal_def g_limit_def)

lemma goal_packet:
  assumes "sid = 1 \<or> sid = 2"
  shows "within_limits (servo_packet sid inst [0x2a, word_of_int (drop_bit 8 (servo_goal sid pos)),
    word_of_int (servo_goal sid pos AND 0xff), t, u, v, w])"
proof -
  let ?g = "servo_goal sid pos"
  have g: "fst (g_limit ! unat sid) \<le> ?g" "?g \<le> snd (g_limit ! unat sid)" using servo_goal_limits[OF assms] by auto
  then have "0 \<le> ?g" "?g < 65536" using assms by (auto simp: g_limit_def)
  from word_of_low[OF this] show ?thesis
    using g assms by (simp add: within_limits_def servo_packet_def)
qed

lemma if_ok_inv: "P (snd p) \<Longrightarrow> (\<And>c. P c \<Longrightarrow> P (snd (f c))) \<Longrightarrow> P (snd (if_ok p f))"
  by (cases p) (simp add: if_ok_def)

section \<open>Commands that do not draw\<close>

text \<open>
  Any property of a task that proper calls preserve, those on the display apart, and that depends on
  the calls and the globals only.
\<close>

locale device_calls =
  fixes V :: sc_env and fine :: "sc_task \<Rightarrow> bool"
  assumes fine_call: "fine c \<Longrightarrow> event_ok e \<Longrightarrow> \<not> is_spi e \<Longrightarrow> fine (sc_call V e c)"
    and fine_fields: "tk_log c' = tk_log c \<Longrightarrow> tk_globals c' = tk_globals c \<Longrightarrow> fine c' = fine c"
    and fine_warned: "fine c \<Longrightarrow> fine (set_py32_warned b c)"
    and fine_talking: "fine c \<Longrightarrow> fine (on_globals (\<lambda>g. g\<lparr>g_talking := b\<rparr>) c)"
begin

lemma fine_call_simp [simp]:
  "fine c \<Longrightarrow> fine (sc_call V (Ev_open s fl) c)" "fine c \<Longrightarrow> fine (sc_call V (Ev_out s) c)"
  "fine c \<Longrightarrow> fine (sc_call V (Ev_err s) c)" "fine c \<Longrightarrow> fine (sc_call V (Ev_usleep n) c)"
  "fine c \<Longrightarrow> fine (sc_call V (Ev_srand n) c)" "fine c \<Longrightarrow> fine (sc_call V Ev_rand c)"
  "fine c \<Longrightarrow> fine (sc_call V Ev_clock c)" "fine c \<Longrightarrow> fine (sc_call V Ev_calloc c)"
  "fine c \<Longrightarrow> fine (sc_call V Ev_free c)" "fine c \<Longrightarrow> fine (sc_call V Ev_task_create c)"
  "fine c \<Longrightarrow> fine (sc_call V (Ev_tcgetattr fd) c)" "fine c \<Longrightarrow> fine (sc_call V (Ev_tcsetattr fd) c)"
  "fine c \<Longrightarrow> fine (sc_call V Ev_player_create c)" "fine c \<Longrightarrow> fine (sc_call V (Ev_player_play s) c)"
  "fine c \<Longrightarrow> fine (sc_call V Ev_player_state c)" "fine c \<Longrightarrow> fine (sc_call V Ev_player_release c)"
  by (simp_all add: fine_call)

lemma fine_updates [simp]:
  "fine (c\<lparr>sc_i2c := fd\<rparr>) = fine c" "fine (c\<lparr>sc_spi := fd\<rparr>) = fine c" "fine (c\<lparr>sc_servo := fd\<rparr>) = fine c"
  by (rule fine_fields; simp)+

declare fine_warned [simp] fine_talking [simp]

lemma fine_open_once: "fine c \<Longrightarrow> fine (snd (snd (open_once V fd path fl c)))"
  by (simp add: open_once_def Let_def)

lemma fine_open_i2c: "fine c \<Longrightarrow> fine (snd (open_i2c V c))"
  by (simp add: open_i2c_def case_prod_beta fine_open_once)

lemma fine_open_spi: "fine c \<Longrightarrow> fine (snd (open_spi V c))"
  by (simp add: open_spi_def case_prod_beta fine_open_once)

lemma open_i2c_fd: "fst (open_i2c V c) \<ge> 0 \<Longrightarrow> sc_i2c (snd (open_i2c V c)) \<ge> 0"
  by (auto simp: open_i2c_def open_once_def Let_def split: if_splits)

lemma fine_i2c_attempts:
  assumes "list_all i2c_ok msgs"
  shows "fine c \<Longrightarrow> 0 \<le> sc_i2c c \<Longrightarrow> fine (snd (snd (i2c_attempts V n msgs ret c)))"
proof (induction n arbitrary: ret c)
  case (Suc n)
  have "fine (sc_call V (Ev_i2c (sc_i2c c) msgs) c)" using Suc.prems assms by (intro fine_call) simp_all
  with Suc show ?case by (auto simp: Let_def split: prod.splits)
qed simp

lemma fine_sc_i2c_write:
  assumes "fine c"
  shows "fine (snd (sc_i2c_write V addr reg data c))"
proof (cases "length data + 1 > 1 + 2 * NLEDS \<or> fst (open_i2c V c) < 0")
  case True
  then show ?thesis using assms fine_open_i2c[OF assms] by (auto simp: sc_i2c_write_def split: prod.splits)
next
  case False
  obtain r c1 where 1: "open_i2c V c = (r, c1)" by fastforce
  have "fine c1" "0 \<le> sc_i2c c1" "0 \<le> r" using fine_open_i2c[OF assms] open_i2c_fd[of c] False by (auto simp: 1)
  moreover have "length data \<le> 2 * NLEDS" using False by simp
  ultimately show ?thesis
    using fine_i2c_attempts[of "[\<lparr>im_frequency = sc_i2c_freq addr, im_addr = addr, im_read = False,
        im_buffer = reg # data, im_length = length data + 1\<rparr>]" c1 I2C_RETRIES err_EIO]
    by (auto simp: sc_i2c_write_def 1 sc_i2c_transfer_def i2c_ok_def sc_i2c_freq_def FREQ_PY32_def FREQ_DEFAULT_def
        split: prod.splits)
qed

lemma fine_sc_i2c_read:
  assumes "fine c" "1 \<le> len" "len \<le> 1 + 2 * NLEDS"
  shows "fine (snd (snd (sc_i2c_read V addr reg len c)))"
proof -
  obtain r c1 where 1: "open_i2c V c = (r, c1)" by fastforce
  have "fine c1" "0 \<le> r \<longrightarrow> 0 \<le> sc_i2c c1" using fine_open_i2c[OF assms(1)] open_i2c_fd[of c] by (auto simp: 1)
  then show ?thesis
    using assms(2,3) fine_i2c_attempts[of "[\<lparr>im_frequency = sc_i2c_freq addr, im_addr = addr, im_read = False,
        im_buffer = [reg], im_length = 1\<rparr>, \<lparr>im_frequency = sc_i2c_freq addr, im_addr = addr, im_read = True,
        im_buffer = [], im_length = len\<rparr>]" c1 I2C_RETRIES err_EIO]
    by (auto simp: sc_i2c_read_def 1 sc_i2c_transfer_def i2c_ok_def sc_i2c_freq_def FREQ_PY32_def FREQ_DEFAULT_def NLEDS_def
        split: prod.splits)
qed

lemma fine_sc_i2c_w8: "fine c \<Longrightarrow> fine (snd (sc_i2c_w8 V addr reg val c))"
  by (simp add: sc_i2c_w8_def fine_sc_i2c_write)

lemma fine_setbits: "fine c \<Longrightarrow> fine (snd (sc_i2c_setbits V addr reg bits on c))"
  using fine_sc_i2c_read[of c 1 addr reg]
  by (auto simp: sc_i2c_setbits_def fine_sc_i2c_w8 split: prod.splits)

lemmas fine_i2c = if_ok_inv[where P = fine] fine_setbits fine_sc_i2c_w8 fine_sc_i2c_write

lemma fine_py32_polls: "fine c \<Longrightarrow> fine (snd (py32_polls V n c))"
proof (induction n arbitrary: c)
  case (Suc n)
  then show ?case using fine_sc_i2c_read[of c 1 ADDR_PY32 "0x02"] by (simp add: case_prod_beta)
qed simp

lemma fine_servo_power: "fine c \<Longrightarrow> fine (snd (servo_power V on c))"
proof -
  assume "fine c"
  then have "fine (snd (if_ok (if_ok (sc_i2c_setbits V ADDR_PY32 0x03 1 True c)
             (sc_i2c_setbits V ADDR_PY32 0x09 1 True)) (sc_i2c_setbits V ADDR_PY32 0x05 1 on)))"
    by (intro fine_i2c)
  then show ?thesis by (auto simp: servo_power_def Let_def split: prod.splits)
qed

lemma fine_led_set: "fine c \<Longrightarrow> fine (snd (led_set V r g b c))"
proof -
  assume "fine c"
  then have "fine (snd (if_ok (if_ok (if_ok (sc_i2c_setbits V ADDR_PY32 0x04 (push_bit 5 1) True c)
             (sc_i2c_setbits V ADDR_PY32 0x0a (push_bit 5 1) True))
             (sc_i2c_setbits V ADDR_PY32 0x14 (push_bit 5 1) False))
             (sc_i2c_w8 V ADDR_PY32 0x24 (of_nat NLEDS))))"
    by (intro fine_i2c)
  then show ?thesis by (simp add: led_set_def Let_def case_prod_beta fine_i2c)
qed

lemma fine_amp_write: "fine c \<Longrightarrow> fine (snd (amp_write V reg val c))"
  by (simp add: amp_write_def fine_sc_i2c_write)

lemma fine_amp_on: "fine c \<Longrightarrow> fine (snd (amp_on V rate c))"
proof -
  assume c: "fine c"
  obtain r c1 where 1: "if_ok (if_ok (sc_i2c_setbits V ADDR_AW9523 0x11 0x10 True c)
             (sc_i2c_setbits V ADDR_AW9523 0x04 0x04 False))
             (sc_i2c_setbits V ADDR_AW9523 0x02 0x04 True) = (r, c1)" by fastforce
  have "fine (snd (r, c1))" unfolding 1[symmetric] using c by (intro fine_i2c)
  then have "fine c1" by simp
  then show ?thesis by (simp add: amp_on_def 1 if_ok_inv[where P = fine] fine_amp_write)
qed

lemma fine_amp_off: "fine c \<Longrightarrow> fine (amp_off V c)"
  by (simp add: amp_off_def Let_def fine_amp_write fine_setbits)

lemma fine_sc_alloc: "fine c \<Longrightarrow> fine (snd (sc_alloc V c))"
proof -
  assume "fine c"
  then have "fine (sc_call V Ev_calloc c)" by simp
  moreover have "fine (snd (sc_alloc V c)) = fine (sc_call V Ev_calloc c)"
    by (rule fine_fields) (simp_all add: sc_alloc_def Let_def)
  ultimately show ?thesis by simp
qed

lemma fine_sc_free: "fine c \<Longrightarrow> fine (sc_free V c)"
  by (simp add: sc_free_def Let_def fine_call)

section \<open>Servos\<close>

lemma fine_sc_read: "fine c \<Longrightarrow> 0 \<le> sc_servo c \<Longrightarrow> n \<le> 16 \<Longrightarrow> fine (snd (snd (sc_read V n c)))"
  by (simp add: sc_read_def Let_def case_prod_beta fine_call)

lemma fine_sc_clock: "fine c \<Longrightarrow> fine (snd (sc_clock V c))"
  by (simp add: sc_clock_def Let_def)

lemma fine_servo_open: "fine c \<Longrightarrow> fine (snd (servo_open V c))"
  by (simp add: servo_open_def Let_def case_prod_beta fine_open_once)

lemma servo_open_fd: "fst (servo_open V c) \<ge> 0 \<Longrightarrow> sc_servo (snd (servo_open V c)) \<ge> 0"
  by (auto simp: servo_open_def open_once_def Let_def split: if_splits)

lemma sc_read_servo [simp]: "sc_servo (snd (snd (sc_read V n c))) = sc_servo c"
  by (simp add: sc_read_def Let_def case_prod_beta)

lemma fine_drain: "servo_drain V' c = Some c' \<Longrightarrow> V' = V \<Longrightarrow> fine c \<Longrightarrow> 0 \<le> sc_servo c \<Longrightarrow> fine c' \<and> sc_servo c' = sc_servo c"
proof (induction rule: servo_drain.raw_induct [rotated, consumes 1, case_names step])
  case (step f V' c c')
  then show ?case
    using step.IH[of V "snd (snd (sc_read V 16 c))" c'] fine_sc_read[of c 16]
    by (auto simp: case_prod_beta split: if_splits)
qed

lemma fine_collect:
  "servo_collect V' start want rx c = Some y \<Longrightarrow> V' = V \<Longrightarrow> fine c \<Longrightarrow> 0 \<le> sc_servo c \<Longrightarrow> want \<le> 16 \<Longrightarrow> fine (snd (snd y))"
proof (induction rule: servo_collect.raw_induct [rotated, consumes 1, case_names step])
  case (step f V' start want rx c y)
  define now c1 where "now = fst (sc_clock V c)" and "c1 = snd (sc_clock V c)"
  have clk: "sc_clock V c = (now, c1)" by (simp add: now_def c1_def)
  have c1: "fine c1" "sc_servo c1 = sc_servo c"
    using step.prems(2) fine_sc_clock[of c] by (auto simp: c1_def sc_clock_def Let_def)
  define c2 where "c2 = sc_call V (Ev_poll (sc_servo c1) (SERVO_REPLY_MS - elapsed_ms start now)) c1"
  define c3 where "c3 = snd (snd (sc_read V (want - length rx) c2))"
  show ?case
  proof (cases "length rx < want \<and> elapsed_ms start now < SERVO_REPLY_MS")
    case False
    then show ?thesis using step.hyps step.prems(1) step.prems(2) c1 by (auto simp: clk split: if_splits)
  next
    case True
    then have "fine c2" "sc_servo c2 = sc_servo c"
      using c1 step.prems(3) unfolding c2_def by (auto intro!: fine_call)
    moreover have "fine c3" "sc_servo c3 = sc_servo c"
      using calculation step.prems(3,4) unfolding c3_def by (auto intro!: fine_sc_read)
    ultimately show ?thesis
      using step.hyps step.prems(1) True step.prems(3,4) step.IH[of V start want _ c2 y] step.IH[of V start want _ c3 y]
      by (auto simp: clk Let_def case_prod_beta c2_def[symmetric] c3_def[symmetric] split: if_splits)
  qed
qed

lemma fine_reply: "fine c \<Longrightarrow> fine (snd (snd (servo_reply V sid n rx c)))"
  by (simp add: servo_reply_def Let_def)

lemma fine_servo_xfer:
  assumes "servo_xfer V sid inst args nparams c = Some y" "fine c"
    and "length args \<le> 10 \<Longrightarrow> servo_frame_ok (servo_packet sid inst args)"
  shows "fine (snd (snd y))"
proof (cases "length args + 6 > 16 \<or> 6 + nparams > 16 \<or> fst (servo_open V c) < 0")
  case True
  then show ?thesis using assms(1,2) fine_servo_open[of c] by (auto simp: servo_xfer_def case_prod_beta split: if_splits)
next
  case False
  define c1 where "c1 = snd (servo_open V c)"
  have c1: "fine c1" "0 \<le> sc_servo c1"
    using fine_servo_open[OF assms(2)] servo_open_fd[of c] False by (auto simp: c1_def)
  obtain c2 where 2: "servo_drain V c1 = Some c2"
    using assms(1) False by (auto simp: servo_xfer_def case_prod_beta c1_def split: option.splits)
  have c2: "fine c2" "0 \<le> sc_servo c2" using fine_drain[OF 2 refl c1] c1 by auto
  define c3 where "c3 = sc_call V (Ev_write (sc_servo c2) (servo_packet sid inst args)) c2"
  have c3: "fine c3" "0 \<le> sc_servo c3" using c2 assms(3) False unfolding c3_def by (auto intro!: fine_call)
  define start c4 where "start = fst (sc_clock V c3)" and "c4 = snd (sc_clock V c3)"
  have c4: "fine c4" "0 \<le> sc_servo c4" using c3 fine_sc_clock[of c3] by (auto simp: c4_def sc_clock_def Let_def)
  show ?thesis
    using assms(1) False c3 c4 fine_collect[of V start "6 + nparams" "[]" c4] fine_reply
    by (auto simp: servo_xfer_def case_prod_beta c1_def[symmetric] 2 Let_def c3_def[symmetric] start_def[symmetric]
        c4_def[symmetric] split: if_splits option.splits)
qed

lemma fine_servo_ping: "servo_ping V sid c = Some y \<Longrightarrow> fine c \<Longrightarrow> fine (snd y)"
  by (auto simp: servo_ping_def dest!: fine_servo_xfer intro!: servo_packet_ok)

lemma fine_servo_pos: "servo_pos V sid c = Some y \<Longrightarrow> fine c \<Longrightarrow> fine (snd y)"
  by (auto simp: servo_pos_def dest!: fine_servo_xfer intro!: servo_packet_ok)

lemma fine_servo_torque: "servo_torque V sid on c = Some y \<Longrightarrow> fine c \<Longrightarrow> fine (snd y)"
  by (auto simp: servo_torque_def dest!: fine_servo_xfer intro!: servo_packet_ok)

lemma fine_servo_goto: "servo_goto V sid pos ms c = Some y \<Longrightarrow> fine c \<Longrightarrow> sid = 1 \<or> sid = 2 \<Longrightarrow> fine (snd y)"
  by (auto simp: servo_goto_def Let_def goal_packet dest!: fine_servo_xfer intro!: servo_packet_ok)

lemma fine_report: "fine (snd p) \<Longrightarrow> fine (report V what p)"
  by (simp add: report_def case_prod_beta)

lemma fine_usage: "fine c \<Longrightarrow> fine (stackchan_usage V c)"
  by (simp add: stackchan_usage_def)

lemma fine_ping_line: "servo_ping_line V sid c = Some c' \<Longrightarrow> fine c \<Longrightarrow> fine c'"
  by (auto simp: servo_ping_line_def case_prod_beta dest!: fine_servo_ping)

lemma fine_pos_line: "servo_pos_line V c = Some c' \<Longrightarrow> fine c \<Longrightarrow> fine c'"
  by (auto simp: servo_pos_line_def Let_def case_prod_beta split: option.splits if_splits dest!: fine_servo_pos)

lemma fine_cmd_servo: "cmd_servo V argv c = Some y \<Longrightarrow> fine c \<Longrightarrow> fine (snd y)"
  unfolding cmd_servo_def
  by (auto simp: fine_usage fine_servo_power fine_report split: option.splits if_splits
      dest!: fine_servo_torque fine_ping_line fine_pos_line fine_servo_goto)

lemma fine_cmd_py32: "fine c \<Longrightarrow> fine (snd (cmd_py32 V c))"
  using fine_sc_i2c_read[of c 1 ADDR_PY32 "0x02"] by (simp add: cmd_py32_def case_prod_beta)

lemma fine_say_start: "fine c \<Longrightarrow> fine (say_start V n c)"
  by (induction n arbitrary: c) (simp_all add: player_state_def Let_def)

lemma fine_say_wait: "say_wait V' c = Some c' \<Longrightarrow> V' = V \<Longrightarrow> fine c \<Longrightarrow> fine c'"
proof (induction rule: say_wait.raw_induct [rotated, consumes 1, case_names step])
  case (step f V' c c')
  then show ?case by (auto simp: player_state_def Let_def split: if_splits)
qed

lemma fine_say:
  assumes "say V src rate c = Some y" "fine c" "\<And>c c'. say_talk V c = Some c' \<Longrightarrow> fine c \<Longrightarrow> fine c'"
  shows "fine (snd y)"
proof -
  have amp: "fine (snd (amp_on V rate c))" using assms(2) by (rule fine_amp_on)
  have st: "fine (snd (player_state V (say_start V 50 c)))" if "fine c" for c
    using fine_say_start[OF that] by (simp add: player_state_def Let_def)
  show ?thesis
    using assms(1) amp
    by (auto simp: say_def Let_def case_prod_beta fine_amp_off st dest!: assms(3) split: if_splits)
qed

end

section \<open>Drawing stays on the screen\<close>

text \<open>Any property of a task that proper calls on the display and waiting preserve.\<close>

locale screen_calls =
  fixes V :: sc_env and fine :: "sc_task \<Rightarrow> bool"
  assumes fine_spi: "fine c \<Longrightarrow> spi_ok sq \<Longrightarrow> fine (sc_call V (Ev_spi fd sq) c)"
    and fine_usleep: "fine c \<Longrightarrow> fine (sc_usleep V us c)"
    and fine_buffers: "fine (c\<lparr>sc_pixbuf := b, sc_trans := ts\<rparr>) = fine c"
begin

lemma fine_lcd_xfer: "fine c \<Longrightarrow> spi_ok \<lparr>sq_dev = SPIDEV_DISPLAY 0, sq_mode = SPIDEV_MODE0, sq_nbits = 8, sq_frequency = 20000000, sq_ntrans = n, sq_trans = ts\<rparr>
    \<Longrightarrow> fine (snd (lcd_xfer V ts n c))"
  by (simp add: lcd_xfer_def Let_def fine_spi)

lemma fine_lcd_cmd:
  assumes "fine c" "length data \<le> LCD_CHUNK" "cmd = 0x2a \<Longrightarrow> window_ok LCD_W data" "cmd = 0x2b \<Longrightarrow> window_ok LCD_H data"
  shows "fine (snd (lcd_cmd V cmd data c))"
  unfolding lcd_cmd_def using assms
  by (intro fine_lcd_xfer) (auto simp: spi_ok_def sent_def payload_def numeral_2_eq_2 LCD_CHUNK_def window_ok_def)

lemma window_ok_lcd: "0 \<le> a \<Longrightarrow> 0 < n \<Longrightarrow> a + n \<le> limit \<Longrightarrow> limit \<le> 65536 \<Longrightarrow> window_ok limit (lcd_window a n)"
  by (simp add: window_ok_def panel_window_lcd) (simp add: lcd_window_def)

lemma fine_lcd_fill:
  assumes "fine c" "w \<le> 0 \<or> h \<le> 0 \<or> 0 \<le> x \<and> 0 \<le> y \<and> x + w \<le> LCD_W \<and> y + h \<le> LCD_H"
  shows "fine (snd (lcd_fill V x y w h color c))"
proof (cases "w \<le> 0 \<or> h \<le> 0")
  case True
  then show ?thesis using assms(1) by (simp add: lcd_fill_eq)
next
  case False
  then have b: "0 < w" "0 < h" "0 \<le> x" "0 \<le> y" "x + w \<le> 320" "y + h \<le> 240"
    using assms(2) by (auto simp: LCD_W_def LCD_H_def)
  have "w * h \<le> LCD_W * LCD_H" unfolding LCD_W_def LCD_H_def using b by (intro mult_mono) auto
  from fill_transfer_spec[OF b(1,2) this, of color] obtain e es where
    ft: "fst (fill_transfer w h color) \<le> n_trans" "length (snd (fill_transfer w h color)) = n_trans"
      "take (fst (fill_transfer w h color)) (snd (fill_transfer w h color)) = e # es"
      "payload e = [0x2c]" "tr_nwords e = 1" "tr_txbuffer e = [0x2c]"
      "list_all (fill_entry (pairs color 1024)) es" by metis
  have seq: "spi_ok \<lparr>sq_dev = SPIDEV_DISPLAY 0, sq_mode = SPIDEV_MODE0, sq_nbits = 8, sq_frequency = 20000000, sq_ntrans = fst (fill_transfer w h color),
      sq_trans = snd (fill_transfer w h color)\<rparr>"
    using ft by (auto simp: spi_ok_def sent_def fill_entry_def list_all_iff LCD_CHUNK_def)
  have len: "length (lcd_window a n) = 4" for a n by (simp add: lcd_window_def)
  define p where "p = if_ok (lcd_cmd V 0x2a (lcd_window x w) c) (lcd_cmd V 0x2b (lcd_window y h))"
  have "fine (snd p)" unfolding p_def
    using assms(1) b by (intro if_ok_inv[where P = fine] fine_lcd_cmd) (auto simp: len LCD_CHUNK_def LCD_W_def LCD_H_def intro!: window_ok_lcd)
  then show ?thesis
    using seq assms(1) by (simp add: lcd_fill_eq p_def[symmetric] case_prod_beta fine_lcd_xfer fine_buffers)
qed

lemma fine_fold: "(\<And>x c. x \<in> set xs \<Longrightarrow> fine c \<Longrightarrow> fine (f x c)) \<Longrightarrow> fine c \<Longrightarrow> fine (fold f xs c)"
  by (induction xs arbitrary: c) auto

lemma fine_lcd_circle:
  assumes "fine c" "r \<le> cx" "cx + r < LCD_W" "r \<le> cy" "cy + r < LCD_H"
  shows "fine (lcd_circle V cx cy r color c)"
  unfolding lcd_circle_def
proof (rule fine_fold[OF _ assms(1)])
  fix dy c
  assume "dy \<in> set [- r..r]" and c: "fine c"
  then have dy: "- r \<le> dy" "dy \<le> r" by auto
  then have "int (circle_dx r dy (nat r)) \<le> r" using circle_dx_le[of r dy "nat r"] by linarith
  then show "fine (circle_row V cx cy r color dy c)"
    unfolding circle_row_def Let_def using assms(2-5) dy c by (intro fine_lcd_fill) auto
qed

lemma fine_angry_row:
  "fine c \<Longrightarrow> 28 \<le> cx \<Longrightarrow> cx \<le> 280 \<Longrightarrow> 84 \<le> y \<Longrightarrow> y \<le> 100 \<Longrightarrow> fine (angry_row V cx left y c)"
  unfolding angry_row_def Let_def by (auto intro!: fine_lcd_fill simp: LCD_W_def LCD_H_def)

lemma fine_face_eye:
  assumes "fine c" "28 \<le> cx" "cx \<le> 280"
  shows "fine (face_eye V cx left expr opened c)"
proof -
  define c1 where "c1 = snd (lcd_fill V (cx - 28) 72 57 57 COLOR_BLACK c)"
  have c1: "fine c1" unfolding c1_def using assms by (intro fine_lcd_fill) (auto simp: LCD_W_def LCD_H_def)
  have circle: "fine (lcd_circle V cx y r color c)" if "fine c" "r \<le> 28" "28 \<le> y" "y \<le> 200" for y r color c
    using that assms by (intro fine_lcd_circle) (auto simp: LCD_W_def LCD_H_def)
  have rows: "fine (fold (angry_row V cx left) [84..100] c)" if "fine c" for c
    using that assms by (intro fine_fold) (auto intro: fine_angry_row)
  have shut: "fine (snd (lcd_fill V (cx - 16) 97 33 6 COLOR_WHITE c1))"
    using c1 assms by (intro fine_lcd_fill) (auto simp: LCD_W_def LCD_H_def)
  show ?thesis
    using c1 shut by (simp add: face_eye_def Let_def c1_def[symmetric] circle rows del: upto_rec_numeral)
qed

lemma fine_face_eyes: "fine c \<Longrightarrow> fine (face_eyes V expr opened c)"
  by (simp add: face_eyes_def fine_face_eye)

lemma fine_face_mouth:
  assumes "fine c"
  shows "fine (face_mouth V expr c)"
proof -
  have fill: "fine (snd (lcd_fill V x y w h color c))" if "fine c" "0 \<le> x" "0 \<le> y" "x + w \<le> 320" "y + h \<le> 240" for x y w h color c
    using that by (intro fine_lcd_fill) (auto simp: LCD_W_def LCD_H_def)
  have circle: "fine (lcd_circle V 160 y r color c)" if "fine c" "r \<le> 30" "30 \<le> y" "y + 30 < 240" for y r color c
    using that by (intro fine_lcd_circle) (auto simp: LCD_W_def LCD_H_def)
  show ?thesis
    using assms by (simp add: face_mouth_def Let_def fill circle LCD_W_def)
qed

lemma fine_face_expr: "fine c \<Longrightarrow> fine (face_expr V expr c)"
  by (simp add: face_expr_def fine_face_eyes fine_face_mouth)

lemma fine_face_blink: "fine c \<Longrightarrow> fine (face_blink V expr c)"
  by (simp add: face_blink_def fine_face_eyes fine_usleep)

end

text \<open>Where both kinds of calls are allowed, and nothing is asked of the globals.\<close>

locale display_calls = device_calls + screen_calls +
  assumes fine_on_globals: "fine c \<Longrightarrow> fine (on_globals f c)"
begin

declare fine_on_globals [simp]

lemma fine_lcd_init: "fine c \<Longrightarrow> fine (snd (lcd_init V c))"
proof -
  assume "fine c"
  then have o: "fine (snd (open_spi V c))" by (rule fine_open_spi)
  have p: "fine (snd (if_ok (if_ok (if_ok (sc_i2c_setbits V ADDR_AXP2101 0x90 0x80 True c)
                    (sc_i2c_write V ADDR_AXP2101 0x99 [24]))
                    (sc_i2c_setbits V ADDR_AW9523 0x03 0x02 True))
                    (sc_i2c_setbits V ADDR_AW9523 0x05 0x02 False)))" if "fine c" for c
    using that by (intro fine_i2c)
  have k: "fine (snd (lcd_cmd V cmd data c))" if "fine c" "cmd \<in> {0x11, 0x3a, 0x36, 0x21, 0x29}" "length data \<le> 1" for cmd data c
    using that by (intro fine_lcd_cmd) (auto simp: LCD_CHUNK_def)
  show ?thesis
    unfolding lcd_init_def case_prod_beta Let_def
    by (auto simp: o p k intro!: if_ok_inv[where P = fine] fine_call_simp)
qed

lemma fine_face_draw: "fine c \<Longrightarrow> fine (snd (face_draw V expr c))"
  by (auto simp: face_draw_def case_prod_beta fine_lcd_init LCD_W_def LCD_H_def intro!: fine_face_expr fine_lcd_fill)

end

end
