(* ===== verification/Stackchan_Safety.thy ===== *)
theory Stackchan_Safety
  imports Board_Safety
begin

text \<open>
  The safety of the commands and of the background task, from the lemmas of \<open>Board_Safety\<close>.
\<close>

section \<open>Speaking and the background task\<close>

context display_calls
begin

lemma fine_say_move: "say_move V' opened c = Some c' \<Longrightarrow> V' = V \<Longrightarrow> fine c \<Longrightarrow> fine c'"
proof (induction rule: say_move.raw_induct [rotated, consumes 1, case_names step])
  case (step f V' opened c c')
  then show ?case by (auto simp: player_state_def Let_def fine_face_mouth split: if_splits)
qed

lemma fine_say_talk: "say_talk V c = Some c' \<Longrightarrow> fine c \<Longrightarrow> fine c'"
  by (auto simp: say_talk_def case_prod_beta fine_open_spi split: if_splits
      dest!: fine_say_wait[OF _ refl] fine_say_move[OF _ refl] intro!: fine_face_mouth)

lemma fine_sc_rand: "fine c \<Longrightarrow> fine (snd (sc_rand V c))"
  by (simp add: sc_rand_def Let_def)

lemma fine_demo_mouth: "fine c \<Longrightarrow> fine (snd (demo_mouth V d c))"
  by (simp add: demo_mouth_def Let_def fine_face_mouth)

lemma fine_demo_redraw: "fine c \<Longrightarrow> fine (demo_redraw V c)"
  by (simp add: demo_redraw_def Let_def fine_face_expr)

lemma fine_demo_blink: "fine c \<Longrightarrow> fine (snd (demo_blink V d c))"
  by (simp add: demo_blink_def case_prod_beta fine_sc_rand fine_face_blink)

lemma fine_demo_look: "demo_look V d c = Some y \<Longrightarrow> fine c \<Longrightarrow> fine (snd y)"
  unfolding demo_look_def
  by (auto simp: Let_def case_prod_beta fine_servo_power fine_sc_rand split: if_splits option.splits
      dest!: fine_servo_goto)

lemma fine_demo_tick: "demo_tick V d c = Some y \<Longrightarrow> fine c \<Longrightarrow> fine (snd y)"
  by (auto simp: demo_tick_def case_prod_beta fine_demo_mouth fine_demo_redraw fine_demo_blink
      split: option.splits dest!: fine_demo_look)

lemma fine_demo_loop: "demo_loop V' d c = Some c' \<Longrightarrow> V' = V \<Longrightarrow> fine c \<Longrightarrow> fine c'"
proof (induction rule: demo_loop.raw_induct [rotated, consumes 1, case_names step])
  case (step f V' d c c')
  then show ?case by (auto split: if_splits option.splits dest!: fine_demo_tick)
qed

lemma fine_demo_end: "demo_end V c = Some y \<Longrightarrow> fine c \<Longrightarrow> fine (snd y)"
  by (auto simp: demo_end_def fine_led_set fine_sc_free split: option.splits dest!: fine_servo_goto fine_servo_torque)

lemma fine_demo_start: "fine c \<Longrightarrow> fine (snd (demo_start V c))"
proof -
  have wait: "fine (snd (py32_wait V c))" if "fine c" for c using fine_py32_polls[OF that] by (simp add: py32_wait_def)
  show "fine c \<Longrightarrow> fine (snd (demo_start V c))"
    by (simp add: demo_start_def case_prod_beta Let_def fine_sc_clock fine_face_draw wait fine_led_set fine_servo_power)
qed

lemma fine_demo_task: "demo_task V c = Some y \<Longrightarrow> fine c \<Longrightarrow> fine (snd y)"
  by (auto simp: demo_task_def case_prod_beta fine_sc_alloc fine_demo_start split: if_splits option.splits
      dest!: fine_demo_loop[OF _ refl] fine_demo_end)

section \<open>The commands\<close>

lemma fine_cmd_start: "fine c \<Longrightarrow> fine (snd (cmd_start V c))"
  by (simp add: cmd_start_def Let_def)

lemma fine_cmd_face: "fine c \<Longrightarrow> fine (snd (cmd_face V argv c))"
  by (simp add: cmd_face_def Let_def fine_usage fine_report fine_face_draw)

lemma fine_cmd_blink: "fine c \<Longrightarrow> fine (snd (cmd_blink V c))"
  by (simp add: cmd_blink_def case_prod_beta fine_report fine_open_spi fine_face_blink)

lemma fine_sc_command: "sc_command V argv c = Some y \<Longrightarrow> fine c \<Longrightarrow> fine (snd y)"
  by (auto simp: sc_command_def fine_usage fine_report fine_led_set fine_cmd_py32 fine_cmd_face fine_cmd_blink
      split: if_splits dest!: fine_say[OF _ _ fine_say_talk] fine_cmd_servo)

lemma fine_main: "stackchan_main V argv c = Some y \<Longrightarrow> fine c \<Longrightarrow> fine (snd y)"
  by (auto simp: stackchan_main_def case_prod_beta fine_usage fine_cmd_start fine_sc_alloc fine_sc_free
      split: if_splits dest!: fine_sc_command)

end

lemma sc_task_parts [simp]:
  "tk_log (set_py32_warned w c) = tk_log c" "tk_log (on_globals f c) = tk_log c"
  by (simp_all add: set_py32_warned_def on_globals_def)

interpretation hardware: display_calls V "\<lambda>c. list_all event_ok (tk_log c)" for V
  by unfold_locales simp_all

text \<open>
  C19. Whatever the devices and the other tasks do, a command makes proper calls only: no buffer is shorter than
  announced, the I2C bus runs at 100 kHz, windows of the display lie on the screen, and a servo gets a well-formed
  packet that keeps it within its limits.
\<close>

theorem stackchan_calls_proper:
  assumes "stackchan_main V argv c = Some (status, c')" "list_all event_ok (tk_log c)"
  shows "list_all event_ok (tk_log c')"
  using hardware.fine_main[OF assms(1,2)] by simp

text \<open>\<open>servo move 0 9999\<close> on a board without servos: both packets are sent, and both time out.\<close>

lemma board_xfer:
  assumes "length args \<le> 10" "nparams \<le> 10"
  shows "\<exists>c'. servo_xfer board_env sid inst args nparams c = Some (err_ETIMEDOUT, [], c')
    \<and> length (tk_log c) + 4 \<le> length (tk_log c')"
proof -
  have op: "fst (servo_open board_env c) = 0" "length (tk_log c) \<le> length (tk_log (snd (servo_open board_env c)))"
    by (simp_all add: servo_open_def open_once_def Let_def)
  have drain: "servo_drain board_env d = Some (sc_call board_env (Ev_read (sc_servo d) 16) d)" for d
    by (subst servo_drain.simps) (simp add: sc_read_def Let_def)
  have collect: "servo_collect board_env (fst (sc_clock board_env d)) (6 + nparams) [] (snd (sc_clock board_env d))
      = Some (err_ETIMEDOUT, [], sc_call board_env Ev_clock (snd (sc_clock board_env d)))" for d
    by (subst servo_collect.simps) (simp add: sc_clock_def Let_def elapsed_ms_def SERVO_REPLY_MS_def)
  have pkt: "length (servo_packet sid inst args) = 6 + length args" by (simp add: servo_packet_def Let_def)
  show ?thesis
    using assms op by (simp add: servo_xfer_def case_prod_beta Let_def drain collect pkt) (simp add: sc_clock_def Let_def)
qed

lemma stackchan_calls_proper_witness:
  "\<exists>c'. stackchan_main board_env [''stackchan'', ''servo'', ''move'', ''0'', ''9999''] task0 = Some (0, c')
     \<and> list_all event_ok (tk_log c') \<and> length (tk_log c') > 8"
proof -
  let ?r = "stackchan_main board_env [''stackchan'', ''servo'', ''move'', ''0'', ''9999''] task0"
  define c0 where "c0 = snd (sc_alloc board_env task0)"
  have alloc: "sc_alloc board_env task0 = (True, c0)" by (simp add: c0_def sc_alloc_def Let_def)
  have go: "\<exists>c'. servo_goto board_env sid pos ms c = Some (err_ETIMEDOUT, c') \<and> length (tk_log c) + 4 \<le> length (tk_log c')"
    for sid pos ms c
  proof -
    let ?args = "[0x2a, word_of_int (drop_bit 8 (servo_goal sid pos)), word_of_int (servo_goal sid pos AND 0xff),
      word_of_int (drop_bit 8 ms), word_of_int (ms AND 0xff), 0, 0] :: bytes"
    have "length ?args \<le> 10" by simp
    from board_xfer[OF this, of 0] show ?thesis by (fastforce simp: servo_goto_def Let_def)
  qed
  obtain c1 where c1: "servo_goto board_env 1 (atoi ''0'') 500 c0 = Some (err_ETIMEDOUT, c1)" "4 \<le> length (tk_log c1)"
    using go[of 1 "atoi ''0''" 500 c0] by auto
  define d where "d = report board_env ''pan'' (err_ETIMEDOUT, c1)"
  obtain c2 where c2: "servo_goto board_env 2 (atoi ''9999'') 500 d = Some (err_ETIMEDOUT, c2)" "9 \<le> length (tk_log c2)"
    using go[of 2 "atoi ''9999''" 500 d] c1(2) by (auto simp: d_def report_def)
  have free: "length (tk_log c) \<le> length (tk_log (sc_free V c))" for V c by (simp add: sc_free_def Let_def)
  have "?r = Some (0, sc_free board_env (report board_env ''tilt'' (err_ETIMEDOUT, c2)))"
    by (simp add: stackchan_main_def sc_command_def cmd_servo_def alloc c1(1) d_def[symmetric] c2(1))
  moreover have "8 < length (tk_log (sc_free board_env (report board_env ''tilt'' (err_ETIMEDOUT, c2))))"
    using free[of "report board_env ''tilt'' (err_ETIMEDOUT, c2)" board_env] c2(2) by (simp add: report_def)
  moreover have "list_all event_ok (tk_log task0)" by (simp add: task0_def)
  ultimately show ?thesis using stackchan_calls_proper[of board_env _ task0 0] by blast
qed

text \<open>The rounds of the background task, whether or not it ends.\<close>

fun demo_rounds :: "sc_env \<Rightarrow> nat \<Rightarrow> demo_s \<times> sc_task \<Rightarrow> (demo_s \<times> sc_task) option" where
  "demo_rounds V 0 p = Some p"
| "demo_rounds V (Suc n) p = (case demo_tick V (fst p) (snd p) of None \<Rightarrow> None | Some p \<Rightarrow> demo_rounds V n p)"

context display_calls
begin

lemma fine_demo_rounds: "demo_rounds V n p = Some q \<Longrightarrow> fine (snd p) \<Longrightarrow> fine (snd q)"
  by (induction n arbitrary: p) (auto split: option.splits dest: fine_demo_tick)

end

text \<open>
  C20. The background task makes proper calls only: after any number of rounds of its loop, and when it ends
  after them.
\<close>

theorem demo_calls_proper:
  assumes "sc_alloc V c = (True, c0)" "demo_rounds V n (demo_start V c0) = Some (d, c')" "list_all event_ok (tk_log c)"
  shows "list_all event_ok (tk_log c')
    \<and> (\<forall>status c''. demo_end V c' = Some (status, c'') \<longrightarrow> list_all event_ok (tk_log c''))"
proof -
  have "list_all event_ok (tk_log c0)" using hardware.fine_sc_alloc[OF assms(3), of V] by (simp add: assms(1))
  then have "list_all event_ok (tk_log c')"
    using hardware.fine_demo_rounds[OF assms(2)] hardware.fine_demo_start by simp
  then show ?thesis using hardware.fine_demo_end by fastforce
qed

lemma demo_calls_proper_witness:
  "\<exists>d c'. demo_rounds board_env 1 (demo_start board_env (snd (sc_alloc board_env task0))) = Some (d, c')
     \<and> list_all event_ok (tk_log c')"
proof -
  obtain d c' where r: "demo_rounds board_env 1 (demo_start board_env (snd (sc_alloc board_env task0))) = Some (d, c')"
  proof -
    have "dm_tick (fst (demo_start V c)) = 0" "dm_next_look (fst (demo_start V c)) = 12" for V c
      by (simp_all add: demo_start_def case_prod_beta Let_def)
    then have "demo_look V (fst (demo_blink V (fst (demo_mouth V (fst (demo_start V c)) e)) f)) g \<noteq> None" for V c e f g
      by (simp add: demo_look_def demo_blink_def demo_mouth_def case_prod_beta Let_def)
    then show thesis using that by (fastforce simp: demo_tick_def case_prod_beta split: option.split)
  qed
  have "sc_alloc board_env task0 = (True, snd (sc_alloc board_env task0))" by (simp add: sc_alloc_def Let_def)
  from demo_calls_proper[OF this r] show ?thesis using r by (auto simp: task0_def)
qed

section \<open>Who draws while the demo runs\<close>

text \<open>The demo task stays alive through every call.\<close>

definition demo_stays :: "sc_env \<Rightarrow> bool" where
  "demo_stays V \<longleftrightarrow> (\<forall>l g. g_demo_pid g \<ge> 0 \<longrightarrow> g_demo_pid (en_others V l g) \<ge> 0)"

definition draws :: "sc_task \<Rightarrow> bool" where
  "draws c \<longleftrightarrow> list_ex is_spi (tk_log c)"

lemma sc_call_draws [simp]: "draws (sc_call V e c) \<longleftrightarrow> is_spi e \<or> draws c"
  by (simp add: draws_def)

definition quiet_task :: "sc_env \<Rightarrow> sc_task \<Rightarrow> bool" where
  "quiet_task V c \<longleftrightarrow> (demo_stays V \<longrightarrow> \<not> draws c \<and> g_demo_pid (tk_globals c) \<ge> 0)"

interpretation quiet: device_calls V "quiet_task V" for V
  by unfold_locales
    (auto simp: quiet_task_def draws_def sc_call_def demo_stays_def set_py32_warned_def on_globals_def)

lemma quiet_say_talk: "say_talk V c = Some c' \<Longrightarrow> demo_stays V \<Longrightarrow> quiet_task V c \<Longrightarrow> quiet_task V c'"
proof -
  assume s: "say_talk V c = Some c'" "demo_stays V" "quiet_task V c"
  then obtain c1 where "say_wait V (on_globals (\<lambda>g. g\<lparr>g_talking := True\<rparr>) c) = Some c1"
    "c' = on_globals (\<lambda>g. g\<lparr>g_talking := False\<rparr>) c1"
    by (auto simp: say_talk_def quiet_task_def)
  then show ?thesis using quiet.fine_say_wait[of V _ c1 V] s(3) by simp
qed

lemma quiet_face: "demo_stays V \<Longrightarrow> quiet_task V c \<Longrightarrow> quiet_task V (snd (cmd_face V argv c))"
proof -
  assume q: "demo_stays V" "quiet_task V c"
  then have pid: "g_demo_pid (tk_globals c) \<ge> 0" by (simp add: quiet_task_def)
  have "quiet_task V (on_globals (\<lambda>g. g\<lparr>g_expr := e, g_redraw := True\<rparr>) c)" for e
    using q by (simp add: quiet_task_def draws_def on_globals_def)
  then show ?thesis using pid q by (simp add: cmd_face_def Let_def quiet.fine_usage)
qed

lemma quiet_main:
  assumes "stackchan_main V argv c = Some (status, c')" "length argv \<ge> 2" "demo_stays V" "argv ! 1 \<noteq> ''blink''" "quiet_task V c"
  shows "quiet_task V c'"
proof -
  have pid: "g_demo_pid (tk_globals c) \<ge> 0" using assms(3,5) by (simp add: quiet_task_def)
  have run: "quiet_task V (on_globals (\<lambda>g. g\<lparr>g_running := b\<rparr>) c)" for b
    using assms(5) by (simp add: quiet_task_def draws_def on_globals_def)
  have cmd: "quiet_task V (snd y)" if "sc_command V argv d = Some y" "quiet_task V d" for d y
    using that assms(3,4)
    by (auto simp: sc_command_def quiet.fine_usage quiet.fine_report quiet.fine_led_set quiet.fine_cmd_py32 quiet_face
        split: if_splits dest!: quiet.fine_say[OF _ _ quiet_say_talk] quiet.fine_cmd_servo)
  show ?thesis
    using assms(1,2,5) pid run quiet.fine_sc_alloc[OF assms(5)]
    by (auto simp: stackchan_main_def case_prod_beta cmd_start_def quiet.fine_sc_free
        split: if_splits dest!: cmd)
qed

interpretation drawn: display_calls V draws for V
  by unfold_locales (simp_all add: draws_def)

lemma face_blink_draws: "draws (face_blink V expr c)"
proof -
  have x: "draws (snd (lcd_xfer V ts n c))" for ts n c by (simp add: lcd_xfer_def Let_def)
  then have "draws (snd (lcd_fill V x y w h color c))" if "0 < w" "0 < h" for x y w h color c
    using that by (simp add: lcd_fill_eq case_prod_beta if_ok_def lcd_cmd_def)
  then have "draws (face_eyes V expr False c)" by (simp add: face_eyes_def face_eye_def Let_def)
  then show ?thesis by (simp add: face_blink_def drawn.fine_face_eyes)
qed

text \<open>
  C35. While the demo runs the other commands leave the display to it, with one exception: \<open>blink\<close> draws
  itself, although two tasks should never draw at once.
\<close>

theorem only_blink_draws_beside_demo:
  assumes "stackchan_main V argv c = Some (status, c')" "demo_stays V" "g_demo_pid (tk_globals c) \<ge> 0"
    and "tk_log c = []" "length argv \<ge> 2" "\<forall>l. en_open V l \<ge> 0" "\<forall>l. en_calloc V l"
  shows "list_ex is_spi (tk_log c') \<longleftrightarrow> argv ! 1 = ''blink''"
proof (cases "argv ! 1 = ''blink''")
  case True
  have "fst (open_spi V d) \<ge> 0" for d using assms(6) by (simp add: open_spi_def open_once_def Let_def case_prod_beta not_less)
  moreover have "fst (sc_alloc V c)" using assms(7) by (simp add: sc_alloc_def Let_def)
  ultimately have "draws c'"
    using assms(1,5) True
    by (auto simp: stackchan_main_def sc_command_def case_prod_beta cmd_blink_def face_blink_draws
        drawn.fine_report drawn.fine_sc_free split: if_splits)
  then show ?thesis using True by (simp add: draws_def)
next
  case False
  have "quiet_task V c" using assms(3,4) by (simp add: quiet_task_def draws_def)
  then have "quiet_task V c'" using quiet_main[OF assms(1,5,2) False] by simp
  then show ?thesis using assms(2) False by (simp add: quiet_task_def draws_def)
qed

text \<open>A running demo, and \<open>blink\<close> and \<open>led\<close> beside it.\<close>

definition task_demo :: sc_task where
  "task_demo = task0\<lparr>tk_globals := sc_globals0\<lparr>g_running := True, g_demo_pid := 12\<rparr>\<rparr>"

lemma only_blink_draws_beside_demo_witness:
  "\<exists>c1 c2. stackchan_main board_env [''stackchan'', ''blink''] task_demo = Some (0, c1) \<and> list_ex is_spi (tk_log c1)
     \<and> stackchan_main board_env [''stackchan'', ''led'', ''0'', ''0'', ''24''] task_demo = Some (0, c2) \<and> \<not> list_ex is_spi (tk_log c2)"
proof -
  define c0 where "c0 = snd (sc_alloc board_env task_demo)"
  have alloc: "sc_alloc board_env task_demo = (True, c0)" by (simp add: c0_def sc_alloc_def Let_def)
  obtain c1 where 1: "stackchan_main board_env [''stackchan'', ''blink''] task_demo = Some (0, c1)"
    by (simp add: stackchan_main_def alloc sc_command_def cmd_blink_def case_prod_beta)
  obtain c2 where 2: "stackchan_main board_env [''stackchan'', ''led'', ''0'', ''0'', ''24''] task_demo = Some (0, c2)"
    by (simp add: stackchan_main_def alloc sc_command_def)
  have "demo_stays board_env" by (simp add: demo_stays_def)
  moreover have "g_demo_pid (tk_globals task_demo) \<ge> 0" "tk_log task_demo = []" by (simp_all add: task_demo_def task0_def)
  ultimately show ?thesis
    using only_blink_draws_beside_demo[OF 1] only_blink_draws_beside_demo[OF 2] 1 2 by simp
qed

end
