(* ===== verification/Stackchan_Liveness.thy ===== *)
theory Stackchan_Liveness
  imports Stackchan_Safety
begin

text \<open>
  When a command of the StackChan program returns. The loops of \<open>servo_xfer\<close> end if the clock advances
  and the serial line falls silent after each packet; the loops of \<open>say\<close> end with the stream; the
  background task ends after it has been told to stop. A line that never falls silent hangs a command,
  and a task that ends too early is taken for a running one.
\<close>

section \<open>What the environment has to do\<close>

definition clock_ns :: "sc_env \<Rightarrow> sc_event list \<Rightarrow> int" where
  "clock_ns V l = int (tv_sec (en_clock V l)) * 1000000000 + int (tv_nsec (en_clock V l))"

definition clock_advances :: "sc_env \<Rightarrow> bool" where
  "clock_advances V \<longleftrightarrow> (\<forall>l e. clock_ns V l \<le> clock_ns V (e # l)) \<and> (\<forall>l. clock_ns V l < clock_ns V (Ev_clock # l))"

text \<open>The reads since the last packet was written, and the looks at the player since it was started.\<close>

fun reads_since :: "sc_event list \<Rightarrow> nat" where
  "reads_since [] = 0"
| "reads_since (Ev_write fd b # l) = 0"
| "reads_since (Ev_read fd n # l) = Suc (reads_since l)"
| "reads_since (e # l) = reads_since l"

fun looks_since :: "sc_event list \<Rightarrow> nat" where
  "looks_since [] = 0"
| "looks_since (Ev_player_play s # l) = 0"
| "looks_since (Ev_player_state # l) = Suc (looks_since l)"
| "looks_since (e # l) = looks_since l"

definition line_quiets :: "nat \<Rightarrow> sc_env \<Rightarrow> bool" where
  "line_quiets n V \<longleftrightarrow> (\<forall>l. n \<le> reads_since l \<longrightarrow> fst (en_read V l) \<le> 0)"

definition player_ends :: "nat \<Rightarrow> sc_env \<Rightarrow> bool" where
  "player_ends n V \<longleftrightarrow> (\<forall>l. n \<le> looks_since l \<longrightarrow> en_player_state V l = 0)"

section \<open>The servos\<close>

lemma servo_drain_returns:
  assumes "line_quiets n V"
  shows "\<exists>c'. servo_drain V c = Some c'"
proof (induction "n - reads_since (tk_log c)" arbitrary: c rule: less_induct)
  case less
  define c1 where "c1 = snd (snd (sc_read V 16 c))"
  have log: "tk_log c1 = Ev_read (sc_servo c) 16 # tk_log c"
    by (simp add: c1_def sc_read_def Let_def case_prod_beta)
  show ?case
  proof (cases "fst (sc_read V 16 c) > 0")
    case True
    then have "fst (en_read V (tk_log c1)) > 0"
      by (auto simp: log sc_read_def Let_def case_prod_beta)
    then have "\<not> n \<le> reads_since (tk_log c1)" using assms by (force simp: line_quiets_def)
    then have "\<exists>c'. servo_drain V c1 = Some c'" by (intro less) (simp add: log)
    then show ?thesis
      using True by (subst servo_drain.simps) (simp add: case_prod_beta c1_def)
  next
    case False
    then show ?thesis by (subst servo_drain.simps) (simp add: case_prod_beta)
  qed
qed

lemma elapsed_ms_ge:
  "clock_ns V l - clock_ns V l0 \<ge> 25000000 \<Longrightarrow> elapsed_ms (en_clock V l0) (en_clock V l) \<ge> SERVO_REPLY_MS"
proof -
  assume a: "clock_ns V l - clock_ns V l0 \<ge> 25000000"
  define s where "s = int (tv_sec (en_clock V l)) - int (tv_sec (en_clock V l0))"
  define d where "d = int (tv_nsec (en_clock V l)) - int (tv_nsec (en_clock V l0))"
  have "d div 1000000 \<le> d sdiv 1000000"
  proof (cases "d \<ge> 0")
    case True
    then show ?thesis by (cases "d = 0") (simp_all add: signed_divide_int_def)
  next
    case False
    then show ?thesis by (simp add: signed_divide_int_def)
  qed
  moreover have "s * 1000000000 + d \<ge> 25000000"
    using a by (simp add: clock_ns_def s_def d_def algebra_simps)
  ultimately show ?thesis
    unfolding elapsed_ms_def SERVO_REPLY_MS_def s_def[symmetric] d_def[symmetric] by linarith
qed

lemma servo_collect_returns:
  assumes "clock_advances V"
  shows "servo_collect V (en_clock V l0) want rx c \<noteq> None"
proof (induction "nat (clock_ns V l0 + 25000000 - clock_ns V (tk_log c))" arbitrary: c rx rule: less_induct)
  case less
  have mono: "clock_ns V l \<le> clock_ns V (e # l)" for e l using assms by (simp add: clock_advances_def)
  define c1 where "c1 = snd (sc_clock V c)"
  have log1: "tk_log c1 = Ev_clock # tk_log c" by (simp add: c1_def sc_clock_def Let_def)
  have now: "fst (sc_clock V c) = en_clock V (Ev_clock # tk_log c)" by (simp add: sc_clock_def Let_def)
  define ms where "ms = elapsed_ms (en_clock V l0) (en_clock V (Ev_clock # tk_log c))"
  define c2 where "c2 = sc_call V (Ev_poll (sc_servo c1) (SERVO_REPLY_MS - ms)) c1"
  define c3 where "c3 = snd (snd (sc_read V (want - length rx) c2))"
  show ?case
  proof (cases "length rx < want \<and> ms < SERVO_REPLY_MS")
    case True
    then have "clock_ns V (Ev_clock # tk_log c) - clock_ns V l0 < 25000000"
      using elapsed_ms_ge[of V "Ev_clock # tk_log c" l0] unfolding ms_def by linarith
    moreover have "clock_ns V (tk_log c) < clock_ns V (Ev_clock # tk_log c)" using assms by (simp add: clock_advances_def)
    moreover have "clock_ns V (Ev_clock # tk_log c) \<le> clock_ns V (tk_log c2)"
      "clock_ns V (tk_log c2) \<le> clock_ns V (tk_log c3)"
      using mono by (simp_all add: c2_def c3_def log1 sc_read_def Let_def case_prod_beta)
    ultimately have "servo_collect V (en_clock V l0) want rx' c2 \<noteq> None"
      "servo_collect V (en_clock V l0) want rx' c3 \<noteq> None" for rx'
      by (intro less; simp)+
    then show ?thesis
      using True by (subst servo_collect.simps)
        (simp add: case_prod_beta now Let_def c1_def[symmetric] ms_def[symmetric] c2_def[symmetric] c3_def[symmetric]
          del: not_None_eq)
  next
    case False
    then show ?thesis by (subst servo_collect.simps) (auto simp: case_prod_beta now ms_def)
  qed
qed

lemma servo_xfer_returns:
  assumes "clock_advances V" "line_quiets n V"
  shows "servo_xfer V sid inst args nparams c \<noteq> None"
proof -
  have "servo_drain V c \<noteq> None" for c using servo_drain_returns[OF assms(2)] by auto
  moreover have "servo_collect V (fst (sc_clock V c)) want rx e \<noteq> None" for want rx e c
    using servo_collect_returns[OF assms(1)] by (simp add: sc_clock_def Let_def del: not_None_eq)
  ultimately show ?thesis
    by (simp add: servo_xfer_def case_prod_beta Let_def del: not_None_eq split: option.split)
qed

lemma servo_calls_return:
  assumes "clock_advances V" "line_quiets n V"
  shows "servo_ping V sid c \<noteq> None" "servo_pos V sid c \<noteq> None" "servo_torque V sid on c \<noteq> None"
    "servo_goto V sid pos ms c \<noteq> None"
  using servo_xfer_returns[OF assms] by (simp_all add: servo_ping_def servo_pos_def servo_torque_def servo_goto_def Let_def)

lemma cmd_servo_returns:
  assumes "clock_advances V" "line_quiets n V"
  shows "cmd_servo V argv c \<noteq> None"
  unfolding cmd_servo_def servo_ping_line_def servo_pos_line_def Let_def case_prod_beta
  using servo_calls_return[OF assms] by (simp del: not_None_eq split: option.split)

section \<open>Speaking\<close>

lemma say_wait_returns:
  assumes "player_ends n V"
  shows "say_wait V c \<noteq> None"
proof (induction "n - looks_since (tk_log c)" arbitrary: c rule: less_induct)
  case less
  show ?case
  proof (cases "en_player_state V (Ev_player_state # tk_log c) = 0")
    case True
    then show ?thesis by (subst say_wait.simps) (simp add: player_state_def Let_def)
  next
    case False
    then have "\<not> n \<le> looks_since (Ev_player_state # tk_log c)" using assms unfolding player_ends_def by blast
    then have "say_wait V (sc_usleep V 100000 (sc_call V Ev_player_state c)) \<noteq> None" by (intro less) simp
    then show ?thesis using False by (subst say_wait.simps) (simp add: player_state_def Let_def)
  qed
qed

interpretation looks: screen_calls V "\<lambda>c. k \<le> looks_since (tk_log c)" for V k
  by unfold_locales simp_all

lemma say_move_returns:
  assumes "player_ends n V"
  shows "say_move V opened c \<noteq> None"
proof (induction "n - looks_since (tk_log c)" arbitrary: c opened rule: less_induct)
  case less
  define c1 where "c1 = sc_call V Ev_player_state c"
  define c2 where "c2 = sc_usleep V 150000 (face_mouth V (if \<not> opened then EXPR_SURPRISED else g_expr_now c1) c1)"
  show ?case
  proof (cases "en_player_state V (tk_log c1) = 0")
    case True
    then show ?thesis by (subst say_move.simps) (simp add: player_state_def Let_def c1_def)
  next
    case False
    then have "\<not> n \<le> looks_since (tk_log c1)" using assms unfolding player_ends_def by blast
    moreover have "looks_since (tk_log c1) \<le> looks_since (tk_log c2)"
      unfolding c2_def using looks.fine_face_mouth[of "looks_since (tk_log c1)" c1 V] by simp
    ultimately have "say_move V (\<not> opened) c2 \<noteq> None" by (intro less) (simp add: c1_def)
    then show ?thesis
      using False by (subst say_move.simps) (cases opened; simp add: player_state_def Let_def c1_def c2_def)
  qed
qed

lemma say_returns:
  assumes "player_ends n V"
  shows "say V src rate c \<noteq> None"
proof -
  have "say_talk V c \<noteq> None" for c
    using say_wait_returns[OF assms] say_move_returns[OF assms] by (simp add: say_talk_def case_prod_beta)
  then show ?thesis by (simp add: say_def Let_def case_prod_beta)
qed

text \<open>
  C22. Every command returns, if the clock advances, the serial line falls silent after each packet and the stream
  ends: a missing servo is an error and not a hung shell.
\<close>

theorem stackchan_main_returns:
  assumes "clock_advances V" "line_quiets n V" "en_nxplayer V \<longrightarrow> player_ends m V"
  shows "\<exists>status c'. stackchan_main V argv c = Some (status, c')"
proof -
  have "sc_command V argv c \<noteq> None" for c
    using cmd_servo_returns[OF assms(1,2)] say_returns assms(3) by (auto simp: sc_command_def)
  then have "stackchan_main V argv c \<noteq> None" by (simp add: stackchan_main_def case_prod_beta)
  then show ?thesis by auto
qed

lemma board_clock: "clock_advances board_env"
  by (simp add: clock_advances_def clock_ns_def)

lemma stackchan_main_returns_witness:
  "\<exists>status c'. stackchan_main board_env [''stackchan'', ''servo'', ''ping''] task0 = Some (status, c')"
proof -
  have "line_quiets 0 board_env" "player_ends 0 board_env" by (simp_all add: line_quiets_def player_ends_def)
  then show ?thesis using stackchan_main_returns[OF board_clock] by blast
qed

section \<open>The background task\<close>

text \<open>After \<open>n\<close> calls of the task, and ever after, it finds that it has been stopped.\<close>

definition stopped_after :: "nat \<Rightarrow> sc_env \<Rightarrow> bool" where
  "stopped_after n V \<longleftrightarrow> (\<forall>l g. n \<le> length l \<longrightarrow> \<not> g_running (en_others V l g))"

interpretation longer: display_calls V "\<lambda>c. k \<le> length (tk_log c)" for V k
  by unfold_locales simp_all

lemma demo_look_returns:
  assumes "clock_advances V" "line_quiets n V"
  shows "demo_look V d c \<noteq> None"
  unfolding demo_look_def Let_def case_prod_beta
  using servo_calls_return(4)[OF assms] by (simp del: not_None_eq split: option.split)

lemma demo_tick_returns:
  assumes "clock_advances V" "line_quiets n V"
  obtains d' c1 where "demo_tick V d c = Some (d', sc_usleep V 100000 c1)" "length (tk_log c) \<le> length (tk_log c1)"
proof -
  define m where "m = demo_mouth V d c"
  define b where "b = demo_blink V (fst m) (demo_redraw V (snd m))"
  obtain d' c1 where look: "demo_look V (fst b) (snd b) = Some (d', c1)"
    using demo_look_returns[OF assms, of "fst b" "snd b"] by auto
  have "length (tk_log c) \<le> length (tk_log (snd b))"
    unfolding b_def m_def by (intro longer.fine_demo_blink longer.fine_demo_redraw longer.fine_demo_mouth order_refl)
  then have "length (tk_log c) \<le> length (tk_log c1)" using longer.fine_demo_look[OF look] by simp
  moreover have "demo_tick V d c = Some (d'\<lparr>dm_tick := dm_tick d' + 1\<rparr>, sc_usleep V 100000 c1)"
    using look by (simp add: demo_tick_def case_prod_beta m_def b_def)
  ultimately show thesis using that by blast
qed

lemma demo_loop_returns:
  assumes "clock_advances V" "line_quiets n V" "stopped_after k V"
  shows "demo_loop V d c \<noteq> None"
proof (induction "Suc k - length (tk_log c)" arbitrary: d c rule: less_induct)
  case less
  obtain d' c1 where t: "demo_tick V d c = Some (d', sc_usleep V 100000 c1)" "length (tk_log c) \<le> length (tk_log c1)"
    using demo_tick_returns[OF assms(1,2)] by blast
  define c2 where "c2 = sc_usleep V 100000 c1"
  have len: "length (tk_log c2) = Suc (length (tk_log c1))" by (simp add: c2_def)
  have "demo_loop V d' c2 \<noteq> None"
  proof (cases "length (tk_log c) \<le> k")
    case True
    then show ?thesis using t(2) len by (intro less) simp
  next
    case False
    then have "\<not> g_running (tk_globals c2)"
      using assms(3) t(2) by (simp add: stopped_after_def c2_def sc_call_def)
    then show ?thesis by (subst demo_loop.simps) simp
  qed
  then show ?case by (subst demo_loop.simps) (simp add: t(1) c2_def)
qed

lemma demo_end_returns:
  assumes "clock_advances V" "line_quiets n V"
  shows "\<exists>c'. demo_end V c = Some (0, c') \<and> g_demo_pid (tk_globals c') = -1"
proof -
  have "demo_end V c \<noteq> None"
    using servo_calls_return(3,4)[OF assms] by (simp add: demo_end_def del: not_None_eq split: option.split)
  then show ?thesis by (auto simp: demo_end_def on_globals_def split: option.splits)
qed

text \<open>The background task ends, and then counts as ended.\<close>

lemma demo_task_stops:
  assumes "clock_advances V" "line_quiets n V" "stopped_after k V"
  shows "\<exists>status c'. demo_task V c = Some (status, c') \<and> g_demo_pid (tk_globals c') = -1"
proof (cases "fst (sc_alloc V c)")
  case True
  obtain c1 where "demo_loop V (fst (demo_start V (snd (sc_alloc V c)))) (snd (demo_start V (snd (sc_alloc V c)))) = Some c1"
    using demo_loop_returns[OF assms] by fastforce
  then show ?thesis using True demo_end_returns[OF assms(1,2), of c1] by (auto simp: demo_task_def case_prod_beta)
next
  case False
  then show ?thesis by (simp add: demo_task_def case_prod_beta on_globals_def)
qed

section \<open>What goes wrong\<close>

lemma servo_drain_hangs: "servo_drain V c = Some c' \<Longrightarrow> \<exists>l. fst (en_read V l) \<le> 0"
proof (induction rule: servo_drain.raw_induct [rotated, consumes 1, case_names step])
  case (step f V c c')
  then show ?case
    by (cases "fst (en_read V (Ev_read (sc_servo c) 16 # tk_log c)) > 0")
      (auto simp: sc_read_def Let_def case_prod_beta not_less)
qed

text \<open>On a line that never falls silent \<open>servo ping\<close> does not return: the loop that drops old input has no deadline.\<close>

lemma servo_ping_hangs:
  assumes "\<forall>l. fst (en_read V l) > 0" "\<forall>l. en_open V l \<ge> 0" "\<forall>l. en_calloc V l"
  shows "stackchan_main V [name, ''servo'', ''ping''] c = None"
proof -
  have "servo_drain V c = None" for c using servo_drain_hangs[of V c] assms(1) by (metis not_less option.exhaust)
  moreover have "fst (servo_open V c) \<ge> 0" for c
    using assms(2)[rule_format, THEN leD] by (simp add: servo_open_def open_once_def Let_def)
  ultimately have "servo_xfer V sid 1 [] 0 c = None" for sid c
    by (simp add: servo_xfer_def case_prod_beta not_less)
  then show ?thesis
    using assms(3) by (simp add: stackchan_main_def sc_command_def cmd_servo_def servo_ping_line_def servo_ping_def
        sc_alloc_def Let_def)
qed

text \<open>
  The demo task may run before \<open>task_create\<close> has returned in its parent. If it fails at once, it resets
  \<open>g_demo_pid\<close>, and the parent then stores the number of a task that no longer exists: every later \<open>start\<close>
  reports a running demo and starts none.
\<close>

lemma start_keeps_dead_pid:
  assumes "g_demo_pid (tk_globals c) < 0" "en_task_create V (Ev_task_create # tk_log c) = pid" "pid \<ge> 0"
    and "tk_globals child = (tk_globals c)\<lparr>g_running := True\<rparr>" "demo_task W child = Some (1, child')"
    and "\<forall>l g. en_others V l g = (if l = Ev_task_create # tk_log c then tk_globals child' else g)"
    and "cmd_start V c = (status, c')"
  shows "status = 0" "g_demo_pid (tk_globals child') = -1" "g_demo_pid (tk_globals c') = pid"
    "tk_globals c'' = tk_globals c' \<Longrightarrow>
       cmd_start V c'' = (0, sc_printf V (println (''already running (pid '' @ show_int pid @ '')'')) c'')"
proof -
  show "status = 0" using assms by (auto simp: cmd_start_def Let_def on_globals_def)
  show "g_demo_pid (tk_globals child') = -1"
    using assms(5) by (auto simp: demo_task_def case_prod_beta on_globals_def demo_end_def split: if_splits option.splits)
  show pid: "g_demo_pid (tk_globals c') = pid"
    using assms(1-3,6,7) by (auto simp: cmd_start_def Let_def on_globals_def sc_call_def)
  show "tk_globals c'' = tk_globals c' \<Longrightarrow>
       cmd_start V c'' = (0, sc_printf V (println (''already running (pid '' @ show_int pid @ '')'')) c'')"
    using pid assms(3) by (simp add: cmd_start_def)
qed

end
