(* ===== verification/Spec2Isabelle.thy ===== *)
theory Spec2Isabelle
  imports Base64 Aead_Spec Routing Receive Send Cookie Shutdown Retry Tunnel_Up Task_Safety Sizes Reload Cli X25519_Ladder Stackchan_Liveness
begin

text \<open>
  A verification library for the WireGuard port in \<open>src/nuttx_port/apps/netutils/wireguard\<close>: the
  protocol core \<open>wireguard.c\<close> with its cryptography under \<open>crypto/\<close>, the platform layer
  \<open>nuttx-platform.c\<close>, the network device \<open>wg0\<close> with its configuration in
  \<open>nuttx-wireguardif.c\<close>, and the command line tool \<open>wg_main.c\<close>; and for the StackChan robot
  application in \<open>src/demo/stackchan/stackchan_main.c\<close>. Paths without \<open>src/\<close> are relative to the first directory.

  \<^bold>\<open>How the parts work together.\<close> The receive task turns UDP datagrams and the passing of time into
  calls of the protocol core. The core works on one \<open>wireguard_device\<close>, a table of peers with three
  key pairs and a handshake each; it draws randomness and the time from the platform layer and uses
  the hash, the cipher and the authenticator of \<open>crypto/\<close>. The device side routes outgoing packets
  to peers, sends datagrams and hands decrypted packets to the IP stack. The configuration side
  stages keys and peers while the interface is down and builds the device from them; the command
  line tool calls it.

  \<^bold>\<open>State and effects.\<close> Structs are records with the fields of the C structs, passed and returned
  explicitly; integers have their C width (\<open>8/16/32/64 word\<close>, so that arithmetic wraps), byte arrays are
  lists. The operating system is the record \<open>os\<close> of \<open>Platform\<close>: the clock, what reads of
  \<open>/dev/urandom\<close> return, which sends fail, and the lists of datagrams sent and of packets given to the
  stack. A handler that may search for a receiver index without end returns an option, \<open>None\<close> for not
  returning. X25519 is a parameter of type \<open>dh\<close>, as the core reaches it through \<open>crypto.h\<close>; its instance
  for this build is \<open>wireguard_x25519\<close> of \<open>X25519_Ladder\<close>. Handlers run under the network lock, so each is one step.

  \<^bold>\<open>Theories.\<close>
  \<^item> \<open>Prelude\<close>, \<open>Crypto_Util\<close>, \<open>Text\<close>: bytes, searches in lists, loads and stores (\<open>crypto.h\<close>,
    \<open>crypto.c\<close>); C strings, numbers and IPv4 addresses as text.
  \<^item> \<open>Platform\<close> (\<open>nuttx-platform.c\<close>): clock, TAI64N time stamps (ordered as \<open>memcmp\<close> orders them), entropy.
  \<^item> \<open>Blake2s\<close>, \<open>Chacha20\<close>, \<open>Poly1305\<close>, \<open>Aead\<close> (\<open>crypto/refc\<close>): the streaming hash against the blockwise
    definition, the cipher as a key stream, authenticated decryption as the inverse of encryption.
  \<^item> \<open>Limbs\<close>: the numbers that bytes and 32-bit limbs stand for. \<open>Poly1305_Block\<close>, \<open>Poly1305_Mac\<close>: the
    limb arithmetic of the authenticator against integers modulo \<open>2^130 - 5\<close>, for every way to cut
    the message into pieces; \<open>Aead_Spec\<close>: the construction of RFC 8439. \<open>X25519\<close>, \<open>X25519_Field\<close>,
    \<open>X25519_Ladder\<close> (\<open>crypto/refc/x25519.c\<close>): the code, its field operations modulo \<open>2^255 - 19\<close>, and
    the proof that it computes the Montgomery ladder.
  \<^item> \<open>Base64\<close> (\<open>wireguard.c\<close>): the codec, its round trip and where it writes.
  \<^item> \<open>Wg_Types\<close>, \<open>Messages\<close> (\<open>wireguard.h\<close>): the structs, the wire layout of the messages.
  \<^item> \<open>Replay\<close>, \<open>Keypairs\<close>, \<open>Peers\<close>, \<open>Noise\<close>, \<open>Handshake\<close>, \<open>Cookie\<close> (\<open>wireguard.c\<close>): the replay window as a
    refinement of a set of counters; key pair rotation and index generation; searches; the key
    schedule as HKDF; both handshake messages; MACs and cookies. \<open>Agreement\<close> proves that a delivered
    handshake gives both sides the same keys.
  \<^item> \<open>Netdev\<close>, \<open>Lifecycle\<close> (\<open>nuttx-wireguardif.c\<close>): the handlers for packets, timers and the interface
    state. \<open>Routing\<close>, \<open>Send\<close>, \<open>Receive\<close>, \<open>Admission\<close>, \<open>Retry\<close>, \<open>Shutdown\<close> prove what each promises.
  \<^item> \<open>Tunnel\<close>, \<open>Tunnel_Setup\<close>, \<open>Tunnel_Up\<close>: two interfaces together. From the first datagram of a handshake
    they reach matching sessions in both directions, and a packet sent on a matching session comes out
    of the other side unchanged.
  \<^item> \<open>Tasks\<close>, \<open>Task_Frames\<close>, \<open>Task_Safety\<close> (\<open>wg_rx_task\<close>, \<open>wg_poll_cb\<close>, \<open>wg_txavail\<close>, \<open>wg_down\<close>):
    the tasks as a step relation over the handlers; what holds in every interleaving from boot on, that
    between handshakes no session rewinds in any interleaving (no nonce twice, no counter accepted again), that
    undisturbed runs are \<open>wg_rx_turn\<close> and \<open>wg_down\<close>, and two races.
  \<^item> \<open>Frames\<close>, \<open>System\<close>, \<open>Sessions\<close>: what every handler leaves alone, as a locale over relations between the
    peers before and after a step, extended by one for the handlers that start a session; the step relation of the
    whole device, its invariants, and the theorem that no initiation is accepted twice in any run; and what
    every handler keeps of a session.
  \<^item> \<open>Config\<close>, \<open>Conf_File\<close> (\<open>nuttx-wireguardif.c\<close>): keys, staging, \<open>wg up\<close> and \<open>wg down\<close>, configuration
    files. \<open>Staging\<close>, \<open>Startup\<close>, \<open>Reload\<close> prove that staging is all or nothing, what bringing the
    interface up does, that a generated key is the key used, and that saving and loading a
    configuration changes nothing; \<open>Sizes\<close> has the lengths of the lists that stand for arrays.
  \<^item> \<open>Cli\<close> (\<open>wg_main.c\<close>, \<open>wg_show\<close>): the subcommands; the status and the output of each follow the call
    it makes, and each changes only its part of the state.

  \<^bold>\<open>The robot application\<close> (\<open>stackchan_main.c\<close>). It owns a display, two servos, a voice amplifier and
  a strip of lights, and talks to other programs through the shell and a pid file. Everything it reads (I2C
  answers, servo bytes, the clock, names in the file system, the answers of the shell) is a field of the
  environment \<open>sc_env\<close>, every call it makes of a driver or of the system is an event, and an operation
  is a function from environment and state to result, state and the events it added.
  \<^item> \<open>Board\<close>: events and environment, I2C transfers, the PY32 expander, lights and amplifier. \<open>Display\<close>:
    the panel driver and the face. \<open>Servo\<close>: packets and the head. \<open>Stackchan\<close>: speech, the demo task,
    the subcommands and \<open>main\<close>.
  \<^item> \<open>Display_Spec\<close>, \<open>Face_Spec\<close>: what the bytes sent to the panel paint, and that a face drawn over any
    other face shows the same picture (the sad mouth excepted, which is why it is a finding).
  \<^item> \<open>Board_Safety\<close>, \<open>Stackchan_Safety\<close>: locales over the events of the driver calls, interpreted three
    times: every call is proper (buffers and lengths, bus speed, windows on the screen, servo limits), who may draw, and what is
    drawn. \<open>Stackchan_Liveness\<close>: which commands return, on which environments the others do.

  \<^bold>\<open>Bounds.\<close> \<open>function\<close> definitions carry their termination proofs; the loops that may not end are
  \<open>partial_function\<close>s: the search for an unused index, for which \<open>unique_index_first_acceptable\<close> says
  exactly when it returns, and in the robot application draining and collecting servo bytes, the wait
  for the voice, and the loop of the demo task, for which \<open>Stackchan_Liveness\<close> says when they return.
  Retry loops with a constant bound in the code (5 transfers, 10 polls of the expander) recurse on that
  bound. Table sizes are fields of \<open>kconfig\<close>, with the window size a parameter.

  \<^bold>\<open>Not modelled.\<close> The inside of psock polling, semaphores, the work queue and task creation, which are
  not in the repository (\<open>Tasks\<close> has what the code relies on; the kernel calls of \<open>wg_initialize\<close> appear
  through their results, and the new task starts when it has returned); administrative commands that
  overlap each other; the messages the
  device itself logs; the contents of memory after a buffer was cleared, except for fields of the
  structs; what an earlier packet left in \<open>plainbuf\<close> behind a packet of the stack shorter than its IPv4 header (zeroes
  in the model); numbers beyond the range of \<open>int\<close> or \<open>long\<close> where the code calls \<open>atoi\<close> or subtracts clock readings; the big-endian stores of \<open>crypto.h\<close>, which have no caller; the signatures of
  \<open>x25519.c\<close>, which the build leaves out; 16-, 32- and 64-bit variants of
  Poly1305 other than the 32-bit one the build uses; what the robot's hardware does with a call, other
  than the panel's drawing; and the host-side test programs, which only call this code.
\<close>

end
